(* ===== verification/Prelude.thy ===== *)
theory Prelude
  imports Main "HOL-Library.Word" "HOL-Library.Sublist"
begin

text \<open>
  What the component theories share: the fact collections of the development, Go's 64-bit
  integer arithmetic, the functions of Go's \<open>strings\<close> package the sources call, and lemmas on
  finite maps.

  Go's \<open>int\<close> and \<open>int64\<close> are signed 64-bit integers. A value is an \<open>int\<close>; \<open>i64\<close> is
  the value a result wraps to, and it is written wherever the sources compute something that
  can leave the range. \<open>i64_word\<close> ties it to the word type of the library.

  Go strings are byte sequences and so are \<open>string\<close>s here.
\<close>

named_theorems inv_intros \<open>preservation of the component invariants\<close>

section \<open>Signed 64-bit integers\<close>

type_synonym int64 = int

definition i64 :: "int \<Rightarrow> int64" where
  "i64 x = signed_take_bit 63 x"

definition fits64 :: "int \<Rightarrow> bool" where
  "fits64 x \<longleftrightarrow> - (2 ^ 63) \<le> x \<and> x < 2 ^ 63"

lemma i64_word: "i64 x = sint (word_of_int x :: 64 word)"
  by (simp add: i64_def sint_sbintrunc')

lemma i64_id: "fits64 x \<Longrightarrow> i64 x = x"
  by (simp add: i64_def fits64_def signed_take_bit_int_eq_self)

lemma i64_fits: "fits64 (i64 x)"
  using signed_take_bit_int_greater_eq_minus_exp [of 63 x] signed_take_bit_int_less_exp [of 63 x]
  by (simp add: i64_def fits64_def)

lemma i64_shift_out:
  assumes "64 \<le> n"
  shows "i64 (2 ^ n) = 0"
proof -
  have "(word_of_int (2 ^ n) :: 64 word) = 0"
    using assms by (simp add: exp_eq_zero_iff)
  then show ?thesis by (simp only: i64_word sint_0)
qed

lemma i64_idem: "i64 (i64 x) = i64 x"
  by (rule i64_id [OF i64_fits])

lemma i64_add: "i64 (i64 x + y) = i64 (x + y)"
  by (simp add: i64_word)

section \<open>Finite maps and their sums\<close>

definition sum_map :: "('k \<rightharpoonup> int) \<Rightarrow> int" where
  "sum_map m = (\<Sum>k\<in>dom m. the (m k))"

lemma sum_map_empty [simp]: "sum_map Map.empty = 0"
  by (simp add: sum_map_def)

lemma sum_map_delete:
  assumes "finite (dom m)"
  shows "sum_map (m(k := None)) = sum_map m - (case m k of None \<Rightarrow> 0 | Some v \<Rightarrow> v)"
proof (cases "m k")
  case None
  then have "m(k := None) = m" by (simp add: fun_upd_idem)
  with None show ?thesis by simp
next
  case (Some v)
  have "sum_map (m(k := None)) = (\<Sum>j\<in>dom m - {k}. the (m j))"
    by (auto simp: sum_map_def intro!: sum.cong)
  also have "\<dots> = sum_map m - v"
    using assms Some by (simp add: sum_map_def sum_diff1 domI)
  finally show ?thesis using Some by simp
qed

lemma sum_map_update:
  assumes "finite (dom m)" and "m k = None"
  shows "sum_map (m(k \<mapsto> v)) = sum_map m + v"
proof -
  have k: "k \<notin> dom m" using assms(2) by auto
  have "sum_map (m(k \<mapsto> v)) = v + (\<Sum>j\<in>dom m. the ((m(k \<mapsto> v)) j))"
    using assms(1) k by (simp add: sum_map_def)
  also have "(\<Sum>j\<in>dom m. the ((m(k \<mapsto> v)) j)) = (\<Sum>j\<in>dom m. the (m j))"
    using k by (intro sum.cong) auto
  finally show ?thesis by (simp only: sum_map_def add.commute)
qed

text \<open>A stable sort keeps the order of an earlier one among equal keys, which is \<open>ORDER BY\<close> with two
  columns.\<close>

lemma sorted_wrt_insort_key:
  assumes "sorted_wrt (\<lambda>a b. f a < f b \<or> (f a = f b \<and> Q a b)) zs" and "\<forall>a \<in> set zs. Q y a"
  shows "sorted_wrt (\<lambda>a b. f a < f b \<or> (f a = f b \<and> Q a b)) (insort_key f y zs)"
  using assms
  by (induction zs) (auto simp: set_insort_key)

lemma sorted_wrt_sort_key:
  fixes f :: "'a \<Rightarrow> 'b::linorder"
  assumes "sorted_wrt Q ys"
  shows "sorted_wrt (\<lambda>a b. f a < f b \<or> (f a = f b \<and> Q a b)) (sort_key f ys)"
  using assms by (induction ys) (auto intro: sorted_wrt_insort_key)

lemma sorted_wrt_take_drop:
  assumes "sorted_wrt R xs" and "a \<in> set (take n xs)" and "b \<in> set (drop n xs)"
  shows "R a b"
  using assms sorted_wrt_append [of R "take n xs" "drop n xs"] by simp

text \<open>Counting in an updated list.\<close>

lemma count_update:
  "i < length cs \<Longrightarrow> int (length (filter P (cs[i := x]))) =
    int (length (filter P cs)) - (if P (cs ! i) then 1 else 0) + (if P x then 1 else 0)"
proof (induction cs arbitrary: i)
  case (Cons c cs)
  show ?case
  proof (cases i)
    case (Suc j)
    then show ?thesis using Cons.IH [of j] Cons.prems by (cases "P (cs ! j)"; cases "P x"; simp)
  qed simp
qed simp

section \<open>Sequences of calls\<close>

text \<open>
  A component with a state and calls on it. The calls that are allowed keep the invariant, so a
  sequence of them does; if moreover each call lets the state evolve only in certain ways, and
  this relation is a preorder, so does the sequence.
\<close>

locale call_system =
  fixes step :: "'c \<Rightarrow> 's \<Rightarrow> 's" and inv :: "'s \<Rightarrow> bool" and allowed :: "'c \<Rightarrow> bool"
  assumes inv_step: "inv s \<Longrightarrow> allowed c \<Longrightarrow> inv (step c s)"
begin

lemma inv_fold: "inv s \<Longrightarrow> list_all allowed cs \<Longrightarrow> inv (fold step cs s)"
  by (induction cs arbitrary: s) (simp_all add: inv_step)

end

locale evolving_system = call_system +
  fixes evolves :: "'s \<Rightarrow> 's \<Rightarrow> bool"
  assumes evolves_refl: "evolves s s"
    and evolves_trans: "evolves s t \<Longrightarrow> evolves t u \<Longrightarrow> evolves s u"
    and evolves_step: "inv s \<Longrightarrow> allowed c \<Longrightarrow> evolves s (step c s)"
begin

lemma evolves_fold: "inv s \<Longrightarrow> list_all allowed cs \<Longrightarrow> evolves s (fold step cs s)"
proof (induction cs arbitrary: s)
  case (Cons c cs)
  then have "evolves s (step c s)" "evolves (step c s) (fold step cs (step c s))"
    by (simp_all add: evolves_step inv_step)
  then show ?case by (simp add: evolves_trans)
qed (simp add: evolves_refl)

end

end
