(* ===== verification/Ssd_Admission.thy ===== *)
theory Ssd_Admission
  imports Prelude
begin

text \<open>
  Admission of downloads against the free space of the SSD (\<open>internal/fscommit/admission.go\<close> and
  \<open>disk_space_linux.go\<close>). \<open>statfs\<close>, what the kernel reports for a path, is an argument; sizes are
  unsigned 64-bit words where the code has \<open>uint64\<close>, and the conversion \<open>int64(free)\<close> reads the word
  as signed. A \<open>nil\<close> receiver is \<open>None\<close>.

  The closure that \<open>Reserve\<close> returns is a value with the task it was made for and its \<open>sync.Once\<close> flag.
\<close>

section \<open>State and operations\<close>

type_synonym uint64 = "64 word"

text \<open>Free blocks, block size and number of blocks, as \<open>unix.Statfs\<close> fills them in.\<close>

type_synonym statfs = "string \<Rightarrow> (uint64 \<times> uint64 \<times> uint64) option"

definition getDiskSpace :: "statfs \<Rightarrow> string \<Rightarrow> (uint64 \<times> uint64) option" where
  "getDiskSpace st path = (case st path of
     None \<Rightarrow> None
   | Some (bavail, bsize, blocks) \<Rightarrow> Some (bavail * bsize, blocks * bsize))"

definition DefaultMinFreeSpace :: uint64 where
  "DefaultMinFreeSpace = 5 * 1024 * 1024 * 1024"

record SSDAdmission =
  rootPath :: string
  minFreeSpace :: uint64
  reservations :: "string \<rightharpoonup> int64"
  totalReserved :: int64

definition NewSSDAdmission :: "string \<Rightarrow> uint64 \<Rightarrow> SSDAdmission" where
  "NewSSDAdmission root minFree = \<lparr>rootPath = root,
     minFreeSpace = (if minFree = 0 then DefaultMinFreeSpace else minFree),
     reservations = Map.empty, totalReserved = 0\<rparr>"

datatype adm_error = ErrStatfs | ErrInsufficientSSDSpace

definition avail :: "uint64 \<Rightarrow> SSDAdmission \<Rightarrow> int64" where
  "avail free a = i64 (i64 (sint free - sint (minFreeSpace a)) - totalReserved a)"

record SSDStats =
  FreeBytes :: uint64
  TotalBytes :: uint64
  ReservedBytes :: int64
  AvailableBytes :: int64
  ActiveFiles :: nat

definition Stats :: "statfs \<Rightarrow> SSDAdmission \<Rightarrow> adm_error + SSDStats" where
  "Stats st a = (case getDiskSpace st (rootPath a) of
     None \<Rightarrow> Inl ErrStatfs
   | Some (free, tot) \<Rightarrow>
       let av = avail free a
       in Inr \<lparr>FreeBytes = free, TotalBytes = tot, ReservedBytes = totalReserved a,
               AvailableBytes = (if av < 0 then 0 else av),
               ActiveFiles = card (dom (reservations a))\<rparr>)"

definition adm_ReservedBytes :: "SSDAdmission option \<Rightarrow> int64" where
  "adm_ReservedBytes ao = (case ao of None \<Rightarrow> 0 | Some a \<Rightarrow> totalReserved a)"

definition adm_AvailableBytes :: "statfs \<Rightarrow> SSDAdmission option \<Rightarrow> int64" where
  "adm_AvailableBytes st ao = (case ao of None \<Rightarrow> 0
     | Some a \<Rightarrow> (case Stats st a of Inl _ \<Rightarrow> 0 | Inr s \<Rightarrow> AvailableBytes s))"

definition drop_reservation :: "string \<Rightarrow> SSDAdmission \<Rightarrow> SSDAdmission" where
  "drop_reservation taskID a = (case reservations a taskID of
     None \<Rightarrow> a
   | Some sz \<Rightarrow> a\<lparr>totalReserved := i64 (totalReserved a - sz),
                  reservations := (reservations a)(taskID := None)\<rparr>)"

text \<open>The release closure: the task, and whether \<open>once\<close> has fired. On a \<open>nil\<close> receiver it does nothing.\<close>

record release_fn =
  rel_task :: "string option"
  rel_done :: bool

definition reqBytes :: "int64 \<Rightarrow> int64" where
  "reqBytes expectedSize = (if expectedSize \<le> 0 then 100 * 1024 * 1024 else expectedSize)"

definition Reserve ::
  "statfs \<Rightarrow> string \<Rightarrow> int64 \<Rightarrow> SSDAdmission option \<Rightarrow>
    (adm_error + release_fn) \<times> SSDAdmission option" where
  "Reserve st taskID expectedSize ao = (case ao of
     None \<Rightarrow> (Inr \<lparr>rel_task = None, rel_done = False\<rparr>, None)
   | Some a \<Rightarrow> (case getDiskSpace st (rootPath a) of
       None \<Rightarrow> (Inl ErrStatfs, Some a)
     | Some (free, _) \<Rightarrow>
         let a1 = drop_reservation taskID a;
             req = reqBytes expectedSize
         in if avail free a1 < req then (Inl ErrInsufficientSSDSpace, Some a1)
            else (Inr \<lparr>rel_task = Some taskID, rel_done = False\<rparr>,
                  Some (a1\<lparr>reservations := (reservations a1)(taskID \<mapsto> req),
                           totalReserved := i64 (totalReserved a1 + req)\<rparr>))))"

definition release :: "release_fn \<Rightarrow> SSDAdmission option \<Rightarrow> release_fn \<times> SSDAdmission option" where
  "release f ao = (if rel_done f then (f, ao)
     else (f\<lparr>rel_done := True\<rparr>,
           case (rel_task f, ao) of (Some t, Some a) \<Rightarrow> Some (drop_reservation t a) | _ \<Rightarrow> ao))"

section \<open>The invariant\<close>

text \<open>The total is the sum of the reservations, each of them positive, and with the reserve fits an int64.\<close>

definition adm_ok :: "SSDAdmission \<Rightarrow> bool" where
  "adm_ok a \<longleftrightarrow> finite (dom (reservations a)) \<and> totalReserved a = sum_map (reservations a) \<and>
     (\<forall>t v. reservations a t = Some v \<longrightarrow> 0 < v) \<and>
     totalReserved a + sint (minFreeSpace a) < 2 ^ 63 \<and> 0 \<le> sint (minFreeSpace a)"

lemma sum_map_nonneg: "(\<And>t v. m t = Some v \<Longrightarrow> 0 < v) \<Longrightarrow> 0 \<le> sum_map m"
  unfolding sum_map_def by (rule sum_nonneg) (auto simp: less_imp_le)

lemma adm_total_nonneg: "adm_ok a \<Longrightarrow> 0 \<le> totalReserved a"
  by (auto simp: adm_ok_def intro: sum_map_nonneg)

lemma reqBytes_pos [simp]: "0 < reqBytes n"
  by (simp add: reqBytes_def)

lemma drop_fields [simp]:
  "minFreeSpace (drop_reservation t a) = minFreeSpace a"
  "rootPath (drop_reservation t a) = rootPath a"
  "reservations (drop_reservation t a) = (reservations a)(t := None)"
  by (auto simp: drop_reservation_def fun_upd_idem split: option.splits)

lemma drop_ok [inv_intros]:
  assumes "adm_ok a"
  shows "adm_ok (drop_reservation t a)"
proof (cases "reservations a t")
  case None
  with assms show ?thesis by (simp add: drop_reservation_def)
next
  case (Some v)
  let ?m = "(reservations a)(t := None)"
  have v: "0 < v" using assms Some by (auto simp: adm_ok_def)
  have pos: "\<And>t v. ?m t = Some v \<Longrightarrow> 0 < v" using assms by (auto simp: adm_ok_def split: if_splits)
  have s: "sum_map ?m = totalReserved a - v"
    using assms Some by (simp add: adm_ok_def sum_map_delete)
  have "0 \<le> totalReserved a - v" using sum_map_nonneg [of ?m] pos s by simp
  then have "i64 (totalReserved a - v) = totalReserved a - v"
    using assms v by (intro i64_id) (simp add: fits64_def adm_ok_def)
  moreover have "totalReserved a - v + sint (minFreeSpace a) < 2 ^ 63" using assms v by (simp add: adm_ok_def)
  ultimately show ?thesis using assms Some s pos by (auto simp: adm_ok_def drop_reservation_def)
qed

lemma avail_exact:
  assumes "adm_ok a" and "0 \<le> sint free"
  shows "avail free a = sint free - sint (minFreeSpace a) - totalReserved a"
proof -
  have f: "sint free < 2 ^ 63" using sint_lt [of free] by simp
  have m: "0 \<le> sint (minFreeSpace a)" "totalReserved a + sint (minFreeSpace a) < 2 ^ 63"
    using assms(1) by (simp_all add: adm_ok_def)
  have "i64 (sint free - sint (minFreeSpace a)) = sint free - sint (minFreeSpace a)"
    using f m assms(2) adm_total_nonneg [OF assms(1)] by (intro i64_id) (simp add: fits64_def)
  moreover have "i64 (sint free - sint (minFreeSpace a) - totalReserved a) =
      sint free - sint (minFreeSpace a) - totalReserved a"
    using f m assms(2) adm_total_nonneg [OF assms(1)] by (intro i64_id) (simp add: fits64_def)
  ultimately show ?thesis by (simp add: avail_def)
qed

lemma insert_ok:
  assumes "adm_ok a" and "reservations a t = None" and "0 < v"
    and "totalReserved a + v + sint (minFreeSpace a) < 2 ^ 63"
  shows "adm_ok (a\<lparr>reservations := (reservations a)(t \<mapsto> v), totalReserved := i64 (totalReserved a + v)\<rparr>)"
proof -
  have "i64 (totalReserved a + v) = totalReserved a + v"
    using assms adm_total_nonneg [OF assms(1)] by (intro i64_id) (simp add: fits64_def adm_ok_def)
  with assms show ?thesis by (auto simp: adm_ok_def sum_map_update)
qed

text \<open>The states of the admission object after any sequence of reservations and releases, each against the
  free space of its moment; \<open>nil\<close> is left out.\<close>

inductive adm_reach :: "SSDAdmission \<Rightarrow> SSDAdmission \<Rightarrow> bool" for a0 where
  adm_start: "adm_reach a0 a0"
| adm_reserve: "adm_reach a0 a \<Longrightarrow> (\<And>free tot. getDiskSpace st (rootPath a) = Some (free, tot) \<Longrightarrow> 0 \<le> sint free) \<Longrightarrow>
    Reserve st t n (Some a) = (res, Some a') \<Longrightarrow> adm_reach a0 a'"
| adm_release: "adm_reach a0 a \<Longrightarrow> release f (Some a) = (f', Some a') \<Longrightarrow> adm_reach a0 a'"

lemma reserve_ok:
  assumes "adm_ok a" and "Reserve st t n (Some a) = (res, Some a')"
    and "\<And>free tot. getDiskSpace st (rootPath a) = Some (free, tot) \<Longrightarrow> 0 \<le> sint free"
  shows "adm_ok a'"
proof (cases "getDiskSpace st (rootPath a)")
  case None
  with assms show ?thesis by (simp add: Reserve_def)
next
  case (Some p)
  then obtain free tot where p: "getDiskSpace st (rootPath a) = Some (free, tot)" by (cases p) simp
  let ?a = "drop_reservation t a"
  have ok: "adm_ok ?a" by (rule drop_ok [OF assms(1)])
  have "sint free < 2 ^ 63" using sint_lt [of free] by simp
  with avail_exact [OF ok assms(3) [OF p]]
  have "adm_ok (?a\<lparr>reservations := (reservations ?a)(t \<mapsto> reqBytes n),
      totalReserved := i64 (totalReserved ?a + reqBytes n)\<rparr>)" if "\<not> avail free ?a < reqBytes n"
    using that by (intro insert_ok [OF ok]) simp_all
  with assms(2) ok p show ?thesis
    by (auto simp: Reserve_def Let_def split: if_splits)
qed

lemma release_ok: "adm_ok a \<Longrightarrow> release f (Some a) = (f', Some a') \<Longrightarrow> adm_ok a'"
  by (auto simp: release_def drop_ok split: if_splits option.splits)

lemma adm_reach_ok: "adm_reach a0 a \<Longrightarrow> adm_ok a0 \<Longrightarrow> adm_ok a"
  by (induction rule: adm_reach.induct) (auto intro: reserve_ok release_ok)

lemma new_ok: "0 \<le> sint m \<Longrightarrow> adm_ok (NewSSDAdmission root m)"
  using sint_lt [of m] by (simp add: adm_ok_def NewSSDAdmission_def DefaultMinFreeSpace_def)

lemma reserve_result:
  assumes "adm_ok a" and "Reserve st t n (Some a) = (Inr f, Some a')"
    and "getDiskSpace st (rootPath a) = Some (free, tot)" and "0 \<le> sint free"
  shows "sint (minFreeSpace a) + totalReserved a' \<le> sint free"
    and "reservations a' = (reservations a)(t \<mapsto> reqBytes n)"
    and "totalReserved a' = totalReserved (drop_reservation t a) + reqBytes n"
    and "f = \<lparr>rel_task = Some t, rel_done = False\<rparr>" and "minFreeSpace a' = minFreeSpace a"
proof -
  let ?a = "drop_reservation t a"
  have ok: "adm_ok ?a" by (rule drop_ok [OF assms(1)])
  have av: "\<not> avail free ?a < reqBytes n"
    and a': "a' = ?a\<lparr>reservations := (reservations ?a)(t \<mapsto> reqBytes n),
      totalReserved := i64 (totalReserved ?a + reqBytes n)\<rparr>"
    and f: "f = \<lparr>rel_task = Some t, rel_done = False\<rparr>"
    using assms(2,3) by (auto simp: Reserve_def Let_def split: if_splits)
  have le: "sint (minFreeSpace a) + (totalReserved ?a + reqBytes n) \<le> sint free"
    using av avail_exact [OF ok assms(4)] by simp
  have "0 \<le> sint (minFreeSpace a)" and "sint free < 2 ^ 63"
    using assms(1) sint_lt [of free] by (simp_all add: adm_ok_def)
  then have "fits64 (totalReserved ?a + reqBytes n)"
    unfolding fits64_def using le adm_total_nonneg [OF ok] reqBytes_pos [of n] by linarith
  then have "i64 (totalReserved ?a + reqBytes n) = totalReserved ?a + reqBytes n" by (rule i64_id)
  then show "totalReserved a' = totalReserved ?a + reqBytes n" and
    "sint (minFreeSpace a) + totalReserved a' \<le> sint free" using le by (simp_all add: a')
  show "reservations a' = (reservations a)(t \<mapsto> reqBytes n)" and "minFreeSpace a' = minFreeSpace a"
    and "f = \<lparr>rel_task = Some t, rel_done = False\<rparr>" by (simp_all add: a' f)
qed

section \<open>Properties\<close>

text \<open>C12. In every state the admission object can reach, its total is the exact sum of the active
  reservations, each positive; and a reservation that is granted fits: the reserve and all
  reservations together, the new one included, are within the free space the file system reported.\<close>

theorem reservation_fits:
  assumes "0 \<le> sint m" and "adm_reach (NewSSDAdmission root m) a"
    and "getDiskSpace st (rootPath a) = Some (free, tot)" and "0 \<le> sint free"
    and "Reserve st t n (Some a) = (Inr f, Some a')"
  shows "totalReserved a = sum_map (reservations a) \<and>
    totalReserved a' = sum_map (reservations a') \<and> reservations a' t = Some (reqBytes n) \<and>
    (\<forall>j v. reservations a' j = Some v \<longrightarrow> 0 < v) \<and>
    sint (minFreeSpace a') + sum_map (reservations a') \<le> sint free"
proof -
  have ok: "adm_ok a" by (rule adm_reach_ok [OF assms(2) new_ok [OF assms(1)]])
  have ok': "adm_ok a'" using reserve_ok [OF ok assms(5)] assms(3,4) by simp
  show ?thesis
    using ok ok' reserve_result [OF ok assms(5,3,4)] by (auto simp: adm_ok_def)
qed

definition ex_statfs :: statfs where
  "ex_statfs p = Some (1000000, 4096, 2000000)"

theorem reservation_fits_witness:
  "\<exists>f a'. Reserve ex_statfs ''t'' 10 (Some (NewSSDAdmission ''/r'' 1000)) = (Inr f, Some a') \<and>
     reservations a' ''t'' = Some 10"
proof -
  let ?a = "NewSSDAdmission ''/r'' 1000"
  have "\<not> avail (1000000 * 4096) (drop_reservation ''t'' ?a) < reqBytes 10"
    by (simp add: avail_def NewSSDAdmission_def drop_reservation_def reqBytes_def i64_def)
  then obtain f a' where r: "Reserve ex_statfs ''t'' 10 (Some ?a) = (Inr f, Some a')"
    by (simp add: Reserve_def ex_statfs_def getDiskSpace_def Let_def)
  have "getDiskSpace ex_statfs (rootPath ?a) = Some (1000000 * 4096, 2000000 * 4096)"
    by (simp add: ex_statfs_def getDiskSpace_def)
  from reservation_fits [OF _ adm_start this _ r] r show ?thesis by (simp add: reqBytes_def)
qed

text \<open>C13. Releasing a granted reservation restores the state before it: for a task that held none, the
  reservations and the total are what they were, and the second call of the same closure does
  nothing.\<close>

theorem reserve_release_roundtrip:
  assumes "adm_ok a" and "reservations a t = None" and "getDiskSpace st (rootPath a) = Some (free, tot)"
    and "0 \<le> sint free" and "Reserve st t n (Some a) = (Inr f, Some a')"
    and "release f (Some a') = (f', ao)"
  shows "ao = Some a \<and> release f' ao = (f', ao)"
proof -
  note r = reserve_result [OF assms(1,5,3,4)]
  have "rootPath a' = rootPath a"
    using assms(3,5) by (auto simp: Reserve_def Let_def split: if_splits)
  moreover have "i64 (totalReserved a + reqBytes n - reqBytes n) = totalReserved a"
    using assms(1) adm_total_nonneg [OF assms(1)] by (simp add: i64_id fits64_def adm_ok_def)
  moreover have "totalReserved a' = totalReserved a + reqBytes n"
    using r(3) assms(2) by (simp add: drop_reservation_def)
  moreover have "(reservations a)(t := None) = reservations a" using assms(2) by (simp add: fun_upd_idem)
  ultimately show ?thesis
    using assms(6) r by (auto simp: release_def drop_reservation_def)
qed

theorem reserve_release_roundtrip_witness:
  "\<exists>f a' f'. Reserve ex_statfs ''t'' 10 (Some (NewSSDAdmission ''/r'' 1000)) = (Inr f, Some a') \<and>
     release f (Some a') = (f', Some (NewSSDAdmission ''/r'' 1000))"
proof -
  let ?a = "NewSSDAdmission ''/r'' 1000"
  have "\<not> avail (1000000 * 4096) (drop_reservation ''t'' ?a) < reqBytes 10"
    by (simp add: avail_def NewSSDAdmission_def drop_reservation_def reqBytes_def i64_def)
  then obtain f a' where r: "Reserve ex_statfs ''t'' 10 (Some ?a) = (Inr f, Some a')"
    by (simp add: Reserve_def ex_statfs_def getDiskSpace_def Let_def)
  obtain f' ao where f': "release f (Some a') = (f', ao)" by force
  have d: "getDiskSpace ex_statfs (rootPath ?a) = Some (1000000 * 4096, 2000000 * 4096)"
    by (simp add: ex_statfs_def getDiskSpace_def)
  have "adm_ok ?a" by (rule new_ok) simp
  from reserve_release_roundtrip [OF this _ d _ r f'] r f' show ?thesis by (auto simp: NewSSDAdmission_def)
qed

text \<open>C14. The release closure names the task, not the reservation: when the task reserves again, the closure of
  the first reservation, fired late, frees the second one, and the space it stood for can be
  granted to others.\<close>

theorem stale_release_frees_newer:
  assumes "adm_ok a" and "getDiskSpace st (rootPath a) = Some (free, tot)" and "0 \<le> sint free"
    and "Reserve st t n1 (Some a) = (Inr f1, Some a1)" and "Reserve st t n2 (Some a1) = (Inr f2, Some a2)"
    and "release f1 (Some a2) = (f1', ao)"
  shows "reservations a2 t = Some (reqBytes n2) \<and> \<not> rel_done f2 \<and>
    (\<exists>a3. ao = Some a3 \<and> reservations a3 t = None \<and> totalReserved a3 = sum_map (reservations a3))"
proof -
  have root: "rootPath a1 = rootPath a"
    using assms(2,4) by (auto simp: Reserve_def Let_def split: if_splits)
  have ok1: "adm_ok a1" using reserve_ok [OF assms(1,4)] assms(2,3) by simp
  have d: "getDiskSpace st (rootPath a1) = Some (free, tot)" using root assms(2) by simp
  have ok2: "adm_ok a2" using reserve_ok [OF ok1 assms(5)] d assms(3) by simp
  note r1 = reserve_result [OF assms(1,4,2,3)] and r2 = reserve_result [OF ok1 assms(5) d assms(3)]
  have "ao = Some (drop_reservation t a2)" using assms(6) r1(4) by (auto simp: release_def)
  with r2 drop_ok [OF ok2, of t] show ?thesis by (simp add: adm_ok_def)
qed

theorem stale_release_frees_newer_witness:
  "\<exists>f1 a1 f2 a2 f1' a3. Reserve ex_statfs ''t'' 10 (Some (NewSSDAdmission ''/r'' 1000)) = (Inr f1, Some a1) \<and>
     Reserve ex_statfs ''t'' 20 (Some a1) = (Inr f2, Some a2) \<and>
     release f1 (Some a2) = (f1', Some a3) \<and> reservations a3 ''t'' = None"
proof -
  let ?a = "NewSSDAdmission ''/r'' 1000"
  have "\<not> avail (1000000 * 4096) (drop_reservation ''t'' ?a) < reqBytes 10"
    by (simp add: avail_def NewSSDAdmission_def drop_reservation_def reqBytes_def i64_def)
  then obtain f1 a1 where r1: "Reserve ex_statfs ''t'' 10 (Some ?a) = (Inr f1, Some a1)"
    and a1: "a1 = ?a\<lparr>reservations := [''t'' \<mapsto> 10], totalReserved := 10\<rparr>"
    by (simp add: Reserve_def ex_statfs_def getDiskSpace_def Let_def NewSSDAdmission_def
        drop_reservation_def reqBytes_def i64_def)
  have "\<not> avail (1000000 * 4096) (drop_reservation ''t'' a1) < reqBytes 20"
    by (simp add: a1 avail_def NewSSDAdmission_def drop_reservation_def reqBytes_def i64_def)
  then obtain f2 a2 where r2: "Reserve ex_statfs ''t'' 20 (Some a1) = (Inr f2, Some a2)"
    by (simp add: Reserve_def ex_statfs_def getDiskSpace_def Let_def)
  obtain f1' ao where f': "release f1 (Some a2) = (f1', ao)" by force
  have d: "getDiskSpace ex_statfs (rootPath ?a) = Some (1000000 * 4096, 2000000 * 4096)"
    by (simp add: ex_statfs_def getDiskSpace_def)
  have "adm_ok ?a" by (rule new_ok) simp
  from stale_release_frees_newer [OF this d _ r1 r2 f'] r1 r2 f' show ?thesis by auto
qed

end
