(* ===== verification/Go_Strings.thy ===== *)
theory Go_Strings
  imports Prelude
begin

text \<open>
  The functions of Go's \<open>strings\<close>, \<open>strconv\<close> and \<open>fmt\<close> packages that the sources call, on
  byte strings. Case conversion and white space are those of the ASCII range, which is what
  the sources compare against.
\<close>

definition HasPrefix :: "string \<Rightarrow> string \<Rightarrow> bool" where
  "HasPrefix s p \<longleftrightarrow> prefix p s"

definition HasSuffix :: "string \<Rightarrow> string \<Rightarrow> bool" where
  "HasSuffix s p \<longleftrightarrow> suffix p s"

definition TrimPrefix :: "string \<Rightarrow> string \<Rightarrow> string" where
  "TrimPrefix s p = (if HasPrefix s p then drop (length p) s else s)"

fun Contains :: "string \<Rightarrow> string \<Rightarrow> bool" where
  "Contains [] sub = (sub = [])"
| "Contains (c # cs) sub = (prefix sub (c # cs) \<or> Contains cs sub)"

definition ContainsAny :: "string \<Rightarrow> string \<Rightarrow> bool" where
  "ContainsAny s chars \<longleftrightarrow> list_ex (\<lambda>c. c \<in> set chars) s"

definition lower_char :: "char \<Rightarrow> char" where
  "lower_char c = (let n = of_char c :: nat in if 65 \<le> n \<and> n \<le> 90 then char_of (n + 32) else c)"

definition ToLower :: "string \<Rightarrow> string" where
  "ToLower s = map lower_char s"

definition is_space :: "char \<Rightarrow> bool" where
  "is_space c \<longleftrightarrow> (let n = of_char c :: nat in n \<in> {9, 10, 11, 12, 13, 32})"

definition TrimSpace :: "string \<Rightarrow> string" where
  "TrimSpace s = rev (dropWhile is_space (rev (dropWhile is_space s)))"

definition digit_char :: "nat \<Rightarrow> char" where
  "digit_char n = char_of (48 + n mod 10)"

fun show_nat :: "nat \<Rightarrow> string" where
  "show_nat n = (if n < 10 then [digit_char n] else show_nat (n div 10) @ [digit_char n])"

declare show_nat.simps [simp del]

definition show_int :: "int \<Rightarrow> string" where
  "show_int i = (if i < 0 then CHR ''-'' # show_nat (nat (- i)) else show_nat (nat i))"

definition show_bool :: "bool \<Rightarrow> string" where
  "show_bool b = (if b then ''true'' else ''false'')"

text \<open>SQLite's \<open>LIKE\<close> with a pattern \<open>%x%\<close> or \<open>%x\<close> ignores the case of ASCII letters.\<close>

definition like_contains :: "string \<Rightarrow> string \<Rightarrow> bool" where
  "like_contains s x \<longleftrightarrow> Contains (ToLower s) (ToLower x)"

definition like_suffix :: "string \<Rightarrow> string \<Rightarrow> bool" where
  "like_suffix s x \<longleftrightarrow> HasSuffix (ToLower s) (ToLower x)"

definition like_prefix :: "string \<Rightarrow> string \<Rightarrow> bool" where
  "like_prefix s x \<longleftrightarrow> HasPrefix (ToLower s) (ToLower x)"

section \<open>Printing integers\<close>

lemma digit_char_inj: "a < 10 \<Longrightarrow> b < 10 \<Longrightarrow> digit_char a = digit_char b \<Longrightarrow> a = b"
proof -
  assume a: "a < 10" "b < 10" "digit_char a = digit_char b"
  then have "(of_char (digit_char a) :: nat) = of_char (digit_char b)" by simp
  with a show "a = b" by (simp add: digit_char_def)
qed

lemma digit_char_mod: "digit_char (n mod 10) = digit_char n"
  by (simp add: digit_char_def)

lemma show_nat_nonempty: "show_nat n \<noteq> []"
  by (subst show_nat.simps) simp

lemma show_nat_last: "last (show_nat n) = digit_char n"
  by (subst show_nat.simps) simp

lemma show_nat_step: "10 \<le> n \<Longrightarrow> butlast (show_nat n) = show_nat (n div 10)"
  by (subst show_nat.simps) simp

lemma show_nat_small: "n < 10 \<Longrightarrow> butlast (show_nat n) = []"
  by (subst show_nat.simps) simp

lemma show_nat_inj: "show_nat a = show_nat b \<Longrightarrow> a = b"
proof (induction a arbitrary: b rule: less_induct)
  case (less a)
  have m: "a mod 10 = b mod 10"
    using show_nat_last [of a] show_nat_last [of b] less.prems
      digit_char_inj [of "a mod 10" "b mod 10"] by (simp add: digit_char_mod)
  have small: "length (show_nat n) = 1 \<longleftrightarrow> n < 10" for n
    by (subst show_nat.simps) (simp add: show_nat_nonempty)
  have ab: "a < 10 \<longleftrightarrow> b < 10" using small [of a] small [of b] less.prems by simp
  have d: "a div 10 = b div 10"
  proof (cases "a < 10")
    case True
    with ab show ?thesis by simp
  next
    case False
    then have "show_nat (a div 10) = show_nat (b div 10)"
      using show_nat_step [of a] show_nat_step [of b] less.prems ab by simp
    with False show ?thesis using less.IH [of "a div 10" "b div 10"] by simp
  qed
  have "a = a div 10 * 10 + a mod 10" by simp
  also have "\<dots> = b" using m d by simp
  finally show ?case .
qed

definition decimal_chars :: "char set" where
  "decimal_chars = set ''0123456789''"

lemma digit_char_range: "digit_char n \<in> decimal_chars"
proof -
  have "\<forall>k\<in>set [0..<10]. digit_char k \<in> decimal_chars"
    by code_simp
  then have "digit_char (n mod 10) \<in> decimal_chars" by auto
  then show ?thesis by (simp only: digit_char_mod)
qed

lemma minus_no_digit: "CHR ''-'' \<notin> decimal_chars" and colon_no_digit: "CHR '':'' \<notin> decimal_chars"
  by (simp_all add: decimal_chars_def)

lemma show_nat_digits: "set (show_nat n) \<subseteq> decimal_chars"
proof (induction n rule: show_nat.induct)
  case (1 n)
  show ?case
  proof (cases "n < 10")
    case True
    then show ?thesis using digit_char_range [of n] by (simp add: show_nat.simps [of n])
  next
    case False
    then show ?thesis using 1 digit_char_range [of n] by (simp add: show_nat.simps [of n])
  qed
qed

lemma show_int_no_colon: "CHR '':'' \<notin> set (show_int i)"
  using show_nat_digits colon_no_digit by (auto simp: show_int_def)

lemma show_int_neg: "hd (show_int i) = CHR ''-'' \<longleftrightarrow> i < 0"
proof -
  have "hd (show_nat n) \<in> decimal_chars" for n
    using show_nat_digits [of n] hd_in_set [OF show_nat_nonempty [of n]] by (rule subsetD)
  then have "hd (show_nat n) \<noteq> CHR ''-''" for n using minus_no_digit by metis
  then show ?thesis by (simp add: show_int_def)
qed

lemma show_int_inj: "show_int a = show_int b \<Longrightarrow> a = b"
proof -
  assume eq: "show_int a = show_int b"
  then have "a < 0 \<longleftrightarrow> b < 0" using show_int_neg [of a] show_int_neg [of b] by simp
  then have "nat \<bar>a\<bar> = nat \<bar>b\<bar>"
    using eq by (intro show_nat_inj) (auto simp: show_int_def split: if_splits)
  with \<open>a < 0 \<longleftrightarrow> b < 0\<close> show "a = b" by linarith
qed

end
