(* ===== verification/Go_Path.thy ===== *)
theory Go_Path
  imports Go_Strings
begin

text \<open>
  The functions of Go's \<open>path/filepath\<close> the program uses, on a Unix system: \<open>Clean\<close>, \<open>Dir\<close>, \<open>Base\<close>,
  \<open>Join\<close>, \<open>IsAbs\<close>, \<open>FromSlash\<close>, \<open>Abs\<close> and \<open>Rel\<close>. A path is a string; \<open>Clean\<close> splits it into its elements at the slashes and
  processes them with a stack, which is the lexical processing of the library. The lemmas show that a
  cleaned relative path that passes the program's escape checks stays below the
  directory it is joined to.
\<close>

section \<open>Elements\<close>

fun split_slash :: "string \<Rightarrow> string list" where
  "split_slash [] = [[]]"
| "split_slash (c # s) = (if c = CHR ''/'' then [] # split_slash s
     else (case split_slash s of [] \<Rightarrow> [[c]] | e # es \<Rightarrow> (c # e) # es))"

fun join_slash :: "string list \<Rightarrow> string" where
  "join_slash [] = []"
| "join_slash [e] = e"
| "join_slash (e # es) = e @ CHR ''/'' # join_slash es"

definition dot :: string where "dot = ''.''"

definition dotdot :: string where "dotdot = ''..''"

text \<open>One element of the path, with the elements kept so far in reverse order.\<close>

definition clean_elem :: "bool \<Rightarrow> string \<Rightarrow> string list \<Rightarrow> string list" where
  "clean_elem rooted e st =
     (if e = [] \<or> e = dot then st
      else if e = dotdot
      then (case st of t # st' \<Rightarrow> if t \<noteq> dotdot then st' else e # st
            | [] \<Rightarrow> if rooted then [] else [e])
      else e # st)"

definition IsAbs :: "string \<Rightarrow> bool" where
  "IsAbs p \<longleftrightarrow> HasPrefix p ''/''"

definition elems :: "string \<Rightarrow> string list" where
  "elems p = rev (fold (clean_elem (IsAbs p)) (split_slash p) [])"

definition path_of :: "bool \<Rightarrow> string list \<Rightarrow> string" where
  "path_of rooted es = (if rooted then CHR ''/'' # join_slash es
     else if es = [] then ''.'' else join_slash es)"

definition Clean :: "string \<Rightarrow> string" where
  "Clean p = path_of (IsAbs p) (elems p)"

text \<open>The part up to and including the last slash, and the part after it.\<close>

definition dir_prefix :: "string \<Rightarrow> string" where
  "dir_prefix p = rev (dropWhile (\<lambda>c. c \<noteq> CHR ''/'') (rev p))"

definition Dir :: "string \<Rightarrow> string" where
  "Dir p = Clean (dir_prefix p)"

definition Base :: "string \<Rightarrow> string" where
  "Base p = (if p = [] then ''.''
     else let q = rev (dropWhile (\<lambda>c. c = CHR ''/'') (rev p));
              b = rev (takeWhile (\<lambda>c. c \<noteq> CHR ''/'') (rev q))
          in if b = [] then ''/'' else b)"

text \<open>\<open>Join\<close> of two elements ignores an empty first one.\<close>

definition Join :: "string \<Rightarrow> string \<Rightarrow> string" where
  "Join a b = (if a \<noteq> [] then Clean (a @ ''/'' @ b) else if b \<noteq> [] then Clean b else [])"

definition FromSlash :: "string \<Rightarrow> string" where
  "FromSlash p = p"

text \<open>\<open>Abs\<close> relative to the working directory, which may not be known; \<open>Rel\<close> has no result
  for an absolute and a relative path, nor when the base leaves the common part upwards.\<close>

definition Abs :: "string option \<Rightarrow> string \<Rightarrow> string option" where
  "Abs cwd p = (if IsAbs p then Some (Clean p) else map_option (\<lambda>wd. Join wd p) cwd)"

fun strip_common :: "'a list \<Rightarrow> 'a list \<Rightarrow> 'a list \<times> 'a list" where
  "strip_common (x # xs) (y # ys) = (if x = y then strip_common xs ys else (x # xs, y # ys))"
| "strip_common xs ys = (xs, ys)"

definition Rel :: "string \<Rightarrow> string \<Rightarrow> string option" where
  "Rel base targ = (if IsAbs base = IsAbs targ
     then (case strip_common (elems base) (elems targ) of
             ([], []) \<Rightarrow> Some dot
           | (bs, ts) \<Rightarrow> if bs \<noteq> [] \<and> hd bs = dotdot then None
               else Some (join_slash (replicate (length bs) dotdot @ ts)))
     else None)"

section \<open>Lemmas\<close>

lemma split_slash_Nil [simp]: "split_slash s \<noteq> []"
  by (induction s) (auto split: list.splits)

lemma split_slash_append:
  "split_slash (a @ CHR ''/'' # b) = split_slash a @ split_slash b"
  by (induction a) (auto split: list.splits)

lemma split_slash_single: "CHR ''/'' \<notin> set e \<Longrightarrow> split_slash e = [e]"
  by (induction e) auto

lemma split_slash_no_slash: "e \<in> set (split_slash s) \<Longrightarrow> CHR ''/'' \<notin> set e"
  by (induction s arbitrary: e) (auto split: list.splits if_splits)

lemma split_join: "es \<noteq> [] \<Longrightarrow> (\<And>e. e \<in> set es \<Longrightarrow> CHR ''/'' \<notin> set e) \<Longrightarrow> split_slash (join_slash es) = es"
  by (induction es rule: join_slash.induct) (auto simp: split_slash_single split_slash_append)

lemma dots_simps [simp]:
  "dot \<noteq> []" "dotdot \<noteq> []" "dot \<noteq> dotdot" "dotdot \<noteq> dot"
  "CHR ''/'' \<notin> set dot" "CHR ''/'' \<notin> set dotdot"
  by (simp_all add: dot_def dotdot_def)

text \<open>A normal element: a name, as opposed to the empty element and the two dots.\<close>

definition normal :: "string \<Rightarrow> bool" where
  "normal e \<longleftrightarrow> e \<noteq> [] \<and> e \<noteq> dot \<and> e \<noteq> dotdot \<and> CHR ''/'' \<notin> set e"

lemma clean_skip: "e = [] \<or> e = dot \<Longrightarrow> clean_elem r e st = st"
  by (simp add: clean_elem_def)

lemma clean_up: "clean_elem r dotdot (t # st) = (if t \<noteq> dotdot then st else dotdot # t # st)"
  by (simp add: clean_elem_def)

lemma clean_up_Nil: "clean_elem r dotdot [] = (if r then [] else [dotdot])"
  by (simp add: clean_elem_def)

lemma clean_name: "e \<noteq> [] \<Longrightarrow> e \<noteq> dot \<Longrightarrow> e \<noteq> dotdot \<Longrightarrow> clean_elem r e st = e # st"
  by (simp add: clean_elem_def)

lemma elem_cases:
  obtains (skip) "e = [] \<or> e = dot" | (up) "e = dotdot" | (name) "e \<noteq> []" "e \<noteq> dot" "e \<noteq> dotdot"
  by blast

lemma clean_normal: "normal e \<Longrightarrow> clean_elem r e st = e # st"
  by (simp add: clean_name normal_def)

lemma fold_clean_normal: "list_all normal es \<Longrightarrow> fold (clean_elem r) es st = rev es @ st"
  by (induction es arbitrary: st) (simp_all add: clean_normal)

text \<open>The elements of a cleaned path: double dots at the front of a relative path, then names.\<close>

definition canonical :: "bool \<Rightarrow> string list \<Rightarrow> bool" where
  "canonical rooted es \<longleftrightarrow>
     (\<exists>n ns. es = replicate n dotdot @ ns \<and> list_all normal ns \<and> (rooted \<longrightarrow> n = 0))"

lemma canonicalI: "list_all normal ns \<Longrightarrow> (r \<Longrightarrow> n = 0) \<Longrightarrow> canonical r (replicate n dotdot @ ns)"
  unfolding canonical_def by blast

lemma canonical_clean:
  assumes "canonical r (rev st)" and "CHR ''/'' \<notin> set e"
  shows "canonical r (rev (clean_elem r e st))"
proof -
  from assms(1) obtain n ns where rst: "rev st = replicate n dotdot @ ns" and ns: "list_all normal ns"
    and r: "r \<Longrightarrow> n = 0"
    unfolding canonical_def by blast
  from rst have st: "st = rev ns @ replicate n dotdot"
    by (metis rev_append rev_replicate rev_rev_ident)
  show ?thesis
  proof (cases rule: elem_cases [of e])
    case skip
    with assms(1) show ?thesis by (simp add: clean_skip)
  next
    case name
    then have "normal e" using assms(2) by (simp add: normal_def)
    with name ns r show ?thesis
      using canonicalI [of "ns @ [e]" r n] by (simp add: clean_name st)
  next
    case up
    show ?thesis
    proof (cases ns rule: rev_cases)
      case (snoc bs b)
      with ns have "b \<noteq> dotdot" and "list_all normal bs" by (simp_all add: normal_def)
      with snoc r show ?thesis using canonicalI [of bs r n] by (simp add: up st clean_up)
    next
      case Nil
      show ?thesis
      proof (cases n)
        case 0
        with Nil show ?thesis
          using canonicalI [of "[]" r 0] canonicalI [of "[]" r 1] by (cases r) (simp_all add: up st clean_up_Nil)
      next
        case (Suc m)
        with r have "\<not> r" by auto
        with Suc Nil show ?thesis
          using canonicalI [of "[]" r "Suc n"] by (simp add: up st clean_up replicate_append_same)
      qed
    qed
  qed
qed

lemma canonical_fold:
  "canonical r (rev st) \<Longrightarrow> (\<And>e. e \<in> set es \<Longrightarrow> CHR ''/'' \<notin> set e) \<Longrightarrow>
    canonical r (rev (fold (clean_elem r) es st))"
proof (induction es arbitrary: st)
  case (Cons e es)
  then have "canonical r (rev (clean_elem r e st))" by (simp add: canonical_clean)
  with Cons show ?case by simp
qed simp

lemma canonical_Nil [simp]: "canonical r []"
  using canonicalI [of "[]" r 0] by simp

lemma canonical_elems: "canonical (IsAbs p) (elems p)"
  unfolding elems_def by (rule canonical_fold) (simp_all add: split_slash_no_slash)

lemma canonical_elem: "canonical r es \<Longrightarrow> e \<in> set es \<Longrightarrow> CHR ''/'' \<notin> set e \<and> e \<noteq> []"
proof -
  assume "canonical r es" and e: "e \<in> set es"
  then obtain n ns where es: "es = replicate n dotdot @ ns" and ns: "list_all normal ns"
    unfolding canonical_def by blast
  from e es have "e = dotdot \<or> e \<in> set ns" by (cases n) auto
  with ns show ?thesis by (elim disjE) (simp_all add: list_all_iff normal_def)
qed

lemma fold_clean_dots:
  "\<not> r \<Longrightarrow> fold (clean_elem r) (replicate n dotdot) (replicate m dotdot) = replicate (n + m) dotdot"
proof (induction n arbitrary: m)
  case (Suc n)
  have "clean_elem r dotdot (replicate m dotdot) = replicate (Suc m) dotdot"
    using Suc.prems by (cases m) (simp_all add: clean_up clean_up_Nil)
  with Suc.IH [of "Suc m"] Suc.prems show ?case by simp
qed simp

lemma fold_clean_canonical:
  assumes "canonical r es"
  shows "fold (clean_elem r) es [] = rev es"
proof -
  from assms obtain n ns where es: "es = replicate n dotdot @ ns" and ns: "list_all normal ns"
    and r: "r \<Longrightarrow> n = 0"
    unfolding canonical_def by blast
  have "fold (clean_elem r) (replicate n dotdot) [] = replicate n dotdot"
    using fold_clean_dots [of r n 0] r by (cases r) simp_all
  then show ?thesis by (simp add: es fold_clean_normal [OF ns])
qed

lemma IsAbs_Cons: "IsAbs (c # s) \<longleftrightarrow> c = CHR ''/''"
  by (auto simp: IsAbs_def HasPrefix_def)

lemma IsAbs_Nil: "\<not> IsAbs []"
  by (simp add: IsAbs_def HasPrefix_def)

lemma join_slash_hd: "e \<noteq> [] \<Longrightarrow> \<exists>s. join_slash (e # es) = hd e # s"
  by (cases e; cases es) simp_all

lemma IsAbs_path_of:
  assumes "canonical r es"
  shows "IsAbs (path_of r es) = r"
proof (cases es)
  case (Cons e es')
  with canonical_elem [OF assms, of e] have e: "e \<noteq> []" "CHR ''/'' \<notin> set e" by simp_all
  from join_slash_hd [OF e(1)] obtain s where "join_slash es = hd e # s" unfolding Cons by blast
  moreover have "hd e \<noteq> CHR ''/''" using e by (metis hd_in_set)
  ultimately show ?thesis using Cons by (simp add: path_of_def IsAbs_Cons)
qed (simp add: path_of_def IsAbs_Cons)

lemma elems_path_of:
  assumes "canonical r es"
  shows "elems (path_of r es) = es"
proof (cases "es = []")
  case True
  then show ?thesis using IsAbs_path_of [OF assms]
    by (cases r) (simp_all add: elems_def path_of_def clean_elem_def dot_def)
next
  case False
  have "split_slash (join_slash es) = es"
    using canonical_elem [OF assms] False by (intro split_join) auto
  then have "split_slash (path_of r es) = (if r then [[]] else []) @ es"
    using False by (simp add: path_of_def)
  then show ?thesis
    using IsAbs_path_of [OF assms] fold_clean_canonical [OF assms]
    by (cases r) (simp_all add: elems_def clean_skip)
qed

lemma elems_Clean [simp]: "elems (Clean p) = elems p"
  by (simp add: Clean_def elems_path_of canonical_elems)

lemma IsAbs_Clean [simp]: "IsAbs (Clean p) = IsAbs p"
  by (simp add: Clean_def IsAbs_path_of canonical_elems)

lemma Clean_idem: "Clean (Clean p) = Clean p"
  by (simp add: Clean_def [of "Clean p"]) (simp add: Clean_def)

section \<open>Staying below a directory\<close>

lemma dots_persist: "dotdot \<in> set st \<Longrightarrow> dotdot \<in> set (fold (clean_elem r) es st)"
proof (induction es arbitrary: st)
  case (Cons e es)
  have "dotdot \<in> set (clean_elem r e st)"
  proof (cases rule: elem_cases [of e])
    case up
    with Cons.prems show ?thesis by (cases st) (auto simp: clean_up)
  qed (use Cons.prems in \<open>simp_all add: clean_skip clean_name\<close>)
  with Cons.IH show ?case by simp
qed simp

lemma clean_below:
  assumes "dotdot \<notin> set (clean_elem False e st0)"
  shows "clean_elem r e (st0 @ st) = clean_elem False e st0 @ st"
proof (cases rule: elem_cases [of e])
  case up
  with assms show ?thesis by (cases st0) (auto simp: clean_up clean_up_Nil split: if_splits)
qed (simp_all add: clean_skip clean_name)

lemma fold_clean_below:
  assumes "dotdot \<notin> set (fold (clean_elem False) es st0)"
  shows "fold (clean_elem r) es (st0 @ st) = fold (clean_elem False) es st0 @ st"
  using assms
proof (induction es arbitrary: st0)
  case (Cons e es)
  have "dotdot \<notin> set (clean_elem False e st0)"
    using Cons.prems dots_persist [of "clean_elem False e st0" False es] by auto
  with Cons show ?case by (simp add: clean_below)
qed simp

lemma dotdot_prefix: "HasPrefix (join_slash (dotdot # es)) dotdot"
  by (cases es) (simp_all add: HasPrefix_def)

lemma relative_names:
  assumes "\<not> IsAbs p" and "\<not> HasPrefix (Clean p) dotdot"
  shows "list_all normal (elems p)"
proof -
  from canonical_elems [of p] obtain n ns where e: "elems p = replicate n dotdot @ ns" "list_all normal ns"
    unfolding canonical_def by blast
  have "n = 0"
  proof (cases n)
    case (Suc m)
    then have "HasPrefix (Clean p) dotdot"
      using e assms(1) dotdot_prefix [of "replicate m dotdot @ ns"] by (simp add: Clean_def path_of_def)
    with assms(2) show ?thesis by simp
  qed simp
  with e show ?thesis by simp
qed

lemma elems_Join:
  assumes "IsAbs root" and "\<not> IsAbs p" and "\<not> HasPrefix (Clean p) dotdot"
  shows "elems (Join root p) = elems root @ elems p" and "IsAbs (Join root p)"
proof -
  have "root \<noteq> []" using assms(1) by (auto simp: IsAbs_Nil)
  then have J: "Join root p = Clean (root @ CHR ''/'' # p)" by (simp add: Join_def)
  have abs: "IsAbs (root @ CHR ''/'' # p)" using assms(1) by (cases root) (auto simp: IsAbs_Cons IsAbs_Nil)
  have names: "dotdot \<notin> set (fold (clean_elem False) (split_slash p) [])"
    using relative_names [OF assms(2,3)] assms(2) unfolding elems_def
    by (auto simp: list_all_iff normal_def)
  have "elems (root @ CHR ''/'' # p) =
      rev (fold (clean_elem True) (split_slash p) (rev (elems root)))"
    using abs assms(1) by (simp add: elems_def split_slash_append)
  also have "\<dots> = elems root @ elems p"
    using fold_clean_below [OF names, of True "rev (elems root)"] assms(2) by (simp add: elems_def)
  finally show "elems (Join root p) = elems root @ elems p" by (simp add: J)
  show "IsAbs (Join root p)" using abs by (simp add: J)
qed

lemma dir_prefix_suffix: "CHR ''/'' \<notin> set s \<Longrightarrow> dir_prefix (p @ s) = dir_prefix p"
proof (induction s rule: rev_induct)
  case (snoc c s)
  then have "dir_prefix (p @ s @ [c]) = dir_prefix (p @ s)" by (auto simp: dir_prefix_def)
  with snoc show ?case by simp
qed simp

lemma Dir_suffix: "CHR ''/'' \<notin> set s \<Longrightarrow> Dir (p @ s) = Dir p"
  by (simp add: Dir_def dir_prefix_suffix)

section \<open>Relative paths\<close>

lemma strip_common_append [simp]: "strip_common (xs @ as) (xs @ bs) = strip_common as bs"
  by (induction xs) simp_all

lemma strip_common_spec:
  "strip_common xs ys = (as, bs) \<Longrightarrow> \<exists>zs. xs = zs @ as \<and> ys = zs @ bs \<and> (as = [] \<or> bs = [] \<or> hd as \<noteq> hd bs)"
proof (induction xs ys rule: strip_common.induct)
  case (1 x xs y ys)
  show ?case
  proof (cases "x = y")
    case True
    with 1 obtain zs where "xs = zs @ as \<and> ys = zs @ bs \<and> (as = [] \<or> bs = [] \<or> hd as \<noteq> hd bs)" by auto
    with True show ?thesis by (intro exI [of _ "x # zs"]) simp
  next
    case False
    with 1(2) show ?thesis by (intro exI [of _ "[]"]) auto
  qed
qed auto

lemma prefix_join_slash: "HasPrefix (join_slash (e # es)) p \<longleftrightarrow> HasPrefix e p" if "CHR ''/'' \<notin> set p" for p
proof (cases es)
  case (Cons x xs)
  have "prefix p (e @ CHR ''/'' # s) \<longleftrightarrow> prefix p e" for s
    using that by (auto simp: prefix_append prefix_Cons)
  then show ?thesis by (simp add: Cons HasPrefix_def)
qed simp

lemma rooted_names: "IsAbs p \<Longrightarrow> list_all normal (elems p)"
  using canonical_elems [of p] by (auto simp: canonical_def)

lemma rooted_no_dots: "IsAbs p \<Longrightarrow> dotdot \<notin> set (elems p)"
  using rooted_names by (auto simp: list_all_iff normal_def)

text \<open>The path from a directory to another one begins with two dots, unless the second is inside the first and the
  next element of its path does not begin with two dots.\<close>

lemma Rel_escapes:
  assumes "IsAbs base" and "IsAbs targ" and "Rel base targ = Some r"
  shows "HasPrefix r dotdot \<longleftrightarrow>
    \<not> (\<exists>ts. elems targ = elems base @ ts \<and> (ts = [] \<or> \<not> HasPrefix (hd ts) dotdot))"
proof -
  obtain bs ts where s: "strip_common (elems base) (elems targ) = (bs, ts)" by force
  from strip_common_spec [OF s] obtain zs where z: "elems base = zs @ bs" "elems targ = zs @ ts"
    and d: "bs = [] \<or> ts = [] \<or> hd bs \<noteq> hd ts" by blast
  have slash: "CHR ''/'' \<notin> set dotdot" by simp
  have dd: "HasPrefix dotdot dotdot" by (simp add: HasPrefix_def)
  show ?thesis
  proof (cases bs)
    case Nil
    show ?thesis
    proof (cases ts)
      case Nil
      have "\<not> HasPrefix dot dotdot" by (simp add: HasPrefix_def dot_def dotdot_def)
      with \<open>bs = []\<close> Nil s assms z show ?thesis by (simp add: Rel_def)
    next
      case (Cons t ts')
      with \<open>bs = []\<close> s assms z show ?thesis using prefix_join_slash [OF slash, of t ts'] by (auto simp: Rel_def)
    qed
  next
    case (Cons b bs')
    with z(1) have "b \<noteq> dotdot" using rooted_no_dots [OF assms(1)] by auto
    with Cons have "r = join_slash (dotdot # replicate (length bs') dotdot @ ts)"
      using s assms by (simp add: Rel_def split: list.splits)
    then have "HasPrefix r dotdot" using prefix_join_slash [OF slash] dd by simp
    moreover have "elems targ \<noteq> elems base @ us" for us
      using z d Cons by (cases ts) auto
    ultimately show ?thesis by blast
  qed
qed

text \<open>A name in a directory, the directory being absolute or not.\<close>

lemma elems_Join_name:
  assumes "d \<noteq> []" and "normal e"
  shows "elems (Join d e) = elems d @ [e]" and "IsAbs (Join d e) = IsAbs d"
    and "Join d e = path_of (IsAbs d) (elems d @ [e])"
proof -
  have a: "IsAbs (d @ CHR ''/'' # e) = IsAbs d" using assms(1) by (cases d) (simp_all add: IsAbs_Cons)
  have "split_slash e = [e]" using assms(2) by (simp add: split_slash_single normal_def)
  then have "elems (d @ CHR ''/'' # e) = elems d @ [e]"
    using assms(2) by (simp add: elems_def a split_slash_append clean_normal)
  with assms(1) a show "elems (Join d e) = elems d @ [e]" and "IsAbs (Join d e) = IsAbs d"
    by (simp_all add: Join_def)
  from \<open>elems (d @ CHR ''/'' # e) = elems d @ [e]\<close> assms(1) a
  show "Join d e = path_of (IsAbs d) (elems d @ [e])"
    by (simp add: Join_def Clean_def)
qed

lemma join_slash_last: "es \<noteq> [] \<Longrightarrow> join_slash (es @ [e]) = join_slash es @ CHR ''/'' # e"
  by (induction es rule: join_slash.induct) simp_all

lemma Join_name:
  assumes "d \<noteq> []" and "normal e" and "elems d \<noteq> []"
  shows "Join d e = Clean d @ CHR ''/'' # e"
  using assms by (simp add: elems_Join_name(3) path_of_def Clean_def join_slash_last)

lemma Rel_name:
  assumes "d \<noteq> []" and "normal e"
  shows "Rel (Clean d) (Clean (Join d e)) = Some e"
  using elems_Join_name [OF assms] strip_common_append [of "elems d" "[]" "[e]"]
  by (simp add: Rel_def)

end
