(* ===== verification/File_Commit.thy ===== *)
theory File_Commit
  imports Go_Path
begin

text \<open>
  The commit of a finished file (\<open>internal/fscommit/rename.go\<close> and \<open>rename_linux.go\<close>): a file
  system maps cleaned absolute paths to files and directories, without symbolic links.

  The system calls of \<open>golang.org/x/sys/unix\<close> are a parameter, the record \<open>kernel\<close>; \<open>kernel_ok\<close> states of them what
  the manual pages of renameat2, link and unlink document and the code relies on. Other
  processes act between two calls of the program: \<open>race\<close> is what they do between the check
  and the rename of \<open>CommitSiblingPart\<close>.
\<close>

section \<open>Files\<close>

datatype node = NFile string | NDir

type_synonym fs = "string \<rightharpoonup> node"

datatype errno = EEXIST | ENOTEMPTY | ENOSYS | EINVAL | EOPNOTSUPP | EOther string

fun errno_text :: "errno \<Rightarrow> string" where
  "errno_text EEXIST = ''file exists''"
| "errno_text ENOTEMPTY = ''directory not empty''"
| "errno_text ENOSYS = ''function not implemented''"
| "errno_text EINVAL = ''invalid argument''"
| "errno_text EOPNOTSUPP = ''operation not supported''"
| "errno_text (EOther s) = s"

text \<open>Directories are named by their path, entries of an open directory by their base name.\<close>

record kernel =
  open_dir :: "string \<Rightarrow> fs \<Rightarrow> errno option"
  renameat2 :: "string \<Rightarrow> string \<Rightarrow> string \<Rightarrow> string \<Rightarrow> fs \<Rightarrow> errno option \<times> fs"
  linkat :: "string \<Rightarrow> string \<Rightarrow> string \<Rightarrow> string \<Rightarrow> fs \<Rightarrow> errno option \<times> fs"
  unlinkat :: "string \<Rightarrow> string \<Rightarrow> fs \<Rightarrow> errno option \<times> fs"
  fsync :: "string \<Rightarrow> fs \<Rightarrow> errno option"

text \<open>
  For a source that is not a directory: \<open>renameat2\<close> with \<open>RENAME_NOREPLACE\<close> fails without effect, or
  moves the file to a name that did not exist; it and \<open>linkat\<close> report \<open>EEXIST\<close> only when the new name exists;
  \<open>linkat\<close> fails without effect or adds a name that did not exist; \<open>unlinkat\<close> fails without effect
  or removes the name.
\<close>

definition moved :: "string \<Rightarrow> string \<Rightarrow> fs \<Rightarrow> fs" where
  "moved src dst f = (f(dst := f src))(src := None)"

fun rename_post :: "string \<Rightarrow> string \<Rightarrow> fs \<Rightarrow> errno option \<times> fs \<Rightarrow> bool" where
  "rename_post src dst f (Some e, f') \<longleftrightarrow> f' = f \<and> (e = EEXIST \<longrightarrow> f dst \<noteq> None)"
| "rename_post src dst f (None, f') \<longleftrightarrow> f src \<noteq> None \<and> f dst = None \<and> f' = moved src dst f"

fun link_post :: "string \<Rightarrow> string \<Rightarrow> fs \<Rightarrow> errno option \<times> fs \<Rightarrow> bool" where
  "link_post src dst f (Some e, f') \<longleftrightarrow> f' = f \<and> (e = EEXIST \<longrightarrow> f dst \<noteq> None)"
| "link_post src dst f (None, f') \<longleftrightarrow> f src \<noteq> None \<and> f dst = None \<and> f' = f(dst := f src)"

fun unlink_post :: "string \<Rightarrow> fs \<Rightarrow> errno option \<times> fs \<Rightarrow> bool" where
  "unlink_post src f (Some e, f') \<longleftrightarrow> f' = f"
| "unlink_post src f (None, f') \<longleftrightarrow> f' = f(src := None)"

definition kernel_ok :: "kernel \<Rightarrow> bool" where
  "kernel_ok K \<longleftrightarrow> (\<forall>sd sb f. f (Join sd sb) \<noteq> Some NDir \<longrightarrow>
     unlink_post (Join sd sb) f (unlinkat K sd sb f) \<and>
     (\<forall>dd db. rename_post (Join sd sb) (Join dd db) f (renameat2 K sd sb dd db f) \<and>
        link_post (Join sd sb) (Join dd db) f (linkat K sd sb dd db f)))"

section \<open>Operations\<close>

datatype commit_error = ErrTargetExists | ErrNotSibling | ErrIO string errno

text \<open>\<open>ErrIO\<close> carries its text and the errno it wraps; \<open>errors.Is(err, os.ErrExist)\<close> looks at the latter.\<close>

fun Is_Exist :: "commit_error \<Rightarrow> bool" where
  "Is_Exist ErrTargetExists = True"
| "Is_Exist ErrNotSibling = False"
| "Is_Exist (ErrIO _ e) = (e = EEXIST \<or> e = ENOTEMPTY)"

text \<open>\<open>fmt.Errorf("...: %w", err)\<close>.\<close>

definition wrap_err :: "string \<Rightarrow> errno \<Rightarrow> commit_error" where
  "wrap_err ctx e = ErrIO (ctx @ '': '' @ errno_text e) e"

definition commitFile :: "kernel \<Rightarrow> string \<Rightarrow> string \<Rightarrow> fs \<Rightarrow> commit_error option \<times> fs" where
  "commitFile K tempPath finalPath f =
     (let srcDir = Dir tempPath; dstDir = Dir finalPath;
          tempBase = Base tempPath; finalBase = Base finalPath
      in case open_dir K srcDir f of
           Some e \<Rightarrow> (Some (wrap_err (''open src dir '' @ srcDir) e), f)
         | None \<Rightarrow> (case open_dir K dstDir f of
             Some e \<Rightarrow> (Some (wrap_err (''open dst dir '' @ dstDir) e), f)
           | None \<Rightarrow> (case renameat2 K srcDir tempBase dstDir finalBase f of
               (None, f1) \<Rightarrow> (None, f1)
             | (Some e, f1) \<Rightarrow>
                 if e = EEXIST then (Some ErrTargetExists, f1)
                 else if e = ENOSYS \<or> e = EINVAL \<or> e = EOPNOTSUPP
                 then (case linkat K srcDir tempBase dstDir finalBase f1 of
                         (Some le, f2) \<Rightarrow>
                           if le = EEXIST then (Some ErrTargetExists, f2)
                           else (Some (wrap_err ''linkat fallback'' le), f2)
                       | (None, f2) \<Rightarrow> (None, snd (unlinkat K srcDir tempBase f2)))
                 else (Some (wrap_err ''renameat2 failed'' e), f1))))"

definition syncDir :: "kernel \<Rightarrow> string \<Rightarrow> fs \<Rightarrow> errno option" where
  "syncDir K dirPath f = (case open_dir K dirPath f of Some e \<Rightarrow> Some e | None \<Rightarrow> fsync K dirPath f)"

definition FsyncDir :: "kernel \<Rightarrow> string \<Rightarrow> fs \<Rightarrow> errno option" where
  "FsyncDir K dirPath f = syncDir K dirPath f"

text \<open>\<open>lstat_fails\<close>: the \<open>Lstat\<close> of the target reports an error though the target may exist.\<close>

definition CommitSiblingPart ::
  "kernel \<Rightarrow> bool \<Rightarrow> (fs \<Rightarrow> fs) \<Rightarrow> string \<Rightarrow> string \<Rightarrow> fs \<Rightarrow> commit_error option \<times> fs" where
  "CommitSiblingPart K lstat_fails race partPath finalPath f =
     (let partDir = Clean (Dir partPath); finalDir = Clean (Dir finalPath)
      in if partDir \<noteq> finalDir then (Some ErrNotSibling, f)
         else if f finalPath \<noteq> None \<and> \<not> lstat_fails then (Some ErrTargetExists, f)
         else (case commitFile K partPath finalPath (race f) of
                 (Some e, f1) \<Rightarrow> (Some e, f1)
               | (None, f1) \<Rightarrow> (case syncDir K finalDir f1 of
                   None \<Rightarrow> (None, f1)
                 | Some e \<Rightarrow> (Some (ErrIO (errno_text e) e), f1))))"

subsection \<open>Copying with a digest\<close>

text \<open>
  \<open>io.CopyBuffer\<close> reads up to a buffer of bytes at a time and writes them on. \<open>rfail\<close> and \<open>wfail\<close> are the
  positions, if any, at which reading or writing fails: the read delivers the bytes before its
  position, the write takes the bytes before its position. \<open>dst\<close> is what the destination
  holds; the digest sees the same bytes. The result is the number of bytes written, the
  destination, and whether the copy failed.
\<close>

fun copy_loop :: "nat \<Rightarrow> nat option \<Rightarrow> nat option \<Rightarrow> nat \<Rightarrow> string \<Rightarrow> string \<Rightarrow> nat \<times> string \<times> bool" where
  "copy_loop fuel rfail wfail written src dst =
     (case fuel of
        0 \<Rightarrow> (written, dst, True)
      | Suc fuel' \<Rightarrow>
          let pos = length dst;
              chunk = take 4194304 (case rfail of None \<Rightarrow> src | Some r \<Rightarrow> take (r - pos) src)
          in if chunk = [] then (written, dst, case rfail of None \<Rightarrow> False | Some r \<Rightarrow> r \<le> pos)
             else (case wfail of
                 Some w \<Rightarrow>
                   if w < pos + length chunk
                   then (written + (w - pos), dst @ take (w - pos) chunk, True)
                   else copy_loop fuel' rfail wfail (written + length chunk)
                          (drop (length chunk) src) (dst @ chunk)
               | None \<Rightarrow> copy_loop fuel' rfail wfail (written + length chunk)
                          (drop (length chunk) src) (dst @ chunk)))"

declare copy_loop.simps [simp del]

text \<open>One read per byte is enough fuel. After the copy the destination is synced and closed.\<close>

definition CopyStreamSequential ::
  "(string \<Rightarrow> string) \<Rightarrow> nat option \<Rightarrow> nat option \<Rightarrow> bool \<Rightarrow> bool \<Rightarrow> string \<Rightarrow> nat \<times> string \<times> bool \<times> string" where
  "CopyStreamSequential sha256 rfail wfail sync_fails close_fails src =
     (let (written, dst, failed) = copy_loop (Suc (length src)) rfail wfail 0 src []
      in if failed then (written, [], True, dst)
         else if sync_fails then (written, [], True, dst)
         else if close_fails then (written, [], True, dst)
         else (written, sha256 dst, False, dst))"

section \<open>Copying\<close>

text \<open>The reference: the number of bytes that come through, and whether something failed.\<close>

definition copied :: "nat option \<Rightarrow> nat option \<Rightarrow> nat \<Rightarrow> nat" where
  "copied rfail wfail n = min n (min (case rfail of None \<Rightarrow> n | Some r \<Rightarrow> r) (case wfail of None \<Rightarrow> n | Some w \<Rightarrow> w))"

definition copy_fails :: "nat option \<Rightarrow> nat option \<Rightarrow> nat \<Rightarrow> bool" where
  "copy_fails rfail wfail n \<longleftrightarrow>
     (case rfail of None \<Rightarrow> False | Some r \<Rightarrow> r \<le> n) \<or> (case wfail of None \<Rightarrow> False | Some w \<Rightarrow> w < n)"

lemma copy_loop_spec:
  assumes "length src < fuel" and "\<And>w. wfail = Some w \<Longrightarrow> length dst \<le> w"
  shows "copy_loop fuel rfail wfail written src dst =
    (let k = copied rfail wfail (length dst + length src) - length dst
     in (written + k, dst @ take k src, copy_fails rfail wfail (length dst + length src)))"
  using assms
proof (induction fuel arbitrary: written src dst)
  case (Suc fuel)
  let ?pos = "length dst" and ?n = "length dst + length src"
  let ?lim = "case rfail of None \<Rightarrow> length src | Some r \<Rightarrow> r - ?pos"
  define chunk where "chunk = take 4194304 (case rfail of None \<Rightarrow> src | Some r \<Rightarrow> take (r - ?pos) src)"
  have chunk: "chunk = take (length chunk) src" "length chunk \<le> length src" "length chunk \<le> ?lim"
    by (auto simp: chunk_def min_def split: option.splits)
  have unfold: "copy_loop (Suc fuel) rfail wfail written src dst =
    (if chunk = [] then (written, dst, case rfail of None \<Rightarrow> False | Some r \<Rightarrow> r \<le> ?pos)
     else case wfail of
         Some w \<Rightarrow> if w < ?pos + length chunk then (written + (w - ?pos), dst @ take (w - ?pos) chunk, True)
                   else copy_loop fuel rfail wfail (written + length chunk) (drop (length chunk) src) (dst @ chunk)
       | None \<Rightarrow> copy_loop fuel rfail wfail (written + length chunk) (drop (length chunk) src) (dst @ chunk))"
    by (simp only: copy_loop.simps [of "Suc fuel"] chunk_def Let_def nat.case)
  show ?case
  proof (cases "chunk = []")
    case True
    then have stop: "src = [] \<or> (\<exists>r. rfail = Some r \<and> r \<le> ?pos)"
      by (auto simp: chunk_def split: option.splits)
    have "copied rfail wfail ?n \<le> ?pos"
      using stop by (auto simp: copied_def split: option.splits)
    moreover have "copy_fails rfail wfail ?n = (case rfail of None \<Rightarrow> False | Some r \<Rightarrow> r \<le> ?pos)"
      using stop Suc.prems(2) by (fastforce simp: copy_fails_def split: option.splits)
    ultimately show ?thesis unfolding unfold using True by simp
  next
    case False
    then have pos: "0 < length chunk" by simp
    have rl: "?pos + length chunk \<le> r" if "rfail = Some r" for r
    proof -
      have "length chunk \<le> r - ?pos" using chunk(3) that by simp
      with pos show ?thesis by linarith
    qed
    have rec: "copy_loop fuel rfail wfail (written + length chunk) (drop (length chunk) src) (dst @ chunk) =
      (let k = copied rfail wfail ?n - ?pos
       in (written + k, dst @ take k src, copy_fails rfail wfail ?n))"
      if w: "\<And>w. wfail = Some w \<Longrightarrow> ?pos + length chunk \<le> w"
    proof -
      have k: "?pos + length chunk \<le> copied rfail wfail ?n"
        using w chunk(2) rl by (auto simp: copied_def split: option.splits)
      have len: "length (dst @ chunk) + length (drop (length chunk) src) = ?n" using chunk(2) by simp
      have "dst @ chunk @ take (copied rfail wfail ?n - length (dst @ chunk)) (drop (length chunk) src) =
          dst @ take (copied rfail wfail ?n - ?pos) src"
        using k chunk(1) take_add [of "length chunk" "copied rfail wfail ?n - ?pos - length chunk" src] by simp
      moreover have fuel: "length (drop (length chunk) src) < fuel"
        using Suc.prems(1) pos chunk(2) unfolding length_drop by linarith
      moreover have "copy_loop fuel rfail wfail (written + length chunk) (drop (length chunk) src) (dst @ chunk) =
        (let k = copied rfail wfail ?n - length (dst @ chunk)
         in (written + length chunk + k, (dst @ chunk) @ take k (drop (length chunk) src), copy_fails rfail wfail ?n))"
        using Suc.IH [of "drop (length chunk) src" "dst @ chunk" "written + length chunk"] fuel w len
        by simp
      ultimately show ?thesis using k by simp
    qed
    show ?thesis
    proof (cases wfail)
      case None
      then show ?thesis unfolding unfold using False rec by simp
    next
      case (Some w)
      show ?thesis
      proof (cases "w < ?pos + length chunk")
        case True
        have "copied rfail wfail ?n = w"
          using Some True chunk(2) rl by (fastforce simp: copied_def min_def split: option.splits)
        moreover have "copy_fails rfail wfail ?n" using Some True chunk(2) by (simp add: copy_fails_def)
        moreover have "take (w - ?pos) chunk = take (w - ?pos) src"
        proof -
          have "w - ?pos \<le> length chunk" using True by linarith
          then show ?thesis using chunk(1) by (metis min.absorb1 take_take)
        qed
        ultimately show ?thesis unfolding unfold using True False Some by (simp add: Let_def)
      next
        case wl: False
        then show ?thesis unfolding unfold using False Some rec by simp
      qed
    qed
  qed
qed simp

section \<open>Joining a directory and a base name\<close>

lemma join_slash_snoc: "join_slash (es @ [e]) = (if es = [] then e else join_slash es @ CHR ''/'' # e)"
  by (induction es rule: join_slash.induct) (auto split: if_splits)

lemma dir_prefix_slash: "dir_prefix (p @ [CHR ''/'']) = p @ [CHR ''/'']"
  by (simp add: dir_prefix_def)

lemma path_of_rooted: "path_of True es = CHR ''/'' # join_slash es"
  by (simp add: path_of_def)

text \<open>An absolute, cleaned path other than the root.\<close>

definition file_path :: "string \<Rightarrow> bool" where
  "file_path p \<longleftrightarrow> IsAbs p \<and> Clean p = p \<and> elems p \<noteq> []"

lemma file_path_snoc:
  assumes "file_path p"
  obtains es e where "p = path_of True (es @ [e])" and "list_all normal es" and "normal e"
proof -
  from assms have abs: "IsAbs p" and p: "p = path_of True (elems p)" and ne: "elems p \<noteq> []"
    by (auto simp: file_path_def Clean_def)
  have names: "list_all normal (elems p)"
    using canonical_elems [of p] abs by (auto simp: canonical_def)
  obtain es e where ee: "elems p = es @ [e]" using ne by (metis rev_exhaust)
  with names have "list_all normal es" and "normal e" by simp_all
  then show thesis using p unfolding ee by (rule that [rotated])
qed

lemma canonical_names: "list_all normal es \<Longrightarrow> canonical r es"
  using canonicalI [of es r 0] by simp

lemma Dir_path_of:
  assumes "list_all normal es" and "normal e"
  shows "Dir (path_of True (es @ [e])) = path_of True es"
proof -
  let ?d = "if es = [] then ''/'' else path_of True es @ ''/''"
  have slash: "CHR ''/'' \<notin> set e" using assms(2) by (simp add: normal_def)
  have "path_of True (es @ [e]) = ?d @ e" by (simp add: path_of_rooted join_slash_snoc)
  then have "dir_prefix (path_of True (es @ [e])) = dir_prefix ?d" using dir_prefix_suffix [OF slash] by metis
  also have "dir_prefix ?d = ?d" using dir_prefix_slash [of "path_of True es"] dir_prefix_slash [of "[]"] by simp
  finally have dp: "dir_prefix (path_of True (es @ [e])) = ?d" .
  show ?thesis
  proof (cases "es = []")
    case True
    then have "dir_prefix (path_of True (es @ [e])) = ''/''" using dp by simp
    then show ?thesis using True
      by (simp only: Dir_def) (simp add: Clean_def elems_def clean_skip path_of_rooted IsAbs_Cons)
  next
    case False
    have sp: "split_slash (path_of True es @ ''/'') = split_slash (path_of True es) @ [[]]"
      using split_slash_append [of "path_of True es" "[]"] by simp
    have "IsAbs (path_of True es @ ''/'')" by (simp add: path_of_rooted IsAbs_Cons)
    moreover have "elems (path_of True es @ ''/'') = elems (path_of True es)"
      unfolding elems_def sp by (simp add: path_of_rooted IsAbs_Cons clean_skip)
    ultimately show ?thesis
      using False elems_path_of [OF canonical_names [OF assms(1), of True]]
      by (simp only: Dir_def dp Clean_def if_False)
  qed
qed

lemma Base_path_of:
  assumes "normal e"
  shows "Base (path_of True (es @ [e])) = e"
proof -
  have e: "CHR ''/'' \<notin> set e" "e \<noteq> []" using assms by (simp_all add: normal_def)
  let ?d = "if es = [] then ''/'' else path_of True es @ ''/''"
  have p: "path_of True (es @ [e]) = ?d @ e" by (simp add: path_of_rooted join_slash_snoc)
  obtain x xs where rx: "rev e = x # xs" using e(2) by (cases "rev e") simp_all
  then have "x \<noteq> CHR ''/''" using e(1) by (metis list.set_intros(1) set_rev)
  then have q: "dropWhile (\<lambda>c. c = CHR ''/'') (rev (?d @ e)) = rev (?d @ e)" by (simp add: rx)
  have "takeWhile (\<lambda>c. c \<noteq> CHR ''/'') (rev e @ CHR ''/'' # ys) = rev e" for ys
    using e(1) by (subst takeWhile_append2) auto
  then have "takeWhile (\<lambda>c. c \<noteq> CHR ''/'') (rev (?d @ e)) = rev e" by simp
  with q e(2) show ?thesis unfolding p Base_def by (simp add: Let_def)
qed

lemma Join_Dir_Base:
  assumes "file_path p"
  shows "Join (Dir p) (Base p) = p"
proof -
  from file_path_snoc [OF assms] obtain es e where p: "p = path_of True (es @ [e])"
    and es: "list_all normal es" and e: "normal e" .
  have ce: "canonical True (es @ [e])" using es e by (simp add: canonical_names)
  have sp: "split_slash (path_of True es @ CHR ''/'' # e) = split_slash (path_of True es) @ [e]"
    using e by (simp add: split_slash_append split_slash_single normal_def)
  have "fold (clean_elem True) (split_slash (path_of True es)) [] = rev es"
    using elems_path_of [OF canonical_names [OF es, of True]] by (simp add: elems_def path_of_rooted IsAbs_Cons rev_swap)
  then have "elems (path_of True es @ CHR ''/'' # e) = es @ [e]"
    unfolding elems_def sp using e by (simp add: path_of_rooted IsAbs_Cons clean_normal)
  moreover have "IsAbs (path_of True es @ CHR ''/'' # e)" by (simp add: path_of_rooted IsAbs_Cons)
  ultimately show ?thesis
    by (simp add: p Dir_path_of [OF es e] Base_path_of [OF e] Join_def Clean_def) (simp add: path_of_rooted)
qed

text \<open>A suffix of more than two characters makes a sibling.\<close>

lemma file_path_append:
  assumes "file_path p" and "CHR ''/'' \<notin> set s" and "2 < length s"
  shows "file_path (p @ s)" and "Dir (p @ s) = Dir p"
    and "elems (p @ s) = butlast (elems p) @ [last (elems p) @ s]"
proof -
  from file_path_snoc [OF assms(1)] obtain es e where p: "p = path_of True (es @ [e])"
    and es: "list_all normal es" and e: "normal e" .
  have "length (e @ s) \<noteq> length dot" and "length (e @ s) \<noteq> length dotdot"
    using assms(3) by (simp_all add: dot_def dotdot_def)
  then have "e @ s \<noteq> dot" and "e @ s \<noteq> dotdot" by metis+
  then have e': "normal (e @ s)" using e assms(2) by (simp add: normal_def)
  have p': "p @ s = path_of True (es @ [e @ s])" by (simp add: p path_of_rooted join_slash_snoc)
  have c: "canonical True (es @ [e @ s])" and c0: "canonical True (es @ [e])"
    using es e e' by (simp_all add: canonical_names)
  show "Dir (p @ s) = Dir p"
    unfolding p' unfolding p using Dir_path_of [OF es e'] Dir_path_of [OF es e] by simp
  show "file_path (p @ s)"
    unfolding p' file_path_def using elems_path_of [OF c] by (simp add: Clean_def path_of_rooted IsAbs_Cons)
  show "elems (p @ s) = butlast (elems p) @ [last (elems p) @ s]"
    unfolding p' unfolding p elems_path_of [OF c] elems_path_of [OF c0] by simp
qed

section \<open>The commit\<close>

lemma wrap_err_simps [simp]: "wrap_err s e \<noteq> ErrTargetExists" "wrap_err s e \<noteq> ErrNotSibling"
  by (simp_all add: wrap_err_def)

lemma kernel_okD:
  assumes "kernel_ok K" and "f (Join sd sb) \<noteq> Some NDir"
  shows "rename_post (Join sd sb) (Join dd db) f (renameat2 K sd sb dd db f)"
    and "link_post (Join sd sb) (Join dd db) f (linkat K sd sb dd db f)"
    and "unlink_post (Join sd sb) f (unlinkat K sd sb f)"
  using assms unfolding kernel_ok_def by blast+

text \<open>What a successful commit leaves: the file under its new name, and no longer, or still, under the old one.\<close>

definition committed :: "string \<Rightarrow> string \<Rightarrow> fs \<Rightarrow> fs \<Rightarrow> bool" where
  "committed part final f f' \<longleftrightarrow> f part \<noteq> None \<and> f final = None \<and>
     (f' = moved part final f \<or> f' = f(final := f part))"

text \<open>The outcome of \<open>commitFile\<close> as a value: an error leaves the files as they were.\<close>

definition commit_post :: "string \<Rightarrow> string \<Rightarrow> fs \<Rightarrow> commit_error option \<times> fs \<Rightarrow> bool" where
  "commit_post part final f res \<longleftrightarrow> (case res of
     (None, f') \<Rightarrow> committed part final f f'
   | (Some e, f') \<Rightarrow> f' = f \<and> e \<noteq> ErrNotSibling \<and> (e = ErrTargetExists \<longrightarrow> f final \<noteq> None))"

lemma commit_post_fallback:
  assumes "kernel_ok K" and "f part \<noteq> Some NDir" and "Join sd sb = part" and "Join dd db = final"
  shows "commit_post part final f (case linkat K sd sb dd db f of
      (Some le, f2) \<Rightarrow> if le = EEXIST then (Some ErrTargetExists, f2)
                       else (Some (wrap_err s le), f2)
    | (None, f2) \<Rightarrow> (None, snd (unlinkat K sd sb f2)))"
proof (cases "linkat K sd sb dd db f")
  case (Pair le f2)
  have l: "link_post part final f (le, f2)"
    using kernel_okD(2) [OF assms(1), of f sd sb dd db] assms Pair by simp
  show ?thesis
  proof (cases le)
    case (Some x)
    with Pair l show ?thesis by (simp add: commit_post_def)
  next
    case None
    with l have f2: "f part \<noteq> None" "f final = None" "f2 = f(final := f part)" by simp_all
    then have ne: "part \<noteq> final" by auto
    obtain ue f3 where u: "unlinkat K sd sb f2 = (ue, f3)" by force
    have "unlink_post part f2 (ue, f3)"
      using kernel_okD(3) [OF assms(1), of f2 sd sb] assms f2 ne u by simp
    then have "f3 = f2 \<or> f3 = f2(part := None)" by (cases ue) simp_all
    with f2 have "committed part final f f3" by (auto simp: committed_def moved_def)
    with Pair None u show ?thesis by (simp add: commit_post_def)
  qed
qed

lemma commitFile_result:
  assumes "kernel_ok K" and "file_path part" and "file_path final" and "f part \<noteq> Some NDir"
  shows "commit_post part final f (commitFile K part final f)"
proof -
  let ?sd = "Dir part" and ?sb = "Base part" and ?dd = "Dir final" and ?db = "Base final"
  have J: "Join ?sd ?sb = part" "Join ?dd ?db = final"
    using assms(2,3) by (simp_all add: Join_Dir_Base)
  have io: "commit_post part final f (Some (wrap_err s e), f)" for s e by (simp add: commit_post_def)
  obtain re f1 where r: "renameat2 K ?sd ?sb ?dd ?db f = (re, f1)" by force
  have p: "rename_post part final f (re, f1)"
    using kernel_okD(1) [OF assms(1), of f ?sd ?sb ?dd ?db] assms(4) r J by simp
  note link = commit_post_fallback [where f = f and part = part and s = "''linkat fallback''", OF assms(1,4) J]
  show ?thesis
  proof (cases "open_dir K ?sd f = None \<and> open_dir K ?dd f = None")
    case False
    then show ?thesis by (cases "open_dir K ?sd f"; cases "open_dir K ?dd f") (simp_all add: commitFile_def Let_def io)
  next
    case True
    show ?thesis
    proof (cases re)
      case None
      with True r p show ?thesis by (simp add: commitFile_def Let_def commit_post_def committed_def)
    next
      case (Some x)
      with p have f1: "f1 = f" and ex: "x = EEXIST \<Longrightarrow> f final \<noteq> None" by simp_all
      have te: "x = EEXIST \<Longrightarrow> commit_post part final f (Some ErrTargetExists, f)"
        using ex by (simp add: commit_post_def)
      show ?thesis
        unfolding commitFile_def Let_def using True
        by (simp only: r Some f1 option.case prod.case if_split) (use link io te in blast)
    qed
  qed
qed

lemma committed_keeps:
  assumes "committed part final f f'"
  shows "q \<noteq> part \<Longrightarrow> f q = Some n \<Longrightarrow> f' q = Some n" and "f' final = f part"
  using assms by (auto simp: committed_def moved_def)

lemma commit_result:
  assumes "kernel_ok K" and "file_path part" and "file_path final" and "race f part \<noteq> Some NDir"
    and "CommitSiblingPart K lf race part final f = (e, f')"
  shows "f' = f \<and> e \<in> {Some ErrNotSibling, Some ErrTargetExists} \<and> (e = Some ErrTargetExists \<longrightarrow> f final \<noteq> None) \<or>
    f' = race f \<and> e \<noteq> None \<and> (e = Some ErrTargetExists \<longrightarrow> race f final \<noteq> None) \<or>
    committed part final (race f) f' \<and> e \<noteq> Some ErrTargetExists \<and> e \<noteq> Some ErrNotSibling"
proof (cases "Clean (Dir part) \<noteq> Clean (Dir final) \<or> f final \<noteq> None \<and> \<not> lf")
  case True
  then show ?thesis using assms(5) by (auto simp: CommitSiblingPart_def Let_def split: if_splits)
next
  case False
  obtain ce f1 where c: "commitFile K part final (race f) = (ce, f1)" by force
  have p: "commit_post part final (race f) (ce, f1)"
    using commitFile_result [of K part final "race f"] assms(1-4) c by simp
  show ?thesis
  proof (cases ce)
    case (Some x)
    with False c assms(5) have "e = Some x \<and> f' = f1"
      by (auto simp: CommitSiblingPart_def Let_def split: if_splits)
    with p Some show ?thesis by (simp add: commit_post_def)
  next
    case None
    with False c assms(5) have "f' = f1 \<and> e \<noteq> Some ErrTargetExists \<and> e \<noteq> Some ErrNotSibling"
      by (auto simp: CommitSiblingPart_def Let_def split: option.splits if_splits)
    with p None show ?thesis by (simp add: commit_post_def)
  qed
qed

text \<open>An executable kernel that behaves as documented.\<close>

definition plain_kernel :: kernel where
  "plain_kernel = \<lparr>open_dir = (\<lambda>_ _. None),
     renameat2 = (\<lambda>sd sb dd db f. if f (Join dd db) \<noteq> None then (Some EEXIST, f)
        else if f (Join sd sb) = None then (Some (EOther ''no such file or directory''), f)
        else (None, moved (Join sd sb) (Join dd db) f)),
     linkat = (\<lambda>sd sb dd db f. if f (Join dd db) \<noteq> None then (Some EEXIST, f)
        else if f (Join sd sb) = None then (Some (EOther ''no such file or directory''), f)
        else (None, f(Join dd db := f (Join sd sb)))),
     unlinkat = (\<lambda>sd sb f. if f (Join sd sb) = None then (Some (EOther ''no such file or directory''), f)
        else (None, f(Join sd sb := None))),
     fsync = (\<lambda>_ _. None)\<rparr>"

lemma plain_kernel_ok: "kernel_ok plain_kernel"
  by (auto simp: kernel_ok_def plain_kernel_def split: if_splits)

section \<open>Properties\<close>

text \<open>C11. A commit never overwrites and never loses data. Whatever another process does between the
  check and the rename, whichever system calls fail and whichever of the two commit paths is taken: every
  file other than the part is still there with its content, the content of the part is
  still there under its own or the final name, success means that the final name did not
  exist and now holds the content of the part, and \<open>ErrTargetExists\<close> is reported only when the final name
  exists, with nothing changed.\<close>

theorem commit_never_overwrites:
  assumes "kernel_ok K" and "file_path part" and "file_path final" and "race f part \<noteq> Some NDir"
    and "CommitSiblingPart K lf race part final f = (e, f')"
  shows "\<exists>h. (h = f \<or> h = race f) \<and> (\<forall>q n. q \<noteq> part \<longrightarrow> h q = Some n \<longrightarrow> f' q = Some n) \<and>
    (\<forall>n. h part = Some n \<longrightarrow> f' part = Some n \<or> f' final = Some n) \<and>
    (e = None \<longrightarrow> h = race f \<and> h final = None \<and> h part \<noteq> None \<and> f' final = h part) \<and>
    (e = Some ErrTargetExists \<longrightarrow> h final \<noteq> None \<and> f' = h)"
proof -
  from commit_result [OF assms] consider
      (same) "f' = f" "e \<in> {Some ErrNotSibling, Some ErrTargetExists}" "e = Some ErrTargetExists \<Longrightarrow> f final \<noteq> None"
    | (failed) "f' = race f" "e \<noteq> None" "e = Some ErrTargetExists \<Longrightarrow> race f final \<noteq> None"
    | (renamed) "committed part final (race f) f'" "e \<noteq> Some ErrTargetExists" by blast
  then show ?thesis
  proof cases
    case same
    then show ?thesis by (intro exI [of _ f]) auto
  next
    case failed
    then show ?thesis by (intro exI [of _ "race f"]) auto
  next
    case renamed
    note k = committed_keeps [OF renamed(1)]
    have "race f part \<noteq> None \<and> race f final = None" using renamed(1) by (simp add: committed_def)
    with k renamed(2) show ?thesis by (intro exI [of _ "race f"]) auto
  qed
qed

definition ex_fs :: fs where
  "ex_fs = [''/d/a.part'' \<mapsto> NFile ''xyz'', ''/d'' \<mapsto> NDir]"

lemma ex_paths: "file_path ''/d/a''" "file_path ''/d/a.part''" "Dir ''/d/a.part'' = Dir ''/d/a''"
  by (code_simp, code_simp, code_simp)

theorem commit_never_overwrites_witness:
  "snd (CommitSiblingPart plain_kernel False id ''/d/a.part'' ''/d/a'' ex_fs) ''/d/a'' = Some (NFile ''xyz'')"
proof -
  obtain e f' where c: "CommitSiblingPart plain_kernel False id ''/d/a.part'' ''/d/a'' ex_fs = (e, f')" by force
  have "e = None"
    using c ex_paths Join_Dir_Base [OF ex_paths(1)] Join_Dir_Base [OF ex_paths(2)]
    by (simp add: CommitSiblingPart_def Let_def commitFile_def plain_kernel_def syncDir_def ex_fs_def)
  with commit_never_overwrites [OF plain_kernel_ok ex_paths(2,1) _ c] c show ?thesis
    by (simp add: ex_fs_def)
qed

text \<open>The buffered copy computes the digest of what it wrote, and always ends: for every position of a
  read or write failure the destination is the prefix of the source before it, the number
  returned is its length, and the digest is returned exactly when everything was copied,
  synced and closed; then it is the digest of the whole source.\<close>

theorem copy_stream_exact:
  "CopyStreamSequential sha256 rfail wfail sf cf src =
    (let k = copied rfail wfail (length src);
         ok = (\<not> copy_fails rfail wfail (length src) \<and> \<not> sf \<and> \<not> cf)
     in (k, if ok then sha256 src else [], \<not> ok, take k src))"
proof -
  have "copied rfail wfail (length src) = length src" if "\<not> copy_fails rfail wfail (length src)"
    using that by (auto simp: copied_def copy_fails_def split: option.splits)
  then show ?thesis
    by (auto simp: CopyStreamSequential_def copy_loop_spec Let_def)
qed

end
