(* ===== verification/Storage_Meter.thy ===== *)
theory Storage_Meter
  imports File_Commit Prelude
begin

text \<open>
  The I/O meter (\<open>app/daemon/storage_meter.go\<close>): counters for the SSD and the archive, the wrappers that
  count what passes through them, and the metered digest of a file. A \<open>nil\<close> meter is \<open>None\<close>. A metered write
  is two steps, because other writers run between them.
\<close>

section \<open>State and operations\<close>

record StorageIOMeter =
  ssdWriteBytes :: int64
  ssdReadBytes :: int64
  ssdActiveWriters :: int64
  archiveWriteBytes :: int64
  archiveReadBytes :: int64
  archiveActiveWriters :: int64

definition NewStorageIOMeter :: StorageIOMeter where
  "NewStorageIOMeter = \<lparr>ssdWriteBytes = 0, ssdReadBytes = 0, ssdActiveWriters = 0,
     archiveWriteBytes = 0, archiveReadBytes = 0, archiveActiveWriters = 0\<rparr>"

text \<open>The readings. A \<open>nil\<close> meter reads zero.\<close>

definition meter_SSDWriteBytes :: "StorageIOMeter option \<Rightarrow> int64" where
  "meter_SSDWriteBytes mo = (case mo of None \<Rightarrow> 0 | Some m \<Rightarrow> ssdWriteBytes m)"

definition meter_SSDReadBytes :: "StorageIOMeter option \<Rightarrow> int64" where
  "meter_SSDReadBytes mo = (case mo of None \<Rightarrow> 0 | Some m \<Rightarrow> ssdReadBytes m)"

definition meter_SSDActiveWriters :: "StorageIOMeter option \<Rightarrow> int64" where
  "meter_SSDActiveWriters mo = (case mo of None \<Rightarrow> 0 | Some m \<Rightarrow> ssdActiveWriters m)"

definition meter_ArchiveWriteBytes :: "StorageIOMeter option \<Rightarrow> int64" where
  "meter_ArchiveWriteBytes mo = (case mo of None \<Rightarrow> 0 | Some m \<Rightarrow> archiveWriteBytes m)"

definition meter_ArchiveReadBytes :: "StorageIOMeter option \<Rightarrow> int64" where
  "meter_ArchiveReadBytes mo = (case mo of None \<Rightarrow> 0 | Some m \<Rightarrow> archiveReadBytes m)"

definition meter_ArchiveActiveWriters :: "StorageIOMeter option \<Rightarrow> int64" where
  "meter_ArchiveActiveWriters mo = (case mo of None \<Rightarrow> 0 | Some m \<Rightarrow> archiveActiveWriters m)"

definition RecordSSDWrite :: "int64 \<Rightarrow> StorageIOMeter option \<Rightarrow> StorageIOMeter option" where
  "RecordSSDWrite n mo = (case mo of
     Some m \<Rightarrow> Some (if n > 0 then m\<lparr>ssdWriteBytes := i64 (ssdWriteBytes m + n)\<rparr> else m) | None \<Rightarrow> None)"

definition RecordSSDRead :: "int64 \<Rightarrow> StorageIOMeter option \<Rightarrow> StorageIOMeter option" where
  "RecordSSDRead n mo = (case mo of
     Some m \<Rightarrow> Some (if n > 0 then m\<lparr>ssdReadBytes := i64 (ssdReadBytes m + n)\<rparr> else m) | None \<Rightarrow> None)"

definition RecordArchiveWrite :: "int64 \<Rightarrow> StorageIOMeter option \<Rightarrow> StorageIOMeter option" where
  "RecordArchiveWrite n mo = (case mo of
     Some m \<Rightarrow> Some (if n > 0 then m\<lparr>archiveWriteBytes := i64 (archiveWriteBytes m + n)\<rparr> else m) | None \<Rightarrow> None)"

definition RecordArchiveRead :: "int64 \<Rightarrow> StorageIOMeter option \<Rightarrow> StorageIOMeter option" where
  "RecordArchiveRead n mo = (case mo of
     Some m \<Rightarrow> Some (if n > 0 then m\<lparr>archiveReadBytes := i64 (archiveReadBytes m + n)\<rparr> else m) | None \<Rightarrow> None)"

text \<open>The two steps of a metered \<open>WriteAt\<close> on the SSD: entering, and leaving after \<open>n\<close> bytes.\<close>

definition ssd_write_begin :: "StorageIOMeter \<Rightarrow> StorageIOMeter" where
  "ssd_write_begin m = m\<lparr>ssdActiveWriters := i64 (ssdActiveWriters m + 1)\<rparr>"

definition ssd_write_end :: "int64 \<Rightarrow> StorageIOMeter \<Rightarrow> StorageIOMeter" where
  "ssd_write_end n m =
     (let m1 = (if n > 0 then m\<lparr>ssdWriteBytes := i64 (ssdWriteBytes m + n)\<rparr> else m)
      in m1\<lparr>ssdActiveWriters := i64 (ssdActiveWriters m1 - 1)\<rparr>)"

text \<open>
  The digest of a file and the bytes read for it. \<open>rfail\<close> is the position at which reading fails, if any; a
  failure to open is a failure at position 0. Reading a directory fails.
\<close>

definition file_digest :: "(string \<Rightarrow> string) \<Rightarrow> nat option \<Rightarrow> fs \<Rightarrow> string \<Rightarrow> string option \<times> nat" where
  "file_digest sha256 rfail f p = (case f p of
     Some (NFile c) \<Rightarrow> (case rfail of
         None \<Rightarrow> (Some (sha256 c), length c)
       | Some r \<Rightarrow> if r \<le> length c then (None, r) else (Some (sha256 c), length c))
   | _ \<Rightarrow> (None, 0))"

definition ComputeSSDFileSHA256 ::
  "(string \<Rightarrow> string) \<Rightarrow> nat option \<Rightarrow> fs \<Rightarrow> string \<Rightarrow> StorageIOMeter option \<Rightarrow> string option \<times> StorageIOMeter option" where
  "ComputeSSDFileSHA256 sha256 rfail f p m =
     (let (d, n) = file_digest sha256 rfail f p in (d, RecordSSDRead (int n) m))"

definition ComputeArchiveFileSHA256 ::
  "(string \<Rightarrow> string) \<Rightarrow> nat option \<Rightarrow> fs \<Rightarrow> string \<Rightarrow> StorageIOMeter option \<Rightarrow> string option \<times> StorageIOMeter option" where
  "ComputeArchiveFileSHA256 sha256 rfail f p m =
     (let (d, n) = file_digest sha256 rfail f p in (d, RecordArchiveRead (int n) m))"

section \<open>Lemmas\<close>

lemma digest_sound: "fst (file_digest sha256 rfail f p) = Some d \<Longrightarrow> \<exists>c. f p = Some (NFile c) \<and> sha256 c = d"
  by (auto simp: file_digest_def split: option.splits node.splits if_splits)

lemma digest_complete: "f p = Some (NFile c) \<Longrightarrow> fst (file_digest sha256 None f p) = Some (sha256 c)"
  by (simp add: file_digest_def)

lemma compute_digest [simp]:
  "fst (ComputeSSDFileSHA256 sha256 rfail f p m) = fst (file_digest sha256 rfail f p)"
  "fst (ComputeArchiveFileSHA256 sha256 rfail f p m) = fst (file_digest sha256 rfail f p)"
  by (simp_all add: ComputeSSDFileSHA256_def ComputeArchiveFileSHA256_def split_def Let_def)

text \<open>An interleaving of concurrent writers is a list of entries and exits.\<close>

datatype meter_ev = Enter | Leave int64

fun meter_step :: "meter_ev \<Rightarrow> StorageIOMeter \<Rightarrow> StorageIOMeter" where
  "meter_step Enter m = ssd_write_begin m"
| "meter_step (Leave n) m = ssd_write_end n m"

fun writers_in :: "meter_ev list \<Rightarrow> int" where
  "writers_in [] = 0"
| "writers_in (Enter # es) = 1 + writers_in es"
| "writers_in (Leave _ # es) = writers_in es - 1"

fun bytes_out :: "meter_ev list \<Rightarrow> int" where
  "bytes_out [] = 0"
| "bytes_out (Enter # es) = bytes_out es"
| "bytes_out (Leave n # es) = max 0 n + bytes_out es"

lemma meter_fold:
  "i64 (ssdActiveWriters (fold meter_step es m)) = i64 (ssdActiveWriters m + writers_in es)"
  "i64 (ssdWriteBytes (fold meter_step es m)) = i64 (ssdWriteBytes m + bytes_out es)"
proof (induction es arbitrary: m)
  case (Cons e es)
  {
    case 1
    show ?case
      using Cons(1) [of "meter_step e m"]
        i64_add [of "ssdActiveWriters m + 1" "writers_in es"] i64_add [of "ssdActiveWriters m - 1" "writers_in es"]
      by (cases e) (simp_all add: ssd_write_begin_def ssd_write_end_def Let_def algebra_simps split: if_splits)
  next
    case 2
    show ?case
    proof (cases e)
      case Enter
      then show ?thesis using Cons(2) [of "meter_step e m"] by (simp add: ssd_write_begin_def)
    next
      case (Leave n)
      then show ?thesis
        using Cons(2) [of "meter_step e m"] i64_add [of "ssdWriteBytes m + n" "bytes_out es"]
        by (simp add: ssd_write_end_def Let_def max_def algebra_simps split: if_splits)
    qed
  }
qed simp_all

lemma meter_fits:
  assumes "fits64 (ssdActiveWriters m)" and "fits64 (ssdWriteBytes m)"
  shows "fits64 (ssdActiveWriters (fold meter_step es m)) \<and> fits64 (ssdWriteBytes (fold meter_step es m))"
  using assms
proof (induction es arbitrary: m)
  case (Cons e es)
  have "fits64 (ssdActiveWriters (meter_step e m)) \<and> fits64 (ssdWriteBytes (meter_step e m))"
    using Cons.prems by (cases e) (simp_all add: ssd_write_begin_def ssd_write_end_def Let_def i64_fits)
  then show ?case using Cons.IH [of "meter_step e m"] by simp
qed simp

section \<open>Properties\<close>

text \<open>Under every interleaving of concurrent SSD writers the meter is exact: the active-writers gauge is the
  number of writers inside, back to zero when all have left, and the byte counter is the sum
  of the bytes they wrote, as long as the sums fit an int64.\<close>

theorem meter_exact:
  assumes "fits64 (writers_in es)" and "fits64 (bytes_out es)"
  shows "ssdActiveWriters (fold meter_step es NewStorageIOMeter) = writers_in es \<and>
    ssdWriteBytes (fold meter_step es NewStorageIOMeter) = bytes_out es"
  using assms meter_fold [of es NewStorageIOMeter] meter_fits [of NewStorageIOMeter es]
  by (simp add: NewStorageIOMeter_def i64_id fits64_def)

theorem meter_exact_witness:
  "ssdActiveWriters (fold meter_step [Enter, Enter, Leave 5, Leave 7] NewStorageIOMeter) = 0 \<and>
   ssdWriteBytes (fold meter_step [Enter, Enter, Leave 5, Leave 7] NewStorageIOMeter) = 12"
  using meter_exact [of "[Enter, Enter, Leave 5, Leave 7]"] by (simp add: fits64_def del: fold.simps)

end
