(* ===== verification/Sql_Table.thy ===== *)
theory Sql_Table
  imports Prelude
begin

text \<open>
  The statements of the program's SQL that the database operations are built from, over a table
  with a primary key. A table is the list of its rows with their keys, in insertion order. A
  statement that fails leaves the table as it was; which statements of a call fail is an
  argument of the database operations.

  \<^item> \<open>tab_sel t k\<close>: \<open>SELECT ... WHERE pk = k\<close>;
  \<^item> \<open>tab_upd k c f t\<close>: \<open>UPDATE ... SET f WHERE pk = k AND c\<close>, with the number of rows affected;
  \<^item> \<open>tab_upd_all c f t\<close>: \<open>UPDATE ... SET f WHERE c\<close>;
  \<^item> \<open>tab_ins k r t\<close>: \<open>INSERT\<close> of a row whose key is new;
  \<^item> \<open>tab_upsert k r f t\<close>: \<open>INSERT ... ON CONFLICT(pk) DO UPDATE SET f\<close>;
  \<^item> \<open>tab_del c t\<close>: \<open>DELETE ... WHERE c\<close>.
\<close>

type_synonym ('k, 'r) table = "('k \<times> 'r) list"

definition tab_sel :: "('k, 'r) table \<Rightarrow> 'k \<Rightarrow> 'r option" where
  "tab_sel t k = map_of t k"

definition tab_upd :: "'k \<Rightarrow> ('r \<Rightarrow> bool) \<Rightarrow> ('r \<Rightarrow> 'r) \<Rightarrow> ('k, 'r) table \<Rightarrow> ('k, 'r) table \<times> nat" where
  "tab_upd k c f t =
     (map (\<lambda>(j, r). (j, if j = k \<and> c r then f r else r)) t,
      length (filter (\<lambda>(j, r). j = k \<and> c r) t))"

definition tab_upd_all :: "('k \<Rightarrow> 'r \<Rightarrow> bool) \<Rightarrow> ('r \<Rightarrow> 'r) \<Rightarrow> ('k, 'r) table \<Rightarrow> ('k, 'r) table" where
  "tab_upd_all c f t = map (\<lambda>(j, r). (j, if c j r then f r else r)) t"

definition tab_ins :: "'k \<Rightarrow> 'r \<Rightarrow> ('k, 'r) table \<Rightarrow> ('k, 'r) table" where
  "tab_ins k r t = t @ [(k, r)]"

definition tab_upsert :: "'k \<Rightarrow> 'r \<Rightarrow> ('r \<Rightarrow> 'r) \<Rightarrow> ('k, 'r) table \<Rightarrow> ('k, 'r) table" where
  "tab_upsert k r f t =
     (case tab_sel t k of None \<Rightarrow> tab_ins k r t | Some _ \<Rightarrow> fst (tab_upd k (\<lambda>_. True) f t))"

definition tab_del :: "('k \<Rightarrow> 'r \<Rightarrow> bool) \<Rightarrow> ('k, 'r) table \<Rightarrow> ('k, 'r) table" where
  "tab_del c t = filter (\<lambda>(j, r). \<not> c j r) t"

text \<open>The primary key constraint.\<close>

definition pk :: "('k, 'r) table \<Rightarrow> bool" where
  "pk t \<longleftrightarrow> distinct (map fst t)"

section \<open>What the database operations rely on\<close>

locale keyed_table =
  fixes sel :: "'t \<Rightarrow> 'k \<Rightarrow> 'r option"
    and upd :: "'k \<Rightarrow> ('r \<Rightarrow> bool) \<Rightarrow> ('r \<Rightarrow> 'r) \<Rightarrow> 't \<Rightarrow> 't \<times> nat"
    and ins :: "'k \<Rightarrow> 'r \<Rightarrow> 't \<Rightarrow> 't"
    and tinv :: "'t \<Rightarrow> bool"
  assumes sel_upd: "tinv t \<Longrightarrow> sel (fst (upd k c f t)) j =
      (if j = k then map_option (\<lambda>r. if c r then f r else r) (sel t k) else sel t j)"
    and upd_count: "tinv t \<Longrightarrow>
      snd (upd k c f t) = (case sel t k of None \<Rightarrow> 0 | Some r \<Rightarrow> if c r then 1 else 0)"
    and sel_ins: "tinv t \<Longrightarrow> sel t k = None \<Longrightarrow> sel (ins k r t) j = (if j = k then Some r else sel t j)"
    and tinv_upd: "tinv t \<Longrightarrow> tinv (fst (upd k c f t))"
    and tinv_ins: "tinv t \<Longrightarrow> sel t k = None \<Longrightarrow> tinv (ins k r t)"
begin

text \<open>A guarded update is a compare-and-swap: it reports a row exactly when the guard held.\<close>

lemma cas_hit:
  "tinv t \<Longrightarrow> snd (upd k c f t) \<noteq> 0 \<longleftrightarrow> (\<exists>r. sel t k = Some r \<and> c r)"
  by (simp add: upd_count split: option.splits)

lemma cas_result:
  assumes "tinv t" and "snd (upd k c f t) \<noteq> 0"
  obtains r where "sel t k = Some r" and "c r" and "sel (fst (upd k c f t)) k = Some (f r)"
  using assms by (auto simp: upd_count sel_upd split: option.splits if_splits)

text \<open>If the update leaves the guard, a second one with the same guard finds nothing.\<close>

lemma cas_once:
  assumes "tinv t" and "snd (upd k c f t) \<noteq> 0" and "\<And>r. c r \<Longrightarrow> \<not> c (f r)"
  shows "snd (upd k c g (fst (upd k c f t))) = 0"
  using assms by (auto simp: upd_count sel_upd tinv_upd split: option.splits if_splits)

lemma cas_miss_unchanged:
  assumes "tinv t" and "snd (upd k c f t) = 0"
  shows "sel (fst (upd k c f t)) j = sel t j"
  using assms by (auto simp: upd_count sel_upd split: option.splits if_splits)

lemma cas_frame: "tinv t \<Longrightarrow> j \<noteq> k \<Longrightarrow> sel (fst (upd k c f t)) j = sel t j"
  by (simp add: sel_upd)

end

lemma map_of_map_snd:
  "map_of (map (\<lambda>(j, r). (j, g j r)) t) k = map_option (g k) (map_of t k)"
  by (induction t) auto

lemma pk_count:
  "distinct (map fst t) \<Longrightarrow> length (filter (\<lambda>(j, r). j = k \<and> c r) t) =
     (case map_of t k of None \<Rightarrow> 0 | Some r \<Rightarrow> if c r then 1 else 0)"
proof (induction t)
  case (Cons p t)
  obtain j r where p: "p = (j, r)" by force
  have none: "filter (\<lambda>(j, r). j = k \<and> c r) t = []" if "k \<notin> fst ` set t"
    using that by (force simp: filter_empty_conv)
  show ?case using Cons p none by (auto split: option.splits)
qed simp

lemma fst_map_snd: "map fst (map (\<lambda>(j, r). (j, g j r)) t) = map fst t"
  by (induction t) auto

interpretation tab: keyed_table tab_sel tab_upd tab_ins pk
proof
  fix t :: "('a \<times> 'b) list" and k j and c :: "'b \<Rightarrow> bool" and f and r
  show "tab_sel (fst (tab_upd k c f t)) j =
      (if j = k then map_option (\<lambda>r. if c r then f r else r) (tab_sel t k) else tab_sel t j)"
    using map_of_map_snd [of "\<lambda>j r. if j = k \<and> c r then f r else r" t j]
    by (auto simp: tab_sel_def tab_upd_def option.map_ident)
  show "pk t \<Longrightarrow> snd (tab_upd k c f t) =
      (case tab_sel t k of None \<Rightarrow> 0 | Some r \<Rightarrow> if c r then 1 else 0)"
    by (simp add: pk_def tab_sel_def tab_upd_def pk_count)
  show "tab_sel t k = None \<Longrightarrow> tab_sel (tab_ins k r t) j = (if j = k then Some r else tab_sel t j)"
    by (auto simp: tab_sel_def tab_ins_def map_add_def split: option.splits)
  show "pk t \<Longrightarrow> pk (fst (tab_upd k c f t))"
    by (simp add: pk_def tab_upd_def fst_map_snd del: map_map)
  show "pk t \<Longrightarrow> tab_sel t k = None \<Longrightarrow> pk (tab_ins k r t)"
    by (simp add: pk_def tab_sel_def tab_ins_def map_of_eq_None_iff)
qed

lemmas tab_laws [simp] =
  tab.sel_upd tab.upd_count tab.sel_ins tab.tinv_upd tab.tinv_ins

lemma pk_Nil [simp]: "pk []"
  by (simp add: pk_def)

lemma tab_sel_Nil [simp]: "tab_sel [] k = None"
  by (simp add: tab_sel_def)

lemma tab_sel_upd_all [simp]:
  "tab_sel (tab_upd_all c f t) k = map_option (\<lambda>r. if c k r then f r else r) (tab_sel t k)"
  using map_of_map_snd [of "\<lambda>j r. if c j r then f r else r" t k]
  by (simp add: tab_sel_def tab_upd_all_def)

lemma pk_upd_all [simp]: "pk (tab_upd_all c f t) \<longleftrightarrow> pk t"
  by (simp add: pk_def tab_upd_all_def fst_map_snd del: map_map)

lemma tab_sel_upsert [simp]:
  "pk t \<Longrightarrow> tab_sel (tab_upsert k r f t) j =
     (if j = k then Some (case tab_sel t k of None \<Rightarrow> r | Some o' \<Rightarrow> f o') else tab_sel t j)"
  by (auto simp: tab_upsert_def split: option.splits)

lemma pk_upsert [simp]: "pk t \<Longrightarrow> pk (tab_upsert k r f t)"
  by (auto simp: tab_upsert_def split: option.splits)

lemma pk_del [simp]: "pk t \<Longrightarrow> pk (tab_del c t)"
  by (simp add: pk_def tab_del_def distinct_map_filter)

lemma tab_sel_del: "pk t \<Longrightarrow> tab_sel (tab_del c t) k =
    (case tab_sel t k of None \<Rightarrow> None | Some r \<Rightarrow> if c k r then None else Some r)"
proof (induction t)
  case (Cons p t)
  obtain j r where p: "p = (j, r)" by force
  have "k \<notin> fst ` set t \<Longrightarrow> map_of (filter P t) k = None" for P
    by (auto simp: map_of_eq_None_iff)
  with Cons p show ?case
    by (auto simp: tab_sel_def tab_del_def pk_def map_of_eq_None_iff split: option.splits)
qed (simp add: tab_del_def)

end
