(* ===== verification/Db_Schema.thy ===== *)
theory Db_Schema
  imports Sql_Table Go_Strings
begin

text \<open>
  The schema of the daemon's database (\<open>initSchema\<close> in \<open>app/daemon/db.go\<close>): a record per table row,
  the database as the record of its tables, the errors its operations return and the structured
  failure (\<open>FailureDisposition\<close> in \<open>app/daemon/registry.go\<close>) they store.

  A nullable column that some statement leaves or reads as NULL is an option; a status or state text is a constructor of its datatype, with
  \<open>StOther\<close> and \<open>ArcOther\<close> for any other text. Counters that only ever hold 0, 1 or an increment
  (\<open>attempts\<close>, \<open>revision\<close>) are naturals.

  Every operation of the later theories takes \<open>io :: nat \<Rightarrow> bool\<close>: \<open>io i\<close> says that the operation's
  \<open>i\<close>-th statement, in source order, fails when it is reached. A failed statement changes nothing
  and makes the operation return \<open>ErrSql\<close>, unless the code ignores the error. A transaction
  that is not committed leaves the database as it was.
\<close>

text \<open>Keys are pairs; quantifiers over them stay whole.\<close>

declare split_paired_All [simp del] split_paired_Ex [simp del]

section \<open>Rows\<close>

datatype rec_status =
    Pending | Resolving | Moving | Downloading | Committing
  | Success | Failed | Unavailable | Conflict | StOther string

type_synonym msg_key = "string \<times> int"

record download_row =
  d_status :: rec_status
  d_file_name :: "string option"
  d_save_path :: "string option"
  d_media_type :: "string option"
  d_file_size :: "int64 option"
  d_sha256 :: "string option"
  d_error :: "string option"
  d_created_at :: int64
  d_updated_at :: int64
  d_downloaded_at :: "int64 option"
  d_processing_started_at :: "int64 option"
  d_attempts :: nat
  d_next_retry_at :: int64
  d_attempt_generation :: string

datatype arc_state = ArcPending | ArcCopying | ArcArchived | ArcConflict | ArcOther string

record archive_row =
  a_relative_path :: string
  a_expected_size :: int64
  a_sha256 :: string
  a_state :: arc_state
  a_attempts :: nat
  a_next_retry_at :: int64
  a_claim_id :: string
  a_last_error :: "string option"
  a_created_at :: int64
  a_updated_at :: int64

record cursor_row =
  c_cursor :: int
  c_mirrored_cursor :: int
  c_updated_at :: int64

record message_row =
  m_sender_id :: string
  m_sender_name :: string
  m_text :: string
  m_media_type :: string
  m_has_media :: bool
  m_reply_to_message_id :: int
  m_date :: int64
  m_created_at :: int64
  m_updated_at :: int64

record target_row =
  t_enabled :: bool
  t_title :: string
  t_username :: string
  t_chat_type :: string
  t_download_filter :: string
  t_upload_telegram_chat_id :: string
  t_priority :: int
  t_created_at :: int64
  t_updated_at :: int64
  t_revision :: nat
  t_peer_id :: string

record account_row =
  u_user_id :: int64
  u_first_name :: string
  u_last_name :: string
  u_username :: string
  u_phone :: string
  u_is_premium :: bool
  u_is_active :: bool
  u_created_at :: int64
  u_updated_at :: int64

record database =
  download_records :: "(msg_key, download_row) table"
  archive_jobs :: "(msg_key, archive_row) table"
  chat_scan_cursors :: "(string, cursor_row) table"
  chat_messages :: "(msg_key, message_row) table"
  listen_targets :: "(string, target_row) table"
  telegram_accounts :: "(string, account_row) table"

definition initSchema :: database where
  "initSchema = \<lparr>download_records = [], archive_jobs = [], chat_scan_cursors = [],
     chat_messages = [], listen_targets = [], telegram_accounts = []\<rparr>"

definition db_ok :: "database \<Rightarrow> bool" where
  "db_ok db \<longleftrightarrow> pk (download_records db) \<and> pk (archive_jobs db) \<and> pk (chat_scan_cursors db) \<and>
     pk (chat_messages db) \<and> pk (listen_targets db) \<and> pk (telegram_accounts db)"

abbreviation drow :: "database \<Rightarrow> msg_key \<Rightarrow> download_row option" where
  "drow db \<equiv> tab_sel (download_records db)"

abbreviation arow :: "database \<Rightarrow> msg_key \<Rightarrow> archive_row option" where
  "arow db \<equiv> tab_sel (archive_jobs db)"

lemma db_okD [simp, dest]:
  assumes "db_ok db"
  shows "pk (download_records db)" and "pk (archive_jobs db)" and "pk (chat_scan_cursors db)"
    and "pk (chat_messages db)" and "pk (listen_targets db)" and "pk (telegram_accounts db)"
  using assms by (simp_all add: db_ok_def)

lemma db_okI:
  assumes "pk (download_records db)" and "pk (archive_jobs db)" and "pk (chat_scan_cursors db)"
    and "pk (chat_messages db)" and "pk (listen_targets db)" and "pk (telegram_accounts db)"
  shows "db_ok db"
  using assms unfolding db_ok_def by blast

lemma db_ok_initSchema [simp]: "db_ok initSchema"
  by (rule db_okI) (simp_all add: initSchema_def)

lemma db_ok_upd [simp]:
  "db_ok db \<Longrightarrow> pk t \<Longrightarrow> db_ok (db\<lparr>download_records := t\<rparr>)"
  "db_ok db \<Longrightarrow> pk t' \<Longrightarrow> db_ok (db\<lparr>archive_jobs := t'\<rparr>)"
  by (auto intro!: db_okI)

text \<open>No statement fails.\<close>

definition no_fault :: "nat \<Rightarrow> bool" where
  "no_fault i \<longleftrightarrow> False"

lemma no_fault [simp]: "no_fault i = False"
  by (simp add: no_fault_def)

section \<open>Column expressions\<close>

text \<open>\<open>COALESCE(col, x)\<close>, and \<open>CASE WHEN ? != '' THEN ? ELSE col END\<close> for texts and sizes.\<close>

definition coalesce :: "'a option \<Rightarrow> 'a \<Rightarrow> 'a" where
  "coalesce c x = (case c of None \<Rightarrow> x | Some v \<Rightarrow> v)"

definition set_text :: "string \<Rightarrow> string option \<Rightarrow> string option" where
  "set_text s c = (if s \<noteq> [] then Some s else c)"

definition set_size :: "int64 \<Rightarrow> int64 option \<Rightarrow> int64 option" where
  "set_size n c = (if n > 0 then Some n else c)"

lemma coalesce_simps [simp]: "coalesce None x = x" "coalesce (Some v) x = v"
  by (simp_all add: coalesce_def)

text \<open>The columns an \<open>INSERT\<close> that does not name them gets from the schema.\<close>

definition new_download :: "rec_status \<Rightarrow> int64 \<Rightarrow> download_row" where
  "new_download st now = \<lparr>d_status = st, d_file_name = None, d_save_path = None, d_media_type = None,
     d_file_size = None, d_sha256 = None, d_error = None, d_created_at = now, d_updated_at = now,
     d_downloaded_at = None, d_processing_started_at = None, d_attempts = 0, d_next_retry_at = 0,
     d_attempt_generation = []\<rparr>"

section \<open>Errors\<close>

record success_proof =
  SavePath :: string
  FileSize :: int64
  SHA256 :: string

datatype db_error =
    ErrStateConflict
  | ErrStaleAttempt
  | ErrAlreadySuccess success_proof
  | ErrArchiveConflict
  | ErrConflictRecordNotFound
  | ErrSql

text \<open>\<open>errors.Is\<close>: \<open>ErrArchiveConflict\<close> wraps \<open>ErrStateConflict\<close>.\<close>

fun Is_StateConflict :: "db_error option \<Rightarrow> bool" where
  "Is_StateConflict (Some ErrStateConflict) = True"
| "Is_StateConflict (Some ErrArchiveConflict) = True"
| "Is_StateConflict _ = False"

text \<open>What a success record must carry, and the proof it carries.\<close>

definition row_proof :: "download_row \<Rightarrow> string \<times> int64 \<times> string" where
  "row_proof r = (coalesce (d_save_path r) [], coalesce (d_file_size r) 0, coalesce (d_sha256 r) [])"

definition proof_missing :: "download_row \<Rightarrow> bool" where
  "proof_missing r \<longleftrightarrow> coalesce (d_sha256 r) [] = [] \<or> coalesce (d_save_path r) [] = [] \<or>
     coalesce (d_file_size r) 0 \<le> 0"

section \<open>The structured failure\<close>

record FailureDisposition =
  f_Stage :: string
  f_Op :: string
  f_Class :: string
  f_Unavailable :: bool
  f_Retryable :: bool
  f_RetryOwner :: string
  f_PhysicalAttemptID :: string
  f_Message :: string
  f_Cause :: "string option"

definition disp_Error :: "FailureDisposition \<Rightarrow> string" where
  "disp_Error d =
     (let msg = (if f_Message d = [] then coalesce (f_Cause d) (f_Message d) else f_Message d)
      in if f_Stage d \<noteq> [] \<or> f_Op d \<noteq> []
         then let owner = (if f_RetryOwner d = [] then ''none'' else f_RetryOwner d);
                  class' = (if f_Class d = [] then ''error'' else f_Class d)
              in ''['' @ f_Stage d @ '':'' @ f_Op d @ '':'' @ class' @ ''] '' @ msg @
                 '' (owner='' @ owner @ '', retryable='' @ show_bool (f_Retryable d) @ '')''
         else msg)"

end
