(* ===== verification/Archive_Jobs.thy ===== *)
theory Archive_Jobs
  imports Db_Schema
begin

text \<open>
  The archive queue of \<open>app/daemon/db.go\<close>: enqueueing a job inside the completing transaction
  (\<open>ensureArchiveJobLocked\<close>), claiming, completing, failing and conflicting a job, the two
  recovery updates and the queries. The lemmas show how a job row may change (its identity is
  fixed, archived and conflict are final), that a claim fences off every other worker, and that the
  retry delay stays within its bounds.
\<close>

section \<open>Operations\<close>

definition same_identity :: "archive_row \<Rightarrow> string \<Rightarrow> int64 \<Rightarrow> string \<Rightarrow> bool" where
  "same_identity r relPath sz sha \<longleftrightarrow>
     a_sha256 r = sha \<and> a_relative_path r = relPath \<and> a_expected_size r = sz"

definition new_archive_row :: "string \<Rightarrow> int64 \<Rightarrow> string \<Rightarrow> int64 \<Rightarrow> int64 \<Rightarrow> archive_row" where
  "new_archive_row relPath sz sha created updated = \<lparr>a_relative_path = relPath,
     a_expected_size = sz, a_sha256 = sha, a_state = ArcPending, a_attempts = 0,
     a_next_retry_at = 0, a_claim_id = [], a_last_error = None, a_created_at = created,
     a_updated_at = updated\<rparr>"

definition upd_archive ::
  "msg_key \<Rightarrow> (archive_row \<Rightarrow> bool) \<Rightarrow> (archive_row \<Rightarrow> archive_row) \<Rightarrow> database \<Rightarrow> database \<times> nat" where
  "upd_archive k c f db =
     (let (t, n) = tab_upd k c f (archive_jobs db) in (db\<lparr>archive_jobs := t\<rparr>, n))"

definition ensureArchiveJobLocked ::
  "(nat \<Rightarrow> bool) \<Rightarrow> int64 \<Rightarrow> msg_key \<Rightarrow> string \<Rightarrow> int64 \<Rightarrow> string \<Rightarrow> database \<Rightarrow>
    db_error option \<times> database" where
  "ensureArchiveJobLocked io now k relPath sz sha tx =
     (if io 0 then (Some ErrSql, tx)
      else case arow tx k of
        None \<Rightarrow>
          if io 1 then (Some ErrSql, tx)
          else (None, tx\<lparr>archive_jobs :=
                  tab_ins k (new_archive_row relPath sz sha now now) (archive_jobs tx)\<rparr>)
      | Some r \<Rightarrow>
          (case a_state r of
             ArcArchived \<Rightarrow>
               if \<not> same_identity r relPath sz sha then (Some ErrArchiveConflict, tx) else (None, tx)
           | ArcConflict \<Rightarrow>
               if \<not> same_identity r relPath sz sha then (Some ErrArchiveConflict, tx) else (None, tx)
           | ArcCopying \<Rightarrow>
               if \<not> same_identity r relPath sz sha then (Some ErrArchiveConflict, tx) else (None, tx)
           | _ \<Rightarrow>
               if same_identity r relPath sz sha then (None, tx)
               else if io 2 then (Some ErrSql, tx)
               else (Some ErrArchiveConflict,
                     fst (upd_archive k (\<lambda>_. True)
                       (\<lambda>r. r\<lparr>a_state := ArcConflict,
                              a_last_error := Some ''archive identity mismatch on duplicate download complete'',
                              a_updated_at := now\<rparr>) tx))))"

definition limit_rows :: "int \<Rightarrow> 'a list \<Rightarrow> 'a list" where
  "limit_rows limit xs = (if limit < 0 then xs else take (nat limit) xs)"

definition GetDueArchiveJobs ::
  "(nat \<Rightarrow> bool) \<Rightarrow> int64 \<Rightarrow> int \<Rightarrow> database \<Rightarrow> db_error + (msg_key \<times> archive_row) list" where
  "GetDueArchiveJobs io now limit db =
     (if io 0 then Inl ErrSql
      else Inr (limit_rows limit (sort_key (\<lambda>(k, r). a_created_at r)
             (filter (\<lambda>(k, r). a_state r = ArcPending \<and> a_next_retry_at r \<le> now)
                (archive_jobs db)))))"

definition ClaimArchiveJob ::
  "(nat \<Rightarrow> bool) \<Rightarrow> int64 \<Rightarrow> msg_key \<Rightarrow> string \<Rightarrow> database \<Rightarrow> (db_error + bool) \<times> database" where
  "ClaimArchiveJob io now k claimID db =
     (if io 0 then (Inl ErrSql, db)
      else let (db', n) = upd_archive k (\<lambda>r. a_state r = ArcPending)
             (\<lambda>r. r\<lparr>a_state := ArcCopying, a_claim_id := claimID, a_updated_at := now\<rparr>) db
           in (Inr (n > 0), db'))"

definition claim_matches :: "string \<Rightarrow> archive_row \<Rightarrow> bool" where
  "claim_matches claimID r \<longleftrightarrow> a_claim_id r = claimID \<or> a_claim_id r = []"

definition stale_claim :: "string \<Rightarrow> archive_row \<Rightarrow> bool" where
  "stale_claim claimID r \<longleftrightarrow> a_claim_id r \<noteq> [] \<and> claimID \<noteq> [] \<and> a_claim_id r \<noteq> claimID"

definition mark_archived :: "int64 \<Rightarrow> archive_row \<Rightarrow> archive_row" where
  "mark_archived now r =
     r\<lparr>a_state := ArcArchived, a_last_error := Some [], a_claim_id := [], a_updated_at := now\<rparr>"

definition CompleteArchiveJob ::
  "(nat \<Rightarrow> bool) \<Rightarrow> int64 \<Rightarrow> msg_key \<Rightarrow> string \<Rightarrow> string \<Rightarrow> database \<Rightarrow>
    db_error option \<times> database" where
  "CompleteArchiveJob io now k claimID expectedSHA db =
     (if io 0 then (Some ErrSql, db)
      else let (db', n) = upd_archive k
             (\<lambda>r. a_state r = ArcCopying \<and> claim_matches claimID r \<and> a_sha256 r = expectedSHA)
             (mark_archived now) db
           in if n = 0
              then if io 1 then (Some ErrSql, db')
                   else (case arow db' k of
                       None \<Rightarrow> (Some ErrStateConflict, db')
                     | Some r \<Rightarrow>
                         if a_state r = ArcArchived
                         then (if a_sha256 r = expectedSHA then None else Some ErrStateConflict, db')
                         else if a_state r = ArcConflict then (Some ErrStateConflict, db')
                         else if stale_claim claimID r then (Some ErrStaleAttempt, db')
                         else (Some ErrStateConflict, db'))
              else (None, db'))"

text \<open>\<open>1 << (attempts - 1)\<close> on an int64 is the power of two, wrapped.\<close>

definition archive_backoff :: "nat \<Rightarrow> int64" where
  "archive_backoff attempts =
     (let backoffSec = i64 (5 * i64 (2 ^ (attempts - 1)))
      in if backoffSec > 1800 \<or> backoffSec \<le> 0 then 1800 else backoffSec)"

definition FailArchiveJob ::
  "(nat \<Rightarrow> bool) \<Rightarrow> int64 \<Rightarrow> msg_key \<Rightarrow> string \<Rightarrow> string \<Rightarrow> database \<Rightarrow>
    db_error option \<times> database" where
  "FailArchiveJob io now k claimID errStr db =
     (if io 0 then (Some ErrSql, db)
      else case arow db k of
        None \<Rightarrow> (Some ErrStateConflict, db)
      | Some r \<Rightarrow>
          if a_state r = ArcArchived \<or> a_state r = ArcConflict then (Some ErrStateConflict, db)
          else if a_state r \<noteq> ArcCopying then (Some ErrStateConflict, db)
          else if stale_claim claimID r then (Some ErrStaleAttempt, db)
          else let attempts = Suc (a_attempts r);
                   nextRetry = i64 (now + archive_backoff attempts)
               in if io 1 then (Some ErrSql, db)
                  else let (db', n) = upd_archive k
                         (\<lambda>r. a_state r = ArcCopying \<and> claim_matches claimID r)
                         (\<lambda>r. r\<lparr>a_state := ArcPending, a_attempts := attempts,
                                a_next_retry_at := nextRetry, a_last_error := Some errStr,
                                a_claim_id := [], a_updated_at := now\<rparr>) db
                       in if n = 0 then (Some ErrStateConflict, db') else (None, db'))"

definition SetArchiveJobConflict ::
  "(nat \<Rightarrow> bool) \<Rightarrow> int64 \<Rightarrow> msg_key \<Rightarrow> string \<Rightarrow> string \<Rightarrow> database \<Rightarrow>
    db_error option \<times> database" where
  "SetArchiveJobConflict io now k claimID errStr db =
     (if io 0 then (Some ErrSql, db)
      else case arow db k of
        None \<Rightarrow> (Some ErrStateConflict, db)
      | Some r \<Rightarrow>
          if a_state r = ArcArchived then (Some ErrStateConflict, db)
          else if a_state r = ArcConflict then (None, db)
          else if stale_claim claimID r then (Some ErrStaleAttempt, db)
          else if io 1 then (Some ErrSql, db)
          else let (db', n) = upd_archive k
                 (\<lambda>r. (a_state r = ArcPending \<or> a_state r = ArcCopying) \<and> claim_matches claimID r)
                 (\<lambda>r. r\<lparr>a_state := ArcConflict, a_last_error := Some errStr, a_claim_id := [],
                        a_updated_at := now\<rparr>) db
               in if n = 0 then (Some ErrStateConflict, db') else (None, db'))"

record ArchiveStats =
  BacklogFiles :: int
  BacklogBytes :: int
  ActiveWorkers :: int
  ArchivedFiles :: int
  ConflictCount :: int
  ArchivedBytes :: int

definition sum_case :: "('r \<Rightarrow> bool) \<Rightarrow> ('r \<Rightarrow> int) \<Rightarrow> ('k, 'r) table \<Rightarrow> int" where
  "sum_case c f t = sum_list (map (\<lambda>(k, r). if c r then f r else 0) t)"

definition GetArchiveStats :: "(nat \<Rightarrow> bool) \<Rightarrow> database \<Rightarrow> db_error + ArchiveStats" where
  "GetArchiveStats io db =
     (if io 0 then Inl ErrSql
      else let t = archive_jobs db;
               backlog = (\<lambda>r. a_state r = ArcPending \<or> a_state r = ArcCopying)
           in Inr \<lparr>BacklogFiles = sum_case backlog (\<lambda>_. 1) t,
                   BacklogBytes = sum_case backlog a_expected_size t,
                   ActiveWorkers = sum_case (\<lambda>r. a_state r = ArcCopying) (\<lambda>_. 1) t,
                   ArchivedFiles = sum_case (\<lambda>r. a_state r = ArcArchived) (\<lambda>_. 1) t,
                   ConflictCount = sum_case (\<lambda>r. a_state r = ArcConflict) (\<lambda>_. 1) t,
                   ArchivedBytes = sum_case (\<lambda>r. a_state r = ArcArchived) a_expected_size t\<rparr>)"

definition GetStaleCopyingArchiveJobs ::
  "(nat \<Rightarrow> bool) \<Rightarrow> database \<Rightarrow> db_error + (msg_key \<times> archive_row) list" where
  "GetStaleCopyingArchiveJobs io db =
     (if io 0 then Inl ErrSql
      else Inr (filter (\<lambda>(k, r). a_state r = ArcCopying) (archive_jobs db)))"

text \<open>The error of the \<open>SELECT\<close> after a missed update is ignored by both recovery operations; it
  only chooses the text of the first one's error.\<close>

definition RecoverStaleArchiveJob ::
  "(nat \<Rightarrow> bool) \<Rightarrow> int64 \<Rightarrow> msg_key \<Rightarrow> string \<Rightarrow> database \<Rightarrow> db_error option \<times> database" where
  "RecoverStaleArchiveJob io now k staleClaimID db =
     (if io 0 then (Some ErrSql, db)
      else let (db', n) = upd_archive k
             (\<lambda>r. a_state r = ArcCopying \<and> claim_matches staleClaimID r)
             (\<lambda>r. r\<lparr>a_state := ArcPending, a_claim_id := [], a_updated_at := now\<rparr>) db
           in if n = 0 then (Some ErrStateConflict, db') else (None, db'))"

definition RecoverArchiveJobComplete ::
  "(nat \<Rightarrow> bool) \<Rightarrow> int64 \<Rightarrow> msg_key \<Rightarrow> string \<Rightarrow> string \<Rightarrow> database \<Rightarrow>
    db_error option \<times> database" where
  "RecoverArchiveJobComplete io now k staleClaimID expectedSHA db =
     (if io 0 then (Some ErrSql, db)
      else let (db', n) = upd_archive k
             (\<lambda>r. a_state r = ArcCopying \<and> claim_matches staleClaimID r \<and> a_sha256 r = expectedSHA)
             (mark_archived now) db
           in if n = 0
              then (case (if io 1 then None else arow db' k) of
                      None \<Rightarrow> (Some ErrStateConflict, db')
                    | Some r \<Rightarrow> if a_state r = ArcArchived \<and> a_sha256 r = expectedSHA
                                then (None, db') else (Some ErrStateConflict, db'))
              else (None, db'))"

section \<open>Updates of the archive table\<close>

lemma upd_archive_simps [simp]:
  "download_records (fst (upd_archive k c f db)) = download_records db"
  "chat_scan_cursors (fst (upd_archive k c f db)) = chat_scan_cursors db"
  "chat_messages (fst (upd_archive k c f db)) = chat_messages db"
  "listen_targets (fst (upd_archive k c f db)) = listen_targets db"
  "telegram_accounts (fst (upd_archive k c f db)) = telegram_accounts db"
  "archive_jobs (fst (upd_archive k c f db)) = fst (tab_upd k c f (archive_jobs db))"
  "snd (upd_archive k c f db) = snd (tab_upd k c f (archive_jobs db))"
  by (simp_all add: upd_archive_def split_def Let_def)

lemma upd_archive_ok [simp]: "db_ok db \<Longrightarrow> db_ok (fst (upd_archive k c f db))"
  by (auto intro!: db_okI)

lemmas archive_op_defs =
  ensureArchiveJobLocked_def ClaimArchiveJob_def CompleteArchiveJob_def FailArchiveJob_def
  SetArchiveJobConflict_def RecoverStaleArchiveJob_def RecoverArchiveJobComplete_def

lemmas archive_row_defs =
  same_identity_def new_archive_row_def claim_matches_def stale_claim_def mark_archived_def

text \<open>The commands the archive worker, the recovery and the completing transaction issue.\<close>

datatype arc_cmd =
    CmdEnqueue string int64 string
  | CmdClaim string
  | CmdComplete string string
  | CmdFail string string
  | CmdConflict string string
  | CmdRecoverStale string
  | CmdRecoverComplete string string

fun run_arc :: "(nat \<Rightarrow> bool) \<Rightarrow> int64 \<Rightarrow> msg_key \<Rightarrow> arc_cmd \<Rightarrow> database \<Rightarrow> database" where
  "run_arc io now k (CmdEnqueue p n s) db = snd (ensureArchiveJobLocked io now k p n s db)"
| "run_arc io now k (CmdClaim c) db = snd (ClaimArchiveJob io now k c db)"
| "run_arc io now k (CmdComplete c s) db = snd (CompleteArchiveJob io now k c s db)"
| "run_arc io now k (CmdFail c e) db = snd (FailArchiveJob io now k c e db)"
| "run_arc io now k (CmdConflict c e) db = snd (SetArchiveJobConflict io now k c e db)"
| "run_arc io now k (CmdRecoverStale c) db = snd (RecoverStaleArchiveJob io now k c db)"
| "run_arc io now k (CmdRecoverComplete c s) db = snd (RecoverArchiveJobComplete io now k c s db)"

type_synonym arc_call = "(nat \<Rightarrow> bool) \<times> int64 \<times> msg_key \<times> arc_cmd"

definition run_arcs :: "arc_call list \<Rightarrow> database \<Rightarrow> database" where
  "run_arcs cs db = fold (\<lambda>(io, now, k, c). run_arc io now k c) cs db"

lemma run_arcs_simps [simp]:
  "run_arcs [] db = db"
  "run_arcs ((io, now, k, c) # cs) db = run_arcs cs (run_arc io now k c db)"
  by (simp_all add: run_arcs_def)

text \<open>What one command does to the table: nothing, an insertion of a new row, or an update of
  the row it names under the guard of the command.\<close>

definition arc_guard :: "arc_cmd \<Rightarrow> archive_row \<Rightarrow> bool" where
  "arc_guard c r = (case c of
      CmdEnqueue p n s \<Rightarrow>
        a_state r \<notin> {ArcArchived, ArcConflict, ArcCopying} \<and> \<not> same_identity r p n s
    | CmdClaim c \<Rightarrow> a_state r = ArcPending
    | CmdComplete c s \<Rightarrow> a_state r = ArcCopying \<and> claim_matches c r \<and> a_sha256 r = s
    | CmdFail c e \<Rightarrow> a_state r = ArcCopying \<and> claim_matches c r
    | CmdConflict c e \<Rightarrow> a_state r \<in> {ArcPending, ArcCopying} \<and> claim_matches c r
    | CmdRecoverStale c \<Rightarrow> a_state r = ArcCopying \<and> claim_matches c r
    | CmdRecoverComplete c s \<Rightarrow> a_state r = ArcCopying \<and> claim_matches c r \<and> a_sha256 r = s)"

definition arc_le :: "archive_row \<Rightarrow> archive_row \<Rightarrow> bool" where
  "arc_le r r' \<longleftrightarrow>
     same_identity r' (a_relative_path r) (a_expected_size r) (a_sha256 r) \<and>
     a_created_at r' = a_created_at r \<and> a_attempts r \<le> a_attempts r' \<and>
     (a_state r \<in> {ArcArchived, ArcConflict} \<longrightarrow> r' = r)"

definition arc_row_ok :: "archive_row \<Rightarrow> bool" where
  "arc_row_ok r \<longleftrightarrow> (a_state r \<noteq> ArcCopying \<longrightarrow> a_claim_id r = []) \<and>
     a_state r \<in> {ArcPending, ArcCopying, ArcArchived, ArcConflict}"

text \<open>Every command is one of three table changes; the later lemmas are about the changes, not
  about the seven commands.\<close>

inductive arc_change :: "msg_key \<Rightarrow> arc_cmd \<Rightarrow> database \<Rightarrow> database \<Rightarrow> bool" for k c db where
  arc_none: "arc_change k c db db"
| arc_ins: "arow db k = None \<Longrightarrow> c = CmdEnqueue p n s \<Longrightarrow>
    arc_change k c db (db\<lparr>archive_jobs := tab_ins k (new_archive_row p n s now now) (archive_jobs db)\<rparr>)"
| arc_upd: "(\<And>r. arow db k = Some r \<Longrightarrow> g r \<Longrightarrow> arc_guard c r \<and> arc_le r (f r) \<and>
      (arc_row_ok r \<longrightarrow> arc_row_ok (f r))) \<Longrightarrow>
    arc_change k c db (fst (upd_archive k g f db))"

lemmas arc_spec_defs = arc_guard_def arc_le_def arc_row_ok_def archive_row_defs

lemma ensure_cases:
  "ensureArchiveJobLocked io now k p n s db =
    (if io 0 then (Some ErrSql, db)
     else case arow db k of
       None \<Rightarrow> if io 1 then (Some ErrSql, db)
               else (None, db\<lparr>archive_jobs := tab_ins k (new_archive_row p n s now now) (archive_jobs db)\<rparr>)
     | Some r \<Rightarrow>
         if same_identity r p n s then (None, db)
         else if a_state r \<in> {ArcArchived, ArcConflict, ArcCopying} then (Some ErrArchiveConflict, db)
         else if io 2 then (Some ErrSql, db)
         else (Some ErrArchiveConflict, fst (upd_archive k (\<lambda>_. True)
                (\<lambda>r. r\<lparr>a_state := ArcConflict,
                       a_last_error := Some ''archive identity mismatch on duplicate download complete'',
                       a_updated_at := now\<rparr>) db)))"
proof (cases "arow db k")
  case (Some r)
  then show ?thesis by (cases "a_state r") (simp_all add: ensureArchiveJobLocked_def)
qed (simp add: ensureArchiveJobLocked_def)

lemma arc_le_refl [simp]: "arc_le r r"
  by (simp add: arc_le_def same_identity_def)

lemma ensure_change: "arc_change k (CmdEnqueue p n s) db (snd (ensureArchiveJobLocked io now k p n s db))"
  by (auto simp: ensure_cases arc_guard_def split: option.split intro: arc_none arc_ins intro!: arc_upd)
    (auto simp: arc_spec_defs)

text \<open>Both branches of the row count leave the same table.\<close>

lemma snd_if_same [simp]: "snd (if b then (x, db) else (y, db)) = db"
  by simp

lemma arc_upd_mono:
  assumes "\<And>r. arow db k = Some r \<Longrightarrow> g r \<Longrightarrow> arc_guard c r"
    and "\<And>r. arow db k = Some r \<Longrightarrow> g r \<Longrightarrow> arc_le r (f r)"
    and "\<And>r. arow db k = Some r \<Longrightarrow> g r \<Longrightarrow> arc_row_ok r \<Longrightarrow> arc_row_ok (f r)"
  shows "arc_change k c db (fst (upd_archive k g f db))"
  using assms by (blast intro: arc_upd)

lemma claim_change: "arc_change k (CmdClaim c) db (snd (ClaimArchiveJob io now k c db))"
  by (simp add: ClaimArchiveJob_def split_def Let_def arc_none split: option.split)
    (auto intro!: arc_upd_mono simp: arc_spec_defs)

lemma complete_change: "arc_change k (CmdComplete c s) db (snd (CompleteArchiveJob io now k c s db))"
  by (simp add: CompleteArchiveJob_def split_def Let_def arc_none split: option.split)
    (auto intro!: arc_upd_mono simp: arc_spec_defs)

lemma fail_change: "arc_change k (CmdFail c e) db (snd (FailArchiveJob io now k c e db))"
  by (simp add: FailArchiveJob_def split_def Let_def arc_none split: option.split)
    (auto intro!: arc_upd_mono simp: arc_spec_defs)

lemma conflict_upd:
  "arc_change k (CmdConflict c e) db (fst (upd_archive k
     (\<lambda>r. (a_state r = ArcPending \<or> a_state r = ArcCopying) \<and> claim_matches c r)
     (\<lambda>r. r\<lparr>a_state := ArcConflict, a_last_error := Some e, a_claim_id := [], a_updated_at := now\<rparr>) db))"
  by (rule arc_upd_mono) (auto simp: arc_guard_def arc_le_def arc_row_ok_def same_identity_def)

lemma conflict_change: "arc_change k (CmdConflict c e) db (snd (SetArchiveJobConflict io now k c e db))"
  by (simp add: SetArchiveJobConflict_def split_def Let_def arc_none conflict_upd split: option.split)

lemma recover_stale_change: "arc_change k (CmdRecoverStale c) db (snd (RecoverStaleArchiveJob io now k c db))"
  by (simp add: RecoverStaleArchiveJob_def split_def Let_def arc_none split: option.split)
    (auto intro!: arc_upd_mono simp: arc_spec_defs)

lemma recover_complete_change: "arc_change k (CmdRecoverComplete c s) db (snd (RecoverArchiveJobComplete io now k c s db))"
  by (simp add: RecoverArchiveJobComplete_def split_def Let_def arc_none split: option.split)
    (auto intro!: arc_upd_mono simp: arc_spec_defs)

lemma run_arc_change: "arc_change k c db (run_arc io now k c db)"
  by (cases c) (simp_all add: ensure_change claim_change complete_change fail_change
      conflict_change recover_stale_change recover_complete_change)

section \<open>How a job may change\<close>

definition arc_evolves :: "database \<Rightarrow> database \<Rightarrow> bool" where
  "arc_evolves db db' \<longleftrightarrow>
     (\<forall>k r. arow db k = Some r \<longrightarrow> (\<exists>r'. arow db' k = Some r' \<and> arc_le r r'))"

definition arc_rows_ok :: "database \<Rightarrow> bool" where
  "arc_rows_ok db \<longleftrightarrow> (\<forall>(k, r) \<in> set (archive_jobs db). arc_row_ok r)"

lemma arc_le_trans: "arc_le r r' \<Longrightarrow> arc_le r' r'' \<Longrightarrow> arc_le r r''"
  by (auto simp: arc_le_def same_identity_def)

lemma arc_evolves_refl [simp]: "arc_evolves db db"
  by (simp add: arc_evolves_def)

lemma arc_evolves_trans: "arc_evolves db db' \<Longrightarrow> arc_evolves db' db'' \<Longrightarrow> arc_evolves db db''"
  unfolding arc_evolves_def by (meson arc_le_trans)

lemma arc_change_ok: "arc_change k c db db' \<Longrightarrow> db_ok db \<Longrightarrow> db_ok db'"
  by (erule arc_change.cases) auto

lemma arc_change_downloads: "arc_change k c db db' \<Longrightarrow> download_records db' = download_records db"
  by (erule arc_change.cases) auto

lemma arc_change_frame: "arc_change k c db db' \<Longrightarrow> db_ok db \<Longrightarrow> j \<noteq> k \<Longrightarrow> arow db' j = arow db j"
  by (erule arc_change.cases) auto

lemma arc_change_guard:
  "arc_change k c db db' \<Longrightarrow> db_ok db \<Longrightarrow> arow db k = Some r \<Longrightarrow> \<not> arc_guard c r \<Longrightarrow>
    arow db' k = Some r"
  by (erule arc_change.cases) auto

lemma arc_change_evolves: "arc_change k c db db' \<Longrightarrow> db_ok db \<Longrightarrow> arc_evolves db db'"
  by (erule arc_change.cases) (auto simp: arc_evolves_def)

lemma pk_member: "pk t \<Longrightarrow> (k, r) \<in> set t \<longleftrightarrow> tab_sel t k = Some r"
  by (simp add: pk_def tab_sel_def)

lemma arc_rows_ok_sel:
  "db_ok db \<Longrightarrow> arc_rows_ok db \<longleftrightarrow> (\<forall>k r. arow db k = Some r \<longrightarrow> arc_row_ok r)"
  by (auto simp: arc_rows_ok_def pk_member)

lemma arc_change_rows_ok:
  "arc_change k c db db' \<Longrightarrow> db_ok db \<Longrightarrow> arc_rows_ok db \<Longrightarrow> arc_rows_ok db'"
proof (induction rule: arc_change.induct)
  case (arc_upd g f)
  have "arc_row_ok r'" if "arow (fst (upd_archive k g f db)) j = Some r'" for j r'
    using that arc_upd by (auto simp: arc_rows_ok_sel split: if_splits)
  with arc_upd show ?case by (simp add: arc_rows_ok_sel del: upd_archive_simps)
qed (auto simp: arc_rows_ok_sel arc_row_ok_def new_archive_row_def)

interpretation arcs: evolving_system "\<lambda>(io, now, k, c). run_arc io now k c" db_ok "\<lambda>_. True" arc_evolves
  by unfold_locales
    (auto intro: arc_change_ok [OF run_arc_change] arc_change_evolves [OF run_arc_change] arc_evolves_trans)

interpretation arc_rows: call_system "\<lambda>(io, now, k, c). run_arc io now k c" "\<lambda>db. db_ok db \<and> arc_rows_ok db" "\<lambda>_. True"
  by unfold_locales (auto intro: arc_change_ok [OF run_arc_change] arc_change_rows_ok [OF run_arc_change])

lemma run_arcs_ok: "db_ok db \<Longrightarrow> db_ok (run_arcs cs db)"
  using arcs.inv_fold [of db cs] by (simp add: run_arcs_def list_all_iff)

lemma run_arcs_evolves: "db_ok db \<Longrightarrow> arc_evolves db (run_arcs cs db)"
  using arcs.evolves_fold [of db cs] by (simp add: run_arcs_def list_all_iff)

lemma run_arcs_rows_ok: "db_ok db \<Longrightarrow> arc_rows_ok db \<Longrightarrow> arc_rows_ok (run_arcs cs db)"
  using arc_rows.inv_fold [of db cs] by (simp add: run_arcs_def list_all_iff)

section \<open>Claims\<close>

text \<open>The claim a command presents, if it can change a job that is being copied.\<close>

fun cmd_claim :: "arc_cmd \<Rightarrow> string option" where
  "cmd_claim (CmdComplete c _) = Some c"
| "cmd_claim (CmdFail c _) = Some c"
| "cmd_claim (CmdConflict c _) = Some c"
| "cmd_claim (CmdRecoverStale c) = Some c"
| "cmd_claim (CmdRecoverComplete c _) = Some c"
| "cmd_claim _ = None"

lemma held_guard:
  "a_state r = ArcCopying \<Longrightarrow> a_claim_id r = c \<Longrightarrow> c \<noteq> [] \<Longrightarrow> cmd_claim cmd \<noteq> Some c \<Longrightarrow>
    \<not> arc_guard cmd r"
  by (cases cmd) (auto simp: arc_guard_def claim_matches_def)

text \<open>A call that does not present the claim \<open>c\<close> for the job \<open>k\<close>.\<close>

fun foreign_call :: "msg_key \<Rightarrow> string \<Rightarrow> arc_call \<Rightarrow> bool" where
  "foreign_call k c (io, now, j, cmd) \<longleftrightarrow> (j = k \<longrightarrow> cmd_claim cmd \<noteq> Some c)"

lemma held_run_arc:
  assumes "db_ok db" and "arow db k = Some r" and "a_state r = ArcCopying" and "a_claim_id r = c"
    and "c \<noteq> []" and "foreign_call k c (io, now, j, cmd)"
  shows "arow (run_arc io now j cmd db) k = Some r"
proof (cases "j = k")
  case True
  with assms(6) have "cmd_claim cmd \<noteq> Some c" by simp
  then have "\<not> arc_guard cmd r" by (rule held_guard [OF assms(3-5)])
  then show ?thesis unfolding True by (rule arc_change_guard [OF run_arc_change assms(1,2)])
next
  case False
  then have "k \<noteq> j" by simp
  from arc_change_frame [OF run_arc_change assms(1) this] show ?thesis
    using assms(2) by simp
qed

interpretation held: call_system "\<lambda>(io, now, k, c). run_arc io now k c"
    "\<lambda>db. db_ok db \<and> arow db k = Some r \<and> a_state r = ArcCopying \<and> a_claim_id r = c \<and> c \<noteq> []" "foreign_call k c" for k r c
proof
  fix db and x :: arc_call
  assume a: "db_ok db \<and> arow db k = Some r \<and> a_state r = ArcCopying \<and> a_claim_id r = c \<and> c \<noteq> []" "foreign_call k c x"
  obtain io now j cmd where x: "x = (io, now, j, cmd)" by (cases x) auto
  show "db_ok ((\<lambda>(io, now, k, c). run_arc io now k c) x db) \<and>
      arow ((\<lambda>(io, now, k, c). run_arc io now k c) x db) k = Some r \<and> a_state r = ArcCopying \<and> a_claim_id r = c \<and> c \<noteq> []"
    using a held_run_arc [of db k r c io now j cmd] arc_change_ok [OF run_arc_change, of db] by (simp add: x)
qed

lemma held_run_arcs:
  assumes "db_ok db" and "arow db k = Some r" and "a_state r = ArcCopying" and "a_claim_id r = c"
    and "c \<noteq> []" and "list_all (foreign_call k c) cs"
  shows "arow (run_arcs cs db) k = Some r"
  using held.inv_fold [of db k r c cs] assms by (simp add: run_arcs_def)

lemma claim_held:
  assumes "db_ok db" and "fst (ClaimArchiveJob io now k c db) = Inr True"
  obtains r where "arow db k = Some r" and "a_state r = ArcPending"
    and "arow (snd (ClaimArchiveJob io now k c db)) k =
      Some (r\<lparr>a_state := ArcCopying, a_claim_id := c, a_updated_at := now\<rparr>)"
    and "db_ok (snd (ClaimArchiveJob io now k c db))"
  using assms by (auto simp: ClaimArchiveJob_def split_def Let_def split: if_splits option.splits)

lemma complete_claimed:
  assumes "db_ok db" and "arow db k = Some r" and "a_state r = ArcCopying"
    and "a_claim_id r = c" and "\<not> io 0"
  shows "fst (CompleteArchiveJob io now k c (a_sha256 r) db) = None"
    and "arow (snd (CompleteArchiveJob io now k c (a_sha256 r) db)) k = Some (mark_archived now r)"
  using assms by (simp_all add: CompleteArchiveJob_def split_def Let_def claim_matches_def)

section \<open>Retry delay\<close>

lemma archive_backoff_small:
  "list_all (\<lambda>n. 5 \<le> archive_backoff (Suc n) \<and> archive_backoff (Suc n) \<le> 1800) [0..<64]"
  by code_simp

lemma archive_backoff_bounds: "5 \<le> archive_backoff (Suc n) \<and> archive_backoff (Suc n) \<le> 1800"
proof (cases "n < 64")
  case True
  with archive_backoff_small show ?thesis by (simp add: list_all_iff)
next
  case False
  then have "i64 (2 ^ n) = 0" by (simp add: i64_shift_out)
  then show ?thesis by (simp add: archive_backoff_def Let_def i64_def)
qed

section \<open>Properties\<close>

text \<open>A concrete job and database for the instances below.\<close>

definition ex_key :: msg_key where "ex_key = (''c'', 7)"

definition ex_row :: archive_row where
  "ex_row = new_archive_row ''p'' 3 ''s'' 10 10"

definition ex_archive_db :: database where
  "ex_archive_db = initSchema\<lparr>archive_jobs := [(ex_key, ex_row)]\<rparr>"

lemma ex_archive_db_simps [simp]:
  "db_ok ex_archive_db" "arow ex_archive_db ex_key = Some ex_row"
  by (auto simp: ex_archive_db_def tab_sel_def pk_def initSchema_def intro!: db_okI)

text \<open>Whatever sequence of enqueues, claims, completions, failures, conflicts and recoveries is
  run, by any worker and with any statements failing, a job that is in the queue stays there with
  its path, size, digest and creation time; its attempt counter never decreases; and once it is archived
  or in conflict its row never changes again.\<close>

theorem archive_job_identity_fixed:
  assumes "db_ok db" and "arow db k = Some r"
  shows "\<exists>r'. arow (run_arcs cs db) k = Some r' \<and>
     same_identity r' (a_relative_path r) (a_expected_size r) (a_sha256 r) \<and>
     a_created_at r' = a_created_at r \<and> a_attempts r \<le> a_attempts r' \<and>
     (a_state r \<in> {ArcArchived, ArcConflict} \<longrightarrow> r' = r)"
  using run_arcs_evolves [OF assms(1), of cs] assms(2)
  by (auto simp: arc_evolves_def arc_le_def)

theorem archive_job_identity_fixed_witness:
  "\<exists>r'. arow (run_arcs [(\<lambda>_. False, 20, ex_key, CmdClaim ''w''),
       (\<lambda>_. False, 21, ex_key, CmdFail ''w'' ''e'')] ex_archive_db) ex_key = Some r' \<and>
     a_sha256 r' = ''s''"
  using archive_job_identity_fixed [OF ex_archive_db_simps, of
      "[(\<lambda>_. False, 20, ex_key, CmdClaim ''w''), (\<lambda>_. False, 21, ex_key, CmdFail ''w'' ''e'')]"]
  by (auto simp: same_identity_def ex_row_def new_archive_row_def simp del: run_arcs_simps)

text \<open>C7. A claim is exclusive and fences off everybody else: when a worker's claim with a nonempty
  identifier succeeds, the job was pending, and after any sequence of calls that do not present this
  identifier for this job (other workers' claims, stale completions and failures, duplicate
  enqueues) the job is still held under it, no other claim succeeds, and the
  holder's own completion with the job's digest succeeds and archives the job.\<close>

theorem archive_claim_exclusive:
  assumes "db_ok db" and "c \<noteq> []" and "fst (ClaimArchiveJob io now k c db) = Inr True"
    and "list_all (foreign_call k c) cs" and "\<not> io'' 0"
    and "db' = run_arcs cs (snd (ClaimArchiveJob io now k c db))"
  shows "\<exists>r. arow db k = Some r \<and> a_state r = ArcPending \<and>
     fst (ClaimArchiveJob io' now' k c' db') \<noteq> Inr True \<and>
     fst (CompleteArchiveJob io'' now'' k c (a_sha256 r) db') = None \<and>
     (\<exists>r'. arow (snd (CompleteArchiveJob io'' now'' k c (a_sha256 r) db')) k = Some r' \<and>
        a_state r' = ArcArchived)"
proof -
  from claim_held [OF assms(1,3)] obtain r where r: "arow db k = Some r" "a_state r = ArcPending"
    and held: "arow (snd (ClaimArchiveJob io now k c db)) k =
      Some (r\<lparr>a_state := ArcCopying, a_claim_id := c, a_updated_at := now\<rparr>)" (is "_ = Some ?h")
    and ok: "db_ok (snd (ClaimArchiveJob io now k c db))" .
  have h: "arow db' k = Some ?h"
    unfolding assms(6) by (rule held_run_arcs [OF ok held _ _ assms(2,4)]) simp_all
  have ok': "db_ok db'" unfolding assms(6) by (rule run_arcs_ok [OF ok])
  have "fst (ClaimArchiveJob io' now' k c' db') \<noteq> Inr True"
    using ok' h by (simp add: ClaimArchiveJob_def split_def)
  moreover have "fst (CompleteArchiveJob io'' now'' k c (a_sha256 r) db') = None"
    and "arow (snd (CompleteArchiveJob io'' now'' k c (a_sha256 r) db')) k = Some (mark_archived now'' ?h)"
    using complete_claimed [where io = io'' and now = now'' and c = c, OF ok' h] assms(5) by simp_all
  ultimately show ?thesis using r by (simp add: mark_archived_def)
qed

theorem archive_claim_exclusive_witness:
  "fst (CompleteArchiveJob (\<lambda>_. False) 22 ex_key ''w'' ''s''
     (run_arcs [(\<lambda>_. False, 21, ex_key, CmdClaim ''v''), (\<lambda>_. False, 21, ex_key, CmdFail ''v'' [])]
       (snd (ClaimArchiveJob (\<lambda>_. False) 20 ex_key ''w'' ex_archive_db)))) = None"
proof -
  have "fst (ClaimArchiveJob (\<lambda>_. False) 20 ex_key ''w'' ex_archive_db) = Inr True"
    by (simp add: ClaimArchiveJob_def split_def ex_row_def new_archive_row_def)
  from archive_claim_exclusive [OF ex_archive_db_simps(1) _ this, of
      "[(\<lambda>_. False, 21, ex_key, CmdClaim ''v''), (\<lambda>_. False, 21, ex_key, CmdFail ''v'' [])]"
      "\<lambda>_. False" _ "\<lambda>_. False" 21 "''v''" 22]
  show ?thesis by (simp add: ex_row_def new_archive_row_def del: run_arcs_simps)
qed

text \<open>A failed archive attempt that is recorded returns the job to pending without a claim, adds one to
  its attempts, and the next try is due between 5 seconds and 30 minutes later, however often the job
  has failed: the guard against the wrapped shift makes the delay safe for every attempt count.\<close>

theorem archive_retry_delay_bounded:
  assumes "db_ok db" and "fst (FailArchiveJob io now k c e db) = None"
    and "0 \<le> now" and "now < 2 ^ 62"
  shows "\<exists>r r'. arow db k = Some r \<and> arow (snd (FailArchiveJob io now k c e db)) k = Some r' \<and>
     a_state r = ArcCopying \<and> a_state r' = ArcPending \<and> a_claim_id r' = [] \<and>
     a_attempts r' = Suc (a_attempts r) \<and>
     now + 5 \<le> a_next_retry_at r' \<and> a_next_retry_at r' \<le> now + 1800"
proof -
  have "i64 (now + archive_backoff (Suc n)) = now + archive_backoff (Suc n)" for n
    using archive_backoff_bounds [of n] assms(3,4) by (intro i64_id) (simp add: fits64_def)
  with assms(1,2) show ?thesis
    by (auto simp: FailArchiveJob_def split_def Let_def archive_backoff_bounds split: if_splits option.splits)
qed

theorem archive_retry_delay_bounded_witness:
  "\<exists>r'. arow (snd (FailArchiveJob (\<lambda>_. False) 21 ex_key ''w'' []
       (snd (ClaimArchiveJob (\<lambda>_. False) 20 ex_key ''w'' ex_archive_db)))) ex_key = Some r' \<and>
     26 \<le> a_next_retry_at r'"
proof -
  let ?db = "snd (ClaimArchiveJob (\<lambda>_. False) 20 ex_key ''w'' ex_archive_db)"
  have "fst (FailArchiveJob (\<lambda>_. False) 21 ex_key ''w'' [] ?db) = None" and "db_ok ?db"
    by (simp_all add: FailArchiveJob_def ClaimArchiveJob_def split_def Let_def ex_row_def
        new_archive_row_def claim_matches_def stale_claim_def)
  from archive_retry_delay_bounded [OF this(2,1)] show ?thesis by auto
qed

lemma stats_add_up:
  assumes "\<forall>(k, r) \<in> set t. arc_row_ok r"
  shows "sum_case (\<lambda>r. a_state r = ArcPending \<or> a_state r = ArcCopying) (\<lambda>_. 1) t +
      sum_case (\<lambda>r. a_state r = ArcArchived) (\<lambda>_. 1) t +
      sum_case (\<lambda>r. a_state r = ArcConflict) (\<lambda>_. 1) t = int (length t)"
    and "sum_case (\<lambda>r. a_state r = ArcCopying) (\<lambda>_. 1) t \<le>
      sum_case (\<lambda>r. a_state r = ArcPending \<or> a_state r = ArcCopying) (\<lambda>_. 1) t"
  using assms by (induction t) (auto simp: sum_case_def arc_row_ok_def)

text \<open>Every job of a queue built from the empty database is pending, copying, archived or in conflict,
  only a job being copied carries a claim, and the counters of \<open>GetArchiveStats\<close> add up: backlog,
  archived and conflicting jobs are all the jobs, and the active workers are part of the
  backlog.\<close>

theorem archive_stats_add_up:
  assumes "GetArchiveStats io (run_arcs cs initSchema) = Inr st"
  shows "BacklogFiles st + ArchivedFiles st + ConflictCount st =
       int (length (archive_jobs (run_arcs cs initSchema))) \<and>
     ActiveWorkers st \<le> BacklogFiles st \<and>
     list_all (\<lambda>(k, r). a_state r \<noteq> ArcCopying \<longrightarrow> a_claim_id r = []) (archive_jobs (run_arcs cs initSchema))"
proof -
  have "arc_rows_ok initSchema" by (simp add: arc_rows_ok_def initSchema_def)
  then have "arc_rows_ok (run_arcs cs initSchema)" by (simp add: run_arcs_rows_ok)
  then have ok: "\<forall>(k, r) \<in> set (archive_jobs (run_arcs cs initSchema)). arc_row_ok r"
    by (simp add: arc_rows_ok_def)
  then have "list_all (\<lambda>(k, r). a_state r \<noteq> ArcCopying \<longrightarrow> a_claim_id r = [])
      (archive_jobs (run_arcs cs initSchema))"
    by (auto simp: list_all_iff arc_row_ok_def)
  with assms stats_add_up [OF ok] show ?thesis
    by (auto simp: GetArchiveStats_def Let_def split: if_splits)
qed

theorem archive_stats_add_up_witness:
  "\<exists>st. GetArchiveStats (\<lambda>_. False)
       (run_arcs [(\<lambda>_. False, 10, ex_key, CmdEnqueue ''p'' 3 ''s'')] initSchema) = Inr st \<and>
     ActiveWorkers st \<le> BacklogFiles st"
proof -
  let ?db = "run_arcs [(\<lambda>_. False, 10, ex_key, CmdEnqueue ''p'' 3 ''s'')] initSchema"
  obtain st where st: "GetArchiveStats (\<lambda>_. False) ?db = Inr st"
    by (simp add: GetArchiveStats_def Let_def)
  with archive_stats_add_up [OF st] show ?thesis by blast
qed

end
