(* ===== verification/Download_Records.thy ===== *)
theory Download_Records
  imports Archive_Jobs
begin

text \<open>
  The download records of \<open>app/daemon/db.go\<close>: one definition per operation of \<open>Database\<close> on the
  table \<open>download_records\<close>, with its transaction where it has one, and the queries over it. The
  lemmas give the transitions each operation can make, and from them the life cycle
  of a record over any sequence of operations.

  A query returns the rows it selects with their keys; \<open>coalesce\<close> is applied where a
  column is read.
\<close>

section \<open>Operations\<close>

definition upd_download ::
  "msg_key \<Rightarrow> (download_row \<Rightarrow> bool) \<Rightarrow> (download_row \<Rightarrow> download_row) \<Rightarrow> database \<Rightarrow> database \<times> nat" where
  "upd_download k c f db =
     (let (t, n) = tab_upd k c f (download_records db) in (db\<lparr>download_records := t\<rparr>, n))"

definition ins_download :: "msg_key \<Rightarrow> download_row \<Rightarrow> database \<Rightarrow> database" where
  "ins_download k r db = db\<lparr>download_records := tab_ins k r (download_records db)\<rparr>"

text \<open>The four columns of the planned file, each kept when the new value is empty.\<close>

definition plan_columns ::
  "string \<Rightarrow> string \<Rightarrow> string \<Rightarrow> int64 \<Rightarrow> download_row \<Rightarrow> download_row" where
  "plan_columns fileName savePath mediaType fileSize r =
     r\<lparr>d_file_name := set_text fileName (d_file_name r),
       d_save_path := set_text savePath (d_save_path r),
       d_media_type := set_text mediaType (d_media_type r),
       d_file_size := set_size fileSize (d_file_size r)\<rparr>"

definition insert_columns ::
  "string \<Rightarrow> string \<Rightarrow> string \<Rightarrow> int64 \<Rightarrow> download_row \<Rightarrow> download_row" where
  "insert_columns fileName savePath mediaType fileSize r =
     r\<lparr>d_file_name := Some fileName, d_save_path := Some savePath,
       d_media_type := Some mediaType, d_file_size := Some fileSize\<rparr>"

definition EnsureDownloadRecord ::
  "(nat \<Rightarrow> bool) \<Rightarrow> int64 \<Rightarrow> msg_key \<Rightarrow> string \<Rightarrow> int64 \<Rightarrow> database \<Rightarrow>
    db_error option \<times> database" where
  "EnsureDownloadRecord io now k finalPath expectedSize db =
     (if io 0 then (Some ErrSql, db)
      else case drow db k of
        None \<Rightarrow> (None, ins_download k ((new_download Pending now)
                  \<lparr>d_save_path := Some finalPath, d_file_size := Some expectedSize\<rparr>) db)
      | Some _ \<Rightarrow> (None, db))"

definition BeginDownload ::
  "(nat \<Rightarrow> bool) \<Rightarrow> int64 \<Rightarrow> msg_key \<Rightarrow> string \<Rightarrow> string \<Rightarrow> string \<Rightarrow> string \<Rightarrow> int64 \<Rightarrow>
    database \<Rightarrow> db_error option \<times> database" where
  "BeginDownload io now k generation fileName savePath mediaType fileSize db =
     (if io 0 then (Some ErrSql, db)
      else case drow db k of
        None \<Rightarrow>
          if io 1 then (Some ErrSql, db)
          else (None, ins_download k ((insert_columns fileName savePath mediaType fileSize
                 (new_download Downloading now))
                   \<lparr>d_attempt_generation := generation, d_processing_started_at := Some now\<rparr>) db)
      | Some r \<Rightarrow>
          if d_status r = Success
          then (if proof_missing r then Some ErrStateConflict
                else if savePath \<noteq> [] \<and> savePath \<noteq> coalesce (d_save_path r) [] then Some ErrStateConflict
                else if fileSize > 0 \<and> fileSize \<noteq> coalesce (d_file_size r) 0 then Some ErrStateConflict
                else Some (ErrAlreadySuccess \<lparr>SavePath = coalesce (d_save_path r) [],
                       FileSize = coalesce (d_file_size r) 0, SHA256 = coalesce (d_sha256 r) []\<rparr>), db)
          else if d_status r = Unavailable then (Some ErrStateConflict, db)
          else if d_status r = Committing then (Some ErrStateConflict, db)
          else if d_status r = Downloading
          then if d_attempt_generation r \<noteq> generation then (Some ErrStateConflict, db)
               else if io 2 then (Some ErrSql, db)
               else let (db', n) = upd_download k
                      (\<lambda>r. d_status r = Downloading \<and> d_attempt_generation r = generation)
                      (\<lambda>r. (plan_columns fileName savePath mediaType fileSize r)\<lparr>d_updated_at := now\<rparr>) db
                    in if n = 0 then (Some ErrStateConflict, db') else (None, db')
          else if io 3 then (Some ErrSql, db)
          else let (db', n) = upd_download k
                 (\<lambda>r. d_status r = Pending \<or> d_status r = Failed)
                 (\<lambda>r. (plan_columns fileName savePath mediaType fileSize r)
                    \<lparr>d_status := Downloading, d_attempt_generation := generation,
                      d_updated_at := now, d_processing_started_at := Some now, d_error := Some []\<rparr>) db
               in if n = 0 then (Some ErrStateConflict, db') else (None, db'))"

text \<open>The three columns of the proof of a committed file.\<close>

definition proof_columns :: "string \<Rightarrow> int64 \<Rightarrow> string \<Rightarrow> download_row \<Rightarrow> download_row" where
  "proof_columns relPath sz sha r =
     r\<lparr>d_save_path := Some relPath, d_file_size := Some sz, d_sha256 := Some sha\<rparr>"

definition PrepareDownloadCommit ::
  "(nat \<Rightarrow> bool) \<Rightarrow> int64 \<Rightarrow> msg_key \<Rightarrow> string \<Rightarrow> string \<Rightarrow> int64 \<Rightarrow> string \<Rightarrow> database \<Rightarrow>
    db_error option \<times> database" where
  "PrepareDownloadCommit io now k generation relPath sz sha db =
     (if io 0 then (Some ErrSql, db)
      else case drow db k of
        None \<Rightarrow> (Some ErrStateConflict, db)
      | Some r \<Rightarrow>
          if d_status r = Committing \<and> d_attempt_generation r = generation \<and>
             row_proof r = (relPath, sz, sha) then (None, db)
          else if d_status r = Success
          then (if proof_missing r then Some ErrStateConflict
                else if row_proof r = (relPath, sz, sha) then None
                else Some ErrStateConflict, db)
          else if d_attempt_generation r \<noteq> generation then (Some ErrStaleAttempt, db)
          else if d_status r \<noteq> Downloading then (Some ErrStateConflict, db)
          else if io 1 then (Some ErrSql, db)
          else let (db', n) = upd_download k
                 (\<lambda>r. d_status r = Downloading \<and> d_attempt_generation r = generation)
                 (\<lambda>r. (proof_columns relPath sz sha r)\<lparr>d_status := Committing, d_updated_at := now\<rparr>) db
               in if n = 0 then (Some ErrStateConflict, db') else (None, db'))"

text \<open>The end of both completing transactions: enqueue the archive job if asked to, and commit,
  also when the job is in conflict. \<open>db\<close> is the state to roll back to.\<close>

definition queue_and_commit ::
  "(nat \<Rightarrow> bool) \<Rightarrow> int64 \<Rightarrow> msg_key \<Rightarrow> string \<Rightarrow> int64 \<Rightarrow> string \<Rightarrow> bool \<Rightarrow> database \<Rightarrow> database \<Rightarrow>
    db_error option \<times> database" where
  "queue_and_commit io now k relPath sz sha queueArchive db tx =
     (case (if queueArchive then ensureArchiveJobLocked (\<lambda>i. io (i + 3)) now k relPath sz sha tx
            else (None, tx)) of
        (None, tx') \<Rightarrow> if io 6 then (Some ErrSql, db) else (None, tx')
      | (Some ErrArchiveConflict, tx') \<Rightarrow>
          if io 6 then (Some ErrSql, db) else (Some ErrArchiveConflict, tx')
      | (Some e, _) \<Rightarrow> (Some e, db))"

definition mark_success :: "int64 \<Rightarrow> string \<Rightarrow> int64 \<Rightarrow> string \<Rightarrow> download_row \<Rightarrow> download_row" where
  "mark_success now relPath sz sha r = (proof_columns relPath sz sha r)
     \<lparr>d_status := Success, d_downloaded_at := Some now, d_updated_at := now, d_error := Some []\<rparr>"

definition CompleteDownloadAndQueueArchive ::
  "(nat \<Rightarrow> bool) \<Rightarrow> int64 \<Rightarrow> msg_key \<Rightarrow> string \<Rightarrow> string \<Rightarrow> int64 \<Rightarrow> string \<Rightarrow> bool \<Rightarrow> database \<Rightarrow>
    db_error option \<times> database" where
  "CompleteDownloadAndQueueArchive io now k generation relPath sz sha queueArchive db =
     (if io 0 \<or> io 1 then (Some ErrSql, db)
      else case drow db k of
        None \<Rightarrow> (Some ErrStateConflict, db)
      | Some r \<Rightarrow>
          if d_status r = Success
          then if proof_missing r then (Some ErrStateConflict, db)
               else if row_proof r \<noteq> (relPath, sz, sha) then (Some ErrStateConflict, db)
               else queue_and_commit io now k relPath sz sha queueArchive db db
          else if d_attempt_generation r \<noteq> generation then (Some ErrStaleAttempt, db)
          else if d_status r \<noteq> Committing then (Some ErrStateConflict, db)
          else if coalesce (d_sha256 r) [] \<noteq> [] \<and> coalesce (d_sha256 r) [] \<noteq> sha
          then (Some ErrStateConflict, db)
          else if coalesce (d_save_path r) [] \<noteq> [] \<and> coalesce (d_save_path r) [] \<noteq> relPath
          then (Some ErrStateConflict, db)
          else if coalesce (d_file_size r) 0 > 0 \<and> coalesce (d_file_size r) 0 \<noteq> sz
          then (Some ErrStateConflict, db)
          else if io 2 then (Some ErrSql, db)
          else let (tx, n) = upd_download k
                 (\<lambda>r. d_status r = Committing \<and> d_attempt_generation r = generation)
                 (mark_success now relPath sz sha) db
               in if n = 0 then (Some ErrStateConflict, db)
                  else queue_and_commit io now k relPath sz sha queueArchive db tx)"

definition CompleteExistingDownload ::
  "(nat \<Rightarrow> bool) \<Rightarrow> int64 \<Rightarrow> msg_key \<Rightarrow> string \<Rightarrow> string \<Rightarrow> int64 \<Rightarrow> string \<Rightarrow> bool \<Rightarrow> database \<Rightarrow>
    db_error option \<times> database" where
  "CompleteExistingDownload io now k generation relPath sz sha queueArchive db =
     (if io 0 \<or> io 1 then (Some ErrSql, db)
      else case drow db k of
        None \<Rightarrow>
          if io 2 then (Some ErrSql, db)
          else queue_and_commit io now k relPath sz sha queueArchive db
            (ins_download k ((mark_success now relPath sz sha (new_download Success now))
               \<lparr>d_attempt_generation := generation\<rparr>) db)
      | Some r \<Rightarrow>
          if d_status r = Success
          then (if proof_missing r then Some ErrStateConflict
                else if row_proof r \<noteq> (relPath, sz, sha) then Some ErrStateConflict
                else None, db)
          else if d_status r = Committing \<or> d_status r = Downloading
          then if d_attempt_generation r \<noteq> [] \<and> generation \<noteq> [] \<and> d_attempt_generation r \<noteq> generation
               then (Some ErrStaleAttempt, db)
               else if io 2 then (Some ErrSql, db)
               else let (tx, n) = upd_download k
                      (\<lambda>r. (d_status r = Committing \<or> d_status r = Downloading) \<and>
                           (d_attempt_generation r = generation \<or> d_attempt_generation r = []))
                      (mark_success now relPath sz sha) db
                    in if n = 0 then (Some ErrStateConflict, db)
                       else queue_and_commit io now k relPath sz sha queueArchive db tx
          else (Some ErrStateConflict, db))"

text \<open>The guard the failing operations put on a row: their own generation, or none.\<close>

definition gen_matches :: "string \<Rightarrow> download_row \<Rightarrow> bool" where
  "gen_matches generation r \<longleftrightarrow> d_attempt_generation r = generation \<or> d_attempt_generation r = []"

definition stale_gen :: "string \<Rightarrow> download_row \<Rightarrow> bool" where
  "stale_gen generation r \<longleftrightarrow> d_attempt_generation r \<noteq> [] \<and> generation \<noteq> [] \<and>
     d_attempt_generation r \<noteq> generation"

definition RecordTargetConflict ::
  "(nat \<Rightarrow> bool) \<Rightarrow> int64 \<Rightarrow> msg_key \<Rightarrow> string \<Rightarrow> string \<Rightarrow> string \<Rightarrow> string \<Rightarrow> int64 \<Rightarrow>
    FailureDisposition \<Rightarrow> database \<Rightarrow> db_error option \<times> database" where
  "RecordTargetConflict io now k generation fileName savePath mediaType fileSize disp db =
     (if io 0 then (Some ErrSql, db)
      else case drow db k of
        None \<Rightarrow>
          if io 1 then (Some ErrSql, db)
          else (None, ins_download k ((insert_columns fileName savePath mediaType fileSize
                 (new_download Conflict now))\<lparr>d_error := Some (disp_Error disp), d_attempts := 1,
                   d_next_retry_at := 0, d_attempt_generation := generation\<rparr>) db)
      | Some r \<Rightarrow>
          if d_status r = Success \<or> d_status r = Conflict then (None, db)
          else if stale_gen generation r then (Some ErrStaleAttempt, db)
          else if io 2 then (Some ErrSql, db)
          else let (db', n) = upd_download k (\<lambda>r. d_status r \<noteq> Success \<and> gen_matches generation r)
                 (\<lambda>r. (plan_columns fileName savePath mediaType fileSize r)
                    \<lparr>d_status := Conflict, d_error := Some (disp_Error disp), d_next_retry_at := 0,
                      d_updated_at := now\<rparr>) db
               in if n = 0 then (Some ErrStaleAttempt, db') else (None, db'))"

text \<open>\<open>nano\<close> is the clock reading in nanoseconds that names the new generation.\<close>

definition ResolveTargetConflict ::
  "(nat \<Rightarrow> bool) \<Rightarrow> int64 \<Rightarrow> int64 \<Rightarrow> msg_key \<Rightarrow> string list \<Rightarrow> database \<Rightarrow>
    db_error option \<times> database" where
  "ResolveTargetConflict io now nano k newGenOpt db =
     (let newGen = (case newGenOpt of g # _ \<Rightarrow> if g \<noteq> [] then g else ''retry_'' @ show_int nano
                    | [] \<Rightarrow> ''retry_'' @ show_int nano)
      in if io 0 then (Some ErrSql, db)
         else let (db', n) = upd_download k (\<lambda>r. d_status r = Conflict)
                (\<lambda>r. r\<lparr>d_status := Pending, d_attempts := 0, d_attempt_generation := newGen,
                       d_error := Some [], d_next_retry_at := 0, d_updated_at := now\<rparr>) db
              in if n = 0 then (Some ErrConflictRecordNotFound, db') else (None, db'))"

text \<open>The texts that mark a cancellation rather than a failure, and the retry delay with its shift
  at 64 bits.\<close>

definition is_cancellation :: "string \<Rightarrow> bool" where
  "is_cancellation lowerErr \<longleftrightarrow>
     Contains lowerErr ''context canceled'' \<or> Contains lowerErr ''context deadline exceeded'' \<or>
     lowerErr = ''canceled'' \<or> lowerErr = ''task canceled'' \<or>
     Contains lowerErr ''engine forcibly closed''"

definition download_backoff :: "nat \<Rightarrow> int64" where
  "download_backoff attempts =
     (let backoff = i64 (60 * i64 (2 ^ attempts)) in if backoff > 1800 then 1800 else backoff)"

definition FailDownload ::
  "(nat \<Rightarrow> bool) \<Rightarrow> int64 \<Rightarrow> msg_key \<Rightarrow> string \<Rightarrow> string \<Rightarrow> string \<Rightarrow> string \<Rightarrow> int64 \<Rightarrow> string \<Rightarrow> bool \<Rightarrow>
    database \<Rightarrow> db_error option \<times> database" where
  "FailDownload io now k generation fileName savePath mediaType fileSize errMsg isUnavailable db =
     (if io 0 then (Some ErrSql, db)
      else case drow db k of
        None \<Rightarrow>
          if io 1 then (Some ErrSql, db)
          else (None, ins_download k ((insert_columns fileName savePath mediaType fileSize
                 (new_download (if isUnavailable then Unavailable else Failed) now))
                   \<lparr>d_error := Some errMsg, d_attempts := 1, d_next_retry_at := i64 (now + 60),
                     d_attempt_generation := generation\<rparr>) db)
      | Some r \<Rightarrow>
          if d_status r = Success \<or> d_status r = Failed \<or> d_status r = Unavailable \<or> d_status r = Conflict
          then (None, db)
          else if stale_gen generation r then (Some ErrStaleAttempt, db)
          else let (status, msg, nextRetryAt) =
                     (if isUnavailable then (Unavailable, errMsg, i64 (now + 86400 * 7))
                      else if is_cancellation (ToLower errMsg) then (Pending, [], 0)
                      else (Failed, errMsg, i64 (now + download_backoff (d_attempts r))))
               in if io 2 then (Some ErrSql, db)
                  else let (db', n) = upd_download k
                         (\<lambda>r. d_status r \<notin> {Success, Conflict} \<and> gen_matches generation r)
                         (\<lambda>r. (plan_columns fileName savePath mediaType fileSize r)
                            \<lparr>d_status := status, d_error := Some msg,
                              d_attempts := (if status = Failed then Suc (d_attempts r) else d_attempts r),
                              d_next_retry_at := nextRetryAt, d_updated_at := now\<rparr>) db
                       in if n = 0 then (Some ErrStaleAttempt, db') else (None, db'))"

definition FailDownloadDisposition ::
  "(nat \<Rightarrow> bool) \<Rightarrow> int64 \<Rightarrow> msg_key \<Rightarrow> string \<Rightarrow> string \<Rightarrow> string \<Rightarrow> string \<Rightarrow> int64 \<Rightarrow>
    FailureDisposition \<Rightarrow> database \<Rightarrow> db_error option \<times> database" where
  "FailDownloadDisposition io now k generation fileName savePath mediaType fileSize disp db =
     (if f_Class disp = ''target_conflict''
      then RecordTargetConflict io now k generation fileName savePath mediaType fileSize disp db
      else FailDownload io now k generation fileName savePath mediaType fileSize
             (disp_Error disp) (f_Unavailable disp) db)"

definition CancelDownload ::
  "(nat \<Rightarrow> bool) \<Rightarrow> int64 \<Rightarrow> msg_key \<Rightarrow> string \<Rightarrow> string \<Rightarrow> database \<Rightarrow> db_error option \<times> database" where
  "CancelDownload io now k generation reason db =
     (let reason' = (if reason = [] then ''task canceled'' else reason)
      in if io 0 then (Some ErrSql, db)
         else let (db', n) = upd_download k
                (\<lambda>r. (d_status r = Pending \<or> d_status r = Downloading) \<and>
                     (d_attempt_generation r = generation \<or> d_attempt_generation r = [] \<or> generation = []))
                (\<lambda>r. r\<lparr>d_status := Failed, d_error := Some reason', d_updated_at := now\<rparr>) db
              in if n = 0 then (Some ErrStateConflict, db') else (None, db'))"

text \<open>\<open>UpdateDownloadStatus\<close> ignores the error of its \<open>SELECT\<close>: a failed read leaves the current
  status empty, exactly as a missing row does.\<close>

definition UpdateDownloadStatus ::
  "(nat \<Rightarrow> bool) \<Rightarrow> int64 \<Rightarrow> msg_key \<Rightarrow> rec_status \<Rightarrow> string \<Rightarrow> string \<Rightarrow> string \<Rightarrow> int64 \<Rightarrow> string \<Rightarrow>
    database \<Rightarrow> db_error option \<times> database" where
  "UpdateDownloadStatus io now k status fileName savePath mediaType fileSize errMsg db =
     (let downloadedAt = (if status = Success then Some now else None);
          (currentStatus, currentAttempts) =
            (case (if io 0 then None else drow db k) of
               None \<Rightarrow> (StOther [], 0) | Some r \<Rightarrow> (d_status r, d_attempts r))
      in if currentStatus = Success \<or> currentStatus = Conflict then (None, db)
         else if currentStatus = Failed \<and> status = Failed then (None, db)
         else let lowerErr = ToLower errMsg;
                  (st, msg, nextRetryAt) =
                    (if status = Failed
                     then if is_cancellation lowerErr then (Pending, [], 0)
                          else if Contains lowerErr ''deleted'' \<or> Contains lowerErr ''unavailable'' \<or>
                                  Contains lowerErr ''message_id_invalid''
                          then (Failed, errMsg, i64 (now + 86400 * 7))
                          else (Failed, errMsg, i64 (now + download_backoff currentAttempts))
                     else (status, errMsg, 0))
              in if io 1 then (Some ErrSql, db)
                 else (None, db\<lparr>download_records := tab_upsert k
                   ((insert_columns fileName savePath mediaType fileSize (new_download st now))
                      \<lparr>d_error := Some msg, d_attempts := (if st = Failed then 1 else 0),
                        d_next_retry_at := nextRetryAt, d_downloaded_at := downloadedAt\<rparr>)
                   (\<lambda>r. (plan_columns fileName savePath mediaType fileSize r)
                      \<lparr>d_status := st, d_error := Some msg,
                        d_attempts := (if st = Failed then Suc (d_attempts r) else d_attempts r),
                        d_next_retry_at := (if st = Failed then nextRetryAt else d_next_retry_at r),
                        d_updated_at := now,
                        d_downloaded_at := (case downloadedAt of None \<Rightarrow> d_downloaded_at r
                                            | Some t \<Rightarrow> Some t)\<rparr>)
                   (download_records db)\<rparr>))"

section \<open>Queries\<close>

text \<open>\<open>GetDownloadRecord\<close> scans \<open>file_size\<close> into an integer, so a NULL size is an error; a missing row
  is not.\<close>

definition GetDownloadRecord ::
  "(nat \<Rightarrow> bool) \<Rightarrow> msg_key \<Rightarrow> database \<Rightarrow> db_error + download_row option" where
  "GetDownloadRecord io k db =
     (if io 0 then Inl ErrSql
      else case drow db k of
        None \<Rightarrow> Inr None
      | Some r \<Rightarrow> if d_file_size r = None then Inl ErrSql else Inr (Some r))"

record pending_item =
  p_key :: msg_key
  p_row :: download_row
  p_title :: string
  p_date :: int64
  p_priority :: int

text \<open>The \<open>INNER JOIN\<close> with an enabled target and the \<open>LEFT JOIN\<close> with the message.\<close>

definition join_row :: "database \<Rightarrow> msg_key \<times> download_row \<Rightarrow> pending_item list" where
  "join_row db = (\<lambda>(k, r).
     case tab_sel (listen_targets db) (fst k) of
       None \<Rightarrow> []
     | Some t \<Rightarrow> if t_enabled t
                 then [\<lparr>p_key = k, p_row = r, p_title = t_title t,
                        p_date = (case tab_sel (chat_messages db) k of
                                    None \<Rightarrow> d_created_at r | Some m \<Rightarrow> m_date m),
                        p_priority = t_priority t\<rparr>]
                 else [])"

definition pending_join :: "database \<Rightarrow> pending_item list" where
  "pending_join db = concat (map (join_row db) (download_records db))"

definition due :: "int64 \<Rightarrow> download_row \<Rightarrow> bool" where
  "due now r \<longleftrightarrow> d_status r = Pending \<or> (d_status r = Failed \<and> d_next_retry_at r \<le> now)"

text \<open>\<open>ORDER BY priority DESC, message_id ASC\<close> as two stable sorts.\<close>

definition GetPendingDownloads ::
  "(nat \<Rightarrow> bool) \<Rightarrow> int64 \<Rightarrow> int \<Rightarrow> database \<Rightarrow> db_error + pending_item list" where
  "GetPendingDownloads io now limit db =
     (if io 0 then Inl ErrSql
      else Inr (limit_rows limit (sort_key (\<lambda>i. - p_priority i)
             (sort_key (\<lambda>i. snd (p_key i)) (filter (\<lambda>i. due now (p_row i)) (pending_join db))))))"

definition GetConflictedDownloads ::
  "(nat \<Rightarrow> bool) \<Rightarrow> database \<Rightarrow> db_error + (msg_key \<times> download_row) list" where
  "GetConflictedDownloads io db =
     (if io 0 then Inl ErrSql
      else Inr (sort_key (\<lambda>(k, r). - d_updated_at r)
             (filter (\<lambda>(k, r). d_status r = Conflict) (download_records db))))"

definition GetPendingCommittingDownloads ::
  "(nat \<Rightarrow> bool) \<Rightarrow> database \<Rightarrow> db_error + (msg_key \<times> download_row) list" where
  "GetPendingCommittingDownloads io db =
     (if io 0 then Inl ErrSql
      else Inr (filter (\<lambda>(k, r). d_status r = Committing) (download_records db)))"

definition GetStaleDownloadingRecords ::
  "(nat \<Rightarrow> bool) \<Rightarrow> database \<Rightarrow> db_error + (msg_key \<times> download_row) list" where
  "GetStaleDownloadingRecords io db =
     (if io 0 then Inl ErrSql
      else Inr (filter (\<lambda>(k, r). d_status r = Downloading) (download_records db)))"

definition GetDurableTargetBytes :: "(nat \<Rightarrow> bool) \<Rightarrow> database \<Rightarrow> db_error + int" where
  "GetDurableTargetBytes io db =
     (if io 0 then Inl ErrSql
      else Inr (sum_case (\<lambda>r. d_status r = Success) (\<lambda>r. coalesce (d_file_size r) 0)
             (download_records db)))"

text \<open>\<open>Get24hSuccessBytes\<close> ignores the error of its \<open>SELECT\<close> and then returns 0.\<close>

definition Get24hSuccessBytes :: "(nat \<Rightarrow> bool) \<Rightarrow> int64 \<Rightarrow> database \<Rightarrow> int" where
  "Get24hSuccessBytes io now db =
     (let cutoff = now - 86400
      in if io 0 then 0
         else sum_case (\<lambda>r. d_status r = Success \<and>
                 ((case d_downloaded_at r of None \<Rightarrow> False | Some t \<Rightarrow> t \<ge> cutoff) \<or> d_updated_at r \<ge> cutoff))
               (\<lambda>r. coalesce (d_file_size r) 0) (download_records db))"

section \<open>Updates of the download table\<close>

lemma upd_download_simps [simp]:
  "archive_jobs (fst (upd_download k c f db)) = archive_jobs db"
  "chat_scan_cursors (fst (upd_download k c f db)) = chat_scan_cursors db"
  "chat_messages (fst (upd_download k c f db)) = chat_messages db"
  "listen_targets (fst (upd_download k c f db)) = listen_targets db"
  "telegram_accounts (fst (upd_download k c f db)) = telegram_accounts db"
  "download_records (fst (upd_download k c f db)) = fst (tab_upd k c f (download_records db))"
  "snd (upd_download k c f db) = snd (tab_upd k c f (download_records db))"
  by (simp_all add: upd_download_def split_def Let_def)

lemma upd_download_ok [simp]: "db_ok db \<Longrightarrow> db_ok (fst (upd_download k c f db))"
  by (auto intro!: db_okI)

lemma ins_download_simps [simp]:
  "archive_jobs (ins_download k r db) = archive_jobs db"
  "download_records (ins_download k r db) = tab_ins k r (download_records db)"
  "db_ok db \<Longrightarrow> drow db k = None \<Longrightarrow> db_ok (ins_download k r db)"
  by (auto simp: ins_download_def)

lemmas row_defs = plan_columns_def insert_columns_def proof_columns_def mark_success_def
  new_download_def

lemma plan_columns_simps [simp]:
  "d_status (plan_columns a b c n r) = d_status r"
  "d_attempt_generation (plan_columns a b c n r) = d_attempt_generation r"
  "d_attempts (plan_columns a b c n r) = d_attempts r"
  "d_sha256 (plan_columns a b c n r) = d_sha256 r"
  by (simp_all add: plan_columns_def)

lemma mark_success_simps [simp]:
  "d_status (mark_success now p n s r) = Success"
  "d_attempt_generation (mark_success now p n s r) = d_attempt_generation r"
  "row_proof (mark_success now p n s r) = (p, n, s)"
  by (simp_all add: mark_success_def proof_columns_def row_proof_def)

section \<open>Commands and their effect\<close>

text \<open>The calls on one record. \<open>DUpdate\<close> is \<open>UpdateDownloadStatus\<close> when its \<open>SELECT\<close> succeeds, and
  \<open>DArchive\<close> any call on the archive queue.\<close>

datatype dl_cmd =
    DEnsure string int64
  | DBegin string string string string int64
  | DPrepare string string int64 string
  | DComplete string string int64 string bool
  | DExisting string string int64 string bool
  | DConflict string string string string int64 FailureDisposition
  | DResolve int64 "string list"
  | DFail string string string string int64 string bool
  | DDisposition string string string string int64 FailureDisposition
  | DCancel string string
  | DUpdate rec_status string string string int64 string
  | DArchive arc_cmd

fun run_dl :: "(nat \<Rightarrow> bool) \<Rightarrow> int64 \<Rightarrow> msg_key \<Rightarrow> dl_cmd \<Rightarrow> database \<Rightarrow> database" where
  "run_dl io now k (DEnsure p n) db = snd (EnsureDownloadRecord io now k p n db)"
| "run_dl io now k (DBegin g f p m n) db = snd (BeginDownload io now k g f p m n db)"
| "run_dl io now k (DPrepare g p n s) db = snd (PrepareDownloadCommit io now k g p n s db)"
| "run_dl io now k (DComplete g p n s q) db = snd (CompleteDownloadAndQueueArchive io now k g p n s q db)"
| "run_dl io now k (DExisting g p n s q) db = snd (CompleteExistingDownload io now k g p n s q db)"
| "run_dl io now k (DConflict g f p m n d) db = snd (RecordTargetConflict io now k g f p m n d db)"
| "run_dl io now k (DResolve nano gs) db = snd (ResolveTargetConflict io now nano k gs db)"
| "run_dl io now k (DFail g f p m n e u) db = snd (FailDownload io now k g f p m n e u db)"
| "run_dl io now k (DDisposition g f p m n d) db = snd (FailDownloadDisposition io now k g f p m n d db)"
| "run_dl io now k (DCancel g e) db = snd (CancelDownload io now k g e db)"
| "run_dl io now k (DUpdate st f p m n e) db =
     snd (UpdateDownloadStatus (io(0 := False)) now k st f p m n e db)"
| "run_dl io now k (DArchive c) db = run_arc io now k c db"

type_synonym dl_call = "(nat \<Rightarrow> bool) \<times> int64 \<times> msg_key \<times> dl_cmd"

definition run_dls :: "dl_call list \<Rightarrow> database \<Rightarrow> database" where
  "run_dls cs db = fold (\<lambda>(io, now, k, c). run_dl io now k c) cs db"

lemma run_dls_simps [simp]:
  "run_dls [] db = db"
  "run_dls ((io, now, k, c) # cs) db = run_dls cs (run_dl io now k c db)"
  by (simp_all add: run_dls_def)

text \<open>When a command may change an existing record, and to what.\<close>

fun dl_guard :: "dl_cmd \<Rightarrow> download_row \<Rightarrow> bool" where
  "dl_guard (DBegin g _ _ _ _) r \<longleftrightarrow>
     d_status r \<in> {Pending, Failed} \<or> (d_status r = Downloading \<and> d_attempt_generation r = g)"
| "dl_guard (DPrepare g _ _ _) r \<longleftrightarrow> d_status r = Downloading \<and> d_attempt_generation r = g"
| "dl_guard (DComplete g _ _ _ _) r \<longleftrightarrow> d_status r = Committing \<and> d_attempt_generation r = g"
| "dl_guard (DExisting g _ _ _ _) r \<longleftrightarrow> d_status r \<in> {Committing, Downloading} \<and> gen_matches g r"
| "dl_guard (DConflict g _ _ _ _ _) r \<longleftrightarrow> d_status r \<notin> {Success, Conflict} \<and> gen_matches g r"
| "dl_guard (DResolve _ _) r \<longleftrightarrow> d_status r = Conflict"
| "dl_guard (DFail g _ _ _ _ _ _) r \<longleftrightarrow>
     d_status r \<notin> {Success, Failed, Unavailable, Conflict} \<and> gen_matches g r"
| "dl_guard (DDisposition g _ _ _ _ _) r \<longleftrightarrow> d_status r \<notin> {Success, Conflict} \<and> gen_matches g r"
| "dl_guard (DCancel g _) r \<longleftrightarrow> d_status r \<in> {Pending, Downloading} \<and> (gen_matches g r \<or> g = [])"
| "dl_guard (DUpdate _ _ _ _ _ _) r \<longleftrightarrow> d_status r \<notin> {Success, Conflict}"
| "dl_guard _ r \<longleftrightarrow> False"

fun dl_post :: "dl_cmd \<Rightarrow> download_row \<Rightarrow> download_row \<Rightarrow> bool" where
  "dl_post (DBegin g _ _ _ _) r r' \<longleftrightarrow> d_status r' = Downloading \<and> d_attempt_generation r' = g"
| "dl_post (DPrepare _ p n s) r r' \<longleftrightarrow> d_status r' = Committing \<and> row_proof r' = (p, n, s) \<and>
     d_attempt_generation r' = d_attempt_generation r"
| "dl_post (DComplete _ p n s _) r r' \<longleftrightarrow> d_status r' = Success \<and> row_proof r' = (p, n, s)"
| "dl_post (DExisting _ p n s _) r r' \<longleftrightarrow> d_status r' = Success \<and> row_proof r' = (p, n, s)"
| "dl_post (DConflict _ _ _ _ _ _) r r' \<longleftrightarrow> d_status r' = Conflict"
| "dl_post (DResolve _ _) r r' \<longleftrightarrow> d_status r' = Pending"
| "dl_post (DFail _ _ _ _ _ _ _) r r' \<longleftrightarrow> d_status r' \<in> {Failed, Unavailable, Pending}"
| "dl_post (DDisposition _ _ _ _ _ _) r r' \<longleftrightarrow> d_status r' \<in> {Failed, Unavailable, Pending, Conflict}"
| "dl_post (DCancel _ _) r r' \<longleftrightarrow> d_status r' = Failed"
| "dl_post (DUpdate st _ _ _ _ _) r r' \<longleftrightarrow> d_status r' \<in> {st, Pending}"
| "dl_post _ r r' \<longleftrightarrow> False"

definition dl_effect :: "msg_key \<Rightarrow> dl_cmd \<Rightarrow> database \<Rightarrow> database \<Rightarrow> bool" where
  "dl_effect k c db db' \<longleftrightarrow>
     db_ok db' \<and> (\<forall>j. j \<noteq> k \<longrightarrow> drow db' j = drow db j) \<and>
     (\<forall>r. drow db k = Some r \<longrightarrow>
        (\<exists>r'. drow db' k = Some r' \<and> (r' = r \<or> (dl_guard c r \<and> dl_post c r r')))) \<and>
     arc_evolves db db' \<and> (arc_rows_ok db \<longrightarrow> arc_rows_ok db')"

lemma effect_refl [simp]: "db_ok db \<Longrightarrow> dl_effect k c db db"
  by (simp add: dl_effect_def)

lemma upd_download_archive [simp]:
  "arc_evolves db (fst (upd_download k g f db))" "arc_evolves db (ins_download k r db)"
  "arc_rows_ok (fst (upd_download k g f db)) = arc_rows_ok db"
  "arc_rows_ok (ins_download k r db) = arc_rows_ok db"
  by (simp_all add: arc_evolves_def arc_rows_ok_def)

lemma effect_ins [simp]:
  "db_ok db \<Longrightarrow> drow db k = None \<Longrightarrow> dl_effect k c db (ins_download k r db)"
  by (simp add: dl_effect_def)

lemma effect_upd:
  assumes "db_ok db"
    and "\<And>r. drow db k = Some r \<Longrightarrow> g r \<Longrightarrow> dl_guard c r"
    and "\<And>r. drow db k = Some r \<Longrightarrow> g r \<Longrightarrow> dl_post c r (f r)"
  shows "dl_effect k c db (fst (upd_download k g f db))"
  using assms by (auto simp: dl_effect_def)

lemma effect_archive:
  assumes "dl_effect k c db tx" and "arc_change j a tx tx'"
  shows "dl_effect k c db tx'"
  using assms arc_change_ok [OF assms(2)] arc_change_downloads [OF assms(2)]
    arc_change_evolves [OF assms(2)] arc_change_rows_ok [OF assms(2)]
  by (auto simp: dl_effect_def intro: arc_evolves_trans)

lemma queue_and_commit_snd:
  "snd (queue_and_commit io now k p n s q db tx) \<in>
     {db, if q then snd (ensureArchiveJobLocked (\<lambda>i. io (i + 3)) now k p n s tx) else tx}"
  by (cases "ensureArchiveJobLocked (\<lambda>i. io (i + 3)) now k p n s tx")
    (auto simp: queue_and_commit_def split: option.splits db_error.splits)

lemma effect_queue:
  assumes "db_ok db" and "dl_effect k c db tx"
  shows "dl_effect k c db (snd (queue_and_commit io now j p n s q db tx))"
proof -
  note q = queue_and_commit_snd [of io now j p n s q db tx]
  have "dl_effect k c db (snd (ensureArchiveJobLocked (\<lambda>i. io (i + 3)) now j p n s tx))"
    by (rule effect_archive [OF assms(2) ensure_change])
  with q assms show ?thesis by (cases q) auto
qed

section \<open>The effect of each operation\<close>

lemma ensure_effect: "db_ok db \<Longrightarrow> dl_effect k (DEnsure p n) db (snd (EnsureDownloadRecord io now k p n db))"
  by (simp add: EnsureDownloadRecord_def split: option.split)

lemma begin_effect:
  "db_ok db \<Longrightarrow> dl_effect k (DBegin g f p m n) db (snd (BeginDownload io now k g f p m n db))"
  by (simp add: BeginDownload_def split_def Let_def split: option.split) (auto intro!: effect_upd)

lemma prepare_effect:
  "db_ok db \<Longrightarrow> dl_effect k (DPrepare g p n s) db (snd (PrepareDownloadCommit io now k g p n s db))"
  by (simp add: PrepareDownloadCommit_def split_def Let_def split: option.split)
    (auto intro!: effect_upd simp: proof_columns_def row_proof_def)

lemma complete_effect:
  "db_ok db \<Longrightarrow> dl_effect k (DComplete g p n s q) db
     (snd (CompleteDownloadAndQueueArchive io now k g p n s q db))"
  by (simp add: CompleteDownloadAndQueueArchive_def split_def Let_def effect_queue split: option.split)
    (auto intro!: effect_queue effect_upd)

lemma existing_effect:
  "db_ok db \<Longrightarrow> dl_effect k (DExisting g p n s q) db
     (snd (CompleteExistingDownload io now k g p n s q db))"
  by (simp add: CompleteExistingDownload_def split_def Let_def effect_queue split: option.split)
    (auto intro!: effect_queue effect_upd simp: gen_matches_def)

lemma conflict_effect:
  "db_ok db \<Longrightarrow> dl_effect k (DConflict g f p m n d) db
     (snd (RecordTargetConflict io now k g f p m n d db))"
  by (simp add: RecordTargetConflict_def split_def Let_def split: option.split)
    (auto intro!: effect_upd)

lemma resolve_effect:
  "db_ok db \<Longrightarrow> dl_effect k (DResolve nano gs) db (snd (ResolveTargetConflict io now nano k gs db))"
  by (simp add: ResolveTargetConflict_def split_def Let_def) (auto intro!: effect_upd)

lemma fail_effect:
  "db_ok db \<Longrightarrow> dl_effect k (DFail g f p m n e u) db (snd (FailDownload io now k g f p m n e u db))"
  by (simp add: FailDownload_def split_def Let_def split: option.split)
    (auto intro!: effect_upd)

lemma cancel_effect: "db_ok db \<Longrightarrow> dl_effect k (DCancel g e) db (snd (CancelDownload io now k g e db))"
  by (simp add: CancelDownload_def split_def Let_def) (auto intro!: effect_upd simp: gen_matches_def)

lemma disposition_effect:
  "db_ok db \<Longrightarrow> dl_effect k (DDisposition g f p m n d) db
     (snd (FailDownloadDisposition io now k g f p m n d db))"
  using conflict_effect [of db k g f p m n d io now]
    fail_effect [of db k g f p m n "disp_Error d" "f_Unavailable d" io now]
  by (auto simp: FailDownloadDisposition_def dl_effect_def)

lemma effect_upsert:
  assumes "db_ok db" and "\<And>r. drow db k = Some r \<Longrightarrow> dl_guard c r"
    and "\<And>r. drow db k = Some r \<Longrightarrow> dl_post c r (f r)"
  shows "dl_effect k c db (db\<lparr>download_records := tab_upsert k r0 f (download_records db)\<rparr>)"
  using assms by (auto simp: dl_effect_def arc_evolves_def arc_rows_ok_def)

lemma update_effect:
  "db_ok db \<Longrightarrow> \<not> io 0 \<Longrightarrow> dl_effect k (DUpdate st f p m n e) db
     (snd (UpdateDownloadStatus io now k st f p m n e db))"
  by (auto simp: UpdateDownloadStatus_def split_def Let_def split: option.split intro!: effect_upsert)

lemma run_dl_effect: "db_ok db \<Longrightarrow> dl_effect k c db (run_dl io now k c db)"
proof (cases c)
  case (DArchive a)
  then show "db_ok db \<Longrightarrow> ?thesis" by (auto intro: effect_archive [OF _ run_arc_change])
qed (simp_all add: ensure_effect begin_effect prepare_effect complete_effect existing_effect
      conflict_effect resolve_effect fail_effect disposition_effect cancel_effect update_effect)

section \<open>Sequences of calls\<close>

interpretation dls: evolving_system "\<lambda>(io, now, k, c). run_dl io now k c" db_ok "\<lambda>_. True" arc_evolves
  using run_dl_effect
  by unfold_locales (auto simp: dl_effect_def intro: arc_evolves_trans)

lemma run_dls_ok: "db_ok db \<Longrightarrow> db_ok (run_dls cs db)"
  using dls.inv_fold [of db cs] by (simp add: run_dls_def list_all_iff)

lemma run_dls_archive: "db_ok db \<Longrightarrow> arc_evolves db (run_dls cs db)"
  using dls.evolves_fold [of db cs] by (simp add: run_dls_def list_all_iff)

text \<open>A call that cannot change the row \<open>r\<close> of the record \<open>k\<close>.\<close>

fun harmless :: "msg_key \<Rightarrow> download_row \<Rightarrow> dl_call \<Rightarrow> bool" where
  "harmless k r (io, now, j, cmd) \<longleftrightarrow> (j = k \<longrightarrow> \<not> dl_guard cmd r)"

lemma run_dl_harmless:
  assumes "db_ok db" and "drow db k = Some r" and "harmless k r (io, now, j, cmd)"
  shows "drow (run_dl io now j cmd db) k = Some r"
  using run_dl_effect [OF assms(1), of j cmd io now] assms(2,3)
  by (cases "j = k") (auto simp: dl_effect_def)

interpretation harmless: call_system "\<lambda>(io, now, k, c). run_dl io now k c"
    "\<lambda>db. db_ok db \<and> drow db k = Some r" "harmless k r" for k r
proof
  fix db and x :: dl_call
  assume a: "db_ok db \<and> drow db k = Some r" "harmless k r x"
  obtain io now j c where x: "x = (io, now, j, c)" by (cases x) auto
  show "db_ok ((\<lambda>(io, now, k, c). run_dl io now k c) x db) \<and> drow ((\<lambda>(io, now, k, c). run_dl io now k c) x db) k = Some r"
    using a run_dl_harmless [of db k r io now j c] run_dl_effect [of db j c io now] by (simp add: x dl_effect_def)
qed

lemma run_dls_harmless:
  assumes "db_ok db" and "drow db k = Some r" and "list_all (harmless k r) cs"
  shows "drow (run_dls cs db) k = Some r"
  using harmless.inv_fold [of db k r cs] assms by (simp add: run_dls_def)

lemma success_guard: "d_status r = Success \<Longrightarrow> \<not> dl_guard c r"
  by (cases c) auto

lemma conflict_guard: "d_status r = Conflict \<Longrightarrow> dl_guard c r \<Longrightarrow> \<exists>nano gs. c = DResolve nano gs"
  by (cases c) auto

text \<open>A call of another attempt: it presents another generation, and is neither an unconditional
  cancellation nor an unconditional status update.\<close>

fun foreign_cmd :: "string \<Rightarrow> dl_cmd \<Rightarrow> bool" where
  "foreign_cmd g (DBegin g' _ _ _ _) \<longleftrightarrow> g' \<noteq> g"
| "foreign_cmd g (DPrepare g' _ _ _) \<longleftrightarrow> g' \<noteq> g"
| "foreign_cmd g (DComplete g' _ _ _ _) \<longleftrightarrow> g' \<noteq> g"
| "foreign_cmd g (DExisting g' _ _ _ _) \<longleftrightarrow> g' \<noteq> g"
| "foreign_cmd g (DConflict g' _ _ _ _ _) \<longleftrightarrow> g' \<noteq> g"
| "foreign_cmd g (DFail g' _ _ _ _ _ _) \<longleftrightarrow> g' \<noteq> g"
| "foreign_cmd g (DDisposition g' _ _ _ _ _) \<longleftrightarrow> g' \<noteq> g"
| "foreign_cmd g (DCancel g' _) \<longleftrightarrow> g' \<noteq> g \<and> g' \<noteq> []"
| "foreign_cmd g (DUpdate _ _ _ _ _ _) \<longleftrightarrow> False"
| "foreign_cmd g _ \<longleftrightarrow> True"

fun foreign_dl :: "msg_key \<Rightarrow> string \<Rightarrow> dl_call \<Rightarrow> bool" where
  "foreign_dl k g (io, now, j, cmd) \<longleftrightarrow> (j = k \<longrightarrow> foreign_cmd g cmd)"

lemma foreign_guard:
  "d_status r \<in> {Downloading, Committing} \<Longrightarrow> d_attempt_generation r = g \<Longrightarrow> g \<noteq> [] \<Longrightarrow>
    foreign_cmd g cmd \<Longrightarrow> \<not> dl_guard cmd r"
  by (cases cmd) (auto simp: gen_matches_def)

lemma foreign_harmless:
  assumes "d_status r \<in> {Downloading, Committing}" and "d_attempt_generation r = g" and "g \<noteq> []"
    and "list_all (foreign_dl k g) cs"
  shows "list_all (harmless k r) cs"
  using assms(4)
proof (rule list.pred_mono_strong)
  fix a assume "foreign_dl k g a"
  then show "harmless k r a"
    by (cases a) (simp add: foreign_guard [OF assms(1-3)])
qed

end
