(* ===== verification/Download_Lifecycle.thy ===== *)
theory Download_Lifecycle
  imports Download_Records
begin

text \<open>
  The properties of the download records over sequences of calls: finality of success and
  conflict, isolation of attempts by their generation, the two-phase commit of a download
  with its archive job, the retry delay, and the queue of due downloads.
\<close>

section \<open>The completing transaction\<close>

lemma ensure_outcome:
  assumes "db_ok tx" and "ensureArchiveJobLocked io now k p n s tx = (e, tx')"
  shows "download_records tx' = download_records tx"
    and "e = None \<Longrightarrow> \<exists>j. arow tx' k = Some j \<and> same_identity j p n s"
    and "e = Some ErrArchiveConflict \<Longrightarrow> \<exists>j. arow tx' k = Some j \<and> \<not> same_identity j p n s"
    and "e \<in> {None, Some ErrArchiveConflict, Some ErrSql}"
proof -
  show "download_records tx' = download_records tx"
    using assms ensure_change [of k p n s tx io now] by (auto dest: arc_change_downloads)
  show "e = None \<Longrightarrow> \<exists>j. arow tx' k = Some j \<and> same_identity j p n s"
    using assms by (auto simp: ensure_cases new_archive_row_def same_identity_def
        split: if_splits option.splits)
  show "e = Some ErrArchiveConflict \<Longrightarrow> \<exists>j. arow tx' k = Some j \<and> \<not> same_identity j p n s"
    using assms by (auto simp: ensure_cases same_identity_def split: if_splits option.splits)
  show "e \<in> {None, Some ErrArchiveConflict, Some ErrSql}"
    using assms by (auto simp: ensure_cases split: if_splits option.splits)
qed

text \<open>What a completing transaction leaves: the record of \<open>tx\<close> with an agreeing job, the record with a
  disagreeing job and \<open>ErrArchiveConflict\<close>, or nothing.\<close>

definition completed ::
  "bool \<Rightarrow> msg_key \<Rightarrow> string \<Rightarrow> int64 \<Rightarrow> string \<Rightarrow> database \<Rightarrow> db_error option \<times> database \<Rightarrow> bool" where
  "completed q k p n s db res \<longleftrightarrow>
     (case fst res of
        None \<Rightarrow> (\<exists>r. drow (snd res) k = Some r \<and> d_status r = Success \<and> row_proof r = (p, n, s)) \<and>
                (q \<longrightarrow> (\<exists>j. arow (snd res) k = Some j \<and> same_identity j p n s))
      | Some ErrArchiveConflict \<Rightarrow>
          (\<exists>r. drow (snd res) k = Some r \<and> d_status r = Success \<and> row_proof r = (p, n, s)) \<and>
          (\<exists>j. arow (snd res) k = Some j \<and> \<not> same_identity j p n s)
      | Some _ \<Rightarrow> snd res = db)"

lemma completed_queue:
  assumes "db_ok tx" and "drow tx k = Some r" and "d_status r = Success" and "row_proof r = (p, n, s)"
  shows "completed q k p n s db (queue_and_commit io now k p n s q db tx)"
proof (cases q)
  case False
  with assms show ?thesis by (simp add: queue_and_commit_def completed_def)
next
  case True
  obtain e tx' where e: "ensureArchiveJobLocked (\<lambda>i. io (i + 3)) now k p n s tx = (e, tx')" by force
  note out = ensure_outcome [OF assms(1) e]
  from out(4) consider "e = None" | "e = Some ErrArchiveConflict" | "e = Some ErrSql" by auto
  then show ?thesis
    by cases (use True e out assms in \<open>simp_all add: queue_and_commit_def completed_def\<close>)
qed

lemma queue_no_fault:
  assumes "db_ok tx"
  shows "fst (queue_and_commit no_fault now k p n s q db tx) \<in> {None, Some ErrArchiveConflict}"
  using assms by (auto simp: queue_and_commit_def ensure_cases split: option.splits)

section \<open>Attempts are isolated\<close>

lemma attempt_held:
  assumes "db_ok db" and "drow db k = Some r" and "d_status r \<in> {Downloading, Committing}"
    and "d_attempt_generation r = g" and "g \<noteq> []" and "list_all (foreign_dl k g) cs"
  shows "drow (run_dls cs db) k = Some r" and "db_ok (run_dls cs db)"
  using run_dls_harmless [OF assms(1,2) foreign_harmless [OF assms(3-6)]] run_dls_ok [OF assms(1)]
  by simp_all

section \<open>The steps of an attempt, when no statement fails\<close>

lemma begin_ok:
  assumes "db_ok db" and "drow db k = Some r" and "d_status r \<in> {Pending, Failed}"
  shows "fst (BeginDownload no_fault now k g f p m n db) = None \<and>
    (\<exists>r'. drow (snd (BeginDownload no_fault now k g f p m n db)) k = Some r' \<and>
      d_status r' = Downloading \<and> d_attempt_generation r' = g) \<and>
    db_ok (snd (BeginDownload no_fault now k g f p m n db))"
  using assms by (auto simp: BeginDownload_def split_def Let_def)

lemma prepare_ok:
  assumes "db_ok db" and "drow db k = Some r" and "d_status r = Downloading"
    and "d_attempt_generation r = g"
  shows "fst (PrepareDownloadCommit no_fault now k g p n s db) = None \<and>
    (\<exists>r'. drow (snd (PrepareDownloadCommit no_fault now k g p n s db)) k = Some r' \<and>
      d_status r' = Committing \<and> d_attempt_generation r' = g \<and> row_proof r' = (p, n, s)) \<and>
    db_ok (snd (PrepareDownloadCommit no_fault now k g p n s db))"
  using assms by (auto simp: PrepareDownloadCommit_def split_def Let_def proof_columns_def row_proof_def)

lemma complete_committing:
  assumes "db_ok db" and "drow db k = Some r" and "d_status r = Committing"
    and "d_attempt_generation r = g" and "row_proof r = (p, n, s)"
  shows "fst (CompleteDownloadAndQueueArchive no_fault now k g p n s q db) \<in> {None, Some ErrArchiveConflict}"
  using assms by (simp add: CompleteDownloadAndQueueArchive_def split_def Let_def row_proof_def
      queue_no_fault del: insert_iff)

lemma complete_completed:
  assumes "db_ok db"
  shows "completed q k p n s db (CompleteDownloadAndQueueArchive io now k g p n s q db)"
proof -
  have err: "completed q k p n s db (Some e, db)" if "e \<noteq> ErrArchiveConflict" for e
    using that by (cases e) (simp_all add: completed_def)
  have tx: "completed q k p n s db (queue_and_commit io now k p n s q db
      (fst (upd_download k c (mark_success now p n s) db)))"
    if "drow db k = Some r" and "c r" for r c
    using that assms by (intro completed_queue [where r = "mark_success now p n s r"]) simp_all
  show ?thesis
    using assms
    by (auto simp: CompleteDownloadAndQueueArchive_def split_def Let_def err tx completed_queue
        split: option.split)
qed

lemma existing_completed:
  assumes "db_ok db" and "\<And>r. drow db k = Some r \<Longrightarrow> d_status r \<noteq> Success"
  shows "completed q k p n s db (CompleteExistingDownload io now k g p n s q db)"
proof -
  have err: "completed q k p n s db (Some e, db)" if "e \<noteq> ErrArchiveConflict" for e
    using that by (cases e) (simp_all add: completed_def)
  have tx: "completed q k p n s db (queue_and_commit io now k p n s q db
      (fst (upd_download k c (mark_success now p n s) db)))"
    if "drow db k = Some r" and "c r" for r c
    using that assms by (intro completed_queue [where r = "mark_success now p n s r"]) simp_all
  have new: "completed q k p n s db (queue_and_commit io now k p n s q db
      (ins_download k ((mark_success now p n s (new_download Success now))\<lparr>d_attempt_generation := g\<rparr>) db))"
    if "drow db k = None"
    using that assms(1)
    by (intro completed_queue [where r = "(mark_success now p n s (new_download Success now))
          \<lparr>d_attempt_generation := g\<rparr>"]) (simp_all add: row_defs row_proof_def)
  show ?thesis
    using assms
    by (auto simp: CompleteExistingDownload_def split_def Let_def err tx new split: option.split)
qed

section \<open>Properties\<close>

text \<open>A concrete record for the instances below.\<close>

definition ex_rec :: "rec_status \<Rightarrow> download_row" where
  "ex_rec st = (mark_success 5 ''p'' 3 ''s'' (new_download st 5))\<lparr>d_status := st, d_attempt_generation := ''g''\<rparr>"

definition ex_db :: "rec_status \<Rightarrow> database" where
  "ex_db st = initSchema\<lparr>download_records := [(ex_key, ex_rec st)]\<rparr>"

lemma ex_db_simps [simp]:
  "db_ok (ex_db st)" "drow (ex_db st) ex_key = Some (ex_rec st)" "arow (ex_db st) j = None"
  "d_status (ex_rec st) = st" "d_attempt_generation (ex_rec st) = ''g''"
  "row_proof (ex_rec st) = (''p'', 3, ''s'')" "\<not> proof_missing (ex_rec st)"
  by (auto simp: ex_db_def ex_rec_def row_defs row_proof_def proof_missing_def tab_sel_def pk_def
      initSchema_def intro!: db_okI)



text \<open>A failed read defeats the guard of \<open>UpdateDownloadStatus\<close>: its \<open>SELECT\<close> error is ignored, so when that one
  statement fails, the reset to pending that the recovery issues overwrites a successful record.\<close>

theorem update_status_failed_read_overwrites_success:
  assumes "db_ok db" and "drow db k = Some r" and "d_status r = Success" and "io 0" and "\<not> io 1"
  shows "fst (UpdateDownloadStatus io now k Pending f p m n e db) = None \<and>
    (\<exists>r'. drow (snd (UpdateDownloadStatus io now k Pending f p m n e db)) k = Some r' \<and> d_status r' = Pending)"
  using assms by (simp add: UpdateDownloadStatus_def split_def Let_def)

theorem update_status_failed_read_overwrites_success_witness:
  "\<exists>r'. drow (snd (UpdateDownloadStatus (\<lambda>i. i = 0) 9 ex_key Pending [] [] [] 0 [] (ex_db Success))) ex_key =
     Some r' \<and> d_status r' = Pending"
  using update_status_failed_read_overwrites_success
    [of "ex_db Success" ex_key "ex_rec Success" "\<lambda>i. i = 0" 9 "[]" "[]" "[]" 0 "[]"] by simp

lemma pending_item_row:
  assumes "i \<in> set (pending_join db)"
  shows "(p_key i, p_row i) \<in> set (download_records db)"
  using assms by (auto simp: pending_join_def join_row_def split: option.splits if_splits)

lemma limit_rows_subset: "set (limit_rows n xs) \<subseteq> set xs"
  by (auto simp: limit_rows_def dest: in_set_takeD)

lemma pending_sound:
  assumes "GetPendingDownloads io now limit db = Inr items" and "i \<in> set items"
  shows "(p_key i, p_row i) \<in> set (download_records db)" and "due now (p_row i)"
proof -
  from assms have "i \<in> set (filter (\<lambda>i. due now (p_row i)) (pending_join db))"
    using limit_rows_subset [of limit "sort_key (\<lambda>i. - p_priority i)
        (sort_key (\<lambda>i. snd (p_key i)) (filter (\<lambda>i. due now (p_row i)) (pending_join db)))"]
    by (auto simp: GetPendingDownloads_def split: if_splits)
  then show "(p_key i, p_row i) \<in> set (download_records db)" and "due now (p_row i)"
    using pending_item_row by auto
qed

fun not_resolve :: "msg_key \<Rightarrow> dl_call \<Rightarrow> bool" where
  "not_resolve k (io, now, j, DResolve _ _) \<longleftrightarrow> j \<noteq> k"
| "not_resolve k (io, now, j, _) \<longleftrightarrow> True"

lemma not_resolve_harmless: "d_status r = Conflict \<Longrightarrow> not_resolve k a \<Longrightarrow> harmless k r a"
  by (cases "(k, a)" rule: not_resolve.cases) auto

text \<open>A target conflict is permanent until it is deliberately resolved: under any calls other than
  \<open>ResolveTargetConflict\<close> on it the record does not change, and it is never among the downloads that
  \<open>GetPendingDownloads\<close> returns.\<close>

theorem conflict_permanent:
  assumes "db_ok db" and "drow db k = Some r" and "d_status r = Conflict" and "list_all (not_resolve k) cs"
    and "GetPendingDownloads io now limit (run_dls cs db) = Inr items"
  shows "drow (run_dls cs db) k = Some r \<and> k \<notin> p_key ` set items"
proof
  have "list_all (harmless k r) cs"
    using assms(4) not_resolve_harmless [OF assms(3)] by (auto simp: list_all_iff)
  then show row: "drow (run_dls cs db) k = Some r" by (rule run_dls_harmless [OF assms(1,2)])
  show "k \<notin> p_key ` set items"
  proof
    assume "k \<in> p_key ` set items"
    then obtain i where "i \<in> set items" and "p_key i = k" by auto
    with pending_sound [OF assms(5), of i] row assms(3) run_dls_ok [OF assms(1), of cs]
    show False by (auto simp: due_def pk_member)
  qed
qed

theorem conflict_permanent_witness:
  "drow (run_dls [(\<lambda>_. False, 6, ex_key, DUpdate Pending [] [] [] 0 [])] (ex_db Conflict)) ex_key =
    Some (ex_rec Conflict)"
proof -
  let ?cs = "[(\<lambda>_. False, 6, ex_key, DUpdate Pending [] [] [] 0 [])] :: dl_call list"
  obtain items where "GetPendingDownloads no_fault 0 0 (run_dls ?cs (ex_db Conflict)) = Inr items"
    by (simp add: GetPendingDownloads_def)
  from conflict_permanent [OF _ _ _ _ this, of ex_key "ex_rec Conflict"] show ?thesis by simp
qed

text \<open>An attempt runs to completion undisturbed: if it begins on a pending or failed record under
  its own nonempty generation, then prepares the commit and completes it, with any calls of other
  attempts, other records and the archive queue before each step, and its own statements do not fail, every
  step succeeds (the last may report an archive conflict), no other attempt can take the record
  over in between, and the record ends successful with the path, size and digest the attempt
  prepared.\<close>

theorem attempt_completes:
  assumes "db_ok db" and "g \<noteq> []" and "drow db k = Some r" and "d_status r \<in> {Pending, Failed}"
    and "list_all (foreign_dl k g) cs1" and "list_all (foreign_dl k g) cs2"
    and "db1 = run_dls cs1 (snd (BeginDownload no_fault t1 k g f p m n db))"
    and "db2 = run_dls cs2 (snd (PrepareDownloadCommit no_fault t2 k g path sz sha db1))"
  shows "fst (BeginDownload no_fault t1 k g f p m n db) = None \<and>
    fst (PrepareDownloadCommit no_fault t2 k g path sz sha db1) = None \<and>
    fst (CompleteDownloadAndQueueArchive no_fault t3 k g path sz sha q db2) \<in> {None, Some ErrArchiveConflict} \<and>
    (\<exists>r'. drow (snd (CompleteDownloadAndQueueArchive no_fault t3 k g path sz sha q db2)) k = Some r' \<and>
       d_status r' = Success \<and> row_proof r' = (path, sz, sha))"
proof -
  let ?b = "snd (BeginDownload no_fault t1 k g f p m n db)"
  obtain r1 where b: "fst (BeginDownload no_fault t1 k g f p m n db) = None" "db_ok ?b"
    and r1: "drow ?b k = Some r1" "d_status r1 = Downloading" "d_attempt_generation r1 = g"
    using begin_ok [OF assms(1,3,4), of t1 g f p m n] by blast
  have d1: "drow db1 k = Some r1" and ok1: "db_ok db1"
    unfolding assms(7) using attempt_held [OF b(2) r1(1) _ r1(3) assms(2,5)] r1(2) by simp_all
  let ?p = "snd (PrepareDownloadCommit no_fault t2 k g path sz sha db1)"
  obtain r2 where p: "fst (PrepareDownloadCommit no_fault t2 k g path sz sha db1) = None" "db_ok ?p"
    and r2: "drow ?p k = Some r2" "d_status r2 = Committing" "d_attempt_generation r2 = g"
      "row_proof r2 = (path, sz, sha)"
    using prepare_ok [OF ok1 d1 r1(2,3), of t2 path sz sha] by blast
  have d2: "drow db2 k = Some r2" and ok2: "db_ok db2"
    unfolding assms(8) using attempt_held [OF p(2) r2(1) _ r2(3) assms(2,6)] r2(2) by simp_all
  have e: "fst (CompleteDownloadAndQueueArchive no_fault t3 k g path sz sha q db2) \<in> {None, Some ErrArchiveConflict}"
    by (rule complete_committing [OF ok2 d2 r2(2-4)])
  with complete_completed [OF ok2, of q k path sz sha no_fault t3 g] b(1) p(1) show ?thesis
    by (auto simp: completed_def)
qed

theorem attempt_completes_witness:
  "\<exists>r'. drow (snd (CompleteDownloadAndQueueArchive no_fault 9 ex_key ''a'' ''p'' 3 ''s'' True
      (run_dls [(\<lambda>_. False, 8, ex_key, DFail ''z'' [] [] [] 0 [] True)]
        (snd (PrepareDownloadCommit no_fault 8 ex_key ''a'' ''p'' 3 ''s''
          (run_dls [(\<lambda>_. False, 7, ex_key, DBegin ''z'' [] [] [] 0)]
            (snd (BeginDownload no_fault 6 ex_key ''a'' [] [] [] 0 (ex_db Failed))))))))) ex_key = Some r' \<and>
    d_status r' = Success"
  using attempt_completes [of "ex_db Failed" "''a''" ex_key "ex_rec Failed"
      "[(\<lambda>_. False, 7, ex_key, DBegin ''z'' [] [] [] 0)]"
      "[(\<lambda>_. False, 8, ex_key, DFail ''z'' [] [] [] 0 [] True)]" _ 6 "[]" "[]" "[]" 0 _ 8 "''p''" 3 "''s''" 9 True]
  by (auto simp del: run_dls_simps)



section \<open>Retry delay and the queue of due downloads\<close>

lemma download_backoff_table:
  "list_all (\<lambda>n. if n \<le> 57 then download_backoff n = min 1800 (60 * 2 ^ n)
      else - (2 ^ 63) \<le> download_backoff n \<and> download_backoff n \<le> 0) [0..<64]"
  by code_simp

lemma download_backoff_small: "n \<le> 57 \<Longrightarrow> download_backoff n = min 1800 (60 * 2 ^ n)"
  using download_backoff_table by (auto simp: list_all_iff dest!: bspec [where x = n])

lemma download_backoff_large:
  assumes "58 \<le> n"
  shows "- (2 ^ 63) \<le> download_backoff n \<and> download_backoff n \<le> 0"
proof (cases "n < 64")
  case True
  with assms download_backoff_table show ?thesis by (auto simp: list_all_iff dest!: bspec [where x = n])
next
  case False
  then have "i64 (2 ^ n) = 0" by (simp add: i64_shift_out)
  then show ?thesis by (simp add: download_backoff_def Let_def i64_def)
qed

lemma download_backoff_range: "- (2 ^ 63) \<le> download_backoff n \<and> download_backoff n \<le> 1800"
proof (cases "n \<le> 57")
  case True
  have "0 \<le> download_backoff n" and "download_backoff n \<le> 1800"
    by (simp_all add: download_backoff_small [OF True])
  then show ?thesis by simp
next
  case False
  with download_backoff_large [of n] show ?thesis by auto
qed

text \<open>C10. A recorded failure of an active attempt makes the record failed and counts the attempt. Up to
  57 earlier failures the next try is due after 60 seconds doubled for each, at most 30
  minutes. From the 58th on the 64-bit product is no longer positive, the cap does not catch it,
  and the record is due again at once.\<close>

theorem download_retry_delay:
  assumes "db_ok db" and "drow db k = Some r" and "d_status r = Downloading" and "gen_matches g r"
    and "\<not> is_cancellation (ToLower e)" and "0 \<le> now" and "now < 2 ^ 62"
  shows "\<exists>r'. drow (snd (FailDownload no_fault now k g f p m n e False db)) k = Some r' \<and>
    d_status r' = Failed \<and> d_attempts r' = Suc (d_attempts r) \<and>
    (d_attempts r \<le> 57 \<longrightarrow> d_next_retry_at r' = now + min 1800 (60 * 2 ^ d_attempts r)) \<and>
    (58 \<le> d_attempts r \<longrightarrow> d_next_retry_at r' \<le> now \<and> due now r')"
proof -
  let ?b = "download_backoff (d_attempts r)"
  note b = download_backoff_range [of "d_attempts r"]
  have "i64 (now + ?b) = now + ?b"
    using b assms(6,7) by (intro i64_id) (simp add: fits64_def)
  moreover have "\<not> stale_gen g r" using assms(4) by (auto simp: gen_matches_def stale_gen_def)
  ultimately show ?thesis
    using assms(1-5) download_backoff_small [of "d_attempts r"] download_backoff_large [of "d_attempts r"]
    by (simp add: FailDownload_def split_def Let_def due_def)
qed

theorem download_retry_delay_witness:
  "\<exists>r'. drow (snd (FailDownload no_fault 100 ex_key ''g'' [] [] [] 0 ''io'' False (ex_db Downloading))) ex_key =
     Some r' \<and> d_next_retry_at r' = 160"
proof -
  have "\<not> is_cancellation (ToLower ''io'')" by code_simp
  moreover have "gen_matches ''g'' (ex_rec Downloading)" by (simp add: gen_matches_def)
  moreover have "d_attempts (ex_rec Downloading) = 0" by (simp add: ex_rec_def row_defs)
  ultimately show ?thesis
    using download_retry_delay [of "ex_db Downloading" ex_key "ex_rec Downloading" "''g''" "''io''" 100 "[]" "[]" "[]" 0] by auto
qed

definition queue_before :: "pending_item \<Rightarrow> pending_item \<Rightarrow> bool" where
  "queue_before i j \<longleftrightarrow> p_priority i > p_priority j \<or>
     (p_priority i = p_priority j \<and> snd (p_key i) \<le> snd (p_key j))"

lemma pending_join_complete:
  assumes "db_ok db" and "drow db k = Some r" and "tab_sel (listen_targets db) (fst k) = Some t"
    and "t_enabled t"
  obtains i where "i \<in> set (pending_join db)" and "p_key i = k" and "p_row i = r"
    and "p_priority i = t_priority t"
proof -
  let ?i = "\<lparr>p_key = k, p_row = r, p_title = t_title t,
    p_date = (case tab_sel (chat_messages db) k of None \<Rightarrow> d_created_at r | Some m \<Rightarrow> m_date m),
    p_priority = t_priority t\<rparr>"
  have "(k, r) \<in> set (download_records db)" using assms by (simp add: pk_member)
  then have "?i \<in> set (pending_join db)"
    using assms(3,4) by (auto simp: pending_join_def join_row_def intro!: bexI [of _ "(k, r)"])
  then show thesis by (rule that) simp_all
qed

lemma pending_sorted: "sorted_wrt queue_before (sort_key (\<lambda>i. - p_priority i) (sort_key (\<lambda>i. snd (p_key i)) xs))"
proof -
  have "sorted_wrt (\<lambda>a b. snd (p_key a) \<le> snd (p_key b)) (sort_key (\<lambda>i. snd (p_key i)) xs)"
    by (metis sorted_map sorted_sort_key)
  from sorted_wrt_sort_key [OF this, of "\<lambda>i. - p_priority i"] show ?thesis
    by (rule sorted_wrt_mono_rel [rotated]) (auto simp: queue_before_def)
qed


definition ex_target :: target_row where
  "ex_target = \<lparr>t_enabled = True, t_title = [], t_username = [], t_chat_type = [], t_download_filter = [],
     t_upload_telegram_chat_id = [], t_priority = 0, t_created_at = 0, t_updated_at = 0, t_revision = 1,
     t_peer_id = []\<rparr>"


end
