(* ===== verification/Commit_Recovery.thy ===== *)
theory Commit_Recovery
  imports Storage_Meter Download_Lifecycle
begin

text \<open>
  Crash recovery (\<open>app/daemon/recovery.go\<close>): the decision about the outcome of a commit
  (\<open>EvaluateCommitSiblingPart\<close>) and the state machine for one committing record
  (\<open>ReconcileCommittingRecord\<close>), over a world that consists of the files, the database and the meter.

  What the surroundings do during one call is the record \<open>rec_env\<close>: which file operations fail, at which position
  reading a file fails, what other processes do between check and rename, which database
  statements fail, and the clock. The digest function \<open>sha256\<close> and the \<open>kernel\<close> are arguments. The calls on
  the task registry, made when there is one, are returned. The test hook before the commit is \<open>nil\<close> and logging is left out.
\<close>

section \<open>State and operations\<close>

record world =
  w_fs :: fs
  w_db :: database
  w_meter :: "StorageIOMeter option"

record rec_env =
  v_stat_final :: bool
  v_sha_final :: "nat option"
  v_stat_part :: bool
  v_sha_part :: "nat option"
  v_stat_part2 :: bool
  v_sha_part2 :: "nat option"
  v_lstat :: bool
  v_race :: "fs \<Rightarrow> fs"
  v_stat_target :: bool
  v_sha_target :: "nat option"
  v_rm_part :: bool
  v_dir_size :: int64
  v_io :: "nat \<Rightarrow> bool"
  v_now :: int64

text \<open>\<open>os.Stat\<close>: the node, unless the call fails. A directory reports the size of the environment.\<close>

definition Stat :: "bool \<Rightarrow> fs \<Rightarrow> string \<Rightarrow> node option" where
  "Stat fails f p = (if fails then None else f p)"

definition node_size :: "int64 \<Rightarrow> node \<Rightarrow> int64" where
  "node_size dsz n = (case n of NFile c \<Rightarrow> int (length c) | NDir \<Rightarrow> dsz)"

text \<open>\<open>os.Remove\<close>; removing a directory that is not empty is one of the failures.\<close>

definition Remove :: "bool \<Rightarrow> string \<Rightarrow> fs \<Rightarrow> fs" where
  "Remove fails p f = (if fails then f else f(p := None))"

definition commit_err_text :: "string \<Rightarrow> string \<Rightarrow> commit_error \<Rightarrow> string" where
  "commit_err_text part final e = (case e of
     ErrTargetExists \<Rightarrow> ''file already exists''
   | ErrNotSibling \<Rightarrow> ''partPath and finalPath must be siblings in the same directory: '' @
       Clean (Dir part) @ '' vs '' @ Clean (Dir final)
   | ErrIO s _ \<Rightarrow> s)"

definition target_conflict :: "string \<Rightarrow> string option \<Rightarrow> FailureDisposition" where
  "target_conflict final cause = \<lparr>f_Stage = ''commit'', f_Op = ''target_exists'', f_Class = ''target_conflict'',
     f_Unavailable = False, f_Retryable = False, f_RetryOwner = ''none'', f_PhysicalAttemptID = [],
     f_Message = ''target exists with conflicting proof against valid part ('' @ final @ '')'', f_Cause = cause\<rparr>"

definition rename_failure :: "string \<Rightarrow> FailureDisposition" where
  "rename_failure msg = \<lparr>f_Stage = ''commit'', f_Op = ''rename'', f_Class = ''io'',
     f_Unavailable = False, f_Retryable = False, f_RetryOwner = ''none'', f_PhysicalAttemptID = [],
     f_Message = msg, f_Cause = Some msg\<rparr>"

datatype CommitDecision =
    DecisionSuccess string
  | DecisionTargetConflict FailureDisposition commit_error
  | DecisionIOError FailureDisposition commit_error

definition EvaluateCommitSiblingPart ::
  "(string \<Rightarrow> string) \<Rightarrow> rec_env \<Rightarrow> string \<Rightarrow> string \<Rightarrow> int64 \<Rightarrow> string \<Rightarrow> commit_error option \<Rightarrow> world \<Rightarrow>
    CommitDecision \<times> world" where
  "EvaluateCommitSiblingPart sha256 v part final authoritativeSize expectedSHA commitErr w =
     (case commitErr of
        None \<Rightarrow> (DecisionSuccess expectedSHA, w)
      | Some e \<Rightarrow>
          let io = (DecisionIOError (rename_failure (commit_err_text part final e)) e, w);
              conflict = DecisionTargetConflict (target_conflict final (Some (commit_err_text part final e))) e
          in if Is_Exist e
             then (case Stat (v_stat_target v) (w_fs w) final of
                 Some (NFile c) \<Rightarrow>
                   if int (length c) = authoritativeSize
                   then let (sha, m) = ComputeSSDFileSHA256 sha256 (v_sha_target v) (w_fs w) final (w_meter w);
                            w1 = w\<lparr>w_meter := m\<rparr>
                        in if sha = Some expectedSHA
                           then (DecisionSuccess expectedSHA, w1\<lparr>w_fs := Remove (v_rm_part v) part (w_fs w1)\<rparr>)
                           else (conflict, w1)
                   else (conflict, w)
               | _ \<Rightarrow> io)
             else io)"

datatype rec_error = RecDb db_error | RecConflict string | RecCommit commit_error

text \<open>\<open>FinishTaskByMessage\<close>: the message, its generation, whether it succeeded, class and message of the
  failure, the path and the digest.\<close>

record reg_finish =
  rf_key :: msg_key
  rf_gen :: string
  rf_success :: bool
  rf_class :: string
  rf_message :: string
  rf_path :: string
  rf_sha :: string

definition reg_success :: "msg_key \<Rightarrow> download_row \<Rightarrow> string \<Rightarrow> reg_finish" where
  "reg_success k r sha = \<lparr>rf_key = k, rf_gen = d_attempt_generation r, rf_success = True, rf_class = [],
     rf_message = [], rf_path = coalesce (d_save_path r) [], rf_sha = sha\<rparr>"

definition reg_failed :: "msg_key \<Rightarrow> download_row \<Rightarrow> FailureDisposition \<Rightarrow> reg_finish" where
  "reg_failed k r d = \<lparr>rf_key = k, rf_gen = d_attempt_generation r, rf_success = False, rf_class = f_Class d,
     rf_message = disp_Error d, rf_path = coalesce (d_save_path r) [], rf_sha = []\<rparr>"

type_synonym rec_result = "rec_error option \<times> reg_finish list \<times> world"

text \<open>Completing the record after its file was verified.\<close>

definition finish_success ::
  "rec_env \<Rightarrow> bool \<Rightarrow> msg_key \<Rightarrow> download_row \<Rightarrow> string \<Rightarrow> world \<Rightarrow> rec_result" where
  "finish_success v archiveEnabled k r sha w =
     (let (e, db) = CompleteDownloadAndQueueArchive (v_io v) (v_now v) k (d_attempt_generation r)
            (coalesce (d_save_path r) []) (coalesce (d_file_size r) 0) sha archiveEnabled (w_db w);
          w' = w\<lparr>w_db := db\<rparr>
      in case e of
           None \<Rightarrow> (None, [reg_success k r sha], w')
         | Some ErrArchiveConflict \<Rightarrow> (None, [reg_success k r sha], w')
         | Some e' \<Rightarrow> (Some (RecDb e'), [], w'))"

text \<open>Recording the conflict of a valid part with another file under the final name.\<close>

definition finish_conflict ::
  "rec_env \<Rightarrow> string \<Rightarrow> msg_key \<Rightarrow> download_row \<Rightarrow> FailureDisposition \<Rightarrow> world \<Rightarrow> rec_result" where
  "finish_conflict v final k r disp w =
     (let (e, db) = RecordTargetConflict (v_io v) (v_now v) k (d_attempt_generation r)
            (coalesce (d_file_name r) []) (coalesce (d_save_path r) []) (coalesce (d_media_type r) [])
            (coalesce (d_file_size r) 0) disp (w_db w);
          w' = w\<lparr>w_db := db\<rparr>
      in case e of
           Some e' \<Rightarrow> (Some (RecDb e'), [], w')
         | None \<Rightarrow> (Some (RecConflict final), [reg_failed k r disp], w'))"

text \<open>Neither file is valid: the part is removed and the record goes back to pending.\<close>

definition finish_reset :: "rec_env \<Rightarrow> string \<Rightarrow> msg_key \<Rightarrow> download_row \<Rightarrow> world \<Rightarrow> rec_result" where
  "finish_reset v part k r w =
     (let w1 = w\<lparr>w_fs := Remove (v_rm_part v) part (w_fs w)\<rparr>;
          (e, db) = UpdateDownloadStatus (v_io v) (v_now v) k Pending (coalesce (d_file_name r) [])
            (coalesce (d_save_path r) []) (coalesce (d_media_type r) []) (coalesce (d_file_size r) 0) [] (w_db w1)
      in (map_option RecDb e, [], w1\<lparr>w_db := db\<rparr>))"

text \<open>The commit of a valid part and what follows from its outcome.\<close>

definition reconcile_commit ::
  "(string \<Rightarrow> string) \<Rightarrow> kernel \<Rightarrow> rec_env \<Rightarrow> bool \<Rightarrow> string \<Rightarrow> string \<Rightarrow> msg_key \<Rightarrow> download_row \<Rightarrow> string \<Rightarrow> world \<Rightarrow>
    rec_result" where
  "reconcile_commit sha256 K v archiveEnabled part final k r sha w =
     (let (commitErr, f) = CommitSiblingPart K (v_lstat v) (v_race v) part final (w_fs w);
          (decision, w1) = EvaluateCommitSiblingPart sha256 v part final (coalesce (d_file_size r) 0) sha
             commitErr (w\<lparr>w_fs := f\<rparr>)
      in case decision of
           DecisionSuccess finalSHA \<Rightarrow> finish_success v archiveEnabled k r finalSHA w1
         | DecisionTargetConflict disp e \<Rightarrow> finish_conflict v final k r disp w1
         | DecisionIOError disp e \<Rightarrow> (Some (RecCommit e), [], w1))"

text \<open>Whether a file has the size and the nonempty digest of the record; the digest is only
  computed when the size agrees, except for the final file.\<close>

definition check_part ::
  "(string \<Rightarrow> string) \<Rightarrow> bool \<Rightarrow> nat option \<Rightarrow> int64 \<Rightarrow> string \<Rightarrow> download_row \<Rightarrow> world \<Rightarrow> bool \<times> world" where
  "check_part sha256 stat_fails rfail dsz part r w =
     (case Stat stat_fails (w_fs w) part of
        None \<Rightarrow> (False, w)
      | Some n \<Rightarrow>
          if node_size dsz n = coalesce (d_file_size r) 0
          then let (sha, m) = ComputeSSDFileSHA256 sha256 rfail (w_fs w) part (w_meter w)
               in (coalesce (d_sha256 r) [] \<noteq> [] \<and> sha = Some (coalesce (d_sha256 r) []), w\<lparr>w_meter := m\<rparr>)
          else (False, w))"

text \<open>\<open>hasDB\<close>: whether there is a database. \<open>k\<close> and \<open>r\<close> are the record as it was read before the call.\<close>

definition ReconcileCommittingRecord ::
  "(string \<Rightarrow> string) \<Rightarrow> kernel \<Rightarrow> rec_env \<Rightarrow> bool \<Rightarrow> string \<Rightarrow> bool \<Rightarrow> msg_key \<Rightarrow> download_row \<Rightarrow> world \<Rightarrow>
    rec_result" where
  "ReconcileCommittingRecord sha256 K v hasDB ssdDir archiveEnabled k r w =
     (if \<not> hasDB then (None, [], w)
      else let final = Join ssdDir (FromSlash (coalesce (d_save_path r) []));
               part = final @ ''.part'';
               commit = (\<lambda>w. let (ok, w1) = check_part sha256 (v_stat_part2 v) (v_sha_part2 v) (v_dir_size v) part r w
                  in if ok then reconcile_commit sha256 K v archiveEnabled part final k r (coalesce (d_sha256 r) []) w1
                     else finish_reset v part k r w1)
           in case Stat (v_stat_final v) (w_fs w) final of
                Some (NFile c) \<Rightarrow>
                  let (sha, m) = ComputeSSDFileSHA256 sha256 (v_sha_final v) (w_fs w) final (w_meter w);
                      w1 = w\<lparr>w_meter := m\<rparr>
                  in if coalesce (d_sha256 r) [] \<noteq> [] \<and> int (length c) = coalesce (d_file_size r) 0 \<and>
                        sha = Some (coalesce (d_sha256 r) [])
                     then finish_success v archiveEnabled k r (coalesce (d_sha256 r) [])
                            (w1\<lparr>w_fs := Remove (v_rm_part v) part (w_fs w1)\<rparr>)
                     else let (ok, w2) = check_part sha256 (v_stat_part v) (v_sha_part v) (v_dir_size v) part r w1
                          in if ok then finish_conflict v final k r (target_conflict final None) w2
                             else commit w2
              | _ \<Rightarrow> commit w)"

section \<open>Startup\<close>

text \<open>
  \<open>ReconcileOnStartup\<close> runs before new work is admitted. Its environment gives the one of each record and each
  archive job, and which of its own six statements fail: the three queries (0, 1, 5) and the three
  updates (2, 3, 4).
\<close>

record job_env =
  j_stat :: bool
  j_sha :: "nat option"
  j_rm_moving :: bool
  j_rm_src :: bool
  j_dir_size :: int64
  j_io :: "nat \<Rightarrow> bool"
  j_now :: int64

record startup_env =
  s_committing :: "msg_key \<Rightarrow> rec_env"
  s_downloading :: "msg_key \<Rightarrow> rec_env"
  s_copying :: "msg_key \<Rightarrow> job_env"
  s_io :: "nat \<Rightarrow> bool"

datatype startup_error = StSql string | StRecord msg_key rec_error | StReset msg_key rec_error | StJob msg_key db_error

text \<open>A loop that goes on after an error and collects the errors.\<close>

definition for_each ::
  "('a \<Rightarrow> world \<Rightarrow> startup_error option \<times> world) \<Rightarrow> 'a list \<Rightarrow> startup_error list \<times> world \<Rightarrow>
    startup_error list \<times> world" where
  "for_each f xs s = fold (\<lambda>x (errs, w). case f x w of
     (None, w') \<Rightarrow> (errs, w') | (Some e, w') \<Rightarrow> (errs @ [e], w')) xs s"

definition exec_sql ::
  "bool \<Rightarrow> string \<Rightarrow> (database \<Rightarrow> database) \<Rightarrow> startup_error list \<times> world \<Rightarrow> startup_error list \<times> world" where
  "exec_sql fails ctx stmt = (\<lambda>(errs, w).
     if fails then (errs @ [StSql ctx], w) else (errs, w\<lparr>w_db := stmt (w_db w)\<rparr>))"

definition reset_pending :: "(download_row \<Rightarrow> bool) \<Rightarrow> database \<Rightarrow> database" where
  "reset_pending c db = db\<lparr>download_records :=
     tab_upd_all (\<lambda>_. c) (\<lambda>r. r\<lparr>d_status := Pending, d_error := Some []\<rparr>) (download_records db)\<rparr>"

definition shutdown_failure :: "download_row \<Rightarrow> bool" where
  "shutdown_failure r \<longleftrightarrow> d_status r = Failed \<and> (case d_error r of
     None \<Rightarrow> False
   | Some e \<Rightarrow> like_contains e ''context canceled'' \<or> like_contains e ''context deadline exceeded'' \<or>
       e = ''canceled'' \<or> e = ''task canceled'' \<or> like_contains e ''forcibly closed'')"

text \<open>The job that the backlog fill inserts for a record; a NULL size would violate the table, and the row is
  then ignored.\<close>

definition backlog_job :: "download_row \<Rightarrow> archive_row option" where
  "backlog_job r = (case (d_save_path r, d_sha256 r, d_file_size r) of
     (Some p, Some s, Some n) \<Rightarrow>
       if d_status r = Success \<and> p \<noteq> [] \<and> s \<noteq> []
       then Some (new_archive_row p n s (d_created_at r) (d_updated_at r)) else None
   | _ \<Rightarrow> None)"

definition backlog_insert :: "msg_key \<times> download_row \<Rightarrow> database \<Rightarrow> database" where
  "backlog_insert = (\<lambda>(k, r) db. case (arow db k, backlog_job r) of
     (None, Some j) \<Rightarrow> db\<lparr>archive_jobs := tab_ins k j (archive_jobs db)\<rparr>
   | _ \<Rightarrow> db)"

definition backlog_fill :: "database \<Rightarrow> database" where
  "backlog_fill db = fold backlog_insert (download_records db) db"

text \<open>An archive job whose copy was interrupted.\<close>

definition job_verified ::
  "(string \<Rightarrow> string) \<Rightarrow> job_env \<Rightarrow> string \<Rightarrow> archive_row \<Rightarrow> world \<Rightarrow> bool \<times> world" where
  "job_verified sha256 v dst j w =
     (case Stat (j_stat v) (w_fs w) dst of
        None \<Rightarrow> (False, w)
      | Some n \<Rightarrow>
          if node_size (j_dir_size v) n = a_expected_size j
          then let (sha, m) = ComputeArchiveFileSHA256 sha256 (j_sha v) (w_fs w) dst (w_meter w)
               in (a_sha256 j \<noteq> [] \<and> sha = Some (a_sha256 j), w\<lparr>w_meter := m\<rparr>)
          else (False, w))"

definition reconcile_job ::
  "(string \<Rightarrow> string) \<Rightarrow> job_env \<Rightarrow> string \<Rightarrow> string \<Rightarrow> msg_key \<Rightarrow> archive_row \<Rightarrow> world \<Rightarrow>
    startup_error option \<times> world" where
  "reconcile_job sha256 v ssdDir archiveDir k j w =
     (let dstFinal = Join archiveDir (FromSlash (a_relative_path j));
          dstMoving = dstFinal @ ''.moving'';
          srcPath = Join ssdDir (FromSlash (a_relative_path j));
          (ok, w1) = job_verified sha256 v dstFinal j w;
          w2 = w1\<lparr>w_fs := Remove (j_rm_moving v) dstMoving (w_fs w1)\<rparr>
      in if ok
         then (case RecoverArchiveJobComplete (j_io v) (j_now v) k (a_claim_id j) (a_sha256 j) (w_db w2) of
                 (Some e, db) \<Rightarrow> (Some (StJob k e), w2\<lparr>w_db := db\<rparr>)
               | (None, db) \<Rightarrow> (None, w2\<lparr>w_db := db, w_fs := Remove (j_rm_src v) srcPath (w_fs w2)\<rparr>))
         else (case RecoverStaleArchiveJob (j_io v) (j_now v) k (a_claim_id j) (w_db w2) of
                 (Some e, db) \<Rightarrow> (Some (StJob k e), w2\<lparr>w_db := db\<rparr>)
               | (None, db) \<Rightarrow> (None, w2\<lparr>w_db := db\<rparr>)))"

text \<open>The loops over the three queries.\<close>

definition startup_committing ::
  "(string \<Rightarrow> string) \<Rightarrow> kernel \<Rightarrow> startup_env \<Rightarrow> string \<Rightarrow> bool \<Rightarrow> startup_error list \<times> world \<Rightarrow>
    startup_error list \<times> world" where
  "startup_committing sha256 K u ssdDir archiveEnabled = (\<lambda>(errs, w).
     case GetPendingCommittingDownloads (\<lambda>_. s_io u 0) (w_db w) of
       Inl _ \<Rightarrow> (errs @ [StSql ''get pending committing''], w)
     | Inr recs \<Rightarrow> for_each (\<lambda>(k, r) w.
         case ReconcileCommittingRecord sha256 K (s_committing u k) True ssdDir archiveEnabled k r w of
           (e, _, w') \<Rightarrow> (map_option (StRecord k) e, w')) recs (errs, w))"

definition startup_downloading ::
  "startup_env \<Rightarrow> string \<Rightarrow> startup_error list \<times> world \<Rightarrow> startup_error list \<times> world" where
  "startup_downloading u ssdDir = (\<lambda>(errs, w).
     case GetStaleDownloadingRecords (\<lambda>_. s_io u 1) (w_db w) of
       Inl _ \<Rightarrow> (errs @ [StSql ''get stale downloading''], w)
     | Inr recs \<Rightarrow> for_each (\<lambda>(k, r) w.
         case finish_reset (s_downloading u k)
             (Join ssdDir (FromSlash (coalesce (d_save_path r) [])) @ ''.part'') k r w of
           (e, _, w') \<Rightarrow> (map_option (StReset k) e, w')) recs (errs, w))"

definition startup_copying ::
  "(string \<Rightarrow> string) \<Rightarrow> startup_env \<Rightarrow> string \<Rightarrow> string \<Rightarrow> startup_error list \<times> world \<Rightarrow>
    startup_error list \<times> world" where
  "startup_copying sha256 u ssdDir archiveDir = (\<lambda>(errs, w).
     case GetStaleCopyingArchiveJobs (\<lambda>_. s_io u 5) (w_db w) of
       Inl _ \<Rightarrow> (errs @ [StSql ''get stale copying archive jobs''], w)
     | Inr jobs \<Rightarrow> for_each (\<lambda>(k, j). reconcile_job sha256 (s_copying u k) ssdDir archiveDir k j) jobs (errs, w))"

definition ReconcileOnStartup ::
  "(string \<Rightarrow> string) \<Rightarrow> kernel \<Rightarrow> startup_env \<Rightarrow> string \<Rightarrow> string \<Rightarrow> world \<Rightarrow> startup_error list \<times> world" where
  "ReconcileOnStartup sha256 K u ssdDir archiveDir w =
     (let archiveEnabled = (archiveDir \<noteq> []);
          s1 = startup_committing sha256 K u ssdDir archiveEnabled ([], w);
          s2 = startup_downloading u ssdDir s1;
          s3 = exec_sql (s_io u 2) ''reconcile resolving/moving''
                 (reset_pending (\<lambda>r. d_status r = Resolving \<or> d_status r = Moving)) s2;
          s4 = exec_sql (s_io u 3) ''reconcile cancellation failures'' (reset_pending shutdown_failure) s3
      in if archiveEnabled
         then startup_copying sha256 u ssdDir archiveDir
                (exec_sql (s_io u 4) ''backlog fill archive jobs'' backlog_fill s4)
         else s4)"

end
