(* ===== verification/Recovery_Safety.thy ===== *)
theory Recovery_Safety
  imports Commit_Recovery
begin

text \<open>
  The properties of the crash recovery: how the handling of one committing record can end,
  that a record only becomes successful with a verified file, that a valid copy of the file is never lost while files can be
  read, the outcome without failures, and what the startup leaves behind.
\<close>

declare split_paired_All [simp del] split_paired_Ex [simp del]

section \<open>Valid files\<close>

text \<open>The file at \<open>p\<close> has the size and the digest that the record carries.\<close>

definition valid_file :: "(string \<Rightarrow> string) \<Rightarrow> download_row \<Rightarrow> fs \<Rightarrow> string \<Rightarrow> bool" where
  "valid_file sha256 r f p \<longleftrightarrow> coalesce (d_sha256 r) [] \<noteq> [] \<and> (case f p of
     Some (NFile c) \<Rightarrow> int (length c) = coalesce (d_file_size r) 0 \<and> sha256 c = coalesce (d_sha256 r) []
   | _ \<Rightarrow> False)"

lemma valid_file_cong: "f p = g q \<Longrightarrow> valid_file sha256 r f p = valid_file sha256 r g q"
  by (simp add: valid_file_def)

lemma valid_file_NDir: "valid_file sha256 r f p \<Longrightarrow> f p \<noteq> Some NDir"
  by (auto simp: valid_file_def)

lemma check_part_frame:
  assumes "check_part sha256 sf rf dsz part r w = (ok, w1)"
  shows "w_fs w1 = w_fs w" and "w_db w1 = w_db w"
  using assms by (auto simp: check_part_def split_def Let_def split: option.splits if_splits)

lemma check_part_sound:
  assumes "check_part sha256 sf rf dsz part r w = (True, w1)"
  shows "valid_file sha256 r (w_fs w) part"
proof -
  from assms obtain n where n: "w_fs w part = Some n"
    and size: "node_size dsz n = coalesce (d_file_size r) 0" and ne: "coalesce (d_sha256 r) [] \<noteq> []"
    and d: "fst (file_digest sha256 rf (w_fs w) part) = Some (coalesce (d_sha256 r) [])"
    by (auto simp: check_part_def Stat_def split_def Let_def split: option.splits if_splits)
  from digest_sound [OF d] n size ne show ?thesis by (auto simp: valid_file_def node_size_def)
qed

lemma check_part_complete:
  assumes "check_part sha256 False None dsz part r w = (ok, w1)" and "valid_file sha256 r (w_fs w) part"
  shows "ok"
  using assms by (auto simp: check_part_def Stat_def valid_file_def node_size_def split_def Let_def digest_complete
      split: option.splits node.splits if_splits)

lemma file_path_suffix:
  assumes "file_path p"
  shows "file_path (p @ ''.part'')" and "Dir (p @ ''.part'') = Dir p"
  using file_path_append [OF assms, of "''.part''"] by simp_all

lemma part_neq: "p @ ''.part'' \<noteq> p"
  by simp

lemma Remove_other [simp]: "q \<noteq> p \<Longrightarrow> Remove b p f q = f q"
  by (simp add: Remove_def)

text \<open>What the decision says about the final file and leaves of the world.\<close>

lemma evaluate_result:
  assumes "EvaluateCommitSiblingPart sha256 v part final n sha ce w = (d, w1)" and "part \<noteq> final"
  shows "w_db w1 = w_db w"
    and "d = DecisionSuccess s \<Longrightarrow> s = sha \<and> w_fs w1 final = w_fs w final \<and>
      (ce = None \<or> (\<exists>c. w_fs w final = Some (NFile c) \<and> int (length c) = n \<and> sha256 c = sha))"
    and "(\<And>s. d \<noteq> DecisionSuccess s) \<Longrightarrow> ce \<noteq> None \<and> w_fs w1 = w_fs w"
proof -
  have sound: "sha256 c = sha"
    if "fst (file_digest sha256 rf (w_fs w) final) = Some sha" and "w_fs w final = Some (NFile c)" for rf c
    using digest_sound [OF that(1)] that(2) by auto
  show "w_db w1 = w_db w"
    using assms(1) by (auto simp: EvaluateCommitSiblingPart_def Let_def split_def
        split: option.splits if_splits node.splits)
  show "s = sha \<and> w_fs w1 final = w_fs w final \<and>
      (ce = None \<or> (\<exists>c. w_fs w final = Some (NFile c) \<and> int (length c) = n \<and> sha256 c = sha))"
    if "d = DecisionSuccess s"
    using assms that by (auto simp: EvaluateCommitSiblingPart_def Let_def split_def Stat_def sound
        split: option.splits if_splits node.splits)
  show "ce \<noteq> None \<and> w_fs w1 = w_fs w" if "\<And>s. d \<noteq> DecisionSuccess s"
    using assms(1) that by (auto simp: EvaluateCommitSiblingPart_def Let_def split_def
        split: option.splits if_splits node.splits)
qed

text \<open>Reading the final file and, the second time, the part does not fail.\<close>

definition reads_ok :: "rec_env \<Rightarrow> bool" where
  "reads_ok v \<longleftrightarrow> \<not> v_stat_final v \<and> v_sha_final v = None \<and> \<not> v_stat_part2 v \<and> v_sha_part2 v = None"

text \<open>The four ways in which the handling of one record ends, with the state \<open>w0\<close> of the world then.\<close>

inductive rec_ending ::
  "(string \<Rightarrow> string) \<Rightarrow> rec_env \<Rightarrow> bool \<Rightarrow> string \<Rightarrow> string \<Rightarrow> msg_key \<Rightarrow> download_row \<Rightarrow> world \<Rightarrow> rec_result \<Rightarrow> bool"
  for sha256 v ae part final k r w where
  end_success: "w_db w0 = w_db w \<Longrightarrow> valid_file sha256 r (w_fs w0) final \<Longrightarrow>
    rec_ending sha256 v ae part final k r w (finish_success v ae k r (coalesce (d_sha256 r) []) w0)"
| end_conflict: "w_db w0 = w_db w \<Longrightarrow>
    valid_file sha256 r (w_fs w0) part \<or> valid_file sha256 r (w_fs w0) final \<Longrightarrow>
    rec_ending sha256 v ae part final k r w (finish_conflict v final k r d w0)"
| end_commit: "w_db w0 = w_db w \<Longrightarrow>
    valid_file sha256 r (w_fs w0) part \<or> valid_file sha256 r (w_fs w0) final \<Longrightarrow>
    rec_ending sha256 v ae part final k r w (Some (RecCommit e), [], w0)"
| end_reset: "w_db w0 = w_db w \<Longrightarrow> w_fs w0 = w_fs w \<Longrightarrow>
    (reads_ok v \<Longrightarrow> \<not> valid_file sha256 r (w_fs w) part \<and> \<not> valid_file sha256 r (w_fs w) final) \<Longrightarrow>
    rec_ending sha256 v ae part final k r w (finish_reset v part k r w0)"

lemma commit_keeps_valid:
  assumes "kernel_ok K" and "file_path part" and "file_path final" and "race f part = f part"
    and "valid_file sha256 r f part" and "CommitSiblingPart K lf race part final f = (ce, f')"
  shows "valid_file sha256 r f' part \<or> valid_file sha256 r f' final"
    and "ce = None \<Longrightarrow> valid_file sha256 r f' final"
proof -
  have "race f part \<noteq> Some NDir" using assms(4,5) valid_file_NDir by metis
  note res = commit_result [OF assms(1-3) this assms(6)]
  have kept: "valid_file sha256 r f' final" if "committed part final (race f) f'"
  proof -
    have "f' final = f part" using committed_keeps(2) [OF that] assms(4) by simp
    then show ?thesis using assms(5) valid_file_cong by metis
  qed
  have same: "valid_file sha256 r (race f) part"
    using assms(4,5) valid_file_cong by metis
  from res kept same assms(5) show "valid_file sha256 r f' part \<or> valid_file sha256 r f' final" by blast
  show "valid_file sha256 r f' final" if "ce = None"
    using res kept that by blast
qed

lemma reconcile_commit_ending:
  assumes "kernel_ok K" and "file_path part" and "file_path final" and "part \<noteq> final"
    and "v_race v (w_fs w0) part = w_fs w0 part"
    and "w_db w0 = w_db w" and valid: "valid_file sha256 r (w_fs w0) part"
  shows "rec_ending sha256 v ae part final k r w
    (reconcile_commit sha256 K v ae part final k r (coalesce (d_sha256 r) []) w0)"
proof -
  obtain ce f where c: "CommitSiblingPart K (v_lstat v) (v_race v) part final (w_fs w0) = (ce, f)" by force
  obtain d w1 where d: "EvaluateCommitSiblingPart sha256 v part final (coalesce (d_file_size r) 0)
      (coalesce (d_sha256 r) []) ce (w0\<lparr>w_fs := f\<rparr>) = (d, w1)" by force
  note kv = commit_keeps_valid [OF assms(1-3,5) valid c]
  note ev = evaluate_result [OF d assms(4)]
  have db: "w_db w1 = w_db w" using ev(1) assms(6) by simp
  have ne: "coalesce (d_sha256 r) [] \<noteq> []" using valid by (simp add: valid_file_def)
  have un: "reconcile_commit sha256 K v ae part final k r (coalesce (d_sha256 r) []) w0 =
      (case d of DecisionSuccess s \<Rightarrow> finish_success v ae k r s w1
       | DecisionTargetConflict disp e \<Rightarrow> finish_conflict v final k r disp w1
       | DecisionIOError disp e \<Rightarrow> (Some (RecCommit e), [], w1))"
    by (simp add: reconcile_commit_def c d)
  show ?thesis
  proof (cases d)
    case (DecisionSuccess s)
    from ev(2) [OF this] have s: "s = coalesce (d_sha256 r) []" and fin: "w_fs w1 final = f final"
      and or: "ce = None \<or> (\<exists>c. f final = Some (NFile c) \<and> int (length c) = coalesce (d_file_size r) 0 \<and>
        sha256 c = coalesce (d_sha256 r) [])" by simp_all
    have "valid_file sha256 r f final"
      using or kv(2) ne by (auto simp: valid_file_def)
    then have "valid_file sha256 r (w_fs w1) final" using fin valid_file_cong by metis
    then show ?thesis unfolding un DecisionSuccess by (simp add: s end_success [OF db])
  next
    case (DecisionTargetConflict disp e)
    then have "w_fs w1 = f" using ev(3) by simp
    with kv(1) show ?thesis unfolding un DecisionTargetConflict by (simp add: end_conflict [OF db])
  next
    case (DecisionIOError disp e)
    then have "w_fs w1 = f" using ev(3) by simp
    with kv(1) show ?thesis unfolding un DecisionIOError by (simp add: end_commit [OF db])
  qed
qed

text \<open>The second half of \<open>ReconcileCommittingRecord\<close>.\<close>

definition rec_tail ::
  "(string \<Rightarrow> string) \<Rightarrow> kernel \<Rightarrow> rec_env \<Rightarrow> bool \<Rightarrow> string \<Rightarrow> string \<Rightarrow> msg_key \<Rightarrow> download_row \<Rightarrow> world \<Rightarrow>
    rec_result" where
  "rec_tail sha256 K v ae part final k r w =
     (let (ok, w1) = check_part sha256 (v_stat_part2 v) (v_sha_part2 v) (v_dir_size v) part r w
      in if ok then reconcile_commit sha256 K v ae part final k r (coalesce (d_sha256 r) []) w1
         else finish_reset v part k r w1)"

lemma reconcile_unfold:
  assumes "final = Join ssdDir (FromSlash (coalesce (d_save_path r) []))" and "part = final @ ''.part''"
  shows "ReconcileCommittingRecord sha256 K v True ssdDir ae k r w =
    (case Stat (v_stat_final v) (w_fs w) final of
       Some (NFile c) \<Rightarrow>
         let (sha, m) = ComputeSSDFileSHA256 sha256 (v_sha_final v) (w_fs w) final (w_meter w);
             w1 = w\<lparr>w_meter := m\<rparr>
         in if coalesce (d_sha256 r) [] \<noteq> [] \<and> int (length c) = coalesce (d_file_size r) 0 \<and>
               sha = Some (coalesce (d_sha256 r) [])
            then finish_success v ae k r (coalesce (d_sha256 r) [])
                   (w1\<lparr>w_fs := Remove (v_rm_part v) part (w_fs w1)\<rparr>)
            else let (ok, w2) = check_part sha256 (v_stat_part v) (v_sha_part v) (v_dir_size v) part r w1
                 in if ok then finish_conflict v final k r (target_conflict final None) w2
                    else rec_tail sha256 K v ae part final k r w2
     | _ \<Rightarrow> rec_tail sha256 K v ae part final k r w)"
  unfolding ReconcileCommittingRecord_def assms rec_tail_def Let_def by simp

lemma rec_tail_ending:
  assumes "kernel_ok K" and "file_path final" and "part = final @ ''.part''"
    and "\<And>f. v_race v f part = f part" and "w_fs w0 = w_fs w" and "w_db w0 = w_db w"
    and "reads_ok v \<Longrightarrow> \<not> valid_file sha256 r (w_fs w) final"
  shows "rec_ending sha256 v ae part final k r w (rec_tail sha256 K v ae part final k r w0)"
proof -
  obtain ok w1 where c: "check_part sha256 (v_stat_part2 v) (v_sha_part2 v) (v_dir_size v) part r w0 = (ok, w1)"
    by force
  note fr = check_part_frame [OF c]
  have fp: "file_path part" "part \<noteq> final" using file_path_suffix(1) [OF assms(2)] assms(3) by simp_all
  have un: "rec_tail sha256 K v ae part final k r w0 =
     (if ok then reconcile_commit sha256 K v ae part final k r (coalesce (d_sha256 r) []) w1
      else finish_reset v part k r w1)"
    by (simp add: rec_tail_def c)
  show ?thesis
  proof (cases ok)
    case True
    then have "valid_file sha256 r (w_fs w1) part"
      using check_part_sound c fr by metis
    then show ?thesis unfolding un using True
      by (simp add: reconcile_commit_ending [OF assms(1) fp(1) assms(2) fp(2)] assms(4,6) fr)
  next
    case False
    have "\<not> valid_file sha256 r (w_fs w) part" if "reads_ok v"
    proof
      assume "valid_file sha256 r (w_fs w) part"
      with that c have ok by (auto simp: reads_ok_def assms(5) intro: check_part_complete)
      with False show False by simp
    qed
    with False assms(5-7) fr show ?thesis unfolding un
      by (simp add: end_reset)
  qed
qed

lemma reconcile_ending:
  assumes "kernel_ok K" and "final = Join ssdDir (FromSlash (coalesce (d_save_path r) []))"
    and "file_path final" and "part = final @ ''.part''" and "\<And>f. v_race v f part = f part"
  shows "rec_ending sha256 v ae part final k r w (ReconcileCommittingRecord sha256 K v True ssdDir ae k r w)"
proof (cases "Stat (v_stat_final v) (w_fs w) final")
  case None
  then have "reads_ok v \<Longrightarrow> \<not> valid_file sha256 r (w_fs w) final"
    by (auto simp: Stat_def reads_ok_def valid_file_def split: if_splits)
  then show ?thesis
    unfolding reconcile_unfold [OF assms(2,4)] by (simp add: None rec_tail_ending [OF assms(1,3-5)])
next
  case (Some n)
  then have at: "w_fs w final = Some n" by (simp add: Stat_def split: if_splits)
  show ?thesis
  proof (cases n)
    case NDir
    then have "\<not> valid_file sha256 r (w_fs w) final" using at by (simp add: valid_file_def)
    then show ?thesis
      unfolding reconcile_unfold [OF assms(2,4)] by (simp add: Some NDir rec_tail_ending [OF assms(1,3-5)])
  next
    case (NFile c)
    obtain sha m where s: "ComputeSSDFileSHA256 sha256 (v_sha_final v) (w_fs w) final (w_meter w) = (sha, m)" by force
    have sd: "sha = fst (file_digest sha256 (v_sha_final v) (w_fs w) final)"
      using compute_digest(1) [of sha256 "v_sha_final v" "w_fs w" final "w_meter w"] s by simp
    let ?ok = "coalesce (d_sha256 r) [] \<noteq> [] \<and> int (length c) = coalesce (d_file_size r) 0 \<and>
               sha = Some (coalesce (d_sha256 r) [])"
    let ?w1 = "w\<lparr>w_meter := m\<rparr>"
    obtain ok w2 where p: "check_part sha256 (v_stat_part v) (v_sha_part v) (v_dir_size v) part r ?w1 = (ok, w2)" by force
    note fr = check_part_frame [OF p]
    have valid: "valid_file sha256 r (w_fs w) final" if ?ok
      using that digest_sound [of sha256 "v_sha_final v" "w_fs w" final] at NFile by (auto simp: sd valid_file_def)
    have invalid: "\<not> valid_file sha256 r (w_fs w) final" if "\<not> ?ok" and "reads_ok v"
      using that at NFile by (auto simp: sd valid_file_def reads_ok_def digest_complete)
    have un: "ReconcileCommittingRecord sha256 K v True ssdDir ae k r w =
      (if ?ok then finish_success v ae k r (coalesce (d_sha256 r) []) (?w1\<lparr>w_fs := Remove (v_rm_part v) part (w_fs ?w1)\<rparr>)
       else if ok then finish_conflict v final k r (target_conflict final None) w2
       else rec_tail sha256 K v ae part final k r w2)"
      unfolding reconcile_unfold [OF assms(2,4)] by (simp add: Some NFile s p Let_def)
    have part: "part \<noteq> final" by (simp add: assms(4))
    consider ?ok | "\<not> ?ok" ok | "\<not> ?ok" "\<not> ok" by blast
    then show ?thesis
    proof cases
      case 1
      have "valid_file sha256 r (Remove (v_rm_part v) part (w_fs w)) final"
        using valid [OF 1] part by (subst valid_file_cong [of _ _ "w_fs w" final]) auto
      then show ?thesis unfolding un if_P [OF 1] by (intro end_success) simp_all
    next
      case 2
      then have "valid_file sha256 r (w_fs w2) part"
        using check_part_sound [of sha256 _ _ _ part r ?w1 w2] p fr by auto
      then show ?thesis unfolding un if_not_P [OF 2(1)] using 2(2) fr by (simp add: end_conflict)
    next
      case 3
      then show ?thesis unfolding un if_not_P [OF 3(1)]
        using fr invalid by (simp add: rec_tail_ending [OF assms(1,3-5)])
    qed
  qed
qed

section \<open>What each ending does to the database and the files\<close>

lemma finish_frames:
  "finish_success v ae k r s w = (e, regs, w') \<Longrightarrow> w_fs w' = w_fs w"
  "finish_conflict v final k r d w = (e, regs, w') \<Longrightarrow> w_fs w' = w_fs w"
  "finish_reset v part k r w = (e, regs, w') \<Longrightarrow> w_fs w' = Remove (v_rm_part v) part (w_fs w)"
  by (auto simp: finish_success_def finish_conflict_def finish_reset_def split_def Let_def
      split: option.splits db_error.splits)

lemma finish_success_db:
  assumes "finish_success v ae k r s w = (e, regs, w')"
  shows "w_db w' = snd (CompleteDownloadAndQueueArchive (v_io v) (v_now v) k (d_attempt_generation r)
      (coalesce (d_save_path r) []) (coalesce (d_file_size r) 0) s ae (w_db w))"
  using assms by (auto simp: finish_success_def split_def Let_def split: option.splits db_error.splits)

lemma finish_conflict_db:
  assumes "finish_conflict v final k r d w = (e, regs, w')"
  shows "w_db w' = snd (RecordTargetConflict (v_io v) (v_now v) k (d_attempt_generation r)
      (coalesce (d_file_name r) []) (coalesce (d_save_path r) []) (coalesce (d_media_type r) [])
      (coalesce (d_file_size r) 0) d (w_db w))"
  using assms by (auto simp: finish_conflict_def split_def Let_def split: option.splits)

lemma finish_reset_db:
  assumes "finish_reset v part k r w = (e, regs, w')"
  shows "w_db w' = snd (UpdateDownloadStatus (v_io v) (v_now v) k Pending (coalesce (d_file_name r) [])
      (coalesce (d_save_path r) []) (coalesce (d_media_type r) []) (coalesce (d_file_size r) 0) [] (w_db w))"
  using assms by (auto simp: finish_reset_def split_def Let_def)

text \<open>Neither recording a conflict nor the reset makes a record successful.\<close>

lemma conflict_no_success:
  assumes "db_ok db" and "drow (snd (RecordTargetConflict io now k g f p m n d db)) k = Some r'"
    and "d_status r' = Success"
  shows "drow db k = Some r'"
proof (cases "drow db k")
  case None
  with assms show ?thesis
    by (auto simp: RecordTargetConflict_def row_defs split: if_splits)
next
  case (Some r)
  with conflict_effect [OF assms(1), of k g f p m n d io now] assms(2,3) show ?thesis
    by (auto simp: dl_effect_def)
qed

lemma reset_no_success:
  assumes "db_ok db" and "drow (snd (UpdateDownloadStatus io now k Pending f p m n e db)) k = Some r'"
    and "d_status r' = Success"
  shows "drow db k = Some r'"
  using assms by (auto simp: UpdateDownloadStatus_def split_def Let_def row_defs split: if_splits option.splits)

text \<open>A record that becomes successful does so by the completing transaction.\<close>

lemma complete_new_success:
  assumes "db_ok db" and "drow (snd (CompleteDownloadAndQueueArchive io now k g p n s q db)) k = Some r'"
    and "d_status r' = Success" and "drow db k \<noteq> Some r'"
  shows "row_proof r' = (p, n, s)"
proof -
  obtain e db' where c: "CompleteDownloadAndQueueArchive io now k g p n s q db = (e, db')" by force
  have "completed q k p n s db (e, db')" using complete_completed [OF assms(1), of q k p n s io now g] c by simp
  moreover have "db' \<noteq> db" using assms(2,4) c by auto
  ultimately show ?thesis
    using assms(2) c by (auto simp: completed_def split: option.splits db_error.splits)
qed

text \<open>The part or the final file is valid.\<close>

definition copy_valid :: "(string \<Rightarrow> string) \<Rightarrow> download_row \<Rightarrow> fs \<Rightarrow> string \<Rightarrow> bool" where
  "copy_valid sha256 r f final \<longleftrightarrow> valid_file sha256 r f (final @ ''.part'') \<or> valid_file sha256 r f final"

text \<open>C21. Recovery never promotes an unverified download. Whatever fails (file operations, system calls, database
  statements) and whatever other processes do to any file but the part: if handling a
  committing record makes its row successful, the row carries the path, size and digest of the record, and the final file is there with this size
  and digest.\<close>

theorem recovery_success_verified:
  assumes "kernel_ok K" and "db_ok (w_db w)" and "final = Join ssdDir (FromSlash (coalesce (d_save_path r) []))"
    and "file_path final" and "\<And>f. v_race v f (final @ ''.part'') = f (final @ ''.part'')"
    and "ReconcileCommittingRecord sha256 K v True ssdDir ae k r w = (e, regs, w')"
    and "drow (w_db w') k = Some r'" and "d_status r' = Success" and "drow (w_db w) k \<noteq> Some r'"
  shows "row_proof r' = row_proof r \<and> valid_file sha256 r (w_fs w') final"
proof -
  have "rec_ending sha256 v ae (final @ ''.part'') final k r w (e, regs, w')"
    using reconcile_ending [where part = "final @ ''.part''" and v = v, OF assms(1,3,4) refl assms(5)] assms(6) by metis
  then show ?thesis
  proof cases
    case (end_success w0)
    note f = finish_frames(1) [OF end_success(1) [symmetric]] finish_success_db [OF end_success(1) [symmetric]]
    have "row_proof r' = (coalesce (d_save_path r) [], coalesce (d_file_size r) 0, coalesce (d_sha256 r) [])"
      by (rule complete_new_success [where db = "w_db w"]) (use assms f end_success in auto)
    with f end_success show ?thesis by (simp add: row_proof_def)
  next
    case (end_conflict w0 d)
    note f = finish_conflict_db [OF end_conflict(1) [symmetric]]
    from conflict_no_success [OF assms(2)] f end_conflict(2) assms(7-9) show ?thesis by metis
  next
    case (end_commit e)
    with assms(7-9) show ?thesis by simp
  next
    case (end_reset w0)
    note f = finish_reset_db [OF end_reset(1) [symmetric]]
    from reset_no_success [OF assms(2)] f end_reset(2) assms(7-9) show ?thesis by metis
  qed
qed

text \<open>C22. Recovery never loses a finished download while its files can be read: if the part or the final file has the
  size and digest of the record before the call, one of them has them after it, whichever system calls, removals and database statements
  fail and whatever other processes do to other files.\<close>

theorem recovery_keeps_copy:
  assumes "kernel_ok K" and "final = Join ssdDir (FromSlash (coalesce (d_save_path r) []))"
    and "file_path final" and "\<And>f. v_race v f (final @ ''.part'') = f (final @ ''.part'')" and "reads_ok v"
    and "copy_valid sha256 r (w_fs w) final"
    and "ReconcileCommittingRecord sha256 K v True ssdDir ae k r w = (e, regs, w')"
  shows "copy_valid sha256 r (w_fs w') final"
proof -
  have "rec_ending sha256 v ae (final @ ''.part'') final k r w (e, regs, w')"
    using reconcile_ending [where part = "final @ ''.part''" and v = v, OF assms(1-3) refl assms(4)] assms(7) by metis
  then show ?thesis
  proof cases
    case (end_success w0)
    with finish_frames(1) [OF end_success(1) [symmetric]] show ?thesis by (simp add: copy_valid_def)
  next
    case (end_conflict w0 d)
    with finish_frames(2) [OF end_conflict(1) [symmetric]] show ?thesis by (simp add: copy_valid_def)
  next
    case (end_commit e)
    then show ?thesis by (simp add: copy_valid_def)
  next
    case (end_reset w0)
    with assms(5,6) show ?thesis by (simp add: copy_valid_def)
  qed
qed

section \<open>Without failures\<close>

definition calm :: "rec_env \<Rightarrow> bool" where
  "calm v \<longleftrightarrow> reads_ok v \<and> \<not> v_stat_part v \<and> v_sha_part v = None \<and> \<not> v_lstat v \<and> v_race v = id \<and>
     \<not> v_stat_target v \<and> v_sha_target v = None \<and> v_io v = no_fault"

lemma success_calm:
  assumes "db_ok (w_db w)" and "v_io v = no_fault" and "drow (w_db w) k = Some r" and "d_status r = Committing"
    and "finish_success v ae k r (coalesce (d_sha256 r) []) w = (e, regs, w')"
  shows "e = None \<and> (\<exists>r'. drow (w_db w') k = Some r' \<and> d_status r' = Success)"
proof -
  let ?p = "coalesce (d_save_path r) []" and ?n = "coalesce (d_file_size r) 0" and ?s = "coalesce (d_sha256 r) []"
  obtain e' db' where c: "CompleteDownloadAndQueueArchive no_fault (v_now v) k (d_attempt_generation r) ?p ?n ?s ae (w_db w) =
      (e', db')" by force
  have e': "e' \<in> {None, Some ErrArchiveConflict}"
    using complete_committing [OF assms(1,3,4) refl, of ?p ?n ?s "v_now v" ae] c by (simp add: row_proof_def)
  have "completed ae k ?p ?n ?s (w_db w) (e', db')"
    using complete_completed [OF assms(1), of ae k ?p ?n ?s no_fault "v_now v" "d_attempt_generation r"] c by simp
  with e' assms(2,5) c show ?thesis by (auto simp: finish_success_def completed_def)
qed

lemma conflict_calm:
  assumes "db_ok (w_db w)" and "v_io v = no_fault" and "drow (w_db w) k = Some r" and "d_status r = Committing"
    and "finish_conflict v final k r d w = (e, regs, w')"
  shows "e = Some (RecConflict final) \<and> (\<exists>r'. drow (w_db w') k = Some r' \<and> d_status r' = Conflict)"
  using assms by (auto simp: finish_conflict_def RecordTargetConflict_def split_def Let_def stale_gen_def gen_matches_def)

lemma reset_calm:
  assumes "db_ok (w_db w)" and "v_io v = no_fault" and "drow (w_db w) k = Some r"
    and "d_status r \<notin> {Success, Conflict}" and "finish_reset v part k r w = (e, regs, w')"
  shows "e = None \<and> db_ok (w_db w') \<and> archive_jobs (w_db w') = archive_jobs (w_db w) \<and>
    (\<forall>j. j \<noteq> k \<longrightarrow> drow (w_db w') j = drow (w_db w) j) \<and>
    (\<exists>r'. drow (w_db w') k = Some r' \<and> d_status r' = Pending)"
  using assms by (auto simp: finish_reset_def UpdateDownloadStatus_def split_def Let_def)

text \<open>The intended outcome for a committing record, as a function of the files.\<close>

definition intended :: "(string \<Rightarrow> string) \<Rightarrow> download_row \<Rightarrow> fs \<Rightarrow> string \<Rightarrow> rec_status option" where
  "intended sha256 r f final =
     (if valid_file sha256 r f final then Some Success
      else if valid_file sha256 r f (final @ ''.part'')
           then (case f final of Some (NFile _) \<Rightarrow> Some Conflict | _ \<Rightarrow> None)
      else Some Pending)"

lemma ending_calm:
  assumes "rec_ending sha256 v ae part final k r w (e, regs, w')" and "db_ok (w_db w)" and "v_io v = no_fault"
    and "drow (w_db w) k = Some r" and "d_status r = Committing"
  shows "(\<exists>r'. drow (w_db w') k = Some r' \<and>
    (d_status r' = Success \<and> e = None \<and> valid_file sha256 r (w_fs w') final \<or>
     d_status r' = Conflict \<and> e = Some (RecConflict final) \<or>
     r' = r \<and> (\<exists>x. e = Some (RecCommit x)) \<or>
     d_status r' = Pending \<and> e = None))"
  using assms(1)
proof cases
  case (end_success w0)
  show ?thesis
    using success_calm [OF _ assms(3) _ assms(5) end_success(1) [symmetric]] finish_frames(1) [OF end_success(1) [symmetric]]
      end_success(2,3) assms(2,4) by auto
next
  case (end_conflict w0 d)
  show ?thesis
    using conflict_calm [OF _ assms(3) _ assms(5) end_conflict(1) [symmetric]] end_conflict(2) assms(2,4) by auto
next
  case (end_commit e)
  then show ?thesis using assms(4) by simp
next
  case (end_reset w0)
  show ?thesis
    using reset_calm [OF _ assms(3) _ _ end_reset(1) [symmetric]] end_reset(2) assms(2,4,5) by auto
qed

lemma evaluate_conflict:
  assumes "EvaluateCommitSiblingPart sha256 v part final (coalesce (d_file_size r) 0) (coalesce (d_sha256 r) []) ce w =
      (DecisionTargetConflict d x, w1)" and "calm v"
  shows "\<exists>c. w_fs w final = Some (NFile c) \<and> \<not> valid_file sha256 r (w_fs w) final"
  using assms by (auto simp: EvaluateCommitSiblingPart_def Let_def split_def Stat_def calm_def valid_file_def digest_complete
      split: option.splits if_splits node.splits)

lemma reconcile_commit_calm:
  assumes "kernel_ok K" and "file_path part" and "file_path final" and "part \<noteq> final" and "calm v"
    and "valid_file sha256 r (w_fs w) part" and "\<And>c. w_fs w final \<noteq> Some (NFile c)"
    and "db_ok (w_db w)" and "drow (w_db w) k = Some r" and "d_status r = Committing"
    and "reconcile_commit sha256 K v ae part final k r (coalesce (d_sha256 r) []) w = (e, regs, w')"
  shows "\<exists>r'. drow (w_db w') k = Some r' \<and>
    (d_status r' = Success \<and> e = None \<and> valid_file sha256 r (w_fs w') final \<or> r' = r \<and> (\<exists>x. e = Some (RecCommit x)))"
proof -
  obtain ce f where c: "CommitSiblingPart K (v_lstat v) (v_race v) part final (w_fs w) = (ce, f)" by force
  obtain d w1 where d: "EvaluateCommitSiblingPart sha256 v part final (coalesce (d_file_size r) 0)
      (coalesce (d_sha256 r) []) ce (w\<lparr>w_fs := f\<rparr>) = (d, w1)" by force
  have race: "v_race v (w_fs w) = w_fs w" using assms(5) by (simp add: calm_def)
  have part: "v_race v (w_fs w) part \<noteq> Some NDir" using race valid_file_NDir [OF assms(6)] by simp
  have fin: "valid_file sha256 r f final \<or> (\<forall>c. f final \<noteq> Some (NFile c))"
    using commit_result [OF assms(1-3) part c] assms(6,7) race
      committed_keeps(2) [of part final "w_fs w" f] valid_file_cong [of f final "w_fs w" part sha256 r] by auto
  have nc: "d \<noteq> DecisionTargetConflict disp x" for disp x
    using evaluate_conflict [OF _ assms(5)] d fin by fastforce
  have un: "(e, regs, w') = (case d of DecisionSuccess s \<Rightarrow> finish_success v ae k r s w1
       | DecisionTargetConflict disp x \<Rightarrow> (None, [], w1)
       | DecisionIOError disp x \<Rightarrow> (Some (RecCommit x), [], w1))"
    unfolding assms(11) [symmetric] using nc by (cases d) (auto simp: reconcile_commit_def c d)
  have db: "w_db w1 = w_db w" using evaluate_result(1) [OF d assms(4)] by simp
  have "rec_ending sha256 v ae part final k r w (e, regs, w')"
    using reconcile_commit_ending [where v = v and ?w0.0 = w and w = w, OF assms(1-4) _ refl assms(6), of ae k] assms(11) race by simp
  note out = ending_calm [OF this assms(8) _ assms(9,10)]
  show ?thesis
  proof (cases d)
    case (DecisionSuccess s)
    have s: "s = coalesce (d_sha256 r) []" using evaluate_result(2) [OF d assms(4)] DecisionSuccess by simp
    have "e = None \<and> (\<exists>r'. drow (w_db w') k = Some r' \<and> d_status r' = Success)"
      using success_calm [of w1 v k r ae e regs w'] un DecisionSuccess s db assms(5,8-10) by (simp add: calm_def)
    with out assms(5) show ?thesis by (auto simp: calm_def)
  next
    case (DecisionIOError disp x)
    with un db assms(9) show ?thesis by auto
  next
    case (DecisionTargetConflict disp x)
    with nc show ?thesis by blast
  qed
qed

lemma check_part_calm:
  assumes "check_part sha256 False None dsz part r w = (ok, w1)"
  shows "ok = valid_file sha256 r (w_fs w) part"
  using check_part_sound [of sha256 False None dsz part r w w1] check_part_complete [OF assms] assms by (cases ok) auto

text \<open>The second half, when the final name holds no file or the part is not valid.\<close>

lemma rec_tail_calm:
  assumes "kernel_ok K" and "db_ok (w_db w)" and "calm v" and "file_path final" and "part = final @ ''.part''"
    and "drow (w_db w) k = Some r" and "d_status r = Committing"
    and "valid_file sha256 r (w_fs w) part \<Longrightarrow> \<forall>c. w_fs w final \<noteq> Some (NFile c)"
    and "rec_tail sha256 K v ae part final k r w = (e, regs, w')"
  shows "\<exists>r'. drow (w_db w') k = Some r' \<and>
    (if valid_file sha256 r (w_fs w) part
     then d_status r' = Success \<and> valid_file sha256 r (w_fs w') final \<or> r' = r \<and> (\<exists>x. e = Some (RecCommit x))
     else d_status r' = Pending)"
proof -
  have v: "v_stat_part2 v = False" "v_sha_part2 v = None" "v_io v = no_fault"
    using assms(3) by (simp_all add: calm_def reads_ok_def)
  obtain ok w1 where p: "check_part sha256 False None (v_dir_size v) part r w = (ok, w1)" by force
  note fr = check_part_frame [OF p]
  have ok: "ok = valid_file sha256 r (w_fs w) part" using check_part_calm [OF p] .
  have res: "(if ok then reconcile_commit sha256 K v ae part final k r (coalesce (d_sha256 r) []) w1
     else finish_reset v part k r w1) = (e, regs, w')"
    using assms(9) by (simp add: rec_tail_def v p)
  have fp: "file_path part" "part \<noteq> final" using file_path_suffix(1) [OF assms(4)] assms(5) by simp_all
  show ?thesis
  proof (cases ok)
    case True
    then have "reconcile_commit sha256 K v ae part final k r (coalesce (d_sha256 r) []) w1 = (e, regs, w')"
      using res by simp
    from reconcile_commit_calm [OF assms(1) fp(1) assms(4) fp(2) assms(3) _ _ _ _ assms(7) this] True ok fr assms(2,6,8)
    show ?thesis by auto
  next
    case False
    then have "finish_reset v part k r w1 = (e, regs, w')" using res by simp
    from reset_calm [OF _ v(3) _ _ this] False ok fr assms(2,6,7) show ?thesis by auto
  qed
qed

text \<open>The first half, when the final name holds a file.\<close>

lemma reconcile_file:
  assumes "calm v" and "final = Join ssdDir (FromSlash (coalesce (d_save_path r) []))" and "part = final @ ''.part''"
    and "w_fs w final = Some (NFile c)"
  obtains m w2 where "w_fs w2 = w_fs w" and "w_db w2 = w_db w"
    and "ReconcileCommittingRecord sha256 K v True ssdDir ae k r w =
      (if valid_file sha256 r (w_fs w) final
       then finish_success v ae k r (coalesce (d_sha256 r) []) (w\<lparr>w_meter := m, w_fs := Remove (v_rm_part v) part (w_fs w)\<rparr>)
       else if valid_file sha256 r (w_fs w) part then finish_conflict v final k r (target_conflict final None) w2
       else rec_tail sha256 K v ae part final k r w2)"
proof -
  let ?f = "w_fs w"
  have v: "v_stat_final v = False" "v_sha_final v = None" "v_stat_part v = False" "v_sha_part v = None"
    using assms(1) by (simp_all add: calm_def reads_ok_def)
  obtain sha m where s: "ComputeSSDFileSHA256 sha256 None ?f final (w_meter w) = (sha, m)" by force
  have sha: "sha = Some (sha256 c)"
    using compute_digest(1) [of sha256 None ?f final "w_meter w"] s digest_complete [of ?f final c sha256] assms(4) by simp
  obtain ok w2 where p: "check_part sha256 False None (v_dir_size v) part r (w\<lparr>w_meter := m\<rparr>) = (ok, w2)" by force
  have ok: "ok = valid_file sha256 r ?f part" using check_part_calm [OF p] by simp
  have vf: "valid_file sha256 r ?f final \<longleftrightarrow> coalesce (d_sha256 r) [] \<noteq> [] \<and>
      int (length c) = coalesce (d_file_size r) 0 \<and> sha = Some (coalesce (d_sha256 r) [])"
    by (auto simp: valid_file_def assms(4) sha)
  show thesis
  proof (rule that [of w2 m])
    show "w_fs w2 = ?f" and "w_db w2 = w_db w" using check_part_frame [OF p] by simp_all
  qed (simp add: reconcile_unfold [OF assms(2,3)] vf Stat_def v assms(4) s p ok [symmetric] Let_def)
qed


section \<open>The startup\<close>

text \<open>Successful records stay as they are.\<close>

definition keeps_success :: "database \<Rightarrow> database \<Rightarrow> bool" where
  "keeps_success db db' \<longleftrightarrow> db_ok db' \<and> (\<forall>k r. drow db k = Some r \<longrightarrow> d_status r = Success \<longrightarrow> drow db' k = Some r)"

lemma keeps_success_refl: "db_ok db \<Longrightarrow> keeps_success db db"
  by (simp add: keeps_success_def)

lemma keeps_success_trans [trans]: "keeps_success a b \<Longrightarrow> keeps_success b c \<Longrightarrow> keeps_success a c"
  by (auto simp: keeps_success_def)

lemma effect_keeps_success:
  assumes "dl_effect k c db db'"
  shows "keeps_success db db'"
  unfolding keeps_success_def
proof (intro conjI allI impI)
  show "db_ok db'" using assms by (simp add: dl_effect_def)
  fix j r assume "drow db j = Some r" "d_status r = Success"
  then show "drow db' j = Some r"
    using assms success_guard [of r c] by (cases "j = k") (auto simp: dl_effect_def)
qed

lemma finish_keeps_success:
  assumes "db_ok (w_db w)" and "v_io v = no_fault"
  shows "finish_success v ae k r s w = (e, regs, w') \<Longrightarrow> keeps_success (w_db w) (w_db w')"
    and "finish_conflict v final k r d w = (e, regs, w') \<Longrightarrow> keeps_success (w_db w) (w_db w')"
    and "finish_reset v part k r w = (e, regs, w') \<Longrightarrow> keeps_success (w_db w) (w_db w')"
  using effect_keeps_success [OF complete_effect [OF assms(1)]] effect_keeps_success [OF conflict_effect [OF assms(1)]]
    effect_keeps_success [OF update_effect [OF assms(1)]] assms(2)
  by (simp_all only: finish_success_db finish_conflict_db finish_reset_db no_fault simp_thms)

lemma evaluate_db: "w_db (snd (EvaluateCommitSiblingPart sha256 v part final n sha ce w)) = w_db w"
  by (simp add: EvaluateCommitSiblingPart_def Let_def split_def split: option.split node.split)

lemma reconcile_commit_keeps_success:
  assumes "db_ok (w_db w)" and "v_io v = no_fault"
    and "reconcile_commit sha256 K v ae part final k r sha w = (e, regs, w')"
  shows "keeps_success (w_db w) (w_db w')"
proof -
  obtain ce f where c: "CommitSiblingPart K (v_lstat v) (v_race v) part final (w_fs w) = (ce, f)" by force
  obtain d w1 where d: "EvaluateCommitSiblingPart sha256 v part final (coalesce (d_file_size r) 0)
      sha ce (w\<lparr>w_fs := f\<rparr>) = (d, w1)" by force
  have db: "w_db w1 = w_db w" using evaluate_db [of sha256 v part final _ sha ce "w\<lparr>w_fs := f\<rparr>"] d by (metis snd_conv world.ext_inject world.surjective world.update_convs(1))
  then have ok: "db_ok (w_db w1)" using assms(1) by simp
  show ?thesis
    using assms(3) finish_keeps_success [OF ok assms(2)] keeps_success_refl [OF assms(1)] db
    by (cases d) (auto simp: reconcile_commit_def c d)
qed

lemma rec_tail_keeps_success:
  assumes "db_ok (w_db w)" and "v_io v = no_fault"
    and "rec_tail sha256 K v ae part final k r w = (e, regs, w')"
  shows "keeps_success (w_db w) (w_db w')"
proof -
  obtain ok w1 where c: "check_part sha256 (v_stat_part2 v) (v_sha_part2 v) (v_dir_size v) part r w = (ok, w1)" by force
  note fr = check_part_frame [OF c]
  then have ok1: "db_ok (w_db w1)" using assms(1) by simp
  show ?thesis
    using assms(3) fr finish_keeps_success(3) [OF ok1 assms(2)] reconcile_commit_keeps_success [OF ok1 assms(2)]
    by (cases ok) (simp_all add: rec_tail_def c)
qed

lemma reconcile_keeps_success:
  assumes "db_ok (w_db w)" and "v_io v = no_fault"
    and "ReconcileCommittingRecord sha256 K v True ssdDir ae k r w = (e, regs, w')"
  shows "keeps_success (w_db w) (w_db w')"
proof -
  define final where "final = Join ssdDir (FromSlash (coalesce (d_save_path r) []))"
  define part where "part = final @ ''.part''"
  note un = assms(3) [unfolded reconcile_unfold [OF final_def part_def]]
  note tail = rec_tail_keeps_success [OF _ assms(2)]
  show ?thesis
  proof (cases "\<exists>c. Stat (v_stat_final v) (w_fs w) final = Some (NFile c)")
    case False
    then have "rec_tail sha256 K v ae part final k r w = (e, regs, w')"
      using un by (auto split: option.splits node.splits)
    then show ?thesis by (rule tail [OF assms(1)])
  next
    case True
    then obtain c where c: "Stat (v_stat_final v) (w_fs w) final = Some (NFile c)" by blast
    obtain sha m where s: "ComputeSSDFileSHA256 sha256 (v_sha_final v) (w_fs w) final (w_meter w) = (sha, m)" by force
    obtain ok w2 where p: "check_part sha256 (v_stat_part v) (v_sha_part v) (v_dir_size v) part r (w\<lparr>w_meter := m\<rparr>) = (ok, w2)"
      by force
    have db: "w_db w2 = w_db w" using check_part_frame(2) [OF p] by simp
    then have ok2: "db_ok (w_db w2)" using assms(1) by simp
    have ok1: "db_ok (w_db (w\<lparr>w_meter := m, w_fs := g\<rparr>))" for g using assms(1) by simp
    show ?thesis
      using un finish_keeps_success(1) [OF ok1 assms(2)] finish_keeps_success(2) [OF ok2 assms(2)] tail [OF ok2] db
      by (auto simp: c s p Let_def split: if_splits)
  qed
qed

text \<open>A loop keeps what every step of it keeps.\<close>

lemma for_each_simps [simp]:
  "for_each f [] s = s"
  "for_each f (x # xs) (errs, w) = for_each f xs (case f x w of (None, w') \<Rightarrow> (errs, w') | (Some e, w') \<Rightarrow> (errs @ [e], w'))"
  by (simp_all add: for_each_def)

lemma for_each_invariant:
  assumes "P (snd s)" and "\<And>x w. x \<in> set xs \<Longrightarrow> P w \<Longrightarrow> P (snd (f x w))"
  shows "P (snd (for_each f xs s))"
  using assms
proof (induction xs arbitrary: s)
  case (Cons x xs)
  obtain errs w where s: "s = (errs, w)" by force
  obtain e w' where f: "f x w = (e, w')" by force
  have "P w'" using Cons.prems(2) [of x w] Cons.prems(1) s f by simp
  then have "P (snd (for_each f xs (case f x w of (None, w') \<Rightarrow> (errs, w') | (Some e, w') \<Rightarrow> (errs @ [e], w'))))"
    using Cons.prems(2) by (intro Cons.IH) (auto simp: f split: option.split)
  then show ?case by (simp add: s)
qed simp

lemma startup_committing_keeps:
  assumes "db_ok (w_db w)" and "\<And>k. v_io (s_committing u k) = no_fault"
  shows "keeps_success (w_db w) (w_db (snd (startup_committing sha256 K u ssdDir ae (errs, w))))"
proof (cases "GetPendingCommittingDownloads (\<lambda>_. s_io u 0) (w_db w)")
  case (Inl e)
  then show ?thesis by (simp add: startup_committing_def keeps_success_refl [OF assms(1)])
next
  case (Inr recs)
  let ?step = "\<lambda>(k, r) w. case ReconcileCommittingRecord sha256 K (s_committing u k) True ssdDir ae k r w of
           (e, _, w') \<Rightarrow> (map_option (StRecord k) e, w')"
  have "keeps_success (w_db w) (w_db (snd (for_each ?step recs (errs, w))))"
  proof (rule for_each_invariant [where P = "\<lambda>w'. keeps_success (w_db w) (w_db w')"])
    fix x :: "msg_key \<times> download_row" and w1 :: world assume k1: "keeps_success (w_db w) (w_db w1)"
    obtain k r where x: "x = (k, r)" by (cases x)
    obtain e regs w' where c: "ReconcileCommittingRecord sha256 K (s_committing u k) True ssdDir ae k r w1 = (e, regs, w')"
      by (metis prod_cases3)
    have "keeps_success (w_db w1) (w_db w')"
      using reconcile_keeps_success [OF _ assms(2) c] k1 by (simp add: keeps_success_def)
    with k1 show "keeps_success (w_db w) (w_db (snd (?step x w1)))"
      by (simp add: x c) (rule keeps_success_trans)
  qed (simp add: keeps_success_refl [OF assms(1)])
  then show ?thesis by (simp add: startup_committing_def Inr)
qed

lemma reset_loop:
  assumes "db_ok (w_db w)" and "distinct (map fst recs)" and "\<And>k. v_io (s_downloading u k) = no_fault"
    and "\<And>k r. (k, r) \<in> set recs \<Longrightarrow> drow (w_db w) k = Some r \<and> d_status r = Downloading"
  shows "let w' = snd (for_each (\<lambda>(k, r) w. case finish_reset (s_downloading u k) (pth r) k r w of
           (e, _, w') \<Rightarrow> (map_option (StReset k) e, w')) recs (errs, w))
    in db_ok (w_db w') \<and> archive_jobs (w_db w') = archive_jobs (w_db w) \<and>
      (\<forall>k. k \<notin> fst ` set recs \<longrightarrow> drow (w_db w') k = drow (w_db w) k) \<and>
      (\<forall>k\<in>fst ` set recs. \<exists>r'. drow (w_db w') k = Some r' \<and> d_status r' = Pending)"
  using assms(1,2,4)
proof (induction recs arbitrary: errs w)
  case (Cons x recs)
  obtain k r where x: "x = (k, r)" by (cases x)
  obtain e regs w1 where c: "finish_reset (s_downloading u k) (pth r) k r w = (e, regs, w1)"
    by (metis prod_cases3)
  have row: "drow (w_db w) k = Some r" "d_status r = Downloading" using Cons.prems(3) [of k r] by (simp_all add: x)
  have c1: "e = None" "db_ok (w_db w1)" "archive_jobs (w_db w1) = archive_jobs (w_db w)"
    "\<And>j. j \<noteq> k \<Longrightarrow> drow (w_db w1) j = drow (w_db w) j" "\<exists>r'. drow (w_db w1) k = Some r' \<and> d_status r' = Pending"
    using reset_calm [OF Cons.prems(1) assms(3) row(1) _ c] row(2) by simp_all
  have knot: "k \<notin> fst ` set recs" using Cons.prems(2) by (simp add: x)
  have prem: "drow (w_db w1) j = Some q \<and> d_status q = Downloading" if "(j, q) \<in> set recs" for j q
  proof -
    have "j \<noteq> k" using that knot by force
    then show ?thesis using Cons.prems(3) [of j q] that c1(4) by simp
  qed
  have ih: "db_ok (w_db w1)" "distinct (map fst recs)" using c1(2) Cons.prems(2) by simp_all
  show ?case
    using Cons.IH [OF ih prem, of errs] c1 knot by (auto simp: x c Let_def)
qed simp

lemma startup_downloading_result:
  assumes "db_ok (w_db w)" and "s_io u = no_fault" and "\<And>k. v_io (s_downloading u k) = no_fault"
    and "w' = snd (startup_downloading u ssdDir (errs, w))"
  shows "db_ok (w_db w')" and "archive_jobs (w_db w') = archive_jobs (w_db w)"
    and "drow (w_db w) k = Some r \<Longrightarrow> d_status r \<noteq> Downloading \<Longrightarrow> drow (w_db w') k = Some r"
    and "drow (w_db w') k = Some r \<Longrightarrow> d_status r \<noteq> Downloading"
proof -
  let ?recs = "filter (\<lambda>(k, r). d_status r = Downloading) (download_records (w_db w))"
  have mem: "(j, q) \<in> set ?recs \<longleftrightarrow> drow (w_db w) j = Some q \<and> d_status q = Downloading" for j q
    using assms(1) by (simp add: pk_member)
  have dist: "distinct (map fst ?recs)" using assms(1) by (simp add: pk_def distinct_map_filter db_ok_def)
  have prem: "\<And>k r. (k, r) \<in> set ?recs \<Longrightarrow> drow (w_db w) k = Some r \<and> d_status r = Downloading"
    using mem by blast
  note loop = reset_loop [where recs = ?recs and errs = errs and w = w and u = u and
      pth = "\<lambda>r. Join ssdDir (FromSlash (coalesce (d_save_path r) [])) @ ''.part''", OF assms(1) dist assms(3) prem,
      unfolded Let_def]
  have w': "w' = snd (for_each (\<lambda>(k, r) w. case finish_reset (s_downloading u k)
      (Join ssdDir (FromSlash (coalesce (d_save_path r) [])) @ ''.part'') k r w of
           (e, _, w') \<Rightarrow> (map_option (StReset k) e, w')) ?recs (errs, w))"
    by (simp add: assms(2,4) startup_downloading_def GetStaleDownloadingRecords_def)
  have res: "db_ok (w_db w') \<and> archive_jobs (w_db w') = archive_jobs (w_db w) \<and>
      (\<forall>k. k \<notin> fst ` set ?recs \<longrightarrow> drow (w_db w') k = drow (w_db w) k) \<and>
      (\<forall>k\<in>fst ` set ?recs. \<exists>r'. drow (w_db w') k = Some r' \<and> d_status r' = Pending)"
    unfolding w' by (rule loop)
  have "j \<in> fst ` set ?recs \<longleftrightarrow> (\<exists>q. (j, q) \<in> set ?recs)" for j by force
  then have key: "j \<in> fst ` set ?recs \<longleftrightarrow> (\<exists>q. drow (w_db w) j = Some q \<and> d_status q = Downloading)" for j
    unfolding mem .
  show "db_ok (w_db w')" and "archive_jobs (w_db w') = archive_jobs (w_db w)" using res by auto
  show "drow (w_db w') k = Some r" if "drow (w_db w) k = Some r" and "d_status r \<noteq> Downloading"
    using res that key [of k] by fastforce
  show "d_status r \<noteq> Downloading" if "drow (w_db w') k = Some r"
  proof (cases "k \<in> fst ` set ?recs")
    case True
    with res obtain r' where "drow (w_db w') k = Some r'" "d_status r' = Pending" by blast
    with that show ?thesis by simp
  next
    case False
    with res that have "drow (w_db w) k = Some r" by metis
    with False show ?thesis unfolding key by blast
  qed
qed

lemma reset_pending_simps [simp]:
  "archive_jobs (reset_pending c db) = archive_jobs db"
  "db_ok db \<Longrightarrow> db_ok (reset_pending c db)"
  "drow (reset_pending c db) k =
     map_option (\<lambda>r. if c r then r\<lparr>d_status := Pending, d_error := Some []\<rparr> else r) (drow db k)"
  by (simp_all add: reset_pending_def)

lemma backlog_insert_simps [simp]:
  "download_records (backlog_insert x db) = download_records db"
  "db_ok db \<Longrightarrow> db_ok (backlog_insert x db)"
  "arow db k = Some j \<Longrightarrow> db_ok db \<Longrightarrow> arow (backlog_insert x db) k = Some j"
  by (auto simp: backlog_insert_def split_def split: option.splits)

lemma fold_backlog:
  assumes "db_ok db"
  shows "download_records (fold backlog_insert xs db) = download_records db \<and> db_ok (fold backlog_insert xs db) \<and>
    (\<forall>k j. arow db k = Some j \<longrightarrow> arow (fold backlog_insert xs db) k = Some j) \<and>
    (\<forall>(k, r) \<in> set xs. backlog_job r \<noteq> None \<longrightarrow> arow (fold backlog_insert xs db) k \<noteq> None)"
  using assms
proof (induction xs arbitrary: db)
  case (Cons x xs)
  obtain k r where x: "x = (k, r)" by (cases x)
  have "backlog_job r \<noteq> None \<Longrightarrow> arow (backlog_insert x db) k \<noteq> None"
    using Cons.prems by (auto simp: backlog_insert_def x split: option.splits)
  with Cons.IH [of "backlog_insert x db"] Cons.prems show ?case
    by (auto simp: x)
qed simp

lemma backlog_fill_result:
  assumes "db_ok db"
  shows "download_records (backlog_fill db) = download_records db" and "db_ok (backlog_fill db)"
    and "drow db k = Some r \<Longrightarrow> backlog_job r \<noteq> None \<Longrightarrow> arow (backlog_fill db) k \<noteq> None"
proof -
  note f = fold_backlog [OF assms, of "download_records db", folded backlog_fill_def]
  show "download_records (backlog_fill db) = download_records db" and "db_ok (backlog_fill db)" using f by blast+
  show "arow (backlog_fill db) k \<noteq> None" if "drow db k = Some r" and "backlog_job r \<noteq> None"
  proof -
    have "(k, r) \<in> set (download_records db)" using that(1) assms by (simp add: pk_member)
    with f that(2) show ?thesis by blast
  qed
qed

lemma job_verified_db: "w_db (snd (job_verified sha256 v dst j w)) = w_db w"
  by (simp add: job_verified_def split_def Let_def split: option.split)

lemma recover_calm:
  assumes "db_ok db" and "arow db k = Some j" and "a_state j = ArcCopying"
  shows "(let (e, db') = RecoverArchiveJobComplete no_fault now k (a_claim_id j) (a_sha256 j) db
      in e = None \<and> db_ok db' \<and> download_records db' = download_records db \<and>
        (\<forall>i. i \<noteq> k \<longrightarrow> arow db' i = arow db i) \<and> (\<exists>j'. arow db' k = Some j' \<and> a_state j' = ArcArchived))"
    and "(let (e, db') = RecoverStaleArchiveJob no_fault now k (a_claim_id j) db
      in e = None \<and> db_ok db' \<and> download_records db' = download_records db \<and>
        (\<forall>i. i \<noteq> k \<longrightarrow> arow db' i = arow db i) \<and> (\<exists>j'. arow db' k = Some j' \<and> a_state j' = ArcPending))"
  using assms by (simp_all add: RecoverArchiveJobComplete_def RecoverStaleArchiveJob_def split_def Let_def
      claim_matches_def mark_archived_def)

lemma reconcile_job_calm:
  assumes "db_ok (w_db w)" and "arow (w_db w) k = Some j" and "a_state j = ArcCopying" and "j_io v = no_fault"
    and "reconcile_job sha256 v ssdDir archiveDir k j w = (e, w')"
  shows "db_ok (w_db w') \<and> download_records (w_db w') = download_records (w_db w) \<and>
    (\<forall>i. i \<noteq> k \<longrightarrow> arow (w_db w') i = arow (w_db w) i) \<and>
    (\<exists>j'. arow (w_db w') k = Some j' \<and> a_state j' \<noteq> ArcCopying)"
proof -
  let ?dst = "Join archiveDir (FromSlash (a_relative_path j))"
  obtain ok w1 where jv: "job_verified sha256 v ?dst j w = (ok, w1)" by fastforce
  have db: "w_db w1 = w_db w" using job_verified_db [of sha256 v ?dst j w] jv by simp
  obtain e1 db1 where c: "RecoverArchiveJobComplete no_fault (j_now v) k (a_claim_id j) (a_sha256 j) (w_db w) = (e1, db1)"
    by fastforce
  obtain e2 db2 where s: "RecoverStaleArchiveJob no_fault (j_now v) k (a_claim_id j) (w_db w) = (e2, db2)" by fastforce
  note rc = recover_calm(1) [OF assms(1-3), of "j_now v", unfolded c Let_def prod.case]
  note rs = recover_calm(2) [OF assms(1-3), of "j_now v", unfolded s Let_def prod.case]
  show ?thesis
  proof (cases ok)
    case True
    then have "w_db w' = db1"
      using assms(5) rc by (simp add: reconcile_job_def jv db c assms(4) Let_def) auto
    with rc show ?thesis by auto
  next
    case False
    then have "w_db w' = db2"
      using assms(5) rs by (simp add: reconcile_job_def jv db s assms(4) Let_def) auto
    with rs show ?thesis by auto
  qed
qed

lemma copying_loop:
  assumes "db_ok (w_db w)" and "distinct (map fst jobs)" and "\<And>k. j_io (s_copying u k) = no_fault"
    and "\<And>k j. (k, j) \<in> set jobs \<Longrightarrow> arow (w_db w) k = Some j \<and> a_state j = ArcCopying"
    and "w' = snd (for_each (\<lambda>(k, j). reconcile_job sha256 (s_copying u k) ssdDir archiveDir k j) jobs (errs, w))"
  shows "db_ok (w_db w') \<and> download_records (w_db w') = download_records (w_db w) \<and>
      (\<forall>k. k \<notin> fst ` set jobs \<longrightarrow> arow (w_db w') k = arow (w_db w) k) \<and>
      (\<forall>k\<in>fst ` set jobs. \<exists>j'. arow (w_db w') k = Some j' \<and> a_state j' \<noteq> ArcCopying)"
  using assms(1,2,4,5)
proof (induction jobs arbitrary: errs w)
  case (Cons x jobs)
  obtain k j where x: "x = (k, j)" by (cases x)
  obtain e w1 where c: "reconcile_job sha256 (s_copying u k) ssdDir archiveDir k j w = (e, w1)" by fastforce
  have row: "arow (w_db w) k = Some j" "a_state j = ArcCopying" using Cons.prems(3) [of k j] by (simp_all add: x)
  note c1 = reconcile_job_calm [OF Cons.prems(1) row assms(3) c]
  have knot: "k \<notin> fst ` set jobs" using Cons.prems(2) by (simp add: x)
  have prem: "arow (w_db w1) i = Some q \<and> a_state q = ArcCopying" if "(i, q) \<in> set jobs" for i q
  proof -
    have "i \<noteq> k" using that knot by force
    then show ?thesis using Cons.prems(3) [of i q] that c1 by simp
  qed
  have ih: "db_ok (w_db w1)" "distinct (map fst jobs)" using c1 Cons.prems(2) by simp_all
  have w': "w' = snd (for_each (\<lambda>(k, j). reconcile_job sha256 (s_copying u k) ssdDir archiveDir k j) jobs
      (case e of None \<Rightarrow> errs | Some y \<Rightarrow> errs @ [y], w1))"
    using Cons.prems(4) by (simp add: x c split: option.splits)
  show ?case
    using Cons.IH [OF ih prem w'] c1 knot by (auto simp: x)
qed simp

lemma startup_copying_result:
  assumes "db_ok (w_db w)" and "s_io u = no_fault" and "\<And>k. j_io (s_copying u k) = no_fault"
    and "w' = snd (startup_copying sha256 u ssdDir archiveDir (errs, w))"
  shows "download_records (w_db w') = download_records (w_db w) \<and> db_ok (w_db w') \<and>
    (\<forall>k j. arow (w_db w') k = Some j \<longrightarrow> a_state j \<noteq> ArcCopying) \<and>
    (\<forall>k. arow (w_db w) k \<noteq> None \<longrightarrow> arow (w_db w') k \<noteq> None)"
proof -
  let ?jobs = "filter (\<lambda>(k, r). a_state r = ArcCopying) (archive_jobs (w_db w))"
  have mem: "(i, q) \<in> set ?jobs \<longleftrightarrow> arow (w_db w) i = Some q \<and> a_state q = ArcCopying" for i q
    using assms(1) by (simp add: pk_member)
  then have prem: "\<And>k j. (k, j) \<in> set ?jobs \<Longrightarrow> arow (w_db w) k = Some j \<and> a_state j = ArcCopying" by blast
  have dist: "distinct (map fst ?jobs)" using assms(1) by (simp add: pk_def distinct_map_filter db_ok_def)
  have w': "w' = snd (for_each (\<lambda>(k, j). reconcile_job sha256 (s_copying u k) ssdDir archiveDir k j) ?jobs (errs, w))"
    by (simp add: assms(2,4) startup_copying_def GetStaleCopyingArchiveJobs_def)
  note res = copying_loop [OF assms(1) dist assms(3) prem w']
  have "i \<in> fst ` set ?jobs \<longleftrightarrow> (\<exists>q. (i, q) \<in> set ?jobs)" for i by force
  then have key: "i \<in> fst ` set ?jobs \<longleftrightarrow> (\<exists>q. arow (w_db w) i = Some q \<and> a_state q = ArcCopying)" for i
    unfolding mem .
  have st: "a_state j \<noteq> ArcCopying" if "arow (w_db w') k = Some j" for k j
  proof (cases "k \<in> fst ` set ?jobs")
    case True
    with res obtain j' where "arow (w_db w') k = Some j'" "a_state j' \<noteq> ArcCopying" by blast
    with that show ?thesis by simp
  next
    case False
    with res that have "arow (w_db w) k = Some j" by metis
    with False show ?thesis unfolding key by blast
  qed
  have "arow (w_db w') k \<noteq> None" if "arow (w_db w) k \<noteq> None" for k
    using res that by (cases "k \<in> fst ` set ?jobs") auto
  with res st show ?thesis by blast
qed

text \<open>No database statement fails during the startup.\<close>

definition db_calm :: "startup_env \<Rightarrow> bool" where
  "db_calm u \<longleftrightarrow> s_io u = no_fault \<and> (\<forall>k. v_io (s_committing u k) = no_fault \<and>
     v_io (s_downloading u k) = no_fault \<and> j_io (s_copying u k) = no_fault)"

text \<open>The two sweeps after the loop over the downloading records.\<close>

lemma sweeps_rows:
  assumes "\<And>k r. drow db k = Some r \<Longrightarrow> d_status r \<noteq> Downloading"
    and "drow (reset_pending shutdown_failure (reset_pending (\<lambda>r. d_status r = Resolving \<or> d_status r = Moving) db)) k = Some r"
  shows "d_status r \<notin> {Downloading, Resolving, Moving} \<and> \<not> shutdown_failure r"
proof -
  let ?rm = "\<lambda>r. d_status r = Resolving \<or> d_status r = Moving"
  from assms(2) obtain r2 where r2: "drow db k = Some r2"
    and r: "r = (let q = (if ?rm r2 then r2\<lparr>d_status := Pending, d_error := Some []\<rparr> else r2)
      in if shutdown_failure q then q\<lparr>d_status := Pending, d_error := Some []\<rparr> else q)"
    by (auto simp: Let_def)
  show ?thesis using assms(1) [OF r2] by (auto simp: r Let_def shutdown_failure_def)
qed


text \<open>A failure while reading the part drops it.\<close>

text \<open>C28. A read failure is taken for an invalid file: when the final name is free and the part is valid, but reading the
  part fails, the handling removes the part and resets the record to pending, so the finished download is lost.\<close>

theorem read_failure_drops_part:
  assumes "db_ok (w_db w)" and "v_io v = no_fault" and "v_sha_part2 v = Some 0" and "\<not> v_rm_part v"
    and "final = Join ssdDir (FromSlash (coalesce (d_save_path r) []))" and "w_fs w final = None"
    and "copy_valid sha256 r (w_fs w) final" and "drow (w_db w) k = Some r" and "d_status r = Committing"
    and "ReconcileCommittingRecord sha256 K v True ssdDir ae k r w = (e, regs, w')"
  shows "e = None \<and> (\<exists>r'. drow (w_db w') k = Some r' \<and> d_status r' = Pending) \<and>
    w_fs w' final = None \<and> w_fs w' (final @ ''.part'') = None"
proof -
  let ?part = "final @ ''.part''"
  obtain ok w1 where c: "check_part sha256 (v_stat_part2 v) (v_sha_part2 v) (v_dir_size v) ?part r w = (ok, w1)"
    by fastforce
  note fr = check_part_frame [OF c]
  have "fst (file_digest sha256 (Some 0) (w_fs w) ?part) = None"
    by (simp add: file_digest_def split: option.split node.split)
  then have "\<not> ok"
    using c by (auto simp: check_part_def assms(3) split_def Let_def split: option.splits if_splits)
  moreover have "Stat (v_stat_final v) (w_fs w) final = None" by (simp add: Stat_def assms(6))
  ultimately have res: "finish_reset v ?part k r w1 = (e, regs, w')"
    using assms(10) c unfolding reconcile_unfold [OF assms(5) refl] by (simp add: rec_tail_def)
  from reset_calm [OF _ assms(2) _ _ res] finish_frames(3) [OF res] fr assms(1,4,6,8,9) show ?thesis
    by (simp add: Remove_def)
qed

text \<open>A committing record with its part or its final file, for the instances.\<close>

definition ex_commit :: download_row where
  "ex_commit = (proof_columns ''a'' 3 ''xyz'' (new_download Committing 5))\<lparr>d_attempt_generation := ''g''\<rparr>"

definition ex_world :: "string \<Rightarrow> world" where
  "ex_world p = \<lparr>w_fs = [p \<mapsto> NFile ''xyz''], w_db = initSchema\<lparr>download_records := [(ex_key, ex_commit)]\<rparr>, w_meter = None\<rparr>"

definition ex_env :: "nat option \<Rightarrow> rec_env" where
  "ex_env rf = \<lparr>v_stat_final = False, v_sha_final = None, v_stat_part = False, v_sha_part = None, v_stat_part2 = False,
     v_sha_part2 = rf, v_lstat = False, v_race = id, v_stat_target = False, v_sha_target = None, v_rm_part = False,
     v_dir_size = 4096, v_io = no_fault, v_now = 9\<rparr>"

lemma ex_path: "Join ''/d'' (FromSlash (coalesce (d_save_path ex_commit) [])) = ''/d/a''"
  by code_simp

lemma ex_world_simps [simp]:
  "db_ok (w_db (ex_world p))" "drow (w_db (ex_world p)) ex_key = Some ex_commit" "d_status ex_commit = Committing"
  "w_fs (ex_world p) = [p \<mapsto> NFile ''xyz'']" "calm (ex_env None)" "reads_ok (ex_env None)"
  "v_io (ex_env rf) = no_fault" "v_race (ex_env rf) f = f" "v_sha_part2 (ex_env rf) = rf" "v_rm_part (ex_env rf) = False"
  by (auto simp: ex_world_def ex_commit_def proof_columns_def new_download_def tab_sel_def pk_def initSchema_def calm_def
      reads_ok_def ex_env_def intro!: db_okI)

lemma ex_valid: "valid_file id ex_commit [p \<mapsto> NFile ''xyz''] p"
  by (simp add: valid_file_def ex_commit_def proof_columns_def)

definition ex_out :: "nat option \<Rightarrow> string \<Rightarrow> rec_result" where
  "ex_out rf p = ReconcileCommittingRecord id plain_kernel (ex_env rf) True ''/d'' False ex_key ex_commit (ex_world p)"

theorem read_failure_drops_part_witness:
  "w_fs (snd (snd (ex_out (Some 0) ''/d/a.part''))) ''/d/a.part'' = None"
proof -
  obtain e regs w' where o: "ex_out (Some 0) ''/d/a.part'' = (e, regs, w')" by (metis prod_cases3)
  show ?thesis
    using read_failure_drops_part [OF _ _ _ _ ex_path [symmetric] _ _ _ _ o [unfolded ex_out_def]] ex_valid [of "''/d/a.part''"] o
    by (simp add: copy_valid_def)
qed


theorem recovery_keeps_copy_witness:
  "copy_valid id ex_commit (w_fs (snd (snd (ex_out None ''/d/a.part'')))) ''/d/a''"
proof -
  obtain e regs w' where o: "ex_out None ''/d/a.part'' = (e, regs, w')" by (metis prod_cases3)
  show ?thesis
    using recovery_keeps_copy [OF plain_kernel_ok ex_path [symmetric] ex_paths(1) _ _ _ o [unfolded ex_out_def]]
      ex_valid [of "''/d/a.part''"] o
    by (simp add: copy_valid_def)
qed

lemma ex_out_final:
  "ex_out None ''/d/a'' = finish_success (ex_env None) False ex_key ex_commit ''xyz''
     ((ex_world ''/d/a'')\<lparr>w_fs := Remove False ''/d/a.part'' [''/d/a'' \<mapsto> NFile ''xyz'']\<rparr>)"
  unfolding ex_out_def reconcile_unfold [OF ex_path [symmetric] refl]
  by (simp add: Stat_def ex_env_def ComputeSSDFileSHA256_def file_digest_def RecordSSDRead_def ex_world_def
      ex_commit_def proof_columns_def Let_def)

theorem recovery_success_verified_witness:
  "valid_file id ex_commit (w_fs (snd (snd (ex_out None ''/d/a'')))) ''/d/a''"
proof -
  obtain e regs w' where o: "ex_out None ''/d/a'' = (e, regs, w')" by (metis prod_cases3)
  have sha: "coalesce (d_sha256 ex_commit) [] = ''xyz''" by (simp add: ex_commit_def proof_columns_def)
  have "\<exists>r'. drow (w_db w') ex_key = Some r' \<and> d_status r' = Success"
    using success_calm [where v = "ex_env None" and k = ex_key and r = ex_commit and ae = False, unfolded sha, OF _ _ _ _
        ex_out_final [symmetric, unfolded o]] by simp
  then obtain r' where r': "drow (w_db w') ex_key = Some r'" "d_status r' = Success" by blast
  then have "drow (w_db (ex_world ''/d/a'')) ex_key \<noteq> Some r'" by auto
  from recovery_success_verified [OF plain_kernel_ok _ ex_path [symmetric] ex_paths(1) _ o [unfolded ex_out_def] r' this] o
  show ?thesis by simp
qed

definition ex_startup :: startup_env where
  "ex_startup = \<lparr>s_committing = (\<lambda>_. ex_env None), s_downloading = (\<lambda>_. ex_env None),
     s_copying = (\<lambda>_. \<lparr>j_stat = False, j_sha = None, j_rm_moving = False, j_rm_src = False, j_dir_size = 4096,
        j_io = no_fault, j_now = 9\<rparr>), s_io = no_fault\<rparr>"


end
