(* ===== verification/Archive_Worker.thy ===== *)
theory Archive_Worker
  imports Commit_Recovery
begin

text \<open>
  The archive worker (\<open>app/daemon/archive.go\<close>): the check of its two directories, the handling of one job, and the
  loop over due jobs, over the world of the recovery.

  What the surroundings do during one job is the record \<open>pj_env\<close>: a failing call is given by its error text, a failing
  read or write by its position. The wake channel has one slot and is a flag. Logging and
  life cycle events are left out.
\<close>

section \<open>State and operations\<close>

record ArchiveWorker =
  downloadDir :: string
  archiveDir :: string
  wakeCh :: bool
  running :: bool

datatype aw_error = ErrCanonDownload | ErrCanonArchive | ErrSameDir | ErrArchiveInside | ErrDownloadInside

text \<open>\<open>err == nil && !strings.HasPrefix(rel, "..")\<close>.\<close>

definition rel_inside :: "string option \<Rightarrow> bool" where
  "rel_inside r = (case r of None \<Rightarrow> False | Some rel \<Rightarrow> \<not> HasPrefix rel dotdot)"

definition NewArchiveWorker :: "string option \<Rightarrow> string \<Rightarrow> string \<Rightarrow> aw_error + ArchiveWorker" where
  "NewArchiveWorker cwd download archive =
     (case Abs cwd download of
        None \<Rightarrow> Inl ErrCanonDownload
      | Some cleanDownload \<Rightarrow>
          if archive = []
          then Inr \<lparr>downloadDir = cleanDownload, archiveDir = [], wakeCh = False, running = False\<rparr>
          else (case Abs cwd archive of
              None \<Rightarrow> Inl ErrCanonArchive
            | Some cleanArchive \<Rightarrow>
                if cleanDownload = cleanArchive then Inl ErrSameDir
                else if rel_inside (Rel cleanDownload cleanArchive) then Inl ErrArchiveInside
                else if rel_inside (Rel cleanArchive cleanDownload) then Inl ErrDownloadInside
                else Inr \<lparr>downloadDir = cleanDownload, archiveDir = cleanArchive, wakeCh = False, running = False\<rparr>))"

definition IsEnabled :: "ArchiveWorker option \<Rightarrow> bool" where
  "IsEnabled wo = (case wo of None \<Rightarrow> False | Some w \<Rightarrow> archiveDir w \<noteq> [])"

definition Wake :: "ArchiveWorker option \<Rightarrow> ArchiveWorker option" where
  "Wake wo = (if IsEnabled wo then map_option (\<lambda>w. w\<lparr>wakeCh := True\<rparr>) wo else wo)"

text \<open>\<open>Start\<close> marks the worker as running; whether it starts the loop is the second result.\<close>

definition Start :: "ArchiveWorker option \<Rightarrow> ArchiveWorker option \<times> bool" where
  "Start wo = (if IsEnabled wo then (map_option (\<lambda>w. w\<lparr>running := True\<rparr>) wo, True) else (wo, False))"

subsection \<open>Creating directories\<close>

text \<open>The directories on the way to a path, from the outermost on.\<close>

definition dir_chain :: "string \<Rightarrow> string list" where
  "dir_chain p = map (\<lambda>i. path_of (IsAbs p) (take i (elems p))) [1..<Suc (length (elems p))]"

definition make_dirs :: "string list \<Rightarrow> fs \<Rightarrow> fs" where
  "make_dirs ps f = (\<lambda>p. if p \<in> set ps \<and> f p = None then Some NDir else f p)"

text \<open>\<open>os.MkdirAll\<close>: it stops at the first name that is a file, or where the environment makes it fail, with
  the directories before it created.\<close>

definition MkdirAll :: "(string \<times> nat) option \<Rightarrow> string \<Rightarrow> fs \<Rightarrow> string option \<times> fs" where
  "MkdirAll fault dir f =
     (case fault of
        Some (txt, n) \<Rightarrow> (Some txt, make_dirs (take n (takeWhile (\<lambda>p. f p = None \<or> f p = Some NDir) (dir_chain dir))) f)
      | None \<Rightarrow> (case dropWhile (\<lambda>p. f p = None \<or> f p = Some NDir) (dir_chain dir) of
            [] \<Rightarrow> (None, make_dirs (dir_chain dir) f)
          | p # _ \<Rightarrow> (Some (''mkdir '' @ p @ '': not a directory''),
                      make_dirs (takeWhile (\<lambda>p. f p = None \<or> f p = Some NDir) (dir_chain dir)) f)))"

subsection \<open>One job\<close>

record pj_env =
  pj_stat_dst :: bool
  pj_sha_dst :: "nat option"
  pj_stat_src :: "string option"
  pj_mkdir :: "(string \<times> nat) option"
  pj_open_src :: "string option"
  pj_open_dst :: "string option"
  pj_read :: "nat option"
  pj_write :: "nat option"
  pj_sync :: bool
  pj_close :: bool
  pj_copy_text :: string
  pj_rm_moving :: bool
  pj_lstat :: bool
  pj_race :: "fs \<Rightarrow> fs"
  pj_rm_src :: bool
  pj_dir_size :: int64
  pj_io :: "nat \<Rightarrow> bool"
  pj_now :: int64

definition job_fail :: "pj_env \<Rightarrow> msg_key \<Rightarrow> string \<Rightarrow> string \<Rightarrow> world \<Rightarrow> world" where
  "job_fail v k claimID msg w = w\<lparr>w_db := snd (FailArchiveJob (pj_io v) (pj_now v) k claimID msg (w_db w))\<rparr>"

definition job_conflict :: "pj_env \<Rightarrow> msg_key \<Rightarrow> string \<Rightarrow> string \<Rightarrow> world \<Rightarrow> world" where
  "job_conflict v k claimID msg w = w\<lparr>w_db := snd (SetArchiveJobConflict (pj_io v) (pj_now v) k claimID msg (w_db w))\<rparr>"

text \<open>Completing the job and then removing the source.\<close>

definition job_complete :: "pj_env \<Rightarrow> msg_key \<Rightarrow> string \<Rightarrow> archive_row \<Rightarrow> string \<Rightarrow> world \<Rightarrow> world" where
  "job_complete v k claimID j srcPath w =
     (case CompleteArchiveJob (pj_io v) (pj_now v) k claimID (a_sha256 j) (w_db w) of
        (Some _, db) \<Rightarrow> w\<lparr>w_db := db\<rparr>
      | (None, db) \<Rightarrow> w\<lparr>w_db := db, w_fs := Remove (pj_rm_src v) srcPath (w_fs w)\<rparr>)"

text \<open>The bytes that the copy reads: whole buffers up to the one whose write fails.\<close>

definition copy_reads :: "nat option \<Rightarrow> nat option \<Rightarrow> nat \<Rightarrow> nat" where
  "copy_reads rfail wfail n =
     (let m = (case rfail of None \<Rightarrow> n | Some r \<Rightarrow> min r n)
      in case wfail of None \<Rightarrow> m | Some b \<Rightarrow> min m ((b div 4194304 + 1) * 4194304))"

definition metered_copy :: "nat \<Rightarrow> nat \<Rightarrow> StorageIOMeter option \<Rightarrow> StorageIOMeter option" where
  "metered_copy nread nwritten mo =
     RecordArchiveWrite (int nwritten) (RecordSSDRead (int nread) (map_option (\<lambda>m. m\<lparr>archiveActiveWriters :=
       i64 (i64 (archiveActiveWriters m + 1) - 1)\<rparr>) mo))"

text \<open>Steps 4 to 8: copy to the sibling, verify, commit, complete. A directory can be opened, but reading it
  fails.\<close>

definition copy_and_commit ::
  "(string \<Rightarrow> string) \<Rightarrow> kernel \<Rightarrow> pj_env \<Rightarrow> msg_key \<Rightarrow> string \<Rightarrow> archive_row \<Rightarrow> string \<Rightarrow> string \<Rightarrow> world \<Rightarrow> world" where
  "copy_and_commit sha256 K v k claimID j srcPath dstPath w =
     (let movingPath = dstPath @ ''.moving''
      in case pj_open_src v of
           Some txt \<Rightarrow> job_fail v k claimID (''open SSD source: '' @ txt) w
         | None \<Rightarrow>
       (case (if w_fs w movingPath = Some NDir then Some (''open '' @ movingPath @ '': is a directory'') else pj_open_dst v) of
           Some txt \<Rightarrow> job_fail v k claimID (''open archive destination: '' @ txt) w
         | None \<Rightarrow>
       (let (content, rfail) = (case w_fs w srcPath of Some (NFile c) \<Rightarrow> (c, pj_read v) | _ \<Rightarrow> ([], Some 0));
            (written, actualSHA, failed, out) =
              CopyStreamSequential sha256 rfail (pj_write v) (pj_sync v) (pj_close v) content;
            w1 = w\<lparr>w_fs := (w_fs w)(movingPath \<mapsto> NFile out),
                   w_meter := metered_copy (copy_reads rfail (pj_write v) (length content)) written (w_meter w)\<rparr>;
            w_rm = w1\<lparr>w_fs := Remove (pj_rm_moving v) movingPath (w_fs w1)\<rparr>
        in if failed then job_fail v k claimID (''copy file: '' @ pj_copy_text v) w_rm
           else if int written \<noteq> a_expected_size j \<or> actualSHA \<noteq> a_sha256 j
           then job_fail v k claimID ''copied file size or sha mismatch'' w_rm
           else (case CommitSiblingPart K (pj_lstat v) (pj_race v) movingPath dstPath (w_fs w1) of
                   (Some e, f) \<Rightarrow>
                     if Is_Exist e
                     then job_conflict v k claimID ''archive destination already exists during final commit'' (w1\<lparr>w_fs := f\<rparr>)
                     else job_fail v k claimID (''archive final commit: '' @ commit_err_text movingPath dstPath e) (w1\<lparr>w_fs := f\<rparr>)
                 | (None, f) \<Rightarrow> job_complete v k claimID j srcPath (w1\<lparr>w_fs := f\<rparr>)))))"

text \<open>Steps 2 and 3, when the target does not exist.\<close>

definition archive_source ::
  "(string \<Rightarrow> string) \<Rightarrow> kernel \<Rightarrow> pj_env \<Rightarrow> msg_key \<Rightarrow> string \<Rightarrow> archive_row \<Rightarrow> string \<Rightarrow> string \<Rightarrow> world \<Rightarrow> world" where
  "archive_source sha256 K v k claimID j srcPath dstPath w =
     (case pj_stat_src v of
        Some txt \<Rightarrow> job_fail v k claimID (''stat SSD source: '' @ txt) w
      | None \<Rightarrow> (case w_fs w srcPath of
          None \<Rightarrow> job_fail v k claimID (''SSD source missing: stat '' @ srcPath @ '': no such file or directory'') w
        | Some n \<Rightarrow>
            if node_size (pj_dir_size v) n \<noteq> a_expected_size j
            then job_conflict v k claimID (''SSD source size mismatch: got '' @ show_int (node_size (pj_dir_size v) n) @
                   '' want '' @ show_int (a_expected_size j)) w
            else (case MkdirAll (pj_mkdir v) (Dir dstPath) (w_fs w) of
                    (Some txt, f) \<Rightarrow> job_fail v k claimID (''mkdir archive dir: '' @ txt) (w\<lparr>w_fs := f\<rparr>)
                  | (None, f) \<Rightarrow> copy_and_commit sha256 K v k claimID j srcPath dstPath (w\<lparr>w_fs := f\<rparr>))))"

definition escapes :: "string option \<Rightarrow> bool" where
  "escapes r = (case r of None \<Rightarrow> True | Some rel \<Rightarrow> HasPrefix rel dotdot)"

definition processJob ::
  "(string \<Rightarrow> string) \<Rightarrow> kernel \<Rightarrow> pj_env \<Rightarrow> ArchiveWorker \<Rightarrow> msg_key \<Rightarrow> string \<Rightarrow> archive_row \<Rightarrow> world \<Rightarrow> world" where
  "processJob sha256 K v aw k claimID j w =
     (if TrimSpace (a_sha256 j) = [] then job_fail v k claimID ''archive job rejected: empty SHA256 proof'' w
      else let cleanRel = Clean (FromSlash (a_relative_path j))
      in if cleanRel = dot \<or> cleanRel = ''/'' \<or> HasPrefix cleanRel dotdot \<or> IsAbs cleanRel
      then job_fail v k claimID ''archive job rejected: invalid relative path'' w
      else let srcPath = Join (downloadDir aw) cleanRel; dstPath = Join (archiveDir aw) cleanRel
      in if escapes (Rel (downloadDir aw) srcPath) then job_fail v k claimID ''srcPath escapes downloadDir'' w
      else if escapes (Rel (archiveDir aw) dstPath) then job_fail v k claimID ''dstPath escapes archiveDir'' w
      else (case Stat (pj_stat_dst v) (w_fs w) dstPath of
              Some n \<Rightarrow>
                if node_size (pj_dir_size v) n = a_expected_size j
                then let (sha, m) = ComputeArchiveFileSHA256 sha256 (pj_sha_dst v) (w_fs w) dstPath (w_meter w);
                         w1 = w\<lparr>w_meter := m\<rparr>
                     in if sha = Some (a_sha256 j) then job_complete v k claimID j srcPath w1
                        else job_conflict v k claimID ''destination file exists with conflicting content'' w1
                else job_conflict v k claimID ''destination file exists with conflicting content'' w
            | None \<Rightarrow> archive_source sha256 K v k claimID j srcPath dstPath w))"

subsection \<open>The queue\<close>

record next_env =
  n_due_io :: bool
  n_claim_io :: bool
  n_nano :: int64
  n_pid :: int
  n_now :: int64
  n_job :: pj_env

definition claim_text :: "next_env \<Rightarrow> string" where
  "claim_text e = show_int (n_nano e) @ ''-'' @ show_int (n_pid e)"

definition ProcessNext ::
  "(string \<Rightarrow> string) \<Rightarrow> kernel \<Rightarrow> next_env \<Rightarrow> ArchiveWorker option \<Rightarrow> world \<Rightarrow> bool \<times> world" where
  "ProcessNext sha256 K e wo w =
     (case wo of None \<Rightarrow> (False, w) | Some aw \<Rightarrow>
      if \<not> IsEnabled wo then (False, w)
      else (case GetDueArchiveJobs (\<lambda>_. n_due_io e) (n_now e) 1 (w_db w) of
              Inr ((k, j) # _) \<Rightarrow>
                (case ClaimArchiveJob (\<lambda>_. n_claim_io e) (n_now e) k (claim_text e) (w_db w) of
                   (Inr True, db) \<Rightarrow>
                     (True, processJob sha256 K (n_job e) aw k (claim_text e) (j\<lparr>a_claim_id := claim_text e\<rparr>) (w\<lparr>w_db := db\<rparr>))
                 | (_, db) \<Rightarrow> (False, w\<lparr>w_db := db\<rparr>))
            | _ \<Rightarrow> (False, w)))"

text \<open>
  The inner loop of \<open>runLoop\<close>, after a wake-up or a tick: it takes one due job after the other until there is none, the
  query or the claim fails, or the context is done. Each round has its own environment; a list of
  rounds is a prefix of a run. The result says whether the loop is left within them.
\<close>

fun run_rounds ::
  "(string \<Rightarrow> string) \<Rightarrow> kernel \<Rightarrow> (bool \<times> next_env) list \<Rightarrow> ArchiveWorker \<Rightarrow> world \<Rightarrow> bool \<times> world" where
  "run_rounds sha256 K [] aw w = (False, w)"
| "run_rounds sha256 K ((ctxDone, e) # es) aw w =
     (if ctxDone then (True, w)
      else (case GetDueArchiveJobs (\<lambda>_. n_due_io e) (n_now e) 1 (w_db w) of
              Inr ((k, j) # _) \<Rightarrow>
                (case ClaimArchiveJob (\<lambda>_. n_claim_io e) (n_now e) k (claim_text e) (w_db w) of
                   (Inr True, db) \<Rightarrow>
                     run_rounds sha256 K es aw
                       (processJob sha256 K (n_job e) aw k (claim_text e) (j\<lparr>a_claim_id := claim_text e\<rparr>) (w\<lparr>w_db := db\<rparr>))
                 | (_, db) \<Rightarrow> (True, w\<lparr>w_db := db\<rparr>))
            | _ \<Rightarrow> (True, w)))"

text \<open>What the worker reports from its meter.\<close>

definition PhysicalWriteBytes :: "StorageIOMeter option \<Rightarrow> int64" where
  "PhysicalWriteBytes mo = (case mo of None \<Rightarrow> 0 | Some m \<Rightarrow> archiveWriteBytes m)"

definition PhysicalReadBytes :: "StorageIOMeter option \<Rightarrow> int64" where
  "PhysicalReadBytes mo = (case mo of None \<Rightarrow> 0 | Some m \<Rightarrow> archiveReadBytes m)"

definition aw_ActiveWorkers :: "StorageIOMeter option \<Rightarrow> int64" where
  "aw_ActiveWorkers mo = (case mo of None \<Rightarrow> 0 | Some m \<Rightarrow> archiveActiveWriters m)"

end
