(* ===== verification/Archive_Safety.thy ===== *)
theory Archive_Safety
  imports Archive_Worker
begin

text \<open>
  The properties of the archive worker: the paths of an accepted job stay inside its two directories, what a job leaves of the files, that
  the source of a job is never lost, that without failures a job completes, and what the check of the two
  directories guarantees.
\<close>

declare split_paired_All [simp del] split_paired_Ex [simp del]

section \<open>Directories\<close>

text \<open>\<open>p\<close> is an absolute path strictly below the directory \<open>d\<close>.\<close>

definition inside :: "string \<Rightarrow> string \<Rightarrow> bool" where
  "inside d p \<longleftrightarrow> IsAbs p \<and> strict_prefix (elems d) (elems p)"

text \<open>Neither directory contains the other.\<close>

definition separate :: "string \<Rightarrow> string \<Rightarrow> bool" where
  "separate a b \<longleftrightarrow> IsAbs a \<and> IsAbs b \<and> \<not> prefix (elems a) (elems b) \<and> \<not> prefix (elems b) (elems a)"

lemma inside_separate: "separate a b \<Longrightarrow> inside a p \<Longrightarrow> inside b q \<Longrightarrow> p \<noteq> q"
  unfolding inside_def separate_def by (meson prefix_same_cases strict_prefix_def)

lemma escapes_Rel:
  assumes "IsAbs d" and "IsAbs p"
  shows "\<not> escapes (Rel d p) \<Longrightarrow> prefix (elems d) (elems p)"
    and "rel_inside (Rel d p) \<longleftrightarrow> (\<exists>ts. elems p = elems d @ ts \<and> (ts = [] \<or> \<not> HasPrefix (hd ts) dotdot))"
proof -
  obtain bs ts where s: "strip_common (elems d) (elems p) = (bs, ts)" by force
  have "dotdot \<notin> set bs"
    using strip_common_spec [OF s] rooted_no_dots [OF assms(1)] by auto
  with s assms obtain r where r: "Rel d p = Some r"
    by (cases bs; cases ts) (auto simp: Rel_def)
  note e = Rel_escapes [OF assms r]
  show "\<not> escapes (Rel d p) \<Longrightarrow> prefix (elems d) (elems p)"
    using e by (auto simp: escapes_def r)
  show "rel_inside (Rel d p) \<longleftrightarrow> (\<exists>ts. elems p = elems d @ ts \<and> (ts = [] \<or> \<not> HasPrefix (hd ts) dotdot))"
    using e by (simp add: rel_inside_def r)
qed

text \<open>The paths of a job with an acceptable relative path.\<close>

definition job_paths :: "ArchiveWorker \<Rightarrow> archive_row \<Rightarrow> string \<Rightarrow> string \<Rightarrow> string \<Rightarrow> bool" where
  "job_paths aw j rel src dst \<longleftrightarrow> IsAbs (downloadDir aw) \<and> IsAbs (archiveDir aw) \<and>
     rel = Clean (FromSlash (a_relative_path j)) \<and> rel \<noteq> dot \<and> \<not> HasPrefix rel dotdot \<and> \<not> IsAbs rel \<and>
     src = Join (downloadDir aw) rel \<and> dst = Join (archiveDir aw) rel"

lemma join_rel:
  assumes "IsAbs d" and "rel = Clean p" and "rel \<noteq> dot" and "\<not> HasPrefix rel dotdot" and "\<not> IsAbs rel"
  shows "elems (Join d rel) = elems d @ elems rel" and "elems rel \<noteq> []" and "file_path (Join d rel)"
    and "inside d (Join d rel)"
proof -
  have clean: "Clean rel = rel" by (simp add: assms(2) Clean_idem)
  show ne: "elems rel \<noteq> []"
  proof
    assume "elems rel = []"
    moreover have "rel = path_of (IsAbs rel) (elems rel)" using clean by (simp add: Clean_def)
    ultimately show False using assms(3,5) by (simp add: path_of_def dot_def)
  qed
  have a: "IsAbs (Join d rel)" using elems_Join(2) [OF assms(1,5)] assms(4) by (simp add: clean)
  show e: "elems (Join d rel) = elems d @ elems rel"
    using elems_Join(1) [OF assms(1,5)] assms(4) by (simp add: clean)
  have "d \<noteq> []" using assms(1) by (auto simp: IsAbs_Nil)
  then have "Clean (Join d rel) = Join d rel" by (simp add: Join_def Clean_idem)
  with e a ne show "file_path (Join d rel)" by (simp add: file_path_def)
  show "inside d (Join d rel)" using e a ne by (simp add: inside_def strict_prefix_def)
qed

lemma job_pathsD:
  assumes "job_paths aw j rel src dst"
  shows "file_path dst" and "inside (archiveDir aw) dst" and "inside (downloadDir aw) src"
    and "file_path (dst @ ''.moving'')" and "inside (archiveDir aw) (dst @ ''.moving'')"
    and "file_path src"
proof -
  from assms have p: "IsAbs (downloadDir aw)" "IsAbs (archiveDir aw)" "rel = Clean (FromSlash (a_relative_path j))"
    "rel \<noteq> dot" "\<not> HasPrefix rel dotdot" "\<not> IsAbs rel" and src: "src = Join (downloadDir aw) rel"
    and dst: "dst = Join (archiveDir aw) rel"
    unfolding job_paths_def by blast+
  note js = join_rel [OF p(1,3-6), folded src] and jd = join_rel [OF p(2-6), folded dst]
  show f: "file_path dst" and "inside (archiveDir aw) dst" and "inside (downloadDir aw) src" and "file_path src"
    using jd(3,4) js(3,4) by blast+
  note m = file_path_append [OF f, of "''.moving''", simplified]
  show "file_path (dst @ ''.moving'')" by (rule m(1))
  have "butlast (elems dst) = elems (archiveDir aw) @ butlast (elems rel)"
    using jd(1,2) by (simp add: butlast_append)
  then have "strict_prefix (elems (archiveDir aw)) (elems (dst @ ''.moving''))"
    unfolding m(3) by (simp add: strict_prefix_def)
  with m(1) show "inside (archiveDir aw) (dst @ ''.moving'')" by (simp add: inside_def file_path_def)
qed

lemma src_apart:
  assumes "job_paths aw j rel src dst" and "separate (downloadDir aw) (archiveDir aw)"
  shows "src \<noteq> dst" and "src \<noteq> dst @ ''.moving''"
  using inside_separate [OF assms(2)] job_pathsD [OF assms(1)] by blast+

section \<open>The steps of a job\<close>

lemma job_frames [simp]:
  "w_fs (job_fail v k c t w) = w_fs w" "w_fs (job_conflict v k c t w) = w_fs w"
  by (simp_all add: job_fail_def job_conflict_def)

lemma complete_archived:
  assumes "db_ok db" and "CompleteArchiveJob io now k c s db = (None, db')"
  shows "\<exists>j. arow db' k = Some j \<and> a_state j = ArcArchived \<and> a_sha256 j = s"
  using assms by (auto simp: CompleteArchiveJob_def split_def Let_def mark_archived_def split: if_splits option.splits)

text \<open>The source is only removed once the job is archived.\<close>

definition job_done :: "archive_row \<Rightarrow> database \<Rightarrow> msg_key \<Rightarrow> bool" where
  "job_done j db k \<longleftrightarrow> (\<exists>j'. arow db k = Some j' \<and> a_state j' = ArcArchived \<and> a_sha256 j' = a_sha256 j)"

lemma job_complete_result:
  assumes "db_ok (w_db w)"
  shows "w_fs (job_complete v k c j src w) = w_fs w \<or>
    w_fs (job_complete v k c j src w) = (w_fs w)(src := None) \<and> job_done j (w_db (job_complete v k c j src w)) k"
proof -
  obtain e db' where c: "CompleteArchiveJob (pj_io v) (pj_now v) k c (a_sha256 j) (w_db w) = (e, db')" by fastforce
  show ?thesis
  proof (cases e)
    case None
    with complete_archived [OF assms] c show ?thesis
      by (auto simp: job_complete_def job_done_def Remove_def)
  qed (simp add: job_complete_def c)
qed

lemma MkdirAll_frame:
  "MkdirAll fault d f = (e, f') \<Longrightarrow> f' p = f p \<or> f p = None \<and> f' p = Some NDir"
  by (auto simp: MkdirAll_def make_dirs_def split: option.splits list.splits prod.splits if_splits)

text \<open>The archived copy of a job: a file with its size and digest.\<close>

definition archived_copy :: "(string \<Rightarrow> string) \<Rightarrow> archive_row \<Rightarrow> fs \<Rightarrow> string \<Rightarrow> bool" where
  "archived_copy sha256 j f p \<longleftrightarrow> (\<exists>c. f p = Some (NFile c) \<and> int (length c) = a_expected_size j \<and> sha256 c = a_sha256 j)"

lemma copy_result:
  assumes "CopyStreamSequential sha256 rf wr sf cf content = (n, s, failed, out)" and "\<not> failed"
  shows "n = length out" and "s = sha256 out" and "out = content"
  using assms by (auto simp: CopyStreamSequential_def Let_def split_def copy_loop_spec copied_def copy_fails_def
      split: if_splits option.splits)

text \<open>How a job leaves the files: \<open>ft\<close> agrees with the files before it away from the target and its sibling, and then the source
  is removed or not.\<close>

inductive job_files ::
  "(string \<Rightarrow> string) \<Rightarrow> (fs \<Rightarrow> fs) \<Rightarrow> msg_key \<Rightarrow> archive_row \<Rightarrow> string \<Rightarrow> string \<Rightarrow> fs \<Rightarrow> world \<Rightarrow> bool"
  for sha256 race k j src dst f w' where
  "(\<And>p. p \<noteq> dst \<Longrightarrow> p \<noteq> dst @ ''.moving'' \<Longrightarrow> (\<And>g. race g p = g p) \<Longrightarrow> ft p = f p \<or> f p = None \<and> ft p = Some NDir) \<Longrightarrow>
   w_fs w' = ft \<or> w_fs w' = ft(src := None) \<and> job_done j (w_db w') k \<and> archived_copy sha256 j ft dst \<Longrightarrow>
   job_files sha256 race k j src dst f w'"

lemma job_files_same: "w_fs w' = f \<Longrightarrow> job_files sha256 race k j src dst f w'"
  by (rule job_files.intros [where ft = f]) auto

lemma job_files_complete:
  assumes "db_ok (w_db w)" and "archived_copy sha256 j (w_fs w) dst"
    and "\<And>p. p \<noteq> dst \<Longrightarrow> p \<noteq> dst @ ''.moving'' \<Longrightarrow> (\<And>g. race g p = g p) \<Longrightarrow>
      w_fs w p = f p \<or> f p = None \<and> w_fs w p = Some NDir"
  shows "job_files sha256 race k j src dst f (job_complete v k c j src w)"
proof (rule job_files.intros [where ft = "w_fs w"])
  show "w_fs (job_complete v k c j src w) = w_fs w \<or> w_fs (job_complete v k c j src w) = (w_fs w)(src := None) \<and>
      job_done j (w_db (job_complete v k c j src w)) k \<and> archived_copy sha256 j (w_fs w) dst"
    using job_complete_result [OF assms(1), of v k c j src] assms(2) by blast
qed (rule assms(3))

lemma committed_frame: "committed part final f f' \<Longrightarrow> p \<noteq> part \<Longrightarrow> p \<noteq> final \<Longrightarrow> f' p = f p"
  by (auto simp: committed_def moved_def)

lemma copy_and_commit_files:
  assumes "kernel_ok K" and "file_path dst" and "file_path (dst @ ''.moving'')" and "db_ok (w_db w)"
    and race: "\<And>f. pj_race v f (dst @ ''.moving'') = f (dst @ ''.moving'')"
    and base: "\<And>p. w_fs w p = f p \<or> f p = None \<and> w_fs w p = Some NDir"
  shows "job_files sha256 (pj_race v) k j src dst f (copy_and_commit sha256 K v k c j src dst w)"
proof -
  let ?m = "dst @ ''.moving''" and ?R = "copy_and_commit sha256 K v k c j src dst w"
  let ?files = "job_files sha256 (pj_race v) k j src dst f"
  have keep: "?files w'" if "\<And>p. p \<noteq> dst \<Longrightarrow> p \<noteq> ?m \<Longrightarrow> (\<And>g. pj_race v g p = g p) \<Longrightarrow> w_fs w' p = w_fs w p" for w'
    by (rule job_files.intros [where ft = "w_fs w'"]) (use that base in auto)
  obtain content rf where cr: "(case w_fs w src of Some (NFile c) \<Rightarrow> (c, pj_read v) | _ \<Rightarrow> ([], Some 0)) = (content, rf)" by fastforce
  obtain n s failed out where cp: "CopyStreamSequential sha256 rf (pj_write v) (pj_sync v) (pj_close v) content = (n, s, failed, out)"
    by (metis prod_cases4)
  define w1 where "w1 = w\<lparr>w_fs := (w_fs w)(?m \<mapsto> NFile out),
     w_meter := metered_copy (copy_reads rf (pj_write v) (length content)) n (w_meter w)\<rparr>"
  define wr where "wr = w1\<lparr>w_fs := Remove (pj_rm_moving v) ?m (w_fs w1)\<rparr>"
  obtain e f' where cm: "CommitSiblingPart K (pj_lstat v) (pj_race v) ?m dst (w_fs w1) = (e, f')" by fastforce
  have nd: "pj_race v (w_fs w1) ?m \<noteq> Some NDir" by (simp add: race w1_def)
  note cr' = commit_result [OF assms(1,3,2) nd cm]
  have f': "f' p = w_fs w p" if "p \<noteq> dst" "p \<noteq> ?m" "\<And>g. pj_race v g p = g p" for p
    using cr' committed_frame [of ?m dst "pj_race v (w_fs w1)" f' p] that by (auto simp: w1_def)
  have rm: "w_fs wr p = w_fs w p" if "p \<noteq> ?m" for p using that by (simp add: wr_def w1_def Remove_def)
  have un: "?R = (case pj_open_src v of Some t \<Rightarrow> job_fail v k c (''open SSD source: '' @ t) w
     | None \<Rightarrow> (case (if w_fs w ?m = Some NDir then Some (''open '' @ ?m @ '': is a directory'') else pj_open_dst v) of
         Some t \<Rightarrow> job_fail v k c (''open archive destination: '' @ t) w
       | None \<Rightarrow> if failed then job_fail v k c (''copy file: '' @ pj_copy_text v) wr
           else if int n \<noteq> a_expected_size j \<or> s \<noteq> a_sha256 j then job_fail v k c ''copied file size or sha mismatch'' wr
           else (case e of Some x \<Rightarrow> if Is_Exist x
               then job_conflict v k c ''archive destination already exists during final commit'' (w1\<lparr>w_fs := f'\<rparr>)
               else job_fail v k c (''archive final commit: '' @ commit_err_text ?m dst x) (w1\<lparr>w_fs := f'\<rparr>)
             | None \<Rightarrow> job_complete v k c j src (w1\<lparr>w_fs := f'\<rparr>))))"
    unfolding copy_and_commit_def Let_def cr cp prod.case w1_def [symmetric] wr_def [symmetric] cm
    by (cases e) simp_all
  have fin: "?files (job_complete v k c j src (w1\<lparr>w_fs := f'\<rparr>))"
    if "e = None" "\<not> failed" "int n = a_expected_size j" "s = a_sha256 j"
  proof (rule job_files_complete)
    have "f' dst = Some (NFile out)"
      using cr' that(1) committed_keeps(2) [of ?m dst "pj_race v (w_fs w1)" f'] race by (auto simp: w1_def)
    with copy_result [OF cp that(2)] that(3,4) show "archived_copy sha256 j (w_fs (w1\<lparr>w_fs := f'\<rparr>)) dst"
      by (simp add: archived_copy_def)
    show "db_ok (w_db (w1\<lparr>w_fs := f'\<rparr>))" using assms(4) by (simp add: w1_def)
  qed (use f' base in auto)
  have failw: "?files (job_fail v k c t w)" for t by (rule keep) simp
  have failr: "?files (job_fail v k c t wr)" for t by (rule keep) (simp add: rm)
  have failc: "?files (job_fail v k c t (w1\<lparr>w_fs := f'\<rparr>))" for t by (rule keep) (simp add: f')
  have confl: "?files (job_conflict v k c t (w1\<lparr>w_fs := f'\<rparr>))" for t by (rule keep) (simp add: f')
  show ?thesis
    unfolding un by (simp add: failw failr failc confl fin split: option.split)
qed

lemma archive_source_files:
  assumes "kernel_ok K" and "file_path dst" and "file_path (dst @ ''.moving'')" and "db_ok (w_db w)"
    and "\<And>f. pj_race v f (dst @ ''.moving'') = f (dst @ ''.moving'')"
  shows "job_files sha256 (pj_race v) k j src dst (w_fs w) (archive_source sha256 K v k c j src dst w)"
proof -
  let ?files = "job_files sha256 (pj_race v) k j src dst (w_fs w)"
  obtain e f where m: "MkdirAll (pj_mkdir v) (Dir dst) (w_fs w) = (e, f)" by fastforce
  note fr = MkdirAll_frame [OF m]
  have fl: "?files (job_fail v k c t w)" for t by (rule job_files_same) simp
  have cf: "?files (job_conflict v k c t w)" for t by (rule job_files_same) simp
  have md: "?files (job_fail v k c t (w\<lparr>w_fs := f\<rparr>))" for t
    by (rule job_files.intros [where ft = f]) (use fr in auto)
  have go: "?files (copy_and_commit sha256 K v k c j src dst (w\<lparr>w_fs := f\<rparr>))"
    by (rule copy_and_commit_files) (use assms fr in auto)
  show ?thesis
    unfolding archive_source_def m by (cases e) (simp_all add: fl cf md go split: option.split)
qed

text \<open>Every job is rejected with the files untouched, or has acceptable paths.\<close>

lemma processJob_files:
  assumes "kernel_ok K" and "db_ok (w_db w)" and "IsAbs (downloadDir aw)" and "IsAbs (archiveDir aw)"
    and "\<And>f p. inside (archiveDir aw) p \<Longrightarrow> pj_race v f p = f p"
  obtains "w_fs (processJob sha256 K v aw k c j w) = w_fs w"
  | rel src dst where "job_paths aw j rel src dst"
      "job_files sha256 (pj_race v) k j src dst (w_fs w) (processJob sha256 K v aw k c j w)"
proof -
  let ?rel = "Clean (FromSlash (a_relative_path j))"
  let ?src = "Join (downloadDir aw) ?rel" and ?dst = "Join (archiveDir aw) ?rel"
  show thesis
  proof (cases "TrimSpace (a_sha256 j) = [] \<or> ?rel = dot \<or> ?rel = ''/'' \<or> HasPrefix ?rel dotdot \<or> IsAbs ?rel \<or>
      escapes (Rel (downloadDir aw) ?src) \<or> escapes (Rel (archiveDir aw) ?dst)")
    case True
    then have "w_fs (processJob sha256 K v aw k c j w) = w_fs w"
      unfolding processJob_def Let_def by (elim disjE) simp_all
    then show thesis by (rule that)
  next
    case False
    then have paths: "job_paths aw j ?rel ?src ?dst" using assms(3,4) by (simp add: job_paths_def)
    note p = job_pathsD [OF paths]
    let ?files = "job_files sha256 (pj_race v) k j ?src ?dst (w_fs w)"
    obtain sha m where s: "ComputeArchiveFileSHA256 sha256 (pj_sha_dst v) (w_fs w) ?dst (w_meter w) = (sha, m)" by fastforce
    have dig: "sha = fst (file_digest sha256 (pj_sha_dst v) (w_fs w) ?dst)"
      using compute_digest(2) [of sha256 "pj_sha_dst v" "w_fs w" ?dst "w_meter w"] s by simp
    have cf: "?files (job_conflict v k c t (w\<lparr>w_meter := m\<rparr>))" and cf0: "?files (job_conflict v k c t w)" for t
      by (rule job_files_same, simp)+
    have copy: "archived_copy sha256 j (w_fs w) ?dst"
      if "w_fs w ?dst = Some n" "node_size (pj_dir_size v) n = a_expected_size j" "sha = Some (a_sha256 j)" for n
      using digest_sound [of sha256 "pj_sha_dst v" "w_fs w" ?dst "a_sha256 j"] that
      by (auto simp: dig archived_copy_def node_size_def)
    have cm: "?files (job_complete v k c j ?src (w\<lparr>w_meter := m\<rparr>))"
      if "w_fs w ?dst = Some n" "node_size (pj_dir_size v) n = a_expected_size j" "sha = Some (a_sha256 j)" for n
      by (rule job_files_complete) (use assms(2) copy [OF that] in simp_all)
    have as: "?files (archive_source sha256 K v k c j ?src ?dst w)"
      by (rule archive_source_files) (use assms(1,2,5) p in simp_all)
    have "?files (processJob sha256 K v aw k c j w)"
    proof (cases "Stat (pj_stat_dst v) (w_fs w) ?dst")
      case None
      with False as show ?thesis by (simp add: processJob_def Let_def)
    next
      case (Some n)
      then have at: "w_fs w ?dst = Some n" by (simp add: Stat_def split: if_splits)
      from False Some s cf cf0 cm [OF at] show ?thesis by (simp add: processJob_def Let_def)
    qed
    with paths show thesis by (rule that)
  qed
qed

text \<open>The source of a job is never lost.\<close>

text \<open>C23. The archive worker never loses a downloaded file. Whatever fails and whatever the job says: a file inside the download
  directory is still there with its content after the job, unless it is the source of the job, the job is archived in the
  database with its digest, and the archive holds a file with the size and digest of the job. Other processes may do anything outside the two directories.\<close>

theorem archive_never_loses_source:
  assumes "kernel_ok K" and "db_ok (w_db w)" and "separate (downloadDir aw) (archiveDir aw)"
    and "\<And>f p. inside (archiveDir aw) p \<or> inside (downloadDir aw) p \<Longrightarrow> pj_race v f p = f p"
    and "inside (downloadDir aw) p" and "w_fs w p = Some (NFile content)"
    and "w' = processJob sha256 K v aw k c j w"
  shows "w_fs w' p = Some (NFile content) \<or>
    p = Join (downloadDir aw) (Clean (a_relative_path j)) \<and> job_done j (w_db w') k \<and>
    archived_copy sha256 j (w_fs w') (Join (archiveDir aw) (Clean (a_relative_path j)))"
proof -
  have abs: "IsAbs (downloadDir aw)" "IsAbs (archiveDir aw)" using assms(3) by (simp_all add: separate_def)
  show ?thesis
  proof (rule processJob_files [OF assms(1,2) abs, of v sha256 k c j])
    assume "w_fs (processJob sha256 K v aw k c j w) = w_fs w"
    then show ?thesis using assms(6,7) by simp
  next
    fix rel src dst
    assume paths: "job_paths aw j rel src dst"
      and files: "job_files sha256 (pj_race v) k j src dst (w_fs w) (processJob sha256 K v aw k c j w)"
    note pp = job_pathsD [OF paths]
    have ne: "p \<noteq> dst" "p \<noteq> dst @ ''.moving''" "src \<noteq> dst"
      using inside_separate [OF assms(3)] assms(5) pp(2,3,5) by blast+
    have sd: "src = Join (downloadDir aw) (Clean (a_relative_path j))" "dst = Join (archiveDir aw) (Clean (a_relative_path j))"
      using paths by (simp_all add: job_paths_def FromSlash_def)
    from files show ?thesis
    proof cases
      case (1 ft)
      have at: "ft p = Some (NFile content)"
        using 1(1) [OF ne(1,2)] assms(4,5,6) by auto
      from 1(2) show ?thesis
      proof
        assume "w_fs (processJob sha256 K v aw k c j w) = ft"
        with at show ?thesis by (simp add: assms(7))
      next
        assume r: "w_fs (processJob sha256 K v aw k c j w) = ft(src := None) \<and>
          job_done j (w_db (processJob sha256 K v aw k c j w)) k \<and> archived_copy sha256 j ft dst"
        then have "archived_copy sha256 j (w_fs w') dst"
          using ne(3) by (simp add: assms(7) archived_copy_def)
        with r at sd show ?thesis by (cases "p = src") (simp_all add: assms(7))
      qed
    qed
  qed (use assms(4) in blast)
qed

text \<open>C24. Path containment: whatever relative path a job carries, all files the worker changes lie strictly inside the
  download directory or the archive directory, except for directories it creates.\<close>

theorem archive_stays_inside:
  assumes "kernel_ok K" and "db_ok (w_db w)" and "IsAbs (downloadDir aw)" and "IsAbs (archiveDir aw)"
    and "pj_race v = id" and "w' = processJob sha256 K v aw k c j w" and "w_fs w' p \<noteq> w_fs w p"
  shows "inside (downloadDir aw) p \<or> inside (archiveDir aw) p \<or> w_fs w p = None \<and> w_fs w' p = Some NDir"
proof (rule processJob_files [OF assms(1-4), of v sha256 k c j])
  assume "w_fs (processJob sha256 K v aw k c j w) = w_fs w"
  with assms(6,7) show ?thesis by simp
next
  fix rel src dst
  assume paths: "job_paths aw j rel src dst"
    and files: "job_files sha256 (pj_race v) k j src dst (w_fs w) (processJob sha256 K v aw k c j w)"
  note pp = job_pathsD [OF paths]
  from files show ?thesis
  proof cases
    case (1 ft)
    show ?thesis
    proof (cases "p = dst \<or> p = dst @ ''.moving'' \<or> p = src")
      case True
      with pp(2,3,5) show ?thesis by blast
    next
      case False
      have "ft p = w_fs w p \<or> w_fs w p = None \<and> ft p = Some NDir"
        using 1(1) [of p] False assms(5) by simp
      moreover have "w_fs w' p = ft p"
        using 1(2) False unfolding assms(6) by (elim disjE) simp_all
      ultimately show ?thesis using assms(7) by simp
    qed
  qed
qed (simp add: assms(5))

text \<open>The worker starts only with absolute directories neither of which contains the other, unless the path from one to
  the other begins with an element whose name begins with two dots.\<close>

theorem worker_dirs_separate:
  assumes "NewArchiveWorker cwd d a = Inr aw" and "a \<noteq> []" and "\<And>wd. cwd = Some wd \<Longrightarrow> IsAbs wd"
  shows "IsAbs (downloadDir aw) \<and> IsAbs (archiveDir aw) \<and>
    (separate (downloadDir aw) (archiveDir aw) \<or>
     (\<exists>t ts. HasPrefix t dotdot \<and> (elems (archiveDir aw) = elems (downloadDir aw) @ t # ts \<or>
        elems (downloadDir aw) = elems (archiveDir aw) @ t # ts)))"
proof -
  have absJ: "IsAbs (Join wd p)" if "IsAbs wd" for wd p
  proof -
    have "wd \<noteq> []" using that by (auto simp: IsAbs_Nil)
    moreover have "IsAbs (wd @ ''/'' @ p)" using that by (cases wd) (auto simp: IsAbs_Cons IsAbs_Nil)
    ultimately show ?thesis by (simp add: Join_def)
  qed
  have absA: "IsAbs q" if "Abs cwd p = Some q" for p q
    using that assms(3) absJ by (auto simp: Abs_def split: if_splits)
  from assms(1,2) have q: "Abs cwd d = Some (downloadDir aw)" "Abs cwd a = Some (archiveDir aw)"
    "\<not> rel_inside (Rel (downloadDir aw) (archiveDir aw))" "\<not> rel_inside (Rel (archiveDir aw) (downloadDir aw))"
    by (auto simp: NewArchiveWorker_def split: option.splits if_splits)
  note abs = absA [OF q(1)] absA [OF q(2)]
  have r: "\<exists>t ts. zs = t # ts \<and> HasPrefix t dotdot"
    if "\<not> rel_inside (Rel x y)" "IsAbs x" "IsAbs y" "elems y = elems x @ zs" for x y zs
    using escapes_Rel(2) [OF that(2,3)] that(1,4) by (cases zs) auto
  show ?thesis
    using abs r [OF q(3) abs] r [OF q(4) abs(2,1)] unfolding separate_def prefix_def by metis
qed

section \<open>Without failures\<close>

lemma chain_length: "p \<in> set (dir_chain d) \<Longrightarrow> IsAbs d \<Longrightarrow> length (elems p) \<le> length (elems d)"
proof -
  assume p: "p \<in> set (dir_chain d)" and d: "IsAbs d"
  then obtain i where i: "p = path_of (IsAbs d) (take i (elems d))" by (auto simp: dir_chain_def)
  have "list_all normal (elems d)" using canonical_elems [of d] d by (auto simp: canonical_def)
  then have "canonical True (take i (elems d))" by (intro canonical_names) (auto simp: list_all_iff dest: in_set_takeD)
  with d show ?thesis by (simp add: i elems_path_of)
qed

lemma elems_Dir:
  assumes "file_path p"
  shows "elems (Dir p) = butlast (elems p)" and "IsAbs (Dir p)"
proof -
  from file_path_snoc [OF assms] obtain es e where p: "p = path_of True (es @ [e])"
    and es: "list_all normal es" and e: "normal e" .
  have "canonical True (es @ [e])" using es e by (simp add: canonical_names)
  then show "elems (Dir p) = butlast (elems p)"
    unfolding p Dir_path_of [OF es e] by (simp add: elems_path_of canonical_names es)
  show "IsAbs (Dir p)" unfolding p Dir_path_of [OF es e] by (simp add: path_of_rooted IsAbs_Cons)
qed

text \<open>The target and its sibling are not among the directories created for them.\<close>

lemma target_not_dir:
  assumes "file_path dst" and "q = dst \<or> q = dst @ ''.moving''"
  shows "q \<notin> set (dir_chain (Dir dst))"
proof
  assume "q \<in> set (dir_chain (Dir dst))"
  then have "length (elems q) \<le> length (butlast (elems dst))"
    using chain_length [of q "Dir dst"] elems_Dir [OF assms(1)] by simp
  moreover have "length (elems q) = length (elems dst)" "elems dst \<noteq> []"
    using assms file_path_append(3) [OF assms(1), of "''.moving''"] by (auto simp: file_path_def)
  ultimately show False by (cases "elems dst" rule: rev_cases) simp_all
qed

lemma job_accepted:
  assumes "job_paths aw j rel src dst"
  shows "\<not> escapes (Rel (downloadDir aw) src)" and "\<not> escapes (Rel (archiveDir aw) dst)" and "rel \<noteq> ''/''"
proof -
  from assms have p: "IsAbs (downloadDir aw)" "IsAbs (archiveDir aw)" "rel = Clean (FromSlash (a_relative_path j))"
    "rel \<noteq> dot" "\<not> HasPrefix rel dotdot" "\<not> IsAbs rel" and src: "src = Join (downloadDir aw) rel"
    and dst: "dst = Join (archiveDir aw) rel"
    unfolding job_paths_def by blast+
  have clean: "rel = path_of (IsAbs rel) (elems rel)"
    using Clean_idem [of "FromSlash (a_relative_path j)"] p(3) by (simp add: Clean_def)
  have esc: "\<not> escapes (Rel d (Join d rel))" if d: "IsAbs d" for d
  proof -
    note jr = join_rel [OF d p(3-6)]
    obtain t ts where t: "elems rel = t # ts" using jr(2) by (cases "elems rel") simp_all
    then have "rel = join_slash (t # ts)" using clean p(6) by (simp add: path_of_def)
    then have "\<not> HasPrefix t dotdot" using p(5) prefix_join_slash [of dotdot t ts] by simp
    moreover have "IsAbs (Join d rel)" using jr(3) by (simp add: file_path_def)
    ultimately have "rel_inside (Rel d (Join d rel))" using escapes_Rel(2) [OF d] jr(1) t by simp
    then show ?thesis by (simp add: rel_inside_def escapes_def split: option.splits)
  qed
  show "\<not> escapes (Rel (downloadDir aw) src)" and "\<not> escapes (Rel (archiveDir aw) dst)"
    using esc p(1,2) src dst by simp_all
  show "rel \<noteq> ''/''" using p(6) by (auto simp: IsAbs_Cons)
qed

definition pj_calm :: "pj_env \<Rightarrow> bool" where
  "pj_calm v \<longleftrightarrow> \<not> pj_stat_dst v \<and> pj_stat_src v = None \<and> pj_mkdir v = None \<and> pj_open_src v = None \<and> pj_open_dst v = None \<and>
     pj_read v = None \<and> pj_write v = None \<and> \<not> pj_sync v \<and> \<not> pj_close v \<and> \<not> pj_lstat v \<and> pj_race v = id \<and> \<not> pj_rm_src v \<and>
     pj_io v = no_fault"

lemma copy_calm: "CopyStreamSequential sha256 None None False False c = (length c, sha256 c, False, c)"
  by (simp add: CopyStreamSequential_def copy_loop_spec copied_def copy_fails_def)

lemma commit_plain:
  assumes "file_path part" and "file_path final" and "Dir part = Dir final" and "f final = None" and "f part \<noteq> None"
  shows "CommitSiblingPart plain_kernel False id part final f = (None, moved part final f)"
  using assms Join_Dir_Base [OF assms(1)] Join_Dir_Base [OF assms(2)]
  by (simp add: CommitSiblingPart_def Let_def commitFile_def plain_kernel_def syncDir_def)

lemma complete_held_job:
  assumes "db_ok db" and "arow db k = Some j" and "a_state j = ArcCopying" and "a_claim_id j = c" and "a_sha256 j = s"
  shows "\<exists>db'. CompleteArchiveJob no_fault now k c s db = (None, db')"
  using assms by (simp add: CompleteArchiveJob_def split_def Let_def claim_matches_def)

text \<open>C25. Without failures a claimed job completes: if the source has the size and digest of the job and the target is
  free, the job ends archived, the target has the content of the source, and neither the source nor the
  temporary file is left.\<close>

theorem archive_job_completes:
  assumes "db_ok (w_db w)" and paths: "job_paths aw j rel src dst" and sep: "separate (downloadDir aw) (archiveDir aw)"
    and "pj_calm v" and "TrimSpace (a_sha256 j) \<noteq> []"
    and src: "w_fs w src = Some (NFile content)" and "int (length content) = a_expected_size j" and "sha256 content = a_sha256 j"
    and "w_fs w dst = None" and "w_fs w (dst @ ''.moving'') \<noteq> Some NDir"
    and dirs: "\<And>p. p \<in> set (dir_chain (Dir dst)) \<Longrightarrow> w_fs w p = None \<or> w_fs w p = Some NDir"
    and "arow (w_db w) k = Some row" and "a_state row = ArcCopying" and "a_claim_id row = c" and "a_sha256 row = a_sha256 j"
    and "w' = processJob sha256 plain_kernel v aw k c j w"
  shows "job_done j (w_db w') k \<and> w_fs w' dst = Some (NFile content) \<and> w_fs w' src = None \<and>
    w_fs w' (dst @ ''.moving'') = None"
proof -
  let ?m = "dst @ ''.moving''"
  note pp = job_pathsD [OF paths] and acc = job_accepted [OF paths] and ap = src_apart [OF paths sep]
  have v: "pj_stat_dst v = False" "pj_stat_src v = None" "pj_mkdir v = None" "pj_open_src v = None" "pj_open_dst v = None"
    "pj_read v = None" "pj_write v = None" "pj_sync v = False" "pj_close v = False" "pj_lstat v = False" "pj_race v = id"
    "pj_rm_src v = False" "pj_io v = no_fault"
    using assms(4) by (simp_all add: pj_calm_def)
  have rel: "Clean (FromSlash (a_relative_path j)) = rel" "rel \<noteq> dot" "\<not> HasPrefix rel dotdot" "\<not> IsAbs rel"
    "Join (downloadDir aw) rel = src" "Join (archiveDir aw) rel = dst"
    using paths unfolding job_paths_def by blast+
  have as: "w' = archive_source sha256 plain_kernel v k c j src dst w"
    using assms(5,9) rel(2-4) acc unfolding assms(16) processJob_def rel(1) Let_def rel(5,6)
    by (simp add: Stat_def)
  define f where "f = make_dirs (dir_chain (Dir dst)) (w_fs w)"
  have dw: "dropWhile (\<lambda>p. w_fs w p = None \<or> w_fs w p = Some NDir) (dir_chain (Dir dst)) = []"
    using dirs by (simp add: dropWhile_eq_Nil_conv)
  have mk: "MkdirAll None (Dir dst) (w_fs w) = (None, f)" by (simp only: MkdirAll_def f_def dw option.case list.case)
  have f: "f dst = None" "f ?m \<noteq> Some NDir" "f src = Some (NFile content)"
    using target_not_dir [OF pp(1)] assms(9,10) src by (simp_all add: f_def make_dirs_def)
  have cc: "w' = copy_and_commit sha256 plain_kernel v k c j src dst (w\<lparr>w_fs := f\<rparr>)"
    using src assms(7) by (simp add: as archive_source_def v mk node_size_def)
  have dirm: "Dir ?m = Dir dst" using file_path_append(2) [OF pp(1), of "''.moving''"] by simp
  have cm: "CommitSiblingPart plain_kernel False id ?m dst (f(?m \<mapsto> NFile content)) = (None, moved ?m dst (f(?m \<mapsto> NFile content)))"
    by (rule commit_plain [OF pp(4,1) dirm]) (use f in simp_all)
  obtain db' where c: "CompleteArchiveJob no_fault (pj_now v) k c (a_sha256 j) (w_db w) = (None, db')"
    using complete_held_job [OF assms(1,12-15)] by blast
  define m where "m = metered_copy (copy_reads None None (length content)) (length content) (w_meter w)"
  have "w' = job_complete v k c j src (w\<lparr>w_meter := m, w_fs := moved ?m dst (f(?m \<mapsto> NFile content))\<rparr>)"
    using f assms(7,8) by (simp add: cc copy_and_commit_def Let_def v copy_calm cm m_def)
  then have w': "w_db w' = db'" "w_fs w' = (moved ?m dst (f(?m \<mapsto> NFile content)))(src := None)"
    by (simp_all add: job_complete_def v c Remove_def)
  have "job_done j (w_db w') k"
    using complete_archived [OF assms(1) c] by (simp add: w' job_done_def)
  then show ?thesis using ap by (simp add: w' moved_def)
qed

section \<open>Instances\<close>

definition ex_worker :: ArchiveWorker where
  "ex_worker = \<lparr>downloadDir = ''/d'', archiveDir = ''/h'', wakeCh = False, running = True\<rparr>"

definition ex_job :: archive_row where
  "ex_job = (new_archive_row ''a'' 3 ''xyz'' 5 5)\<lparr>a_state := ArcCopying, a_claim_id := ''c''\<rparr>"

definition ex_aworld :: world where
  "ex_aworld = \<lparr>w_fs = [''/d/a'' \<mapsto> NFile ''xyz''], w_db = initSchema\<lparr>archive_jobs := [((''u'', 1), ex_job)]\<rparr>, w_meter = None\<rparr>"

definition ex_pj :: pj_env where
  "ex_pj = \<lparr>pj_stat_dst = False, pj_sha_dst = None, pj_stat_src = None, pj_mkdir = None, pj_open_src = None, pj_open_dst = None,
     pj_read = None, pj_write = None, pj_sync = False, pj_close = False, pj_copy_text = [], pj_rm_moving = False,
     pj_lstat = False, pj_race = id, pj_rm_src = False, pj_dir_size = 4096, pj_io = no_fault, pj_now = 9\<rparr>"

definition ex_aout :: world where
  "ex_aout = processJob id plain_kernel ex_pj ex_worker (''u'', 1) ''c'' ex_job ex_aworld"

lemma ex_archive_paths:
  "job_paths ex_worker ex_job ''a'' ''/d/a'' ''/h/a''" "separate ''/d'' ''/h''" "dir_chain (Dir ''/h/a'') = [''/h'']"
  "TrimSpace ''xyz'' \<noteq> []" "Join ''/d'' (Clean ''a'') = ''/d/a''" "inside ''/d'' ''/d/a''"
  by (code_simp, code_simp, code_simp, code_simp, code_simp, code_simp)

lemma ex_archive_simps [simp]:
  "db_ok (w_db ex_aworld)" "arow (w_db ex_aworld) (''u'', 1) = Some ex_job" "w_fs ex_aworld = [''/d/a'' \<mapsto> NFile ''xyz'']"
  "pj_race ex_pj = id" "downloadDir ex_worker = ''/d''" "archiveDir ex_worker = ''/h''"
  "a_relative_path ex_job = ''a''" "a_sha256 ex_job = ''xyz''" "a_expected_size ex_job = 3" "a_state ex_job = ArcCopying"
  "a_claim_id ex_job = ''c''" "pj_calm ex_pj"
  by (auto simp: ex_aworld_def ex_job_def new_archive_row_def tab_sel_def pk_def initSchema_def ex_pj_def ex_worker_def pj_calm_def
      intro!: db_okI)

lemma ex_abs: "IsAbs ''/d''" "IsAbs ''/h''"
  by (simp_all add: IsAbs_Cons)

theorem archive_job_completes_witness: "w_fs ex_aout ''/h/a'' = Some (NFile ''xyz'') \<and> w_fs ex_aout ''/d/a'' = None"
  using archive_job_completes [OF _ ex_archive_paths(1), of ex_aworld ex_pj "''xyz''" id "(''u'', 1)" ex_job "''c''" ex_aout]
    ex_archive_paths by (simp add: ex_aout_def)

theorem archive_never_loses_source_witness:
  "w_fs ex_aout ''/d/a'' = Some (NFile ''xyz'') \<or> archived_copy id ex_job (w_fs ex_aout) (Join ''/h'' (Clean ''a''))"
  using archive_never_loses_source [OF plain_kernel_ok, of ex_aworld ex_worker ex_pj "''/d/a''" "''xyz''" ex_aout id
      "(''u'', 1)" "''c''" ex_job] ex_archive_paths by (auto simp: ex_aout_def)

lemma ex_rel: "Clean (FromSlash ''a'') = ''a''" "\<not> HasPrefix ''a'' dotdot" "''a'' \<noteq> dot" "\<not> IsAbs ''a''"
  "Join ''/d'' ''a'' = ''/d/a''" "Join ''/h'' ''a'' = ''/h/a''"
  by (code_simp, code_simp, code_simp, code_simp, code_simp, code_simp)

lemma ex_moved: "w_fs ex_aout ''/d/a'' \<noteq> w_fs ex_aworld ''/d/a''"
proof -
  have o: "ex_aout = archive_source id plain_kernel ex_pj (''u'', 1) ''c'' ex_job ''/d/a'' ''/h/a'' ex_aworld"
    using job_accepted [OF ex_archive_paths(1)] ex_archive_paths(4)
    by (simp add: ex_aout_def processJob_def ex_rel Let_def Stat_def ex_pj_def)
  have cm: "CommitSiblingPart plain_kernel False id (''/h/a'' @ ''.moving'') ''/h/a'' g =
      (None, moved (''/h/a'' @ ''.moving'') ''/h/a'' g)" if "g ''/h/a'' = None" "g (''/h/a'' @ ''.moving'') \<noteq> None" for g
    using job_pathsD(1,4) [OF ex_archive_paths(1)] file_path_append(2) [OF job_pathsD(1) [OF ex_archive_paths(1)], of "''.moving''"] that
    by (intro commit_plain) simp_all
  obtain db' where db: "CompleteArchiveJob no_fault 9 (''u'', 1) ''c'' ''xyz'' (w_db ex_aworld) = (None, db')"
    using complete_held_job [of "w_db ex_aworld" "(''u'', 1)" ex_job "''c''" "''xyz''" 9] by auto
  show ?thesis
    unfolding o by (simp add: cm [simplified] db archive_source_def ex_pj_def node_size_def MkdirAll_def ex_archive_paths(3) copy_and_commit_def Let_def
        make_dirs_def copy_calm job_complete_def Remove_def)
qed

theorem archive_stays_inside_witness:
  "inside ''/d'' ''/d/a'' \<or> inside ''/h'' ''/d/a'' \<or> w_fs ex_aworld ''/d/a'' = None \<and> w_fs ex_aout ''/d/a'' = Some NDir"
  using archive_stays_inside [OF plain_kernel_ok _ _ _ _ ex_aout_def ex_moved] ex_abs by simp

definition ex_new :: ArchiveWorker where
  "ex_new = \<lparr>downloadDir = ''/d'', archiveDir = ''/h'', wakeCh = False, running = False\<rparr>"

theorem worker_dirs_separate_witness: "IsAbs (downloadDir ex_new)"
proof -
  have "NewArchiveWorker None ''/d/'' ''/h'' = Inr ex_new" unfolding ex_new_def by code_simp
  from worker_dirs_separate [OF this] show ?thesis by simp
qed

text \<open>The check of the directories looks at the first two characters of the relative path only: an archive directory
  named with two leading dots is accepted inside the download directory.\<close>

theorem nested_dotdot_accepted:
  "\<exists>aw. NewArchiveWorker None ''/d'' ''/d/..a'' = Inr aw \<and> inside (downloadDir aw) (archiveDir aw)"
proof -
  have "NewArchiveWorker None ''/d'' ''/d/..a'' = Inr \<lparr>downloadDir = ''/d'', archiveDir = ''/d/..a'', wakeCh = False, running = False\<rparr>"
    by code_simp
  moreover have "inside ''/d'' ''/d/..a''" by code_simp
  ultimately show ?thesis by simp
qed

end
