(* ===== verification/Byte_Ranges.thy ===== *)
theory Byte_Ranges
  imports Prelude "HOL-Library.Multiset"
begin

text \<open>
  The two interval lists the program keeps: \<open>addRange\<close> of the registry
  (app/daemon/registry.go), which counts the bytes of a task that were not written before,
  and the \<open>RangeTracker\<close> and \<open>CountingWriterAt\<close> of a download attempt
  (core/transfer/writer.go), which decide whether a file is complete.

  The abstraction of an interval list is the set of bytes it covers. Both components implement
  the interface \<open>byte_coverage\<close>; what follows for a sequence of writes is proved once in
  its locale.
\<close>

section \<open>The interval list of the registry\<close>

datatype byteRange = ByteRange (rstart: int64) (rend: int64)

definition min64 :: "int64 \<Rightarrow> int64 \<Rightarrow> int64" where
  "min64 a b = (if a < b then a else b)"

definition max64 :: "int64 \<Rightarrow> int64 \<Rightarrow> int64" where
  "max64 a b = (if a > b then a else b)"

text \<open>The first loop of \<open>addRange\<close> adds up how much of the new range is there already.\<close>

fun addRange_overlap :: "byteRange list \<Rightarrow> int64 \<Rightarrow> int64 \<Rightarrow> int64" where
  "addRange_overlap [] start stop = 0"
| "addRange_overlap (existing # rest) start stop =
     (let left = max64 start (rstart existing); right = min64 stop (rend existing)
      in (if right > left then right - left else 0) + addRange_overlap rest start stop)"

text \<open>
  The second loop rebuilds the list: \<open>next\<close> grows over every range it touches and is put in
  front of the first range that starts after it.
\<close>

fun addRange_merge :: "byteRange list \<Rightarrow> byteRange \<Rightarrow> bool \<Rightarrow> byteRange list \<Rightarrow> byteRange list" where
  "addRange_merge [] nxt inserted merged = (if \<not> inserted then merged @ [nxt] else merged)"
| "addRange_merge (existing # rest) nxt inserted merged =
     (if rend existing < rstart nxt then addRange_merge rest nxt inserted (merged @ [existing])
      else if rend nxt < rstart existing then
        (if \<not> inserted then addRange_merge rest nxt True (merged @ [nxt] @ [existing])
         else addRange_merge rest nxt inserted (merged @ [existing]))
      else addRange_merge rest
             (ByteRange (min64 (rstart nxt) (rstart existing)) (max64 (rend nxt) (rend existing)))
             inserted merged)"

definition addRange :: "byteRange list \<Rightarrow> int64 \<Rightarrow> int64 \<Rightarrow> byteRange list \<times> int64" where
  "addRange ranges start stop =
     (let overlap = addRange_overlap ranges start stop
      in (addRange_merge ranges (ByteRange start stop) False [], stop - start - overlap))"

section \<open>The range tracker and the counting writer of a transfer\<close>

record RangeTracker =
  intervals :: "byteRange list"

definition NewRangeTracker :: RangeTracker where
  "NewRangeTracker = \<lparr>intervals = []\<rparr>"

fun AddRange_loop :: "byteRange list \<Rightarrow> byteRange \<Rightarrow> bool \<Rightarrow> byteRange list \<Rightarrow> byteRange list" where
  "AddRange_loop [] newInterval inserted merged =
     (if \<not> inserted then merged @ [newInterval] else merged)"
| "AddRange_loop (it # rest) newInterval inserted merged =
     (if inserted then AddRange_loop rest newInterval inserted (merged @ [it])
      else if rend newInterval < rstart it then
        AddRange_loop rest newInterval True (merged @ [newInterval, it])
      else if rstart newInterval > rend it then
        AddRange_loop rest newInterval inserted (merged @ [it])
      else AddRange_loop rest
             (ByteRange (if rstart it < rstart newInterval then rstart it else rstart newInterval)
                        (if rend it > rend newInterval then rend it else rend newInterval))
             inserted merged)"

definition AddRange :: "RangeTracker \<Rightarrow> int64 \<Rightarrow> int64 \<Rightarrow> RangeTracker" where
  "AddRange rt start stop =
     (if start \<ge> stop \<or> start < 0 then rt
      else rt\<lparr>intervals := AddRange_loop (intervals rt) (ByteRange start stop) False []\<rparr>)"

definition IsComplete :: "RangeTracker \<Rightarrow> int64 \<Rightarrow> bool" where
  "IsComplete rt expectedSize =
     (if expectedSize \<le> 0 then True
      else case intervals rt of
             [it] \<Rightarrow> rstart it = 0 \<and> rend it \<ge> expectedSize
           | _ \<Rightarrow> False)"

fun interval_total :: "byteRange list \<Rightarrow> int64" where
  "interval_total [] = 0"
| "interval_total (it # rest) = (rend it - rstart it) + interval_total rest"

definition CoveredBytes :: "RangeTracker \<Rightarrow> int64" where
  "CoveredBytes rt = interval_total (intervals rt)"

text \<open>
  \<open>CountingWriterAt\<close> passes a chunk to the writer below it and records what that writer
  reports: \<open>n\<close> bytes written and possibly an error. The result of the inner writer is the
  argument pair. \<open>hasProgress\<close> says that the \<open>onProgress\<close> callback is not nil;
  \<open>reports\<close> lists the arguments of its calls, oldest first.
\<close>

record 'e CountingWriterAt =
  totalSize :: int64
  hasProgress :: bool
  tracker :: RangeTracker
  maxWritten :: int64
  downloaded :: int64
  writeErr :: "'e option"
  reports :: "(int64 \<times> int64) list"

definition NewCountingWriterAt :: "int64 \<Rightarrow> bool \<Rightarrow> 'e CountingWriterAt" where
  "NewCountingWriterAt size64 progress =
     \<lparr>totalSize = size64, hasProgress = progress, tracker = NewRangeTracker, maxWritten = 0, downloaded = 0,
      writeErr = None, reports = []\<rparr>"

definition WriteAt :: "'e CountingWriterAt \<Rightarrow> int64 \<Rightarrow> int64 \<times> 'e option \<Rightarrow> 'e CountingWriterAt" where
  "WriteAt c off inner =
     (let (n, err) = inner;
          c1 = (case err of None \<Rightarrow> c
                | Some e \<Rightarrow> if writeErr c = None then c\<lparr>writeErr := Some e\<rparr> else c)
      in if n > 0 then
           (let curr = i64 (downloaded c1 + n);
                c2 = c1\<lparr>tracker := AddRange (tracker c1) off (i64 (off + n)), downloaded := curr\<rparr>
            in if hasProgress c2 \<and> curr > maxWritten c2
               then c2\<lparr>maxWritten := curr, reports := reports c2 @ [(curr, totalSize c2)]\<rparr>
               else c2)
         else c1)"

definition writer_IsComplete :: "'e CountingWriterAt \<Rightarrow> int64 \<Rightarrow> bool" where
  "writer_IsComplete c expectedSize = IsComplete (tracker c) expectedSize"

definition writer_CoveredBytes :: "'e CountingWriterAt \<Rightarrow> int64" where
  "writer_CoveredBytes c = CoveredBytes (tracker c)"

text \<open>The writes of the workers of one download, in the order the writer's lock admits them.\<close>

fun WriteAll :: "'e CountingWriterAt \<Rightarrow> (int64 \<times> int64 \<times> 'e option) list \<Rightarrow> 'e CountingWriterAt" where
  "WriteAll c [] = c"
| "WriteAll c ((off, inner) # ws) = WriteAll (WriteAt c off inner) ws"

section \<open>Specification: the set of covered bytes\<close>

definition range_set :: "byteRange \<Rightarrow> int set" where
  "range_set r = {rstart r..<rend r}"

definition covered :: "byteRange list \<Rightarrow> int set" where
  "covered rs = (\<Union>r\<in>set rs. range_set r)"

definition gap_before :: "byteRange \<Rightarrow> byteRange \<Rightarrow> bool" where
  "gap_before a b \<longleftrightarrow> rend a < rstart b"

definition wf_ranges :: "byteRange list \<Rightarrow> bool" where
  "wf_ranges rs \<longleftrightarrow> sorted_wrt gap_before rs \<and> list_all (\<lambda>r. rstart r < rend r) rs"

fun ins_range :: "byteRange list \<Rightarrow> byteRange \<Rightarrow> byteRange list" where
  "ins_range [] n = [n]"
| "ins_range (x # xs) n =
     (if rend x < rstart n then x # ins_range xs n
      else if rend n < rstart x then n # x # xs
      else ins_range xs (ByteRange (min (rstart n) (rstart x)) (max (rend n) (rend x))))"

lemma wf_ranges_Nil [simp]: "wf_ranges []"
  by (simp add: wf_ranges_def)

lemma wf_ranges_Cons [simp]:
  "wf_ranges (x # xs) \<longleftrightarrow> rstart x < rend x \<and> (\<forall>y\<in>set xs. rend x < rstart y) \<and> wf_ranges xs"
  by (auto simp: wf_ranges_def gap_before_def)

lemma covered_Nil [simp]: "covered [] = {}"
  by (simp add: covered_def)

lemma covered_Cons [simp]: "covered (x # xs) = range_set x \<union> covered xs"
  by (simp add: covered_def)

lemma finite_range_set [simp]: "finite (range_set r)"
  by (simp add: range_set_def)

lemma finite_covered [simp]: "finite (covered rs)"
  by (simp add: covered_def range_set_def)

lemma ins_range_start:
  "lo \<le> rstart n \<Longrightarrow> \<forall>y\<in>set xs. lo \<le> rstart y \<Longrightarrow> y \<in> set (ins_range xs n) \<Longrightarrow> lo \<le> rstart y"
  by (induction xs n rule: ins_range.induct) (auto split: if_splits)

lemma wf_ins_range:
  "wf_ranges rs \<Longrightarrow> rstart n < rend n \<Longrightarrow> wf_ranges (ins_range rs n)"
proof (induction rs n rule: ins_range.induct)
  case (2 x xs n)
  then show ?case
    using ins_range_start [of "rend x + 1" n xs] by (fastforce simp: min_def max_def)
qed simp

lemma covered_ins_range:
  "wf_ranges rs \<Longrightarrow> rstart n < rend n \<Longrightarrow> covered (ins_range rs n) = covered rs \<union> range_set n"
  by (induction rs n rule: ins_range.induct) (auto simp: range_set_def min_def max_def)

lemma addRange_merge_inserted:
  "\<forall>y\<in>set rs. rend n < rstart y \<Longrightarrow> rstart n < rend n \<Longrightarrow> \<forall>y\<in>set rs. rstart y < rend y \<Longrightarrow>
   addRange_merge rs n True m = m @ rs"
  by (induction rs arbitrary: m) auto

lemma addRange_merge_ins:
  "wf_ranges rs \<Longrightarrow> rstart n < rend n \<Longrightarrow> addRange_merge rs n False m = m @ ins_range rs n"
proof (induction rs n arbitrary: m rule: ins_range.induct)
  case (2 x xs n)
  have later: "\<forall>y\<in>set xs. rstart y < rend y" using 2 by (auto simp: wf_ranges_def list_all_iff)
  show ?case
  proof (cases "rend n < rstart x \<and> \<not> rend x < rstart n")
    case True
    moreover have "\<forall>y\<in>set xs. rend n < rstart y" using True 2 by force
    ultimately show ?thesis using addRange_merge_inserted later 2 by simp
  next
    case False
    with 2 show ?thesis by (auto simp: min64_def max64_def min_def max_def)
  qed
qed simp

lemma AddRange_loop_inserted: "AddRange_loop rs n True m = m @ rs"
  by (induction rs arbitrary: m) auto

lemma AddRange_loop_ins:
  "wf_ranges rs \<Longrightarrow> rstart n < rend n \<Longrightarrow> AddRange_loop rs n False m = m @ ins_range rs n"
proof (induction rs n arbitrary: m rule: ins_range.induct)
  case (2 x xs n)
  then show ?case by (auto simp: AddRange_loop_inserted min_def max_def)
qed simp

subsection \<open>Counting covered bytes\<close>

lemma card_range_set: "rstart r \<le> rend r \<Longrightarrow> int (card (range_set r)) = rend r - rstart r"
  by (simp add: range_set_def)

lemma covered_above:
  "wf_ranges rs \<Longrightarrow> \<forall>y\<in>set rs. lo \<le> rstart y \<Longrightarrow> b \<in> covered rs \<Longrightarrow> lo \<le> b"
  by (auto simp: covered_def range_set_def)

lemma range_disjoint_rest:
  "wf_ranges (x # xs) \<Longrightarrow> range_set x \<inter> covered xs = {}"
  using covered_above [of xs "rend x"] by (fastforce simp: range_set_def)

lemma interval_total_card: "wf_ranges rs \<Longrightarrow> interval_total rs = int (card (covered rs))"
proof (induction rs)
  case (Cons x xs)
  have "card (covered (x # xs)) = card (range_set x) + card (covered xs)"
    using range_disjoint_rest [OF Cons.prems] by (simp add: card_Un_disjoint range_set_def)
  with Cons show ?case by (simp add: card_range_set)
qed simp

lemma addRange_overlap_card:
  "wf_ranges rs \<Longrightarrow> addRange_overlap rs start stop = int (card ({start..<stop} \<inter> covered rs))"
proof (induction rs)
  case (Cons x xs)
  let ?A = "{start..<stop}"
  have "?A \<inter> covered (x # xs) = (?A \<inter> range_set x) \<union> (?A \<inter> covered xs)" by auto
  moreover have "(?A \<inter> range_set x) \<inter> (?A \<inter> covered xs) = {}"
    using range_disjoint_rest [OF Cons.prems] by auto
  ultimately have "card (?A \<inter> covered (x # xs)) = card (?A \<inter> range_set x) + card (?A \<inter> covered xs)"
    by (simp add: card_Un_disjoint)
  moreover have "?A \<inter> range_set x = {max start (rstart x)..<min stop (rend x)}"
    by (auto simp: range_set_def)
  ultimately show ?case
    using Cons by (auto simp: Let_def max64_def min64_def max_def min_def)
qed simp

subsection \<open>Interval lists are canonical\<close>

lemma wf_hd_start:
  assumes "wf_ranges (x # xs)" shows "Min (covered (x # xs)) = rstart x"
proof (rule Min_eqI)
  show "rstart x \<in> covered (x # xs)" using assms by (auto simp: range_set_def)
  fix b assume "b \<in> covered (x # xs)"
  then show "rstart x \<le> b"
    using assms covered_above [of xs "rend x"] by (fastforce simp: range_set_def)
qed simp

lemma wf_hd_end:
  assumes "wf_ranges (x # xs)"
  shows "rend x \<notin> covered (x # xs)" and "{rstart x..<rend x} \<subseteq> covered (x # xs)"
  using assms covered_above [of xs "rend x + 1" "rend x"] by (fastforce simp: range_set_def)+

lemma wf_covered_empty: "wf_ranges rs \<Longrightarrow> covered rs = {} \<longleftrightarrow> rs = []"
  by (cases rs) (auto simp: range_set_def)

lemma wf_ranges_canonical:
  "wf_ranges rs \<Longrightarrow> wf_ranges ts \<Longrightarrow> covered rs = covered ts \<Longrightarrow> rs = ts"
proof (induction rs arbitrary: ts)
  case Nil
  then show ?case by (metis covered_Nil wf_covered_empty)
next
  case (Cons x xs)
  then obtain y ys where ts: "ts = y # ys"
    by (cases ts) (auto simp: range_set_def)
  have st: "rstart x = rstart y"
    using wf_hd_start [of x xs] wf_hd_start [of y ys] Cons.prems ts by simp
  have "rend x = rend y"
  proof (rule antisym; rule ccontr)
    assume "\<not> rend x \<le> rend y"
    then have "rend y \<in> {rstart x..<rend x}" using st Cons.prems ts by auto
    then show False using wf_hd_end [of x xs] wf_hd_end [of y ys] Cons.prems ts by auto
  next
    assume "\<not> rend y \<le> rend x"
    then have "rend x \<in> {rstart y..<rend y}" using st Cons.prems ts by auto
    then show False using wf_hd_end [of x xs] wf_hd_end [of y ys] Cons.prems ts by auto
  qed
  with st have xy: "x = y" by (simp add: byteRange.expand)
  have "covered xs = covered ys"
    using Cons.prems ts xy range_disjoint_rest [of x xs] range_disjoint_rest [of y ys] by auto
  with Cons.IH [of ys] Cons.prems ts xy show ?case by simp
qed

section \<open>The interface: a set of covered bytes\<close>

locale byte_coverage =
  fixes add :: "'r \<Rightarrow> int64 \<Rightarrow> int64 \<Rightarrow> 'r"
    and cov :: "'r \<Rightarrow> int set"
    and invar :: "'r \<Rightarrow> bool"
  assumes invar_add: "invar r \<Longrightarrow> 0 \<le> a \<Longrightarrow> a < b \<Longrightarrow> invar (add r a b)"
    and cov_add: "invar r \<Longrightarrow> 0 \<le> a \<Longrightarrow> a < b \<Longrightarrow> cov (add r a b) = cov r \<union> {a..<b}"
    and canonical: "invar r \<Longrightarrow> invar r' \<Longrightarrow> cov r = cov r' \<Longrightarrow> r = r'"
begin

lemma add_all:
  "invar r \<Longrightarrow> \<forall>(a, b) \<in> set ws. 0 \<le> a \<and> a < b \<Longrightarrow>
   invar (foldl (\<lambda>r (a, b). add r a b) r ws) \<and>
   cov (foldl (\<lambda>r (a, b). add r a b) r ws) = cov r \<union> (\<Union>(a, b)\<in>set ws. {a..<b})"
proof (induction ws arbitrary: r)
  case (Cons w ws)
  obtain a b where w: "w = (a, b)" by force
  show ?case
    using Cons.IH [of "add r a b"] Cons.prems w by (auto simp: invar_add cov_add)
qed simp

lemma add_all_order_irrelevant:
  assumes "invar r" and "\<forall>(a, b) \<in> set ws. 0 \<le> a \<and> a < b" and "set ws = set ws'"
  shows "foldl (\<lambda>r (a, b). add r a b) r ws = foldl (\<lambda>r (a, b). add r a b) r ws'"
proof -
  have "\<forall>(a, b) \<in> set ws'. 0 \<le> a \<and> a < b" using assms by simp
  then show ?thesis using add_all [of r ws] add_all [of r ws'] assms by (simp add: canonical)
qed

lemma add_idem: "invar r \<Longrightarrow> 0 \<le> a \<Longrightarrow> a < b \<Longrightarrow> {a..<b} \<subseteq> cov r \<Longrightarrow> add r a b = r"
  by (rule canonical) (auto simp: invar_add cov_add)

end

text \<open>Both interval lists implement it.\<close>

lemma AddRange_ins:
  "wf_ranges (intervals rt) \<Longrightarrow> 0 \<le> a \<Longrightarrow> a < b \<Longrightarrow>
   AddRange rt a b = rt\<lparr>intervals := ins_range (intervals rt) (ByteRange a b)\<rparr>"
  by (simp add: AddRange_def AddRange_loop_ins)

interpretation rt: byte_coverage AddRange "\<lambda>rt. covered (intervals rt)" "\<lambda>rt. wf_ranges (intervals rt)"
proof
  fix r r' :: RangeTracker
  assume "wf_ranges (intervals r)" "wf_ranges (intervals r')"
    "covered (intervals r) = covered (intervals r')"
  then have "intervals r = intervals r'" by (rule wf_ranges_canonical)
  then show "r = r'" by simp
qed (simp_all add: AddRange_ins wf_ins_range covered_ins_range range_set_def)

interpretation reg: byte_coverage "\<lambda>rs a b. fst (addRange rs a b)" covered wf_ranges
  by unfold_locales
     (simp_all add: addRange_def addRange_merge_ins wf_ins_range covered_ins_range range_set_def
        wf_ranges_canonical)

section \<open>Writing a file\<close>

definition write_set :: "int64 \<times> int64 \<times> 'e option \<Rightarrow> int set" where
  "write_set w = (case w of (off, n, _) \<Rightarrow> {off..<off + n})"

definition write_len :: "int64 \<times> int64 \<times> 'e option \<Rightarrow> int" where
  "write_len w = (case w of (_, n, _) \<Rightarrow> max 0 n)"

definition write_in :: "int64 \<Rightarrow> int64 \<times> int64 \<times> 'e option \<Rightarrow> bool" where
  "write_in size64 w \<longleftrightarrow> (case w of (off, n, _) \<Rightarrow> 0 \<le> off \<and> 0 \<le> n \<and> off + n \<le> size64)"

definition writer_ok :: "'e CountingWriterAt \<Rightarrow> bool" where
  "writer_ok c \<longleftrightarrow> wf_ranges (intervals (tracker c)) \<and> 0 \<le> downloaded c"

lemma fits64_between: "0 \<le> x \<Longrightarrow> x \<le> y \<Longrightarrow> fits64 y \<Longrightarrow> fits64 x"
  by (auto simp: fits64_def)

lemma WriteAt_step:
  assumes "writer_ok c" and "write_in size64 (off, n, err)" and "fits64 size64"
    and "fits64 (downloaded c + n)"
  shows "writer_ok (WriteAt c off (n, err))"
    and "covered (intervals (tracker (WriteAt c off (n, err)))) =
         covered (intervals (tracker c)) \<union> {off..<off + n}"
    and "downloaded (WriteAt c off (n, err)) = downloaded c + n"
proof -
  have off: "i64 (off + n) = off + n"
    using assms(2,3) fits64_between [of "off + n" size64] by (simp add: write_in_def i64_id)
  have dl: "i64 (downloaded c + n) = downloaded c + n" using assms(4) by (rule i64_id)
  have "0 < n \<Longrightarrow> wf_ranges (intervals (AddRange (tracker c) off (off + n)))"
    and "0 < n \<Longrightarrow> covered (intervals (AddRange (tracker c) off (off + n))) =
           covered (intervals (tracker c)) \<union> {off..<off + n}"
    using assms(1,2) rt.invar_add rt.cov_add by (auto simp: writer_ok_def write_in_def)
  then show "writer_ok (WriteAt c off (n, err))"
    and "covered (intervals (tracker (WriteAt c off (n, err)))) =
         covered (intervals (tracker c)) \<union> {off..<off + n}"
    and "downloaded (WriteAt c off (n, err)) = downloaded c + n"
    using assms(1,2) off dl
    by (auto simp: WriteAt_def writer_ok_def write_in_def Let_def split: option.splits)
qed

lemma WriteAll_step:
  assumes "writer_ok c" and "list_all (write_in size64) ws" and "fits64 size64"
    and "fits64 (downloaded c + sum_list (map write_len ws))"
  shows "writer_ok (WriteAll c ws) \<and>
         covered (intervals (tracker (WriteAll c ws))) =
           covered (intervals (tracker c)) \<union> (\<Union>w\<in>set ws. write_set w) \<and>
         downloaded (WriteAll c ws) = downloaded c + sum_list (map write_len ws)"
  using assms
proof (induction ws arbitrary: c)
  case (Cons w ws)
  obtain off n err where w: "w = (off, n, err)" by (cases w) auto
  have nonneg: "0 \<le> sum_list (map write_len ws)"
    by (rule sum_list_nonneg) (auto simp: write_len_def split: prod.splits)
  have n: "write_len w = n" "0 \<le> n" using Cons.prems(2) w by (auto simp: write_len_def write_in_def)
  have f: "fits64 (downloaded c + n)"
    using Cons.prems(1,4) n nonneg w by (auto simp: fits64_def writer_ok_def)
  let ?c = "WriteAt c off (n, err)"
  have step: "writer_ok ?c" "downloaded ?c = downloaded c + n"
    "covered (intervals (tracker ?c)) = covered (intervals (tracker c)) \<union> {off..<off + n}"
    using WriteAt_step [of c size64 off n err] Cons.prems f w by auto
  then show ?case
    using Cons.IH [of ?c] Cons.prems w n by (auto simp: write_set_def add.assoc)
qed simp

lemma writer_ok_new: "writer_ok (NewCountingWriterAt size64 p)"
  by (simp add: writer_ok_def NewCountingWriterAt_def NewRangeTracker_def)

lemma IsComplete_iff:
  assumes "wf_ranges (intervals rt)" and "0 < n"
  shows "IsComplete rt n \<longleftrightarrow> (\<exists>m\<ge>n. covered (intervals rt) = {0..<m})"
proof
  assume "IsComplete rt n"
  then show "\<exists>m\<ge>n. covered (intervals rt) = {0..<m}"
    using assms(2) by (auto simp: IsComplete_def range_set_def split: list.splits)
next
  assume "\<exists>m\<ge>n. covered (intervals rt) = {0..<m}"
  then obtain m where m: "m \<ge> n" "covered (intervals rt) = {0..<m}" by blast
  have "intervals rt = [ByteRange 0 m]"
    using m assms by (intro wf_ranges_canonical) (auto simp: range_set_def)
  then show "IsComplete rt n" using m assms(2) by (simp add: IsComplete_def)
qed

lemma writer_result:
  fixes ws :: "(int64 \<times> int64 \<times> 'e option) list"
  assumes size: "0 < size64" "fits64 size64"
    and ws: "list_all (write_in size64) ws" "fits64 (sum_list (map write_len ws))"
    and c: "c = WriteAll (NewCountingWriterAt size64 progress) ws"
  defines "W \<equiv> \<Union>w\<in>set ws. write_set w"
  shows "(writer_IsComplete c size64 \<longleftrightarrow> {0..<size64} \<subseteq> W) \<and> downloaded c = sum_list (map write_len ws) \<and>
    W \<subseteq> {0..<size64} \<and> covered (intervals (tracker c)) = W"
proof -
  have inv: "wf_ranges (intervals (tracker c))" "covered (intervals (tracker c)) = W"
    "downloaded c = sum_list (map write_len ws)"
    using WriteAll_step [OF writer_ok_new [of size64 progress] ws(1) size(2)] ws(2)
    by (auto simp: c W_def writer_ok_def NewCountingWriterAt_def NewRangeTracker_def)
  have sub: "W \<subseteq> {0..<size64}"
    using ws(1) by (fastforce simp: W_def list_all_iff write_in_def write_set_def split: prod.splits)
  have "writer_IsComplete c size64 \<longleftrightarrow> {0..<size64} \<subseteq> W"
    using IsComplete_iff [OF inv(1) size(1)] inv(2) sub
    by (auto simp: writer_IsComplete_def intro!: exI [of _ size64])
  with inv sub show ?thesis by blast
qed

lemma card_UN_list_le:
  "int (card (\<Union>w\<in>set ws. write_set w)) \<le> sum_list (map write_len ws)"
proof (induction ws)
  case (Cons w ws)
  have "card (\<Union>w\<in>set (w # ws). write_set w) \<le> card (write_set w) + card (\<Union>w\<in>set ws. write_set w)"
    using card_Un_le by simp
  moreover have "int (card (write_set w)) \<le> write_len w"
    by (auto simp: write_set_def write_len_def split: prod.splits)
  ultimately show ?case using Cons by simp
qed simp

lemma write_set_card: "int (card (write_set w)) = write_len w"
  by (auto simp: write_set_def write_len_def split: prod.splits)

lemma writes_disjoint_if_counted_once:
  "sum_list (map write_len ws) \<le> int (card (\<Union>w\<in>set ws. write_set w)) \<Longrightarrow>
   sorted_wrt (\<lambda>v w. write_set v \<inter> write_set w = {}) ws"
proof (induction ws)
  case (Cons w ws)
  let ?U = "\<Union>w\<in>set ws. write_set w"
  have fin: "finite (write_set w)" "finite ?U" by (auto simp: write_set_def split: prod.splits)
  have "card (write_set w \<union> ?U) + card (write_set w \<inter> ?U) = card (write_set w) + card ?U"
    using card_Un_Int [OF fin] by simp
  moreover have "int (card ?U) \<le> sum_list (map write_len ws)" by (rule card_UN_list_le)
  moreover have "write_len w + sum_list (map write_len ws) \<le> int (card (write_set w \<union> ?U))"
    using Cons.prems by simp
  ultimately have "card (write_set w \<inter> ?U) = 0" and "sum_list (map write_len ws) \<le> int (card ?U)"
    using write_set_card [of w] by linarith+
  with fin Cons.IH show ?case by auto
qed simp

section \<open>Properties\<close>

text \<open>\<open>addRange\<close> keeps the list of ranges sorted, disjoint and non-adjacent, the list covers
  exactly the old bytes and the new range, and the returned number is the number of bytes of
  the range that were not covered before.
\<close>

theorem addRange_correct:
  assumes "wf_ranges rs" and "0 \<le> start" and "start < stop"
  shows "wf_ranges (fst (addRange rs start stop)) \<and>
         covered (fst (addRange rs start stop)) = covered rs \<union> {start..<stop} \<and>
         snd (addRange rs start stop) = int (card ({start..<stop} - covered rs))"
proof -
  have "card ({start..<stop} - covered rs) = card {start..<stop} - card ({start..<stop} \<inter> covered rs)"
    by (simp add: card_Diff_subset_Int)
  moreover have "card ({start..<stop} \<inter> covered rs) \<le> card {start..<stop}"
    by (rule card_mono) auto
  ultimately have "snd (addRange rs start stop) = int (card ({start..<stop} - covered rs))"
    using assms(3) by (simp add: addRange_def addRange_overlap_card [OF assms(1)] of_nat_diff)
  then show ?thesis using assms reg.invar_add reg.cov_add by auto
qed

theorem addRange_correct_witness:
  "addRange [ByteRange 0 10, ByteRange 20 30] 5 22 = ([ByteRange 0 30], 10) \<and>
   covered [ByteRange 0 30] = covered [ByteRange 0 10, ByteRange 20 30] \<union> {5..<22}"
proof -
  have run: "addRange [ByteRange 0 10, ByteRange 20 30] 5 22 = ([ByteRange 0 30], 10)"
    by (simp add: addRange_def min64_def max64_def Let_def)
  show ?thesis
    using addRange_correct [of "[ByteRange 0 10, ByteRange 20 30]" 5 22] run by simp
qed

text \<open>C9. the interval list of the registry and the range tracker of a transfer are the same
  data structure: on a well-formed list the two merge loops build the same list.
\<close>

theorem addRange_AddRange_equiv:
  assumes "wf_ranges (intervals rt)" and "0 \<le> start" and "start < stop"
  shows "intervals (AddRange rt start stop) = fst (addRange (intervals rt) start stop)"
  using assms by (simp add: AddRange_ins addRange_def addRange_merge_ins)

theorem addRange_AddRange_equiv_witness:
  "intervals (AddRange \<lparr>intervals = [ByteRange 4 8, ByteRange 9 12]\<rparr> 8 9) = [ByteRange 4 12] \<and>
   fst (addRange [ByteRange 4 8, ByteRange 9 12] 8 9) = [ByteRange 4 12]"
proof -
  have "intervals (AddRange \<lparr>intervals = [ByteRange 4 8, ByteRange 9 12]\<rparr> 8 9) = [ByteRange 4 12]"
    by (simp add: AddRange_def)
  then show ?thesis
    using addRange_AddRange_equiv [of "\<lparr>intervals = [ByteRange 4 8, ByteRange 9 12]\<rparr>" 8 9] by simp
qed

text \<open>a download is judged complete exactly when every byte of the file was written. The
  writes are those of the concurrent workers in the order they got the writer's lock; each
  lies within the file. If moreover the byte counter equals the file size (the check the
  orchestrator makes before it commits a part file), no byte was written twice.
\<close>

theorem download_complete_iff_all_written:
  fixes ws :: "(int64 \<times> int64 \<times> 'e option) list"
  assumes size: "0 < size64" "fits64 size64"
    and ws: "list_all (write_in size64) ws" "fits64 (sum_list (map write_len ws))"
    and c: "c = WriteAll (NewCountingWriterAt size64 progress) ws"
  shows "(writer_IsComplete c size64 \<longleftrightarrow> {0..<size64} \<subseteq> (\<Union>w\<in>set ws. write_set w)) \<and>
         (writer_IsComplete c size64 \<and> downloaded c = size64 \<longrightarrow>
            sorted_wrt (\<lambda>v w. write_set v \<inter> write_set w = {}) ws)"
proof -
  let ?W = "\<Union>w\<in>set ws. write_set w"
  note r = writer_result [OF size ws c]
  have complete: "writer_IsComplete c size64 \<longleftrightarrow> {0..<size64} \<subseteq> ?W" and inv: "downloaded c = sum_list (map write_len ws)"
    and sub: "?W \<subseteq> {0..<size64}"
    using r by blast+
  have "sorted_wrt (\<lambda>v w. write_set v \<inter> write_set w = {}) ws"
    if "{0..<size64} \<subseteq> ?W" and "downloaded c = size64"
  proof (rule writes_disjoint_if_counted_once)
    have "?W = {0..<size64}" using that(1) sub by blast
    then show "sum_list (map write_len ws) \<le> int (card ?W)" using that(2) inv size(1) by simp
  qed
  then show ?thesis using complete by blast
qed

theorem download_complete_iff_all_written_witness:
  "writer_IsComplete (WriteAll (NewCountingWriterAt 6 True) [(4, 2, None), (0, 4, None :: unit option)]) 6 \<and>
   \<not> writer_IsComplete (WriteAll (NewCountingWriterAt 6 True) [(4, 2, None), (0, 3, None :: unit option)]) 6"
proof -
  have A: "writer_IsComplete (WriteAll (NewCountingWriterAt 6 True) ws) 6 \<longleftrightarrow>
      {0..<6} \<subseteq> (\<Union>w\<in>set ws. write_set w)"
    if "ws = [(4, 2, None), (0, 4, None)] \<or> ws = [(4, 2, None), (0, 3, None)]"
    for ws :: "(int64 \<times> int64 \<times> unit option) list"
    by (rule download_complete_iff_all_written [THEN conjunct1, of 6 ws _ True])
       (use that in \<open>auto simp: fits64_def write_in_def write_len_def\<close>)
  have "{0..<6} \<subseteq> (\<Union>w\<in>set [(4, 2, None), (0, 4, None :: unit option)]. write_set w)"
    by (auto simp: write_set_def)
  moreover have "(3::int) \<in> {0..<6} \<and>
      3 \<notin> (\<Union>w\<in>set [(4, 2, None), (0, 3, None :: unit option)]. write_set w)"
    by (simp add: write_set_def)
  ultimately show ?thesis using A by blast
qed

text \<open>the order in which concurrent workers deliver their chunks does not matter: two
  interleavings of the same writes leave the same tracker and the same byte counter.
\<close>

theorem write_order_irrelevant:
  assumes "fits64 size64" and "list_all (write_in size64) ws"
    and "fits64 (sum_list (map write_len ws))" and "mset ws = mset ws'"
  shows "tracker (WriteAll (NewCountingWriterAt size64 progress) ws) =
           tracker (WriteAll (NewCountingWriterAt size64 progress) ws') \<and>
         downloaded (WriteAll (NewCountingWriterAt size64 progress) ws) =
           downloaded (WriteAll (NewCountingWriterAt size64 progress) ws')"
proof -
  have set: "set ws = set ws'" using assms(4) by (rule mset_eq_setD)
  have sum: "sum_list (map write_len ws) = sum_list (map write_len ws')"
    by (metis assms(4) mset_map sum_mset_sum_list)
  let ?c = "\<lambda>ws. WriteAll (NewCountingWriterAt size64 progress) ws"
  have step: "writer_ok (?c vs) \<and> covered (intervals (tracker (?c vs))) = (\<Union>w\<in>set ws. write_set w) \<and>
      downloaded (?c vs) = sum_list (map write_len ws)" if "vs = ws \<or> vs = ws'" for vs
    using that WriteAll_step [OF writer_ok_new [of size64 progress], of size64 vs] assms(1,2,3) set sum
    by (auto simp: list_all_iff NewCountingWriterAt_def NewRangeTracker_def)
  have "tracker (?c ws) = tracker (?c ws')"
    using step [of ws] step [of ws'] by (intro rt.canonical) (auto simp: writer_ok_def)
  then show ?thesis using step [of ws] step [of ws'] by simp
qed

theorem write_order_irrelevant_witness:
  "tracker (WriteAll (NewCountingWriterAt 6 True) [(4, 2, None), (0, 4, None :: unit option)]) =
   tracker (WriteAll (NewCountingWriterAt 6 True) [(0, 4, None), (4, 2, None :: unit option)])"
  by (rule write_order_irrelevant [THEN conjunct1])
     (simp_all add: fits64_def write_in_def write_len_def)

text \<open>What \<open>IsComplete\<close> decides is that the covered set is one interval that starts at 0 and is
  long enough. This is not what its comment promises (True if and only if the
  intervals cover the file): for every size there is a tracker that covers the whole file and
  one byte behind a gap, and \<open>IsComplete\<close> is False on it.\<close>

theorem IsComplete_decides:
  assumes "wf_ranges (intervals rt)" and "0 < n"
  shows "(IsComplete rt n \<longleftrightarrow> (\<exists>m\<ge>n. covered (intervals rt) = {0..<m})) \<and>
    (\<exists>rt'. wf_ranges (intervals rt') \<and> {0..<n} \<subseteq> covered (intervals rt') \<and> \<not> IsComplete rt' n)"
proof
  show "IsComplete rt n \<longleftrightarrow> (\<exists>m\<ge>n. covered (intervals rt) = {0..<m})"
    by (rule IsComplete_iff [OF assms])
  show "\<exists>rt'. wf_ranges (intervals rt') \<and> {0..<n} \<subseteq> covered (intervals rt') \<and> \<not> IsComplete rt' n"
    using assms(2)
    by (intro exI [of _ "\<lparr>intervals = [ByteRange 0 n, ByteRange (n + 1) (n + 2)]\<rparr>"])
      (auto simp: IsComplete_def range_set_def wf_ranges_def gap_before_def)
qed

theorem IsComplete_decides_witness:
  "IsComplete \<lparr>intervals = [ByteRange 0 10]\<rparr> 10 \<and>
   (\<exists>rt'. wf_ranges (intervals rt') \<and> {0..<10} \<subseteq> covered (intervals rt') \<and> \<not> IsComplete rt' 10)"
  using IsComplete_decides [of "\<lparr>intervals = [ByteRange 0 10]\<rparr>" 10]
  by (auto simp: wf_ranges_def range_set_def IsComplete_def)

end
