(* ===== verification/Task_Registry.thy ===== *)
theory Task_Registry
  imports Byte_Ranges Db_Schema Go_Path "HOL-Library.List_Lexorder"
begin

text \<open>
  The task registry (\<open>app/daemon/registry.go\<close>): admission, the queue, the attempts and their ends.

  Task states are shared: the map, the queue and the \<open>Task\<close> values of the workers hold pointers to them. They are
  cells of the list \<open>rg_heap\<close>, a pointer is the index of its cell, and allocation appends. A \<open>Task\<close> is never \<open>nil\<close>. Each method runs under the lock of the
  registry and is one function of it.

  Times are nanoseconds, \<open>None\<close> is the zero time, and the clock reading is the argument \<open>now\<close>. Contexts are
  numbered; a cell records the context its own one was made from and whether its \<open>cancel\<close> was called. The order in which Go
  iterates over the map is an argument \<open>ord\<close>. The wake channel has one slot and is a flag. The displayed
  percentages and rates, which are floating-point numbers, and the memory statistics of the process are left out.
\<close>

section \<open>State\<close>

datatype TaskState = StateQueued | StateResolving | StateDownloading | StatePublishing
  | StateSuccess | StateFailed | StateUnavailable

record TaskRequest =
  q_ID :: string
  q_Peer :: string
  q_MessageID :: int
  q_FinalPath :: string
  q_ExpectedSize :: int64
  q_Retry :: bool
  q_TargetTitle :: string
  q_MediaType :: string
  q_FileName :: string
  q_Date :: int64
  q_MaxRetries :: int

record byteEvent =
  ev_at :: int64
  ev_bytes :: int64

record taskState =
  ts_request :: TaskRequest
  ts_state :: TaskState
  ts_attemptGen :: string
  ts_attemptCount :: int
  ts_fileName :: string
  ts_totalSize :: int64
  ts_downloaded :: int64
  ts_wireBytes :: int64
  ts_replayBytes :: int64
  ts_requestCount :: int64
  ts_physicalRetries :: int64
  ts_physicalAttemptID :: string
  ts_dcID :: int
  ts_alreadyExists :: bool
  ts_sha256 :: string
  ts_errorStage :: string
  ts_errorOp :: string
  ts_errorClass :: string
  ts_errorText :: string
  ts_retryable :: bool
  ts_retryOwner :: string
  ts_createdAt :: int64
  ts_startedAt :: "int64 option"
  ts_finishedAt :: "int64 option"
  ts_ranges :: "byteRange list"
  ts_events :: "byteEvent list"
  ts_hasNetworkProgress :: bool
  ts_netDownloaded :: int64
  ts_firstByte :: "int64 option"
  ts_lastByte :: "int64 option"
  ts_ctxParent :: nat
  ts_cancelled :: bool

record PoolSnapshot =
  pl_Size :: int
  pl_ActiveFiles :: int
  pl_Reconnects :: int64

record Registry =
  rg_parentCtx :: nat
  rg_queueCapacity :: int
  rg_terminalLimit :: int
  rg_heap :: "taskState list"
  rg_tasks :: "string \<rightharpoonup> nat"
  rg_queue :: "nat list"
  rg_terminalOrder :: "string list"
  rg_wake :: bool
  rg_paused :: bool
  rg_events :: "byteEvent list"
  rg_firstByte :: "int64 option"
  rg_lastByte :: "int64 option"
  rg_lastError :: string
  rg_pool :: PoolSnapshot
  rg_cumulativeWireBytes :: int64
  rg_cumulativePayloadBytes :: int64
  rg_cumulativeRetries :: int64

record Task =
  tk_state :: nat
  tk_attemptGen :: string

datatype reg_error = ErrQueueFull | ErrIDConflict | ErrTaskActive | ErrTaskNotFound
  | ErrInvalidRequest string | ErrCannotRequeue | ErrCtxDone | ErrDecider db_error

definition NewRegistryWithContext :: "nat \<Rightarrow> int \<Rightarrow> int \<Rightarrow> Registry" where
  "NewRegistryWithContext ctx queueCapacity terminalLimit = \<lparr>rg_parentCtx = ctx,
     rg_queueCapacity = (if queueCapacity < 1 then 1 else queueCapacity),
     rg_terminalLimit = (if terminalLimit < 1 then 1 else terminalLimit),
     rg_heap = [], rg_tasks = Map.empty, rg_queue = [], rg_terminalOrder = [], rg_wake = False, rg_paused = False,
     rg_events = [], rg_firstByte = None, rg_lastByte = None, rg_lastError = [],
     rg_pool = \<lparr>pl_Size = 0, pl_ActiveFiles = 0, pl_Reconnects = 0\<rparr>,
     rg_cumulativeWireBytes = 0, rg_cumulativePayloadBytes = 0, rg_cumulativeRetries = 0\<rparr>"

text \<open>The background context is number 0.\<close>

definition NewRegistry :: "int \<Rightarrow> int \<Rightarrow> Registry" where
  "NewRegistry queueCapacity terminalLimit = NewRegistryWithContext 0 queueCapacity terminalLimit"

definition SetParentContext :: "nat option \<Rightarrow> Registry \<Rightarrow> Registry" where
  "SetParentContext ctx r = (case ctx of None \<Rightarrow> r | Some c \<Rightarrow> r\<lparr>rg_parentCtx := c\<rparr>)"

section \<open>Cells\<close>

definition cell :: "Registry \<Rightarrow> nat \<Rightarrow> taskState" where
  "cell r a = rg_heap r ! a"

definition upd_cell :: "nat \<Rightarrow> (taskState \<Rightarrow> taskState) \<Rightarrow> Registry \<Rightarrow> Registry" where
  "upd_cell a f r = r\<lparr>rg_heap := (rg_heap r)[a := f (rg_heap r ! a)]\<rparr>"

definition alloc :: "taskState \<Rightarrow> Registry \<Rightarrow> nat \<times> Registry" where
  "alloc s r = (length (rg_heap r), r\<lparr>rg_heap := rg_heap r @ [s]\<rparr>)"

text \<open>A state with the fields a literal names, and zero values otherwise.\<close>

definition new_state :: "TaskRequest \<Rightarrow> TaskState \<Rightarrow> int64 \<Rightarrow> int64 \<Rightarrow> string \<Rightarrow> int \<Rightarrow> nat \<Rightarrow> taskState" where
  "new_state req st tot now gen n ctx = \<lparr>ts_request = req, ts_state = st, ts_attemptGen = gen, ts_attemptCount = n,
     ts_fileName = [], ts_totalSize = tot, ts_downloaded = 0, ts_wireBytes = 0, ts_replayBytes = 0, ts_requestCount = 0,
     ts_physicalRetries = 0, ts_physicalAttemptID = [], ts_dcID = 0, ts_alreadyExists = False, ts_sha256 = [],
     ts_errorStage = [], ts_errorOp = [], ts_errorClass = [], ts_errorText = [], ts_retryable = False, ts_retryOwner = [],
     ts_createdAt = now, ts_startedAt = None, ts_finishedAt = None, ts_ranges = [], ts_events = [],
     ts_hasNetworkProgress = False, ts_netDownloaded = 0, ts_firstByte = None, ts_lastByte = None,
     ts_ctxParent = ctx, ts_cancelled = False\<rparr>"

definition isTerminal :: "TaskState \<Rightarrow> bool" where
  "isTerminal s \<longleftrightarrow> s = StateSuccess \<or> s = StateFailed \<or> s = StateUnavailable"

definition signalLocked :: "Registry \<Rightarrow> Registry" where
  "signalLocked r = r\<lparr>rg_wake := True\<rparr>"

definition validateRequest :: "TaskRequest \<Rightarrow> string option" where
  "validateRequest q =
     (if q_ID q = [] \<or> length (q_ID q) > 256 \<or> ContainsAny (q_ID q) [CHR ''/'', CHR 0x5C, CHR 0x00]
      then Some ''id must be 1-256 characters without slashes''
      else if TrimSpace (q_Peer q) = [] then Some ''peer is required''
      else if q_MessageID q \<le> 0 then Some ''message_id must be positive''
      else if q_ExpectedSize q < 0 then Some ''expected_size cannot be negative''
      else if q_FinalPath q \<noteq> []
      then if ContainsAny (q_FinalPath q) [CHR 0x5C, CHR 0x00] \<or> HasPrefix (q_FinalPath q) ''/''
           then Some ''final_path must be a relative slash-separated path''
           else let cleaned = Clean (q_FinalPath q)
                in if cleaned \<noteq> q_FinalPath q \<or> cleaned = dotdot \<or> HasPrefix cleaned (dotdot @ ''/'')
                   then Some (''final_path escapes output root: '' @ q_FinalPath q) else None
      else None)"

section \<open>Snapshots\<close>

definition trimEvents :: "byteEvent list \<Rightarrow> int64 \<Rightarrow> byteEvent list" where
  "trimEvents evs cutoff = dropWhile (\<lambda>e. ev_at e < cutoff) evs"

definition Unix :: "int64 \<Rightarrow> int64" where
  "Unix t = t div 1000000000"

definition unixOrZero :: "int64 option \<Rightarrow> int64" where
  "unixOrZero t = (case t of None \<Rightarrow> 0 | Some t \<Rightarrow> Unix t)"

record TaskSnapshot =
  sn_request :: TaskRequest
  sn_State :: TaskState
  sn_FileName :: string
  sn_TotalSize :: int64
  sn_Downloaded :: int64
  sn_NetDownloaded :: int64
  sn_WireBytes :: int64
  sn_ReplayBytes :: int64
  sn_RequestCount :: int64
  sn_PhysicalRetries :: int64
  sn_PhysicalAttemptID :: string
  sn_DCID :: int
  sn_AlreadyExists :: bool
  sn_SHA256 :: string
  sn_ErrorStage :: string
  sn_ErrorOp :: string
  sn_ErrorClass :: string
  sn_Error :: string
  sn_Retryable :: bool
  sn_RetryOwner :: string
  sn_AttemptGeneration :: string
  sn_AttemptCount :: int
  sn_CreatedAt :: int64
  sn_StartedAt :: int64
  sn_FinishedAt :: int64

definition snapshot_of :: "taskState \<Rightarrow> TaskSnapshot" where
  "snapshot_of s = \<lparr>sn_request = ts_request s, sn_State = ts_state s, sn_FileName = ts_fileName s,
     sn_TotalSize = ts_totalSize s, sn_Downloaded = ts_downloaded s,
     sn_NetDownloaded = (if ts_netDownloaded s < ts_downloaded s then ts_downloaded s else ts_netDownloaded s),
     sn_WireBytes = ts_wireBytes s, sn_ReplayBytes = ts_replayBytes s, sn_RequestCount = ts_requestCount s,
     sn_PhysicalRetries = ts_physicalRetries s, sn_PhysicalAttemptID = ts_physicalAttemptID s,
     sn_DCID = ts_dcID s, sn_AlreadyExists = ts_alreadyExists s, sn_SHA256 = ts_sha256 s,
     sn_ErrorStage = ts_errorStage s, sn_ErrorOp = ts_errorOp s, sn_ErrorClass = ts_errorClass s,
     sn_Error = ts_errorText s, sn_Retryable = ts_retryable s, sn_RetryOwner = ts_retryOwner s,
     sn_AttemptGeneration = (if ts_attemptGen s = [] then ''1'' else ts_attemptGen s),
     sn_AttemptCount = (if ts_attemptCount s \<le> 0 then 1 else ts_attemptCount s),
     sn_CreatedAt = Unix (ts_createdAt s), sn_StartedAt = unixOrZero (ts_startedAt s),
     sn_FinishedAt = unixOrZero (ts_finishedAt s)\<rparr>"

text \<open>Taking a snapshot drops the old events of the cell.\<close>

definition snapshotTaskLocked :: "nat \<Rightarrow> int64 \<Rightarrow> Registry \<Rightarrow> TaskSnapshot \<times> Registry" where
  "snapshotTaskLocked a now r =
     (snapshot_of (cell r a),
      upd_cell a (\<lambda>s. s\<lparr>ts_events := trimEvents (ts_events s) (now - 5 * 1000000000)\<rparr>) r)"

definition reg_Task :: "string \<Rightarrow> int64 \<Rightarrow> Registry \<Rightarrow> TaskSnapshot option \<times> Registry" where
  "reg_Task tid now r = (case rg_tasks r tid of
     None \<Rightarrow> (None, r)
   | Some a \<Rightarrow> let (s, r') = snapshotTaskLocked a now r in (Some s, r'))"

text \<open>Snapshots of the cells of some ids, in the order of the map iteration.\<close>

fun snapshots :: "string list \<Rightarrow> int64 \<Rightarrow> Registry \<Rightarrow> TaskSnapshot list \<times> Registry" where
  "snapshots [] now r = ([], r)"
| "snapshots (tid # ids) now r = (case rg_tasks r tid of
     None \<Rightarrow> snapshots ids now r
   | Some a \<Rightarrow> let (s, r1) = snapshotTaskLocked a now r; (ss, r2) = snapshots ids now r1 in (s # ss, r2))"

text \<open>\<open>sort.Slice\<close> by the bytes of the ID.\<close>

definition reg_Tasks :: "string list \<Rightarrow> int64 \<Rightarrow> Registry \<Rightarrow> TaskSnapshot list \<times> Registry" where
  "reg_Tasks ord now r = (let (ss, r') = snapshots ord now r in
     (sort_key (\<lambda>s. map (of_char :: char \<Rightarrow> nat) (q_ID (sn_request s))) ss, r'))"

record StatusSnapshot =
  ss_Paused :: bool
  ss_ActiveFiles :: "TaskSnapshot list"
  ss_QueueDepth :: nat
  ss_Pool :: PoolSnapshot
  ss_LastError :: string
  ss_UpdatedAt :: int64
  ss_WireRxBytes :: int64
  ss_UniquePayloadBytes :: int64
  ss_RetryCount :: int64

definition is_active :: "TaskState \<Rightarrow> bool" where
  "is_active s \<longleftrightarrow> s = StateResolving \<or> s = StateDownloading \<or> s = StatePublishing"

text \<open>\<open>total += ...\<close> over the cells of the map.\<close>

definition total_over :: "(taskState \<Rightarrow> int64) \<Rightarrow> string list \<Rightarrow> Registry \<Rightarrow> int64 \<Rightarrow> int64" where
  "total_over f ord r start = fold (\<lambda>tid t. case rg_tasks r tid of None \<Rightarrow> t | Some a \<Rightarrow> i64 (t + f (cell r a))) ord start"

definition Status :: "string list \<Rightarrow> int64 \<Rightarrow> Registry \<Rightarrow> StatusSnapshot \<times> Registry" where
  "Status ord now r =
     (let r1 = r\<lparr>rg_events := trimEvents (rg_events r) (now - 5 * 1000000000)\<rparr>;
          (active, r2) = snapshots (filter (\<lambda>tid. case rg_tasks r1 tid of None \<Rightarrow> False
                                              | Some a \<Rightarrow> is_active (ts_state (cell r1 a))) ord) now r1
      in (\<lparr>ss_Paused = rg_paused r2,
           ss_ActiveFiles = sort_key (\<lambda>s. map (of_char :: char \<Rightarrow> nat) (q_ID (sn_request s))) active,
           ss_QueueDepth = length (rg_queue r2),
           ss_Pool = (rg_pool r2)\<lparr>pl_ActiveFiles := int (length active)\<rparr>,
           ss_LastError = rg_lastError r2, ss_UpdatedAt = Unix now,
           ss_WireRxBytes = total_over ts_wireBytes ord r2 (rg_cumulativeWireBytes r2),
           ss_UniquePayloadBytes = total_over ts_downloaded ord r2 (rg_cumulativePayloadBytes r2),
           ss_RetryCount = total_over ts_physicalRetries ord r2 (rg_cumulativeRetries r2)\<rparr>, r2))"

section \<open>Admission\<close>

definition archiveOldTaskMetricsLocked :: "nat \<Rightarrow> Registry \<Rightarrow> Registry" where
  "archiveOldTaskMetricsLocked a r = r\<lparr>
     rg_cumulativeWireBytes := i64 (rg_cumulativeWireBytes r + ts_wireBytes (cell r a)),
     rg_cumulativePayloadBytes := i64 (rg_cumulativePayloadBytes r + ts_downloaded (cell r a)),
     rg_cumulativeRetries := i64 (rg_cumulativeRetries r + ts_physicalRetries (cell r a))\<rparr>"

definition removeTerminalLocked :: "string \<Rightarrow> Registry \<Rightarrow> Registry" where
  "removeTerminalLocked tid r = r\<lparr>rg_terminalOrder := remove1 tid (rg_terminalOrder r)\<rparr>"

definition enqueue :: "nat \<Rightarrow> Registry \<Rightarrow> Registry" where
  "enqueue a r = signalLocked (r\<lparr>rg_queue := rg_queue r @ [a]\<rparr>)"

definition queue_full :: "Registry \<Rightarrow> bool" where
  "queue_full r \<longleftrightarrow> int (length (rg_queue r)) \<ge> rg_queueCapacity r"

definition retry_gen :: "int64 \<Rightarrow> string" where
  "retry_gen now = ''retry_'' @ show_int now"

definition Submit :: "int64 \<Rightarrow> TaskRequest \<Rightarrow> Registry \<Rightarrow> (reg_error + TaskSnapshot \<times> bool) \<times> Registry" where
  "Submit now request r =
     (case validateRequest request of
        Some msg \<Rightarrow> (Inl (ErrInvalidRequest msg), r)
      | None \<Rightarrow>
          let retry = q_Retry request; req = request\<lparr>q_Retry := False\<rparr>
          in case rg_tasks r (q_ID req) of
               Some a \<Rightarrow>
                 if ts_request (cell r a) \<noteq> req then (Inl ErrIDConflict, r)
                 else if retry \<and> (ts_state (cell r a) = StateFailed \<or> ts_state (cell r a) = StateUnavailable)
                 then if queue_full r then (Inl ErrQueueFull, r)
                      else let (n, r1) = alloc (new_state req StateQueued (q_ExpectedSize req) now (retry_gen now)
                                  (ts_attemptCount (cell r a) + 1) (rg_parentCtx r)) r;
                               r2 = archiveOldTaskMetricsLocked a r1;
                               r3 = r2\<lparr>rg_tasks := (rg_tasks r2)(q_ID req \<mapsto> n)\<rparr>;
                               (s, r4) = snapshotTaskLocked n now (enqueue n (removeTerminalLocked (q_ID req) r3))
                           in (Inr (s, True), r4)
                 else let (s, r1) = snapshotTaskLocked a now r in (Inr (s, False), r1)
             | None \<Rightarrow>
                 if queue_full r then (Inl ErrQueueFull, r)
                 else let (n, r1) = alloc (new_state req StateQueued (q_ExpectedSize req) now ''1'' 1 (rg_parentCtx r)) r;
                          (s, r2) = snapshotTaskLocked n now (enqueue n (r1\<lparr>rg_tasks := (rg_tasks r1)(q_ID req \<mapsto> n)\<rparr>))
                      in (Inr (s, True), r2))"

definition QueuedBacklogBytes :: "Registry \<Rightarrow> int64" where
  "QueuedBacklogBytes r = fold (\<lambda>a t. if isTerminal (ts_state (cell r a)) then t
     else i64 (t + ts_totalSize (cell r a))) (rg_queue r) 0"

text \<open>The decider changes durable state \<open>'d\<close>; \<open>None\<close> is the \<open>nil\<close> function.\<close>

definition RetryTaskWithDecider ::
  "int64 \<Rightarrow> string \<Rightarrow> TaskRequest option \<Rightarrow> (string \<Rightarrow> 'd \<Rightarrow> db_error option \<times> 'd) option \<Rightarrow> 'd \<Rightarrow> Registry \<Rightarrow>
    (reg_error + TaskSnapshot) \<times> 'd \<times> Registry" where
  "RetryTaskWithDecider now tid fallbackReq decider d r =
     (if queue_full r then (Inl ErrQueueFull, d, r)
      else let existing = rg_tasks r tid
      in if (case existing of None \<Rightarrow> False | Some a \<Rightarrow> \<not> isTerminal (ts_state (cell r a))) then (Inl ErrTaskActive, d, r)
      else if existing = None \<and> fallbackReq = None then (Inl ErrTaskNotFound, d, r)
      else let newGen = retry_gen now;
               (req, tot, attempts) = (case existing of
                   Some a \<Rightarrow> (ts_request (cell r a), ts_totalSize (cell r a), ts_attemptCount (cell r a) + 1)
                 | None \<Rightarrow> (the fallbackReq, q_ExpectedSize (the fallbackReq), 1));
               (err, d1) = (case decider of None \<Rightarrow> (None, d) | Some f \<Rightarrow> f newGen d)
           in case err of
                Some e \<Rightarrow> (Inl (ErrDecider e), d1, r)
              | None \<Rightarrow>
                  let r1 = (case existing of None \<Rightarrow> r
                            | Some a \<Rightarrow> removeTerminalLocked tid (archiveOldTaskMetricsLocked a r));
                      (n, r2) = alloc (new_state req StateQueued tot now newGen attempts (rg_parentCtx r1)) r1;
                      (s, r3) = snapshotTaskLocked n now (enqueue n (r2\<lparr>rg_tasks := (rg_tasks r2)(tid \<mapsto> n)\<rparr>))
                  in (Inr s, d1, r3))"

definition RetryTask :: "int64 \<Rightarrow> string \<Rightarrow> Registry \<Rightarrow> (reg_error + TaskSnapshot) \<times> Registry" where
  "RetryTask now tid r =
     (let (res, _, r') = RetryTaskWithDecider now tid None (Some (\<lambda>_ u. (None, u))) () r in (res, r'))"

section \<open>The queue\<close>

text \<open>
  What ends the wait of \<open>Next\<close>: the context of the caller, or a wake-up after other calls have
  changed the registry. The list is what happens while it waits; \<open>None\<close> means that it still waits.
\<close>

datatype wait = WaitDone | WaitWake "Registry \<Rightarrow> Registry"

fun Next :: "int64 \<Rightarrow> wait list \<Rightarrow> Registry \<Rightarrow> (reg_error + Task) option \<times> Registry" where
  "Next now ws r =
     (if \<not> rg_paused r \<and> rg_queue r \<noteq> []
      then let a = hd (rg_queue r);
               r1 = upd_cell a (\<lambda>s. s\<lparr>ts_state := StateResolving, ts_startedAt := Some now\<rparr>) (r\<lparr>rg_queue := tl (rg_queue r)\<rparr>);
               r2 = (if rg_queue r1 \<noteq> [] then signalLocked r1 else r1)
           in (Some (Inr \<lparr>tk_state = a, tk_attemptGen = ts_attemptGen (cell r2 a)\<rparr>), r2)
      else (case ws of
              [] \<Rightarrow> (None, r)
            | WaitDone # _ \<Rightarrow> (Some (Inl ErrCtxDone), r)
            | WaitWake f # ws' \<Rightarrow> Next now ws' ((f r)\<lparr>rg_wake := False\<rparr>)))"

declare Next.simps [simp del]

definition Requeue :: "Task \<Rightarrow> Registry \<Rightarrow> reg_error option \<times> Registry" where
  "Requeue t r =
     (if isTerminal (ts_state (cell r (tk_state t))) then (Some ErrCannotRequeue, r)
      else (None, enqueue (tk_state t) (upd_cell (tk_state t) (\<lambda>s. s\<lparr>ts_state := StateQueued\<rparr>) r)))"

definition SetPaused :: "bool \<Rightarrow> Registry \<Rightarrow> Registry" where
  "SetPaused paused r = signalLocked (r\<lparr>rg_paused := paused\<rparr>)"

definition SetPool :: "PoolSnapshot \<Rightarrow> Registry \<Rightarrow> Registry" where
  "SetPool snapshot r = r\<lparr>rg_pool := snapshot\<rparr>"

definition SetLastError :: "string \<Rightarrow> Registry \<Rightarrow> Registry" where
  "SetLastError message r = r\<lparr>rg_lastError := message\<rparr>"

section \<open>Methods of a task\<close>

definition Request :: "Task \<Rightarrow> Registry \<Rightarrow> TaskRequest" where
  "Request t r = ts_request (cell r (tk_state t))"

definition AttemptGen :: "Task \<Rightarrow> Registry \<Rightarrow> string" where
  "AttemptGen t r = (if tk_attemptGen t \<noteq> [] then tk_attemptGen t
     else if ts_attemptGen (cell r (tk_state t)) \<noteq> [] then ts_attemptGen (cell r (tk_state t)) else ''1'')"

definition Snapshot :: "Task \<Rightarrow> int64 \<Rightarrow> Registry \<Rightarrow> TaskSnapshot \<times> Registry" where
  "Snapshot t now r = snapshotTaskLocked (tk_state t) now r"

definition stale :: "Task \<Rightarrow> Registry \<Rightarrow> bool" where
  "stale t r \<longleftrightarrow> tk_attemptGen t \<noteq> [] \<and> ts_attemptGen (cell r (tk_state t)) \<noteq> tk_attemptGen t"

text \<open>The unexported \<open>update\<close>; the second result says whether the function ran.\<close>

definition tk_update :: "Task \<Rightarrow> (taskState \<Rightarrow> taskState) \<Rightarrow> Registry \<Rightarrow> Registry \<times> bool" where
  "tk_update t f r =
     (if stale t r then (r, False)
      else if isTerminal (ts_state (cell r (tk_state t))) then (r, False)
      else (upd_cell (tk_state t) f r, True))"

definition SetResolved :: "Task \<Rightarrow> string \<Rightarrow> int64 \<Rightarrow> int \<Rightarrow> Registry \<Rightarrow> Registry" where
  "SetResolved t fileName tot dcID r =
     fst (tk_update t (\<lambda>s. s\<lparr>ts_fileName := fileName, ts_totalSize := tot, ts_dcID := dcID\<rparr>) r)"

definition SetFinalPath :: "Task \<Rightarrow> string \<Rightarrow> Registry \<Rightarrow> Registry" where
  "SetFinalPath t finalPath r = fst (tk_update t (\<lambda>s. s\<lparr>ts_request := (ts_request s)\<lparr>q_FinalPath := finalPath\<rparr>\<rparr>) r)"

definition SetDownloading :: "Task \<Rightarrow> Registry \<Rightarrow> Registry" where
  "SetDownloading t r = fst (tk_update t (\<lambda>s. s\<lparr>ts_state := StateDownloading\<rparr>) r)"

definition IsTerminal :: "Task \<Rightarrow> Registry \<Rightarrow> bool" where
  "IsTerminal t r \<longleftrightarrow> stale t r \<or> isTerminal (ts_state (cell r (tk_state t)))"

definition SetPublishing :: "Task \<Rightarrow> Registry \<Rightarrow> bool \<times> Registry" where
  "SetPublishing t r = (let (r', ok) = tk_update t (\<lambda>s. s\<lparr>ts_state := StatePublishing\<rparr>) r in (ok, r'))"

definition RecordTransferTelemetry ::
  "Task \<Rightarrow> int64 \<Rightarrow> int64 \<Rightarrow> int64 \<Rightarrow> int64 \<Rightarrow> int64 \<Rightarrow> string list \<Rightarrow> Registry \<Rightarrow> Registry" where
  "RecordTransferTelemetry t written wire replay reqCount retries physicalAttemptID r =
     upd_cell (tk_state t) (\<lambda>s. s\<lparr>ts_downloaded := (if written > 0 then written else ts_downloaded s),
        ts_wireBytes := wire, ts_replayBytes := replay, ts_requestCount := reqCount, ts_physicalRetries := retries,
        ts_physicalAttemptID := (case physicalAttemptID of p # _ \<Rightarrow> if p \<noteq> [] then p else ts_physicalAttemptID s
                                 | [] \<Rightarrow> ts_physicalAttemptID s)\<rparr>) r"

section \<open>The end of a task\<close>

fun prune_loop :: "string list \<Rightarrow> Registry \<Rightarrow> Registry" where
  "prune_loop [] r = r\<lparr>rg_terminalOrder := []\<rparr>"
| "prune_loop (oldest # rest) r =
     (if int (length (oldest # rest)) > rg_terminalLimit r
      then prune_loop rest (case rg_tasks r oldest of
               None \<Rightarrow> r
             | Some a \<Rightarrow> (archiveOldTaskMetricsLocked a r)\<lparr>rg_tasks := (rg_tasks r)(oldest := None)\<rparr>)
      else r\<lparr>rg_terminalOrder := oldest # rest\<rparr>)"

definition pruneTerminalOrderLocked :: "Registry \<Rightarrow> Registry" where
  "pruneTerminalOrderLocked r = prune_loop (rg_terminalOrder r) r"

text \<open>What the three finishing methods have in common, after their guards.\<close>

definition finish_cell ::
  "nat \<Rightarrow> TaskState \<Rightarrow> (taskState \<Rightarrow> taskState) \<Rightarrow> string \<Rightarrow> string \<Rightarrow> bool \<Rightarrow> string \<Rightarrow> int64 \<Rightarrow> Registry \<Rightarrow> Registry" where
  "finish_cell a status err message finalPath already sha now r =
     (let r1 = upd_cell a (\<lambda>s. let s1 = err (s\<lparr>ts_state := status, ts_errorText := message, ts_alreadyExists := already,
                  ts_sha256 := sha, ts_finishedAt := Some now, ts_cancelled := (ts_cancelled s \<or> isTerminal status)\<rparr>)
                in if finalPath \<noteq> [] then s1\<lparr>ts_request := (ts_request s1)\<lparr>q_FinalPath := finalPath\<rparr>\<rparr> else s1) r;
          r2 = (if message \<noteq> [] then r1\<lparr>rg_lastError := message\<rparr> else r1)
      in pruneTerminalOrderLocked (r2\<lparr>rg_terminalOrder := rg_terminalOrder r2 @ [q_ID (ts_request (cell r2 a))]\<rparr>))"

definition finishWithGen ::
  "nat \<Rightarrow> string \<Rightarrow> TaskState \<Rightarrow> string \<Rightarrow> string \<Rightarrow> string \<Rightarrow> string \<Rightarrow> bool \<Rightarrow> string \<Rightarrow> string \<Rightarrow> bool \<Rightarrow> string \<Rightarrow> int64 \<Rightarrow>
    Registry \<Rightarrow> bool \<times> Registry" where
  "finishWithGen a gen status stage op cls message retryable retryOwner finalPath already sha now r =
     (if gen \<noteq> [] \<and> ts_attemptGen (cell r a) \<noteq> gen then (False, r)
      else if isTerminal (ts_state (cell r a)) then (False, r)
      else (True, finish_cell a status (\<lambda>s. s\<lparr>ts_errorStage := stage, ts_errorOp := op, ts_errorClass := cls,
              ts_retryable := retryable, ts_retryOwner := retryOwner\<rparr>) message finalPath already sha now r))"

record PublishResult =
  pr_Path :: string
  pr_AlreadyExists :: bool
  pr_SHA256 :: string
  pr_WireBytes :: int64
  pr_ReplayBytes :: int64
  pr_RequestCount :: int64
  pr_PhysicalRetries :: int64
  pr_PhysicalAttemptID :: string

definition SucceedResult :: "Task \<Rightarrow> PublishResult \<Rightarrow> int64 \<Rightarrow> Registry \<Rightarrow> Registry" where
  "SucceedResult t p now r =
     snd (finishWithGen (tk_state t) (tk_attemptGen t) StateSuccess [] [] [] [] False [] (pr_Path p) (pr_AlreadyExists p)
       (pr_SHA256 p) now
       (upd_cell (tk_state t) (\<lambda>s. s\<lparr>
          ts_wireBytes := (if pr_WireBytes p > 0 then pr_WireBytes p else ts_wireBytes s),
          ts_replayBytes := (if pr_ReplayBytes p > 0 then pr_ReplayBytes p else ts_replayBytes s),
          ts_requestCount := (if pr_RequestCount p > 0 then pr_RequestCount p else ts_requestCount s),
          ts_physicalRetries := (if pr_PhysicalRetries p > 0 then pr_PhysicalRetries p else ts_physicalRetries s),
          ts_physicalAttemptID := (if pr_PhysicalAttemptID p \<noteq> [] then pr_PhysicalAttemptID p
                                   else ts_physicalAttemptID s)\<rparr>) r))"

definition Succeed :: "Task \<Rightarrow> string \<Rightarrow> bool \<Rightarrow> int64 \<Rightarrow> Registry \<Rightarrow> Registry" where
  "Succeed t finalPath alreadyExists now r = SucceedResult t \<lparr>pr_Path = finalPath, pr_AlreadyExists = alreadyExists,
     pr_SHA256 = [], pr_WireBytes = 0, pr_ReplayBytes = 0, pr_RequestCount = 0, pr_PhysicalRetries = 0,
     pr_PhysicalAttemptID = []\<rparr> now r"

definition FailDisposition :: "Task \<Rightarrow> FailureDisposition \<Rightarrow> int64 \<Rightarrow> Registry \<Rightarrow> Registry" where
  "FailDisposition t disp now r =
     snd (finishWithGen (tk_state t) (tk_attemptGen t) (if f_Unavailable disp then StateUnavailable else StateFailed)
       (f_Stage disp) (f_Op disp) (f_Class disp) (disp_Error disp) (f_Retryable disp) (f_RetryOwner disp) [] False [] now
       (if f_PhysicalAttemptID disp \<noteq> []
        then upd_cell (tk_state t) (\<lambda>s. s\<lparr>ts_physicalAttemptID := f_PhysicalAttemptID disp\<rparr>) r else r))"

definition Fail :: "Task \<Rightarrow> string \<Rightarrow> string \<Rightarrow> bool \<Rightarrow> int64 \<Rightarrow> Registry \<Rightarrow> Registry" where
  "Fail t cls message unavailable now r = FailDisposition t \<lparr>f_Stage = [], f_Op = [], f_Class = cls,
     f_Unavailable = unavailable, f_Retryable = False, f_RetryOwner = [], f_PhysicalAttemptID = [], f_Message = message,
     f_Cause = None\<rparr> now r"

datatype FinishResult = FinishAcceptedNewTerminal | FinishAlreadySameTerminal | FinishConflictingTerminal
  | FinishRejectedStale | FinishNotFound

text \<open>\<open>lax\<close>: whether an empty generation is let through.\<close>

definition finish_guarded ::
  "bool \<Rightarrow> nat \<Rightarrow> string \<Rightarrow> TaskState \<Rightarrow> string \<Rightarrow> string \<Rightarrow> string \<Rightarrow> bool \<Rightarrow> string \<Rightarrow> int64 \<Rightarrow> Registry \<Rightarrow>
    FinishResult \<times> Registry" where
  "finish_guarded lax a gen status cls message finalPath already sha now r =
     (if (if gen = [] then \<not> lax else ts_attemptGen (cell r a) \<noteq> gen) then (FinishRejectedStale, r)
      else if isTerminal (ts_state (cell r a))
      then (if ts_state (cell r a) = status then FinishAlreadySameTerminal else FinishConflictingTerminal, r)
      else (FinishAcceptedNewTerminal,
            finish_cell a status (\<lambda>s. s\<lparr>ts_errorClass := cls\<rparr>) message finalPath already sha now r))"

definition FinishTask ::
  "string \<Rightarrow> string \<Rightarrow> TaskState \<Rightarrow> string \<Rightarrow> string \<Rightarrow> string \<Rightarrow> bool \<Rightarrow> string \<Rightarrow> int64 \<Rightarrow> Registry \<Rightarrow> FinishResult \<times> Registry" where
  "FinishTask tid gen status cls message finalPath already sha now r = (case rg_tasks r tid of
     None \<Rightarrow> (FinishNotFound, r)
   | Some a \<Rightarrow> finish_guarded False a gen status cls message finalPath already sha now r)"

definition peer_matches :: "string \<Rightarrow> TaskRequest \<Rightarrow> bool" where
  "peer_matches chatID q \<longleftrightarrow> TrimPrefix (q_Peer q) ''@'' = TrimPrefix chatID ''@'' \<or> TrimPrefix (q_Peer q) ''@'' = chatID"

fun FinishTaskByMessage ::
  "string list \<Rightarrow> string \<Rightarrow> int \<Rightarrow> string \<Rightarrow> TaskState \<Rightarrow> string \<Rightarrow> string \<Rightarrow> string \<Rightarrow> bool \<Rightarrow> string \<Rightarrow> int64 \<Rightarrow> Registry \<Rightarrow>
    FinishResult \<times> Registry" where
  "FinishTaskByMessage [] chatID messageID gen status cls message finalPath already sha now r = (FinishNotFound, r)"
| "FinishTaskByMessage (tid # ord) chatID messageID gen status cls message finalPath already sha now r =
     (case rg_tasks r tid of
        None \<Rightarrow> FinishTaskByMessage ord chatID messageID gen status cls message finalPath already sha now r
      | Some a \<Rightarrow>
          if peer_matches chatID (ts_request (cell r a)) \<and> q_MessageID (ts_request (cell r a)) = messageID
          then finish_guarded True a gen status cls message finalPath already sha now r
          else FinishTaskByMessage ord chatID messageID gen status cls message finalPath already sha now r)"

definition RegisterRecoveredTask :: "string \<Rightarrow> string \<Rightarrow> string \<Rightarrow> int64 \<Rightarrow> int64 \<Rightarrow> Registry \<Rightarrow> Registry" where
  "RegisterRecoveredTask tid gen finalPath expectedSize now r =
     (let req = \<lparr>q_ID = tid, q_Peer = [], q_MessageID = 0, q_FinalPath = finalPath, q_ExpectedSize = expectedSize,
            q_Retry = False, q_TargetTitle = [], q_MediaType = [], q_FileName = [], q_Date = 0, q_MaxRetries = 0\<rparr>;
          (n, r1) = alloc ((new_state req StatePublishing expectedSize now gen 0 (rg_parentCtx r))
                      \<lparr>ts_startedAt := Some now\<rparr>) r
      in r1\<lparr>rg_tasks := (rg_tasks r1)(tid \<mapsto> n)\<rparr>)"

section \<open>Cancelling\<close>

definition cancel_cell :: "string \<Rightarrow> int64 \<Rightarrow> nat \<Rightarrow> Registry \<Rightarrow> Registry" where
  "cancel_cell text now a r = upd_cell a (\<lambda>s. s\<lparr>ts_state := StateFailed, ts_errorClass := ''canceled'',
     ts_errorText := text, ts_finishedAt := Some now, ts_cancelled := True\<rparr>) r"

definition Cancel :: "string \<Rightarrow> string \<Rightarrow> int64 \<Rightarrow> Registry \<Rightarrow> Registry" where
  "Cancel tid reason now r =
     (let text = (if reason \<noteq> [] then reason else ''task canceled'');
          hit = (\<lambda>a. q_ID (ts_request (cell r a)) = tid);
          r1 = fold (cancel_cell text now) (filter hit (rg_queue r)) r;
          r2 = r1\<lparr>rg_queue := filter (\<lambda>a. \<not> hit a) (rg_queue r)\<rparr>
      in signalLocked (case rg_tasks r2 tid of
           None \<Rightarrow> r2
         | Some a \<Rightarrow> if isTerminal (ts_state (cell r2 a)) then r2 else cancel_cell text now a r2))"

text \<open>The two loops of \<open>CancelTasksByChatIDWithDecider\<close>: over the queue, returning the entries that stay, and over the map.\<close>

type_synonym 'd decider = "string \<Rightarrow> int \<Rightarrow> string \<Rightarrow> 'd \<Rightarrow> bool \<times> 'd"

definition consult :: "'d decider option \<Rightarrow> taskState \<Rightarrow> 'd \<Rightarrow> bool \<times> 'd" where
  "consult decider s d = (case decider of None \<Rightarrow> (True, d)
     | Some f \<Rightarrow> f (q_Peer (ts_request s)) (q_MessageID (ts_request s)) (ts_attemptGen s) d)"

fun cancel_queue :: "string \<Rightarrow> 'd decider option \<Rightarrow> int64 \<Rightarrow> nat list \<Rightarrow> 'd \<Rightarrow> Registry \<Rightarrow> nat list \<times> 'd \<times> Registry" where
  "cancel_queue chatID decider now [] d r = ([], d, r)"
| "cancel_queue chatID decider now (a # as) d r =
     (if peer_matches chatID (ts_request (cell r a))
      then let (ok, d1) = consult decider (cell r a) d
           in if ok then cancel_queue chatID decider now as d1 (cancel_cell ''target disabled by user'' now a r)
              else let (q, d2, r2) = cancel_queue chatID decider now as d1 r in (a # q, d2, r2)
      else let (q, d2, r2) = cancel_queue chatID decider now as d r in (a # q, d2, r2))"

fun cancel_map :: "string \<Rightarrow> 'd decider option \<Rightarrow> int64 \<Rightarrow> string list \<Rightarrow> 'd \<Rightarrow> Registry \<Rightarrow> 'd \<times> Registry" where
  "cancel_map chatID decider now [] d r = (d, r)"
| "cancel_map chatID decider now (tid # ord) d r = (case rg_tasks r tid of
     None \<Rightarrow> cancel_map chatID decider now ord d r
   | Some a \<Rightarrow>
       if \<not> isTerminal (ts_state (cell r a)) \<and> peer_matches chatID (ts_request (cell r a))
       then let (ok, d1) = consult decider (cell r a) d
            in cancel_map chatID decider now ord d1 (if ok then cancel_cell ''target disabled by user'' now a r else r)
       else cancel_map chatID decider now ord d r)"

definition CancelTasksByChatIDWithDecider ::
  "string list \<Rightarrow> string \<Rightarrow> 'd decider option \<Rightarrow> int64 \<Rightarrow> 'd \<Rightarrow> Registry \<Rightarrow> 'd \<times> Registry" where
  "CancelTasksByChatIDWithDecider ord chatID decider now d r =
     (let (q, d1, r1) = cancel_queue chatID decider now (rg_queue r) d r;
          (d2, r2) = cancel_map chatID decider now ord d1 (r1\<lparr>rg_queue := q\<rparr>)
      in (d2, signalLocked r2))"

definition CancelTasksByChatID :: "string list \<Rightarrow> string \<Rightarrow> int64 \<Rightarrow> Registry \<Rightarrow> Registry" where
  "CancelTasksByChatID ord chatID now r =
     snd (CancelTasksByChatIDWithDecider ord chatID (None :: unit decider option) now () r)"

section \<open>Progress\<close>

definition add_event :: "int64 \<Rightarrow> int64 \<Rightarrow> nat \<Rightarrow> Registry \<Rightarrow> Registry" where
  "add_event now n a r =
     (let e = \<lparr>ev_at = now, ev_bytes = n\<rparr>;
          r1 = upd_cell a (\<lambda>s. s\<lparr>ts_events := ts_events s @ [e],
                 ts_firstByte := (case ts_firstByte s of None \<Rightarrow> Some now | Some t \<Rightarrow> Some t), ts_lastByte := Some now\<rparr>) r
      in r1\<lparr>rg_events := rg_events r1 @ [e],
            rg_firstByte := (case rg_firstByte r1 of None \<Rightarrow> Some now | Some t \<Rightarrow> Some t), rg_lastByte := Some now\<rparr>)"

definition RecordProgress :: "Task \<Rightarrow> int64 \<Rightarrow> int64 \<Rightarrow> Registry \<Rightarrow> Registry" where
  "RecordProgress t got now r =
     (if got \<le> 0 then r
      else if stale t r then r
      else let a = tk_state t; s = cell r a
      in if isTerminal (ts_state s) then r
      else let r1 = upd_cell a (\<lambda>s. s\<lparr>ts_hasNetworkProgress := True\<rparr>) r;
               dl = (if ts_totalSize s > 0 \<and> got > ts_totalSize s then ts_totalSize s else got);
               diff = i64 (dl - ts_netDownloaded s)
           in if diff \<le> 0 then r1
              else add_event now diff a (upd_cell a (\<lambda>s. s\<lparr>ts_netDownloaded := dl\<rparr>) r1))"

definition RecordWrite :: "Task \<Rightarrow> int64 \<Rightarrow> int64 \<Rightarrow> int64 \<Rightarrow> Registry \<Rightarrow> int64 \<times> Registry" where
  "RecordWrite t offset sz now r =
     (if sz \<le> 0 \<or> offset < 0 then (0, r)
      else if stale t r then (0, r)
      else let a = tk_state t; s = cell r a; fin = i64 (offset + sz)
      in if fin < offset then (0, r)
      else let fin' = (if ts_totalSize s > 0 \<and> fin > ts_totalSize s then ts_totalSize s else fin)
      in if fin' \<le> offset then (0, r)
      else let (rs, uniq) = addRange (ts_ranges s) offset fin'
      in if uniq = 0 then (0, upd_cell a (\<lambda>s. s\<lparr>ts_ranges := rs\<rparr>) r)
      else let r1 = upd_cell a (\<lambda>s. s\<lparr>ts_ranges := rs, ts_downloaded := i64 (ts_downloaded s + uniq)\<rparr>) r
           in (uniq, if ts_hasNetworkProgress s then r1 else add_event now uniq a r1))"

end
