(* ===== verification/Registry_Safety.thy ===== *)
theory Registry_Safety
  imports Task_Registry
begin

text \<open>
  The calls on the registry as a command type, and that an attempt that has ended keeps its verdict under every
  sequence of them.
\<close>

declare split_paired_All [simp del] split_paired_Ex [simp del]

section \<open>Commands\<close>

text \<open>The calls on the registry and on its tasks.\<close>

datatype reg_cmd =
    RSubmit TaskRequest
  | RRetry string "TaskRequest option" "(string \<Rightarrow> unit \<Rightarrow> db_error option \<times> unit) option"
  | RNext
  | RRequeue Task
  | RParent "nat option"
  | RPaused bool
  | RPool PoolSnapshot
  | RLastError string
  | RTask string
  | RStatus "string list"
  | RSnapshot Task
  | RResolved Task string int64 int
  | RFinalPath Task string
  | RDownloading Task
  | RPublishing Task
  | RTelemetry Task int64 int64 int64 int64 int64 "string list"
  | RSucceed Task PublishResult
  | RFail Task FailureDisposition
  | RProgress Task int64
  | RWrite Task int64 int64
  | RFinish string string TaskState string string string bool string
  | RFinishMsg "string list" string int string TaskState string string string bool string
  | RRecovered string string string int64
  | RCancel string string
  | RCancelChat "string list" string "unit decider option"

fun run_reg :: "int64 \<Rightarrow> reg_cmd \<Rightarrow> Registry \<Rightarrow> Registry" where
  "run_reg now (RSubmit q) r = snd (Submit now q r)"
| "run_reg now (RRetry tid q d) r = snd (snd (RetryTaskWithDecider now tid q d () r))"
| "run_reg now RNext r = snd (Next now [] r)"
| "run_reg now (RRequeue t) r = snd (Requeue t r)"
| "run_reg now (RParent ctx) r = SetParentContext ctx r"
| "run_reg now (RPaused b) r = SetPaused b r"
| "run_reg now (RPool p) r = SetPool p r"
| "run_reg now (RLastError e) r = SetLastError e r"
| "run_reg now (RTask tid) r = snd (reg_Task tid now r)"
| "run_reg now (RStatus ord) r = snd (Status ord now r)"
| "run_reg now (RSnapshot t) r = snd (Snapshot t now r)"
| "run_reg now (RResolved t f n d) r = SetResolved t f n d r"
| "run_reg now (RFinalPath t p) r = SetFinalPath t p r"
| "run_reg now (RDownloading t) r = SetDownloading t r"
| "run_reg now (RPublishing t) r = snd (SetPublishing t r)"
| "run_reg now (RTelemetry t w wi re q p ids) r = RecordTransferTelemetry t w wi re q p ids r"
| "run_reg now (RSucceed t p) r = SucceedResult t p now r"
| "run_reg now (RFail t d) r = FailDisposition t d now r"
| "run_reg now (RProgress t n) r = RecordProgress t n now r"
| "run_reg now (RWrite t off n) r = snd (RecordWrite t off n now r)"
| "run_reg now (RFinish tid g st c m p al s) r = snd (FinishTask tid g st c m p al s now r)"
| "run_reg now (RFinishMsg ord ch mid g st c m p al s) r = snd (FinishTaskByMessage ord ch mid g st c m p al s now r)"
| "run_reg now (RRecovered tid g p n) r = RegisterRecoveredTask tid g p n now r"
| "run_reg now (RCancel tid e) r = Cancel tid e now r"
| "run_reg now (RCancelChat ord ch d) r = snd (CancelTasksByChatIDWithDecider ord ch d now () r)"

definition run_regs :: "(int64 \<times> reg_cmd) list \<Rightarrow> Registry \<Rightarrow> Registry" where
  "run_regs cs r = fold (\<lambda>(now, c). run_reg now c) cs r"

lemma run_regs_simps [simp]:
  "run_regs [] r = r" "run_regs ((now, c) # cs) r = run_regs cs (run_reg now c r)"
  by (simp_all add: run_regs_def)

text \<open>The calls that are an update of fields.\<close>

lemmas call_defs = SetParentContext_def SetPaused_def SetPool_def SetLastError_def Snapshot_def SetResolved_def SetFinalPath_def
  SetDownloading_def SetPublishing_def RecordTransferTelemetry_def FinishTask_def

section \<open>Ended attempts\<close>

text \<open>What the registry says about an attempt that has ended; its counters may still be updated.\<close>

definition verdict :: "taskState \<Rightarrow> TaskRequest \<times> TaskState \<times> string \<times> string \<times> bool \<times> string list \<times> bool \<times> string \<times> int64 option" where
  "verdict s = (ts_request s, ts_state s, ts_attemptGen s, ts_sha256 s, ts_alreadyExists s,
     [ts_errorStage s, ts_errorOp s, ts_errorClass s, ts_errorText s], ts_retryable s, ts_retryOwner s, ts_finishedAt s)"

lemma verdict_state: "verdict s = verdict s' \<Longrightarrow> ts_state s = ts_state s'"
  by (simp add: verdict_def)

text \<open>The attempt in cell \<open>a\<close> has ended, is not queued, and has the verdict \<open>v\<close>.\<close>

definition sealed where
  "sealed v a r \<longleftrightarrow> a < length (rg_heap r) \<and> isTerminal (ts_state (cell r a)) \<and> a \<notin> set (rg_queue r) \<and> verdict (cell r a) = v"

lemma cell_upd: "a < length (rg_heap r) \<Longrightarrow> cell (upd_cell b f r) a = (if a = b then f (cell r b) else cell r a)"
  by (simp add: cell_def upd_cell_def nth_list_update)

lemma upd_cell_fields [simp]:
  "rg_queue (upd_cell b f r) = rg_queue r" "rg_tasks (upd_cell b f r) = rg_tasks r"
  "rg_terminalOrder (upd_cell b f r) = rg_terminalOrder r" "length (rg_heap (upd_cell b f r)) = length (rg_heap r)"
  "rg_queueCapacity (upd_cell b f r) = rg_queueCapacity r" "rg_terminalLimit (upd_cell b f r) = rg_terminalLimit r"
  "rg_paused (upd_cell b f r) = rg_paused r"
  "rg_cumulativeWireBytes (upd_cell b f r) = rg_cumulativeWireBytes r"
  "rg_cumulativePayloadBytes (upd_cell b f r) = rg_cumulativePayloadBytes r"
  "rg_cumulativeRetries (upd_cell b f r) = rg_cumulativeRetries r"
  by (simp_all add: upd_cell_def)

text \<open>The ways in which commands change the cells and the queue.\<close>

lemma sealed_cong:
  "rg_heap r' = rg_heap r \<Longrightarrow> set (rg_queue r') \<subseteq> set (rg_queue r) \<Longrightarrow> sealed v a r \<Longrightarrow> sealed v a r'"
  by (auto simp: sealed_def cell_def)

lemma sealed_soft:
  "(\<And>s. verdict (f s) = verdict s) \<Longrightarrow> sealed v a r \<Longrightarrow> sealed v a (upd_cell b f r)"
  using verdict_state [of "f (cell r b)" "cell r b"] by (auto simp: sealed_def cell_upd)

lemma sealed_live:
  "\<not> isTerminal (ts_state (cell r b)) \<Longrightarrow> sealed v a r \<Longrightarrow> sealed v a (upd_cell b f r)"
  by (auto simp: sealed_def cell_upd)

lemma sealed_queued:
  "b \<in> set (rg_queue r) \<Longrightarrow> sealed v a r \<Longrightarrow> sealed v a (upd_cell b f r)"
  by (auto simp: sealed_def cell_upd)

lemma sealed_new:
  "sealed v a r \<Longrightarrow> sealed v a (r\<lparr>rg_heap := rg_heap r @ [s], rg_tasks := t, rg_queue := rg_queue r @ [length (rg_heap r)]\<rparr>)"
  by (auto simp: sealed_def cell_def nth_append)

lemma verdict_soft [simp]:
  "verdict (s\<lparr>ts_events := e\<rparr>) = verdict s" "verdict (s\<lparr>ts_ranges := rs\<rparr>) = verdict s"
  "verdict (s\<lparr>ts_downloaded := n\<rparr>) = verdict s" "verdict (s\<lparr>ts_wireBytes := n\<rparr>) = verdict s"
  "verdict (s\<lparr>ts_replayBytes := n\<rparr>) = verdict s" "verdict (s\<lparr>ts_requestCount := n\<rparr>) = verdict s"
  "verdict (s\<lparr>ts_physicalRetries := n\<rparr>) = verdict s" "verdict (s\<lparr>ts_physicalAttemptID := x\<rparr>) = verdict s"
  "verdict (s\<lparr>ts_netDownloaded := n\<rparr>) = verdict s" "verdict (s\<lparr>ts_hasNetworkProgress := b\<rparr>) = verdict s"
  "verdict (s\<lparr>ts_firstByte := t\<rparr>) = verdict s" "verdict (s\<lparr>ts_lastByte := t\<rparr>) = verdict s"
  by (simp_all add: verdict_def)

lemma sealed_fields [simp]:
  "sealed v a (r\<lparr>rg_wake := b\<rparr>) = sealed v a r" "sealed v a (r\<lparr>rg_paused := b\<rparr>) = sealed v a r"
  "sealed v a (r\<lparr>rg_events := e\<rparr>) = sealed v a r" "sealed v a (r\<lparr>rg_firstByte := t\<rparr>) = sealed v a r"
  "sealed v a (r\<lparr>rg_lastByte := t\<rparr>) = sealed v a r" "sealed v a (r\<lparr>rg_lastError := m\<rparr>) = sealed v a r"
  "sealed v a (r\<lparr>rg_pool := p\<rparr>) = sealed v a r" "sealed v a (r\<lparr>rg_tasks := ts\<rparr>) = sealed v a r"
  "sealed v a (r\<lparr>rg_terminalOrder := o1\<rparr>) = sealed v a r" "sealed v a (r\<lparr>rg_parentCtx := n\<rparr>) = sealed v a r"
  "sealed v a (archiveOldTaskMetricsLocked c r) = sealed v a r"
  "sealed v a (removeTerminalLocked tid r) = sealed v a r" "sealed v a (signalLocked r) = sealed v a r"
  by (simp_all add: sealed_def cell_def archiveOldTaskMetricsLocked_def removeTerminalLocked_def signalLocked_def)

lemma sealed_snapshot [inv_intros]: "sealed v a r \<Longrightarrow> sealed v a (snd (snapshotTaskLocked b now r))"
  by (simp add: snapshotTaskLocked_def sealed_soft)

lemma sealed_snapshots [inv_intros]: "sealed v a r \<Longrightarrow> sealed v a (snd (snapshots ids now r))"
  by (induction ids arbitrary: r)
    (simp_all add: Let_def split_beta sealed_snapshot split: option.split)

lemma sealed_alloc: "sealed v a r \<Longrightarrow> sealed v a (r\<lparr>rg_heap := rg_heap r @ [s]\<rparr>)"
  by (auto simp: sealed_def cell_def nth_append)

lemma sealed_new_addr: "sealed v a r \<Longrightarrow> length (rg_heap r) \<noteq> a"
  by (auto simp: sealed_def)

lemma sealed_enqueue [simp]: "sealed v a (enqueue n r) \<longleftrightarrow> sealed v a r \<and> n \<noteq> a"
  by (auto simp: sealed_def enqueue_def signalLocked_def cell_def)

lemma sealed_Submit [inv_intros]: "sealed v a r \<Longrightarrow> sealed v a (snd (Submit now q r))"
  unfolding Submit_def
  by (simp add: Let_def alloc_def snapshotTaskLocked_def sealed_soft sealed_alloc sealed_new_addr split: option.split)

lemma heap_removed [simp]:
  "rg_heap (removeTerminalLocked tid r) = rg_heap r" "rg_heap (archiveOldTaskMetricsLocked b r) = rg_heap r"
  by (simp_all add: removeTerminalLocked_def archiveOldTaskMetricsLocked_def)

lemma sealed_Retry [inv_intros]: "sealed v a r \<Longrightarrow> sealed v a (snd (snd (RetryTaskWithDecider now tid q d u r)))"
  unfolding RetryTaskWithDecider_def
  by (cases "rg_tasks r tid")
    (simp_all add: Let_def split_beta alloc_def snapshotTaskLocked_def sealed_new_addr sealed_soft sealed_alloc
      sealed_alloc [of _ _ "removeTerminalLocked tid (archiveOldTaskMetricsLocked x r)" for x, simplified] split: option.split)

lemma sealed_Next [inv_intros]: "sealed v a r \<Longrightarrow> sealed v a (snd (Next now [] r))"
proof -
  assume s: "sealed v a r"
  then have "rg_queue r \<noteq> [] \<Longrightarrow> hd (rg_queue r) \<noteq> a" by (auto simp: sealed_def dest: hd_in_set)
  with s show ?thesis
    by (auto simp: Next.simps [of now "[]"] Let_def sealed_def signalLocked_def cell_def upd_cell_def
        dest: list.set_sel(2))
qed

lemma sealed_Requeue [inv_intros]: "sealed v a r \<Longrightarrow> sealed v a (snd (Requeue t r))"
  by (auto simp: Requeue_def sealed_live) (simp add: sealed_def)

lemma sealed_update [inv_intros]: "sealed v a r \<Longrightarrow> sealed v a (fst (tk_update t f r))"
  by (simp add: tk_update_def sealed_live)

lemma sealed_prune_loop [simp]: "sealed v a (prune_loop ids r) = sealed v a r"
  by (induction ids r rule: prune_loop.induct) (auto split: option.splits)

lemma sealed_finish_cell:
  "\<not> isTerminal (ts_state (cell r b)) \<Longrightarrow> sealed v a r \<Longrightarrow> sealed v a (finish_cell b st e m p al s now r)"
  by (simp add: finish_cell_def Let_def pruneTerminalOrderLocked_def sealed_live)

lemma sealed_finish [inv_intros]:
  "sealed v a r \<Longrightarrow> sealed v a (snd (finishWithGen b g st stage op cls m re ro p al s now r))"
  "sealed v a r \<Longrightarrow> sealed v a (snd (finish_guarded lax b g st cls m p al s now r))"
  by (simp_all add: finishWithGen_def finish_guarded_def sealed_finish_cell)

lemma sealed_FinishMsg [inv_intros]:
  "sealed v a r \<Longrightarrow> sealed v a (snd (FinishTaskByMessage ord ch mid g st cls m p al s now r))"
  by (induction ord) (simp_all add: sealed_finish split: option.split)

lemma sealed_cancel_cell:
  "sealed v a r \<Longrightarrow> \<not> isTerminal (ts_state (cell r b)) \<or> b \<in> set (rg_queue r) \<Longrightarrow> sealed v a (cancel_cell m now b r)"
  by (auto simp: cancel_cell_def sealed_live sealed_queued)

lemma cancel_cell_queue [simp]: "rg_queue (cancel_cell m now b r) = rg_queue r" "rg_tasks (cancel_cell m now b r) = rg_tasks r"
  by (simp_all add: cancel_cell_def)

lemma sealed_cancel_fold:
  "sealed v a r \<Longrightarrow> set bs \<subseteq> set (rg_queue r) \<Longrightarrow>
    sealed v a (fold (cancel_cell m now) bs r) \<and> rg_queue (fold (cancel_cell m now) bs r) = rg_queue r"
  by (induction bs arbitrary: r) (simp_all add: sealed_cancel_cell)

lemma sealed_queue_sub:
  "sealed v a r \<Longrightarrow> set q \<subseteq> set (rg_queue r) \<Longrightarrow> sealed v a (r\<lparr>rg_queue := q\<rparr>)"
  by (rule sealed_cong) simp_all

lemma sealed_Cancel [inv_intros]: "sealed v a r \<Longrightarrow> sealed v a (Cancel tid m now r)"
proof -
  assume s: "sealed v a r"
  let ?hit = "\<lambda>b. q_ID (ts_request (cell r b)) = tid"
  let ?m = "if m \<noteq> [] then m else ''task canceled''"
  have f: "sealed v a (fold (cancel_cell ?m now) (filter ?hit (rg_queue r)) r)"
    "rg_queue (fold (cancel_cell ?m now) (filter ?hit (rg_queue r)) r) = rg_queue r"
    using sealed_cancel_fold [OF s, of "filter ?hit (rg_queue r)" ?m now] by auto
  have "sealed v a ((fold (cancel_cell ?m now) (filter ?hit (rg_queue r)) r)\<lparr>rg_queue := filter (\<lambda>b. \<not> ?hit b) (rg_queue r)\<rparr>)"
    by (rule sealed_queue_sub [OF f(1)]) (auto simp: f(2))
  then show ?thesis
    unfolding Cancel_def Let_def by (simp add: sealed_cancel_cell del: if_not_P split: option.split split del: if_split) (auto simp: sealed_cancel_cell)
qed

lemma sealed_cancel_queue:
  "sealed v a r \<Longrightarrow> set bs \<subseteq> set (rg_queue r) \<Longrightarrow>
    sealed v a (snd (snd (cancel_queue ch d now bs u r))) \<and> set (fst (cancel_queue ch d now bs u r)) \<subseteq> set bs \<and>
    rg_queue (snd (snd (cancel_queue ch d now bs u r))) = rg_queue r"
  by (induction bs arbitrary: u r) (simp_all add: Let_def split_beta sealed_cancel_cell subset_insertI2)

lemma sealed_cancel_map: "sealed v a r \<Longrightarrow> sealed v a (snd (cancel_map ch d now ord u r))"
  by (induction ord arbitrary: u r) (simp_all add: Let_def split_beta sealed_cancel_cell split: option.split)

lemma sealed_CancelChat [inv_intros]: "sealed v a r \<Longrightarrow> sealed v a (snd (CancelTasksByChatIDWithDecider ord ch d now u r))"
  using sealed_cancel_queue [of v a r "rg_queue r" ch d now u]
  by (simp add: CancelTasksByChatIDWithDecider_def Let_def split_beta sealed_cancel_map sealed_queue_sub)

lemma sealed_add_event: "sealed v a r \<Longrightarrow> sealed v a (add_event now n b r)"
  by (simp add: add_event_def Let_def sealed_soft)

lemma sealed_RecordProgress [inv_intros]: "sealed v a r \<Longrightarrow> sealed v a (RecordProgress t n now r)"
  by (simp add: RecordProgress_def Let_def sealed_soft sealed_add_event)

lemma sealed_RecordWrite [inv_intros]: "sealed v a r \<Longrightarrow> sealed v a (snd (RecordWrite t off n now r))"
  by (simp add: RecordWrite_def Let_def split_beta sealed_add_event sealed_soft)

lemma sealed_run: "sealed v a r \<Longrightarrow> sealed v a (run_reg now c r)"
proof (cases c)
  case (RTask tid)
  moreover assume "sealed v a r"
  ultimately show ?thesis by (simp add: reg_Task_def split_beta Let_def sealed_snapshot split: option.split)
next
  case (RStatus ord)
  moreover assume "sealed v a r"
  ultimately show ?thesis by (simp add: Status_def Let_def split_beta sealed_snapshots)
next
  case (RSucceed t p)
  moreover assume "sealed v a r"
  ultimately show ?thesis by (simp add: SucceedResult_def sealed_finish sealed_soft)
next
  case (RFail t d)
  moreover assume "sealed v a r"
  ultimately show ?thesis by (simp add: FailDisposition_def sealed_finish sealed_soft)
next
  case (RRecovered tid g p n)
  moreover assume "sealed v a r"
  ultimately show ?thesis by (simp add: RegisterRecoveredTask_def Let_def alloc_def sealed_alloc)
qed (simp_all add: inv_intros call_defs split_beta sealed_soft split: option.split)

interpretation seal: call_system "\<lambda>(now, c). run_reg now c" "sealed v a" "\<lambda>_. True" for v a
  by unfold_locales (auto intro: sealed_run)

lemma sealed_runs: "sealed v a r \<Longrightarrow> sealed v a (run_regs cs r)"
  using seal.inv_fold [of v a r cs] by (simp add: run_regs_def list_all_iff)


end
