(* ===== verification/Registry_Totals.thy ===== *)
theory Registry_Totals
  imports Registry_Safety
begin

text \<open>
  Well-formedness of the reachable registries, conservation of the totals that \<open>Status\<close> reports, and the bounds on the
  lists of the registry.
\<close>

declare split_paired_All [simp del] split_paired_Ex [simp del]

section \<open>Well-formedness and totals\<close>

text \<open>The map, the queue and the cells fit together.\<close>

definition reg_ok :: "Registry \<Rightarrow> bool" where
  "reg_ok r \<longleftrightarrow> finite (dom (rg_tasks r)) \<and> set (rg_queue r) \<subseteq> {..<length (rg_heap r)} \<and>
     (\<forall>tid a. rg_tasks r tid = Some a \<longrightarrow> a < length (rg_heap r) \<and> q_ID (ts_request (cell r a)) = tid)"

text \<open>The three counters that \<open>Status\<close> adds up.\<close>

datatype metric = Wire | Payload | Retries

fun metric_of :: "metric \<Rightarrow> taskState \<Rightarrow> int64" where
  "metric_of Wire s = ts_wireBytes s"
| "metric_of Payload s = ts_downloaded s"
| "metric_of Retries s = ts_physicalRetries s"

fun cum_of :: "metric \<Rightarrow> Registry \<Rightarrow> int64" where
  "cum_of Wire r = rg_cumulativeWireBytes r"
| "cum_of Payload r = rg_cumulativePayloadBytes r"
| "cum_of Retries r = rg_cumulativeRetries r"

definition task_metrics :: "metric \<Rightarrow> Registry \<Rightarrow> string \<rightharpoonup> int" where
  "task_metrics m r = (\<lambda>tid. map_option (\<lambda>a. metric_of m (cell r a)) (rg_tasks r tid))"

definition total :: "metric \<Rightarrow> Registry \<Rightarrow> int64" where
  "total m r = i64 (cum_of m r + sum_map (task_metrics m r))"

lemma dom_task_metrics [simp]: "dom (task_metrics m r) = dom (rg_tasks r)"
  by (auto simp: task_metrics_def)

text \<open>\<open>Status\<close> reports the totals.\<close>

lemma total_over_sum:
  "distinct ord \<Longrightarrow> set ord \<subseteq> dom (rg_tasks r) \<Longrightarrow>
    total_over (metric_of m) ord r start = i64 (start + (\<Sum>tid\<in>set ord. the (task_metrics m r tid))) \<or> ord = []"
proof (induction ord arbitrary: start)
  case (Cons tid ord)
  then obtain a where a: "rg_tasks r tid = Some a" by auto
  show ?case
  proof (cases "ord = []")
    case True
    with a show ?thesis by (simp add: total_over_def task_metrics_def)
  next
    case False
    have "total_over (metric_of m) (tid # ord) r start = total_over (metric_of m) ord r (i64 (start + metric_of m (cell r a)))"
      by (simp add: total_over_def a)
    also have "\<dots> = i64 (i64 (start + metric_of m (cell r a)) + (\<Sum>tid\<in>set ord. the (task_metrics m r tid)))"
      using Cons False by simp
    finally show ?thesis using Cons.prems a by (simp add: i64_add task_metrics_def add.assoc)
  qed
qed simp

lemma total_over_total:
  assumes "distinct ord" and "set ord = dom (rg_tasks r)" and "fits64 (cum_of m r)"
  shows "total_over (metric_of m) ord r (cum_of m r) = total m r"
proof (cases "ord = []")
  case True
  then have "rg_tasks r = Map.empty" using assms(2) by (metis dom_eq_empty_conv list.set(1))
  with True assms(3) show ?thesis
    by (simp add: total_over_def total_def task_metrics_def sum_map_def i64_id)
next
  case False
  with total_over_sum [OF assms(1), of r m "cum_of m r"] assms(2) show ?thesis
    by (simp add: total_def sum_map_def)
qed

text \<open>The registry is well formed and its totals are \<open>v\<close>.\<close>

definition totals :: "(metric \<Rightarrow> int64) \<Rightarrow> Registry \<Rightarrow> bool" where
  "totals v r \<longleftrightarrow> reg_ok r \<and> (\<forall>m. fits64 (cum_of m r) \<and> total m r = v m)"

lemma cell_upd_any: "cell (upd_cell b f r) a = (if a = b \<and> b < length (rg_heap r) then f (cell r b) else cell r a)"
  by (cases "b < length (rg_heap r)") (auto simp: cell_def upd_cell_def list_update_beyond nth_list_update)

lemma reg_ok_upd: "(\<And>s. q_ID (ts_request (f s)) = q_ID (ts_request s)) \<Longrightarrow> reg_ok r \<Longrightarrow> reg_ok (upd_cell b f r)"
  by (auto simp: reg_ok_def cell_upd_any)

lemma cum_of_upd [simp]: "cum_of m (upd_cell b f r) = cum_of m r"
  by (cases m) simp_all

lemma totals_upd:
  assumes "\<And>s. q_ID (ts_request (f s)) = q_ID (ts_request s)" and "\<And>m s. metric_of m (f s) = metric_of m s" and "totals v r"
  shows "totals v (upd_cell b f r)"
proof -
  have "task_metrics m (upd_cell b f r) = task_metrics m r" for m
    by (rule ext) (auto simp: task_metrics_def cell_upd_any assms(2) intro!: option.map_cong)
  then show ?thesis using assms(1,3) by (simp add: totals_def total_def reg_ok_upd)
qed

lemma totals_cong:
  "rg_heap r' = rg_heap r \<Longrightarrow> rg_tasks r' = rg_tasks r \<Longrightarrow> set (rg_queue r') \<subseteq> set (rg_queue r) \<Longrightarrow>
    (\<And>m. cum_of m r' = cum_of m r) \<Longrightarrow> totals v r \<Longrightarrow> totals v r'"
  by (auto simp: totals_def total_def reg_ok_def task_metrics_def cell_def)

lemma metric_iff: "(\<forall>m. P m) \<longleftrightarrow> P Wire \<and> P Payload \<and> P Retries"
  by (metis metric.exhaust)

lemma totals_fields [simp]:
  "totals v (r\<lparr>rg_wake := b\<rparr>) = totals v r" "totals v (r\<lparr>rg_paused := b\<rparr>) = totals v r"
  "totals v (r\<lparr>rg_events := e\<rparr>) = totals v r" "totals v (r\<lparr>rg_firstByte := t\<rparr>) = totals v r"
  "totals v (r\<lparr>rg_lastByte := t\<rparr>) = totals v r" "totals v (r\<lparr>rg_lastError := x\<rparr>) = totals v r"
  "totals v (r\<lparr>rg_pool := p\<rparr>) = totals v r" "totals v (r\<lparr>rg_terminalOrder := o1\<rparr>) = totals v r"
  "totals v (r\<lparr>rg_parentCtx := n\<rparr>) = totals v r" "totals v (removeTerminalLocked tid r) = totals v r" "totals v (signalLocked r) = totals v r"
  by (simp_all add: totals_def total_def reg_ok_def task_metrics_def cell_def metric_iff removeTerminalLocked_def
      signalLocked_def)

lemma cum_of_fields [simp]:
  "cum_of m (r\<lparr>rg_heap := h\<rparr>) = cum_of m r" "cum_of m (r\<lparr>rg_tasks := ts\<rparr>) = cum_of m r"
  "cum_of m (r\<lparr>rg_queue := q\<rparr>) = cum_of m r" "cum_of m (signalLocked r) = cum_of m r"
  by (cases m; simp add: signalLocked_def)+

lemma cum_of_archive [simp]: "cum_of m (archiveOldTaskMetricsLocked a r) = i64 (cum_of m r + metric_of m (cell r a))"
  by (cases m) (simp_all add: archiveOldTaskMetricsLocked_def)

lemma archive_fields [simp]:
  "rg_tasks (archiveOldTaskMetricsLocked a r) = rg_tasks r" "rg_queue (archiveOldTaskMetricsLocked a r) = rg_queue r"
  "cell (archiveOldTaskMetricsLocked a r) b = cell r b"
  "rg_terminalOrder (archiveOldTaskMetricsLocked a r) = rg_terminalOrder r"
  "rg_terminalLimit (archiveOldTaskMetricsLocked a r) = rg_terminalLimit r"
  "rg_queueCapacity (archiveOldTaskMetricsLocked a r) = rg_queueCapacity r"
  by (simp_all add: archiveOldTaskMetricsLocked_def cell_def)

lemma totals_drop:
  assumes "totals v r" and "rg_tasks r tid = Some a"
  shows "totals v ((archiveOldTaskMetricsLocked a r)\<lparr>rg_tasks := (rg_tasks r)(tid := None)\<rparr>)"
proof -
  let ?r = "(archiveOldTaskMetricsLocked a r)\<lparr>rg_tasks := (rg_tasks r)(tid := None)\<rparr>"
  have ok: "reg_ok r" using assms(1) by (simp add: totals_def)
  have "reg_ok ?r" using ok by (auto simp: reg_ok_def cell_def)
  moreover have "total m ?r = total m r" for m
  proof -
    have "task_metrics m ?r = (task_metrics m r)(tid := None)"
      by (auto simp: task_metrics_def cell_def)
    then have "sum_map (task_metrics m ?r) = sum_map (task_metrics m r) - metric_of m (cell r a)"
      using ok assms(2) by (simp add: sum_map_delete reg_ok_def) (simp add: task_metrics_def)
    then show ?thesis by (simp add: total_def i64_add)
  qed
  ultimately show ?thesis using assms(1) by (simp add: totals_def i64_fits)
qed

lemma totals_alloc: "totals v r \<Longrightarrow> totals v (r\<lparr>rg_heap := rg_heap r @ [s]\<rparr>)"
proof -
  assume t: "totals v r"
  then have ok: "reg_ok r" by (simp add: totals_def)
  have old: "cell (r\<lparr>rg_heap := rg_heap r @ [s]\<rparr>) a = cell r a" if "rg_tasks r tid = Some a" for tid a
    using ok that by (auto simp: reg_ok_def cell_def nth_append)
  then have "reg_ok (r\<lparr>rg_heap := rg_heap r @ [s]\<rparr>)"
    using ok by (fastforce simp: reg_ok_def)
  moreover have "task_metrics m (r\<lparr>rg_heap := rg_heap r @ [s]\<rparr>) = task_metrics m r" for m
    by (rule ext) (auto simp: task_metrics_def old intro!: option.map_cong)
  ultimately show ?thesis using t by (simp add: totals_def total_def)
qed

lemma totals_insert:
  assumes "totals v r" and "rg_tasks r tid = None" and "a < length (rg_heap r)" and "q_ID (ts_request (cell r a)) = tid"
    and "\<And>m. metric_of m (cell r a) = 0"
  shows "totals v (r\<lparr>rg_tasks := (rg_tasks r)(tid \<mapsto> a)\<rparr>)"
proof -
  have ok: "reg_ok r" using assms(1) by (simp add: totals_def)
  then have "reg_ok (r\<lparr>rg_tasks := (rg_tasks r)(tid \<mapsto> a)\<rparr>)" using assms(3,4) by (auto simp: reg_ok_def cell_def)
  moreover have "sum_map (task_metrics m (r\<lparr>rg_tasks := (rg_tasks r)(tid \<mapsto> a)\<rparr>)) = sum_map (task_metrics m r)" for m
  proof -
    have "task_metrics m (r\<lparr>rg_tasks := (rg_tasks r)(tid \<mapsto> a)\<rparr>) = (task_metrics m r)(tid \<mapsto> 0)"
      using assms(5) [of m] by (auto simp: task_metrics_def cell_def)
    moreover have "task_metrics m r tid = None" using assms(2) by (simp add: task_metrics_def)
    ultimately show ?thesis using ok by (simp add: sum_map_update reg_ok_def)
  qed
  ultimately show ?thesis using assms(1) by (simp add: totals_def total_def)
qed

lemma totals_replace:
  assumes "totals v r" and "rg_tasks r tid = Some a" and "b < length (rg_heap r)" and "q_ID (ts_request (cell r b)) = tid"
    and "\<And>m. metric_of m (cell r b) = 0"
  shows "totals v ((archiveOldTaskMetricsLocked a r)\<lparr>rg_tasks := (rg_tasks r)(tid \<mapsto> b)\<rparr>)"
  using totals_insert [OF totals_drop [OF assms(1,2)], of tid b] assms(3-5) by (simp add: cell_def)

lemma totals_enqueue: "n < length (rg_heap r) \<Longrightarrow> totals v r \<Longrightarrow> totals v (enqueue n r)"
  by (auto simp: totals_def total_def reg_ok_def task_metrics_def cell_def enqueue_def signalLocked_def metric_iff)

lemma new_metrics [simp]: "metric_of m (new_state q st n now g k ctx) = 0" "ts_request (new_state q st n now g k ctx) = q"
  by (cases m; simp add: new_state_def) (simp add: new_state_def)

lemma metric_of_soft: "metric_of m (s\<lparr>ts_events := e\<rparr>) = metric_of m s"
  by (cases m) simp_all

lemma totals_snapshot [inv_intros]: "totals v r \<Longrightarrow> totals v (snd (snapshotTaskLocked b now r))"
  by (simp add: snapshotTaskLocked_def totals_upd metric_of_soft)

lemma totals_snapshots [inv_intros]: "totals v r \<Longrightarrow> totals v (snd (snapshots ids now r))"
  by (induction ids arbitrary: r) (simp_all add: Let_def split_beta totals_snapshot split: option.split)

text \<open>Admission of a new attempt, first or in place of an earlier one.\<close>

lemma cell_fields [simp]:
  "cell (r\<lparr>rg_tasks := ts\<rparr>) = cell r" "cell (r\<lparr>rg_queue := q\<rparr>) = cell r" "cell (removeTerminalLocked tid r) = cell r"
  "rg_tasks (removeTerminalLocked tid r) = rg_tasks r"
  by (simp_all add: cell_def removeTerminalLocked_def fun_eq_iff)

lemma cell_alloc [simp]: "cell (r\<lparr>rg_heap := rg_heap r @ [s]\<rparr>) (length (rg_heap r)) = s"
  by (simp add: cell_def)

lemma totals_new_first:
  "totals v r \<Longrightarrow> rg_tasks r tid = None \<Longrightarrow> q_ID q = tid \<Longrightarrow>
    totals v (enqueue (length (rg_heap r)) (r\<lparr>rg_heap := rg_heap r @ [new_state q st n now g k c],
      rg_tasks := (rg_tasks r)(tid \<mapsto> length (rg_heap r))\<rparr>))"
  using totals_insert [OF totals_alloc [of v r "new_state q st n now g k c"], of tid "length (rg_heap r)"]
  by (simp add: totals_enqueue)

lemma totals_new_again:
  "totals v r \<Longrightarrow> rg_tasks r tid = Some a \<Longrightarrow> q_ID q = tid \<Longrightarrow>
    totals v (enqueue (length (rg_heap r)) (removeTerminalLocked tid
      ((archiveOldTaskMetricsLocked a (r\<lparr>rg_heap := rg_heap r @ [new_state q st n now g k c]\<rparr>))
        \<lparr>rg_tasks := (rg_tasks r)(tid \<mapsto> length (rg_heap r))\<rparr>)))"
  using totals_replace [OF totals_alloc [of v r "new_state q st n now g k c"], of tid a "length (rg_heap r)"]
  by (simp add: totals_enqueue)

lemma totals_Submit [inv_intros]: "totals v r \<Longrightarrow> totals v (snd (Submit now q r))"
  unfolding Submit_def
  using totals_snapshot [of v]
  by (simp add: Let_def alloc_def split_beta totals_new_first totals_new_again split: option.split)

lemma archive_alloc:
  "a < length (rg_heap r) \<Longrightarrow> archiveOldTaskMetricsLocked a (r\<lparr>rg_heap := rg_heap r @ [s]\<rparr>) =
    (archiveOldTaskMetricsLocked a r)\<lparr>rg_heap := rg_heap r @ [s]\<rparr>"
  by (simp add: archiveOldTaskMetricsLocked_def cell_def nth_append)

lemma remove_terminal_swap:
  "(removeTerminalLocked tid r)\<lparr>rg_heap := h, rg_tasks := ts\<rparr> = removeTerminalLocked tid (r\<lparr>rg_heap := h, rg_tasks := ts\<rparr>)"
  by (cases r) (simp add: removeTerminalLocked_def)

lemma totals_Retry:
  assumes "totals v r" and "\<And>f. q = Some f \<Longrightarrow> q_ID f = tid"
  shows "totals v (snd (snd (RetryTaskWithDecider now tid q d u r)))"
proof (cases "rg_tasks r tid")
  case None
  with assms show ?thesis
    by (auto simp: RetryTaskWithDecider_def Let_def split_beta alloc_def totals_snapshot totals_new_first split: option.split)
next
  case (Some a)
  then have a: "a < length (rg_heap r)" "q_ID (ts_request (cell r a)) = tid"
    using assms(1) by (auto simp: totals_def reg_ok_def)
  have *: "totals v (enqueue (length (rg_heap r)) ((removeTerminalLocked tid (archiveOldTaskMetricsLocked a r))
      \<lparr>rg_heap := rg_heap r @ [new_state (ts_request (cell r a)) st n now g k c],
        rg_tasks := (rg_tasks r)(tid \<mapsto> length (rg_heap r))\<rparr>))" for st n g k c
    using totals_new_again [OF assms(1) Some a(2), of st n now g k c]
    unfolding archive_alloc [OF a(1)] by (simp add: remove_terminal_swap)
  show ?thesis
    by (simp add: RetryTaskWithDecider_def Some Let_def split_beta alloc_def totals_snapshot * assms(1) split: option.split)
qed

lemma totals_queue: "set q \<subseteq> {..<length (rg_heap r)} \<Longrightarrow> totals v r \<Longrightarrow> totals v (r\<lparr>rg_queue := q\<rparr>)"
  by (auto simp: totals_def total_def reg_ok_def task_metrics_def cell_def metric_iff)

lemma queue_valid: "totals v r \<Longrightarrow> set (rg_queue r) \<subseteq> {..<length (rg_heap r)}"
  by (simp add: totals_def reg_ok_def)

lemma metric_of_record [simp]:
  "metric_of m (s\<lparr>ts_state := st\<rparr>) = metric_of m s" "metric_of m (s\<lparr>ts_startedAt := t\<rparr>) = metric_of m s"
  "metric_of m (s\<lparr>ts_finishedAt := t\<rparr>) = metric_of m s" "metric_of m (s\<lparr>ts_errorStage := x\<rparr>) = metric_of m s"
  "metric_of m (s\<lparr>ts_errorOp := x\<rparr>) = metric_of m s" "metric_of m (s\<lparr>ts_errorClass := x\<rparr>) = metric_of m s"
  "metric_of m (s\<lparr>ts_errorText := x\<rparr>) = metric_of m s" "metric_of m (s\<lparr>ts_retryable := b\<rparr>) = metric_of m s"
  "metric_of m (s\<lparr>ts_retryOwner := x\<rparr>) = metric_of m s" "metric_of m (s\<lparr>ts_cancelled := b\<rparr>) = metric_of m s"
  "metric_of m (s\<lparr>ts_sha256 := x\<rparr>) = metric_of m s" "metric_of m (s\<lparr>ts_alreadyExists := b\<rparr>) = metric_of m s"
  "metric_of m (s\<lparr>ts_request := q\<rparr>) = metric_of m s" "metric_of m (s\<lparr>ts_fileName := x\<rparr>) = metric_of m s"
  "metric_of m (s\<lparr>ts_totalSize := n\<rparr>) = metric_of m s" "metric_of m (s\<lparr>ts_dcID := i\<rparr>) = metric_of m s"
  "metric_of m (s\<lparr>ts_events := e\<rparr>) = metric_of m s" "metric_of m (s\<lparr>ts_firstByte := t\<rparr>) = metric_of m s"
  "metric_of m (s\<lparr>ts_lastByte := t\<rparr>) = metric_of m s" "metric_of m (s\<lparr>ts_netDownloaded := n\<rparr>) = metric_of m s"
  "metric_of m (s\<lparr>ts_hasNetworkProgress := b\<rparr>) = metric_of m s" "metric_of m (s\<lparr>ts_replayBytes := n\<rparr>) = metric_of m s"
  "metric_of m (s\<lparr>ts_requestCount := n\<rparr>) = metric_of m s" "metric_of m (s\<lparr>ts_physicalAttemptID := x\<rparr>) = metric_of m s"
  by (cases m; simp)+

lemma totals_Next [inv_intros]: "totals v r \<Longrightarrow> totals v (snd (Next now [] r))"
proof -
  assume t: "totals v r"
  have "rg_queue r \<noteq> [] \<Longrightarrow> set (tl (rg_queue r)) \<subseteq> {..<length (rg_heap r)}"
    using queue_valid [OF t] by (auto dest: list.set_sel(2))
  with t show ?thesis by (simp add: Next.simps [of now "[]"] Let_def totals_upd totals_queue)
qed

lemma totals_Requeue [inv_intros]: "tk_state t < length (rg_heap r) \<Longrightarrow> totals v r \<Longrightarrow> totals v (snd (Requeue t r))"
  by (simp add: Requeue_def totals_enqueue totals_upd)

lemma totals_update [inv_intros]:
  "(\<And>s. q_ID (ts_request (f s)) = q_ID (ts_request s)) \<Longrightarrow> (\<And>m s. metric_of m (f s) = metric_of m s) \<Longrightarrow> totals v r \<Longrightarrow>
    totals v (fst (tk_update t f r))"
  by (simp add: tk_update_def totals_upd)

lemma totals_prune_loop: "totals v r \<Longrightarrow> totals v (prune_loop ids r)"
  by (induction ids r rule: prune_loop.induct) (auto simp: totals_drop split: option.splits)

lemma totals_finish_cell:
  "(\<And>s. q_ID (ts_request (e s)) = q_ID (ts_request s)) \<Longrightarrow> (\<And>m s. metric_of m (e s) = metric_of m s) \<Longrightarrow> totals v r \<Longrightarrow>
    totals v (finish_cell b st e x p al sha now r)"
  by (simp add: finish_cell_def Let_def pruneTerminalOrderLocked_def totals_prune_loop totals_upd)

lemma totals_finish [inv_intros]:
  "totals v r \<Longrightarrow> totals v (snd (finishWithGen b g st stage op cls x re ro p al sha now r))"
  "totals v r \<Longrightarrow> totals v (snd (finish_guarded lax b g st cls x p al sha now r))"
  by (simp_all add: finishWithGen_def finish_guarded_def totals_finish_cell)

lemma totals_FinishMsg [inv_intros]:
  "totals v r \<Longrightarrow> totals v (snd (FinishTaskByMessage ord ch mid g st cls x p al sha now r))"
  by (induction ord) (simp_all add: totals_finish split: option.split)

lemma totals_cancel_cell: "totals v r \<Longrightarrow> totals v (cancel_cell x now b r)"
  by (simp add: cancel_cell_def totals_upd)

lemma totals_cancel_fold:
  "totals v r \<Longrightarrow> totals v (fold (cancel_cell x now) bs r) \<and>
    length (rg_heap (fold (cancel_cell x now) bs r)) = length (rg_heap r)"
  by (induction bs arbitrary: r) (simp_all add: totals_cancel_cell, simp add: cancel_cell_def)

lemma totals_Cancel [inv_intros]: "totals v r \<Longrightarrow> totals v (Cancel tid x now r)"
proof -
  assume t: "totals v r"
  let ?hit = "\<lambda>b. q_ID (ts_request (cell r b)) = tid"
  have "totals v ((fold (cancel_cell y now) (filter ?hit (rg_queue r)) r)\<lparr>rg_queue := filter (\<lambda>b. \<not> ?hit b) (rg_queue r)\<rparr>)" for y
    using queue_valid [OF t] totals_cancel_fold [OF t, of y now "filter ?hit (rg_queue r)"] by (intro totals_queue) auto
  then show ?thesis unfolding Cancel_def Let_def by (simp add: totals_cancel_cell split: option.split)
qed

lemma totals_cancel_queue:
  "totals v r \<Longrightarrow> totals v (snd (snd (cancel_queue ch d now bs u r))) \<and> set (fst (cancel_queue ch d now bs u r)) \<subseteq> set bs \<and>
    length (rg_heap (snd (snd (cancel_queue ch d now bs u r)))) = length (rg_heap r)"
  by (induction bs arbitrary: u r)
    (simp_all add: Let_def split_beta totals_cancel_cell subset_insertI2, simp add: cancel_cell_def)

lemma totals_cancel_map: "totals v r \<Longrightarrow> totals v (snd (cancel_map ch d now ord u r))"
  by (induction ord arbitrary: u r) (simp_all add: Let_def split_beta totals_cancel_cell split: option.split)

lemma totals_CancelChat [inv_intros]: "totals v r \<Longrightarrow> totals v (snd (CancelTasksByChatIDWithDecider ord ch d now u r))"
  using totals_cancel_queue [of v r ch d now "rg_queue r" u] queue_valid [of v r]
  unfolding CancelTasksByChatIDWithDecider_def Let_def split_beta
  by (auto intro!: totals_cancel_map totals_queue)

text \<open>The calls that set counters.\<close>

fun counts :: "reg_cmd \<Rightarrow> bool" where
  "counts (RTelemetry t w wi re q p ids) = True"
| "counts (RSucceed t p) = (pr_WireBytes p > 0 \<or> pr_PhysicalRetries p > 0)"
| "counts (RWrite t off n) = True"
| "counts (RRecovered tid g p n) = True"
| "counts c = False"

text \<open>The tasks that workers hold point to cells; the request for an unknown task names it.\<close>

fun handle :: "reg_cmd \<Rightarrow> Task option" where
  "handle (RRequeue t) = Some t"
| "handle (RSnapshot t) = Some t"
| "handle (RResolved t f n d) = Some t"
| "handle (RFinalPath t p) = Some t"
| "handle (RDownloading t) = Some t"
| "handle (RPublishing t) = Some t"
| "handle (RTelemetry t w wi re q p ids) = Some t"
| "handle (RSucceed t p) = Some t"
| "handle (RFail t d) = Some t"
| "handle (RProgress t n) = Some t"
| "handle (RWrite t off n) = Some t"
| "handle c = None"

definition cmd_ok :: "Registry \<Rightarrow> reg_cmd \<Rightarrow> bool" where
  "cmd_ok r c \<longleftrightarrow> (case handle c of None \<Rightarrow> True | Some t \<Rightarrow> tk_state t < length (rg_heap r)) \<and>
     (case c of RRetry tid (Some q) d \<Rightarrow> q_ID q = tid | _ \<Rightarrow> True)"

lemma totals_RecordProgress [inv_intros]: "totals v r \<Longrightarrow> totals v (RecordProgress t n now r)"
  by (simp add: RecordProgress_def Let_def add_event_def totals_upd)

lemma totals_run: "totals v r \<Longrightarrow> cmd_ok r c \<Longrightarrow> \<not> counts c \<Longrightarrow> totals v (run_reg now c r)"
proof (cases c)
  case (RRetry tid q d)
  moreover assume "totals v r" "cmd_ok r c"
  ultimately show ?thesis by (auto simp: cmd_ok_def intro!: totals_Retry)
next
  case (RTask tid)
  moreover assume "totals v r"
  ultimately show ?thesis by (simp add: reg_Task_def split_beta Let_def totals_snapshot split: option.split)
next
  case (RStatus ord)
  moreover assume "totals v r"
  ultimately show ?thesis by (simp add: Status_def Let_def split_beta totals_snapshots)
next
  case (RSucceed t p)
  moreover assume "totals v r" "\<not> counts c"
  moreover have "totals v r \<Longrightarrow> \<not> counts c \<Longrightarrow> totals v (upd_cell (tk_state t) (\<lambda>s. s\<lparr>
          ts_wireBytes := (if pr_WireBytes p > 0 then pr_WireBytes p else ts_wireBytes s),
          ts_replayBytes := (if pr_ReplayBytes p > 0 then pr_ReplayBytes p else ts_replayBytes s),
          ts_requestCount := (if pr_RequestCount p > 0 then pr_RequestCount p else ts_requestCount s),
          ts_physicalRetries := (if pr_PhysicalRetries p > 0 then pr_PhysicalRetries p else ts_physicalRetries s),
          ts_physicalAttemptID := (if pr_PhysicalAttemptID p \<noteq> [] then pr_PhysicalAttemptID p
                                   else ts_physicalAttemptID s)\<rparr>) r)"
    using RSucceed by (intro totals_upd) simp_all
  ultimately show ?thesis by (simp add: SucceedResult_def totals_finish)
next
  case (RFail t d)
  moreover assume "totals v r"
  ultimately show ?thesis by (simp add: FailDisposition_def totals_finish totals_upd)
qed (simp_all add: inv_intros call_defs cmd_ok_def split_beta split: option.split)

text \<open>Well-formedness alone, for the remaining calls.\<close>

lemma reg_ok_fields [simp]:
  "reg_ok (r\<lparr>rg_events := e\<rparr>) = reg_ok r" "reg_ok (r\<lparr>rg_firstByte := t\<rparr>) = reg_ok r" "reg_ok (r\<lparr>rg_lastByte := t\<rparr>) = reg_ok r"
  by (simp_all add: reg_ok_def cell_def)

definition fits_cum where "fits_cum r \<longleftrightarrow> (\<forall>m. fits64 (cum_of m r))"

lemma totals_ex: "(\<exists>v. totals v r) \<longleftrightarrow> reg_ok r \<and> fits_cum r"
  by (auto simp: totals_def fits_cum_def intro!: exI [of _ "\<lambda>m. total m r"])

lemma fits_cum_fields [simp]:
  "fits_cum (upd_cell b f r) = fits_cum r" "fits_cum (r\<lparr>rg_events := e\<rparr>) = fits_cum r"
  "fits_cum (r\<lparr>rg_firstByte := t\<rparr>) = fits_cum r" "fits_cum (r\<lparr>rg_lastByte := t\<rparr>) = fits_cum r"
  by (simp_all add: fits_cum_def metric_iff)

lemma run_reg_ok:
  assumes ok: "reg_ok r \<and> fits_cum r" and "cmd_ok r c"
  shows "reg_ok (run_reg now c r) \<and> fits_cum (run_reg now c r)"
proof (cases "counts c")
  case False
  obtain v where "totals v r" using ok totals_ex by blast
  then show ?thesis using totals_run [OF _ assms(2) False] totals_ex by blast
next
  case True
  then show ?thesis
  proof (cases c)
    case (RSucceed t p)
    let ?r = "upd_cell (tk_state t) (\<lambda>s. s\<lparr>
          ts_wireBytes := (if pr_WireBytes p > 0 then pr_WireBytes p else ts_wireBytes s),
          ts_replayBytes := (if pr_ReplayBytes p > 0 then pr_ReplayBytes p else ts_replayBytes s),
          ts_requestCount := (if pr_RequestCount p > 0 then pr_RequestCount p else ts_requestCount s),
          ts_physicalRetries := (if pr_PhysicalRetries p > 0 then pr_PhysicalRetries p else ts_physicalRetries s),
          ts_physicalAttemptID := (if pr_PhysicalAttemptID p \<noteq> [] then pr_PhysicalAttemptID p
                                   else ts_physicalAttemptID s)\<rparr>) r"
    have "reg_ok ?r \<and> fits_cum ?r" using ok by (simp add: reg_ok_upd)
    then obtain v where "totals v ?r" using totals_ex by blast
    then show ?thesis using totals_finish(1) totals_ex unfolding RSucceed run_reg.simps SucceedResult_def by blast
  next
    case (RRecovered tid g p n)
    then show ?thesis using ok
      by (auto simp: RegisterRecoveredTask_def Let_def alloc_def reg_ok_def cell_def nth_append fits_cum_def new_state_def metric_iff
          split: if_splits) (metis less_SucI | fastforce)+
  qed (use ok in \<open>simp_all add: RecordTransferTelemetry_def reg_ok_upd RecordWrite_def Let_def split_beta add_event_def\<close>)
qed

section \<open>Reachable registries\<close>

inductive reg_reach :: "Registry \<Rightarrow> bool" where
  reg_new: "reg_reach (NewRegistryWithContext ctx cap lim)"
| reg_call: "reg_reach r \<Longrightarrow> cmd_ok r c \<Longrightarrow> reg_reach (run_reg now c r)"

lemma reg_reach_inv: "reg_reach r \<Longrightarrow> reg_ok r \<and> fits_cum r"
proof (induction rule: reg_reach.induct)
  case (reg_new ctx cap lim)
  show ?case by (simp add: reg_ok_def NewRegistryWithContext_def fits_cum_def metric_iff fits64_def)
qed (rule run_reg_ok)


lemma snapshots_counters:
  "rg_cumulativeWireBytes (snd (snapshots ids now r)) = rg_cumulativeWireBytes r \<and>
    rg_cumulativePayloadBytes (snd (snapshots ids now r)) = rg_cumulativePayloadBytes r \<and>
    rg_cumulativeRetries (snd (snapshots ids now r)) = rg_cumulativeRetries r \<and>
    rg_tasks (snd (snapshots ids now r)) = rg_tasks r"
  by (induction ids arbitrary: r) (simp_all add: Let_def split_beta snapshotTaskLocked_def split: option.split)

lemma Status_totals:
  assumes "totals v r" and "distinct ord" and "set ord = dom (rg_tasks r)"
  shows "ss_WireRxBytes (fst (Status ord now r)) = v Wire \<and> ss_UniquePayloadBytes (fst (Status ord now r)) = v Payload \<and>
    ss_RetryCount (fst (Status ord now r)) = v Retries"
proof -
  define r2 where "r2 = snd (Status ord now r)"
  have t: "totals v r2" using totals_run [OF assms(1), of "RStatus ord"] by (simp add: r2_def cmd_ok_def)
  have s: "rg_tasks r2 = rg_tasks r"
    by (simp add: r2_def Status_def Let_def split_beta snapshots_counters)
  have "total_over (metric_of m) ord r2 (cum_of m r2) = v m" for m
    using total_over_total [OF assms(2), of r2 m] t assms(3) s by (simp add: totals_def)
  from this [of Wire] this [of Payload] this [of Retries] show ?thesis
    by (simp add: r2_def Status_def Let_def split_beta metric_of.simps [abs_def])
qed

text \<open>No call but the recording of transfers changes the totals of \<open>Status\<close>: admission, retries,
  finishing (which prunes old tasks), requeueing and cancelling keep the sums of received bytes, payload bytes and retries over the live and the archived
  tasks, in wrapped 64-bit arithmetic and for every order in which the map is iterated.\<close>

theorem totals_conserved:
  assumes "reg_reach r" and "cmd_ok r c" and "\<not> counts c"
    and "distinct ord" and "set ord = dom (rg_tasks r)"
    and "distinct ord'" and "set ord' = dom (rg_tasks (run_reg now c r))"
  shows "ss_WireRxBytes (fst (Status ord' t' (run_reg now c r))) = ss_WireRxBytes (fst (Status ord t r)) \<and>
    ss_UniquePayloadBytes (fst (Status ord' t' (run_reg now c r))) = ss_UniquePayloadBytes (fst (Status ord t r)) \<and>
    ss_RetryCount (fst (Status ord' t' (run_reg now c r))) = ss_RetryCount (fst (Status ord t r))"
proof -
  obtain v where v: "totals v r" using reg_reach_inv [OF assms(1)] totals_ex by blast
  then have "totals v (run_reg now c r)" by (rule totals_run [OF _ assms(2,3)])
  with v show ?thesis using Status_totals [OF _ assms(4,5)] Status_totals [OF _ assms(6,7)] by metis
qed

section \<open>Bounds\<close>

text \<open>The queue holds at most \<open>k\<close> tasks more than its capacity.\<close>

definition within :: "int \<Rightarrow> int \<Rightarrow> nat \<Rightarrow> Registry \<Rightarrow> bool" where
  "within cap lim k r \<longleftrightarrow> rg_queueCapacity r = cap \<and> rg_terminalLimit r = lim \<and> 1 \<le> lim \<and>
     int (length (rg_terminalOrder r)) \<le> lim \<and> int (length (rg_queue r)) \<le> cap + int k"

lemma within_fields [simp]:
  "within cap lim k (r\<lparr>rg_wake := b\<rparr>) = within cap lim k r" "within cap lim k (r\<lparr>rg_paused := b\<rparr>) = within cap lim k r"
  "within cap lim k (r\<lparr>rg_events := e\<rparr>) = within cap lim k r" "within cap lim k (r\<lparr>rg_firstByte := t\<rparr>) = within cap lim k r"
  "within cap lim k (r\<lparr>rg_lastByte := t\<rparr>) = within cap lim k r" "within cap lim k (r\<lparr>rg_lastError := x\<rparr>) = within cap lim k r"
  "within cap lim k (r\<lparr>rg_pool := p\<rparr>) = within cap lim k r" "within cap lim k (r\<lparr>rg_parentCtx := n\<rparr>) = within cap lim k r"
  "within cap lim k (r\<lparr>rg_heap := h\<rparr>) = within cap lim k r" "within cap lim k (r\<lparr>rg_tasks := ts\<rparr>) = within cap lim k r"
  "within cap lim k (signalLocked r) = within cap lim k r" "within cap lim k (upd_cell a f r) = within cap lim k r"
  "within cap lim k (archiveOldTaskMetricsLocked a r) = within cap lim k r"
  "within cap lim k (cancel_cell m i a r) = within cap lim k r"
  by (simp_all add: within_def signalLocked_def cancel_cell_def)

lemma within_mono: "within cap lim k r \<Longrightarrow> within cap lim (k + j) r"
  by (simp add: within_def)

lemma within_remove: "within cap lim k r \<Longrightarrow> within cap lim k (removeTerminalLocked tid r)"
  by (auto simp: within_def removeTerminalLocked_def length_remove1)

lemma within_shrink: "length q \<le> length (rg_queue r) \<Longrightarrow> within cap lim k r \<Longrightarrow> within cap lim k (r\<lparr>rg_queue := q\<rparr>)"
  by (auto simp: within_def)

lemma within_enqueue: "\<not> queue_full r \<Longrightarrow> within cap lim k r \<Longrightarrow> within cap lim k (enqueue a r)"
  by (auto simp: within_def enqueue_def queue_full_def signalLocked_def)

lemma queue_full_fields [simp]:
  "queue_full (r\<lparr>rg_heap := h\<rparr>) = queue_full r" "queue_full (r\<lparr>rg_tasks := ts\<rparr>) = queue_full r"
  "queue_full (removeTerminalLocked tid r) = queue_full r" "queue_full (archiveOldTaskMetricsLocked a r) = queue_full r"
  by (simp_all add: queue_full_def removeTerminalLocked_def)

lemma within_snapshots [inv_intros]: "within cap lim k r \<Longrightarrow> within cap lim k (snd (snapshots ids now r))"
  by (induction ids arbitrary: r) (simp_all add: Let_def split_beta snapshotTaskLocked_def split: option.split)

lemma within_Retry [inv_intros]: "within cap lim k r \<Longrightarrow> within cap lim k (snd (snd (RetryTaskWithDecider now tid q d u r)))"
  by (simp add: RetryTaskWithDecider_def Let_def split_beta alloc_def snapshotTaskLocked_def within_enqueue within_remove
      split: option.split)

lemma prune_loop_within:
  "1 \<le> rg_terminalLimit r \<Longrightarrow> rg_queueCapacity r = cap \<Longrightarrow> rg_terminalLimit r = lim \<Longrightarrow> int (length (rg_queue r)) \<le> cap + int k \<Longrightarrow>
    within cap lim k (prune_loop ids r)"
  by (induction ids r rule: prune_loop.induct) (auto simp: within_def split: option.splits)

lemma within_finish_cell: "within cap lim k r \<Longrightarrow> within cap lim k (finish_cell b st e m p al s now r)"
  by (auto simp: finish_cell_def Let_def pruneTerminalOrderLocked_def within_def [of _ _ _ r] intro!: prune_loop_within)

lemma within_finish [inv_intros]:
  "within cap lim k r \<Longrightarrow> within cap lim k (snd (finishWithGen b g st stage op cls m re ro p al s now r))"
  "within cap lim k r \<Longrightarrow> within cap lim k (snd (finish_guarded lax b g st cls m p al s now r))"
  by (simp_all add: finishWithGen_def finish_guarded_def within_finish_cell)

lemma within_FinishMsg [inv_intros]:
  "within cap lim k r \<Longrightarrow> within cap lim k (snd (FinishTaskByMessage ord ch mid g st cls m p al s now r))"
  by (induction ord) (simp_all add: within_finish split: option.split)

lemma cancel_fold_fields:
  "within cap lim k (fold (cancel_cell m now) bs r) = within cap lim k r \<and> rg_queue (fold (cancel_cell m now) bs r) = rg_queue r"
  by (induction bs arbitrary: r) simp_all

lemma within_Cancel [inv_intros]: "within cap lim k r \<Longrightarrow> within cap lim k (Cancel tid m now r)"
  unfolding Cancel_def Let_def
  by (simp add: within_shrink cancel_fold_fields split: option.split)

lemma cancel_queue_fields:
  "within cap lim k (snd (snd (cancel_queue ch d now bs u r))) = within cap lim k r \<and>
    rg_queue (snd (snd (cancel_queue ch d now bs u r))) = rg_queue r \<and>
    length (fst (cancel_queue ch d now bs u r)) \<le> length bs"
  by (induction bs arbitrary: u r) (simp_all add: Let_def split_beta le_SucI)

lemma within_cancel_map: "within cap lim k (snd (cancel_map ch d now ord u r)) = within cap lim k r"
  by (induction ord arbitrary: u r) (simp_all add: Let_def split_beta split: option.split)

lemma within_run:
  "within cap lim k r \<Longrightarrow> within cap lim (k + (case c of RRequeue t \<Rightarrow> 1 | _ \<Rightarrow> 0)) (run_reg now c r)"
proof (cases c)
  case (RSubmit q)
  moreover assume "within cap lim k r"
  ultimately show ?thesis
    by (simp add: Submit_def Let_def alloc_def snapshotTaskLocked_def within_enqueue within_remove split: option.split)
next
  case RNext
  moreover assume "within cap lim k r"
  ultimately show ?thesis by (simp add: Next.simps [of now "[]"] Let_def within_shrink)
next
  case (RRequeue t)
  moreover assume "within cap lim k r"
  ultimately show ?thesis by (auto simp: Requeue_def within_def enqueue_def signalLocked_def)
next
  case (RCancelChat ord ch d)
  moreover assume "within cap lim k r"
  ultimately show ?thesis
    by (simp add: CancelTasksByChatIDWithDecider_def Let_def split_beta within_cancel_map within_shrink cancel_queue_fields)
qed (simp_all add: inv_intros call_defs reg_Task_def Let_def Status_def split_beta snapshotTaskLocked_def tk_update_def
    SucceedResult_def FailDisposition_def RecordProgress_def RecordWrite_def add_event_def RegisterRecoveredTask_def alloc_def
    split: option.split)

definition requeues :: "(int64 \<times> reg_cmd) list \<Rightarrow> nat" where
  "requeues cs = length (filter (\<lambda>(now, c). case c of RRequeue t \<Rightarrow> True | _ \<Rightarrow> False) cs)"

lemma within_runs: "within cap lim k r \<Longrightarrow> within cap lim (k + requeues cs) (run_regs cs r)"
proof (induction cs arbitrary: k r)
  case (Cons x cs)
  obtain now c where x: "x = (now, c)" by (cases x)
  have "requeues (x # cs) = (case c of RRequeue t \<Rightarrow> 1 | _ \<Rightarrow> 0) + requeues cs"
    by (simp add: requeues_def x split: reg_cmd.split)
  with Cons.IH [OF within_run [OF Cons.prems, of c now]] x show ?case by (simp add: add.assoc)
qed (simp add: requeues_def)

text \<open>The list of ended tasks never exceeds its limit, and the queue exceeds its capacity at most by the
  number of \<open>Requeue\<close> calls, which do not check it.\<close>

theorem registry_bounded:
  "int (length (rg_terminalOrder (run_regs cs (NewRegistryWithContext ctx cap lim)))) \<le> max 1 lim \<and>
   int (length (rg_queue (run_regs cs (NewRegistryWithContext ctx cap lim)))) \<le> max 1 cap + int (requeues cs)"
proof -
  have "within (max 1 cap) (max 1 lim) 0 (NewRegistryWithContext ctx cap lim)"
    by (simp add: within_def NewRegistryWithContext_def max_def)
  from within_runs [OF this, of cs] show ?thesis by (simp add: within_def)
qed

end
