(* ===== verification/Registry_Service.thy ===== *)
theory Registry_Service
  imports Registry_Totals
begin

text \<open>
  The order in which queued tasks are handed out, the written ranges of an attempt as a set of bytes, a task
  that is finished while it is queued, and instances of the registry theorems.
\<close>

declare split_paired_All [simp del] split_paired_Ex [simp del]

section \<open>Service order\<close>

text \<open>The calls other than pausing and cancelling: \<open>Next\<close> takes from the front, the others may only append.\<close>

fun orderly :: "reg_cmd \<Rightarrow> bool" where
  "orderly (RPaused b) = False"
| "orderly (RCancel tid m) = False"
| "orderly (RCancelChat ord ch d) = False"
| "orderly c = True"

definition appended :: "Registry \<Rightarrow> Registry \<Rightarrow> bool" where
  "appended r r' \<longleftrightarrow> rg_paused r' = rg_paused r \<and> (\<exists>new. rg_queue r' = rg_queue r @ new)"

lemma appendedI: "rg_paused r' = rg_paused r \<Longrightarrow> rg_queue r' = rg_queue r @ new \<Longrightarrow> appended r r'"
  by (auto simp: appended_def)

lemma appended_refl [simp]: "appended r r"
  by (simp add: appended_def)

lemma appended_trans: "appended r r1 \<Longrightarrow> appended r1 r2 \<Longrightarrow> appended r r2"
  by (auto simp: appended_def)

lemma appended_fields [simp]:
  "appended r (r'\<lparr>rg_wake := b\<rparr>) = appended r r'" "appended r (r'\<lparr>rg_events := e\<rparr>) = appended r r'"
  "appended r (r'\<lparr>rg_firstByte := t\<rparr>) = appended r r'" "appended r (r'\<lparr>rg_lastByte := t\<rparr>) = appended r r'"
  "appended r (r'\<lparr>rg_lastError := x\<rparr>) = appended r r'" "appended r (r'\<lparr>rg_pool := p\<rparr>) = appended r r'"
  "appended r (r'\<lparr>rg_parentCtx := n\<rparr>) = appended r r'" "appended r (r'\<lparr>rg_heap := h\<rparr>) = appended r r'"
  "appended r (r'\<lparr>rg_tasks := ts\<rparr>) = appended r r'" "appended r (r'\<lparr>rg_terminalOrder := o1\<rparr>) = appended r r'"
  "appended r (upd_cell a f r') = appended r r'" "appended r (removeTerminalLocked tid r') = appended r r'"
  "appended r (archiveOldTaskMetricsLocked a r') = appended r r'"
  by (simp_all add: appended_def removeTerminalLocked_def archiveOldTaskMetricsLocked_def)

lemma appended_enqueue: "appended r r' \<Longrightarrow> appended r (enqueue a r')"
  by (auto simp: appended_def enqueue_def signalLocked_def)

lemma appended_snapshots [inv_intros]: "appended r r' \<Longrightarrow> appended r (snd (snapshots ids now r'))"
  by (induction ids arbitrary: r') (simp_all add: Let_def split_beta snapshotTaskLocked_def split: option.split)

lemma appended_Retry [inv_intros]: "appended r (snd (snd (RetryTaskWithDecider now tid q d u r)))"
  by (simp add: RetryTaskWithDecider_def Let_def split_beta alloc_def snapshotTaskLocked_def appended_enqueue split: option.split)

lemma appended_prune: "appended r r' \<Longrightarrow> appended r (prune_loop ids r')"
  by (induction ids r' rule: prune_loop.induct) (auto split: option.splits)

lemma appended_finish_cell: "appended r r' \<Longrightarrow> appended r (finish_cell b st e m p al s now r')"
  by (simp add: finish_cell_def Let_def pruneTerminalOrderLocked_def appended_prune)

lemma appended_finish [inv_intros]:
  "appended r r' \<Longrightarrow> appended r (snd (finishWithGen b g st stage op cls m re ro p al s now r'))"
  "appended r r' \<Longrightarrow> appended r (snd (finish_guarded lax b g st cls m p al s now r'))"
  by (simp_all add: finishWithGen_def finish_guarded_def appended_finish_cell)

lemma appended_FinishMsg [inv_intros]: "appended r r' \<Longrightarrow> appended r (snd (FinishTaskByMessage ord ch mid g st cls m p al s now r'))"
  by (induction ord) (simp_all add: appended_finish split: option.split)

lemma orderly_run: "orderly c \<Longrightarrow> c \<noteq> RNext \<Longrightarrow> appended r (run_reg now c r)"
proof (cases c)
  case (RSubmit q)
  then show ?thesis by (simp add: Submit_def Let_def alloc_def snapshotTaskLocked_def appended_enqueue split: option.split)
qed (simp_all add: inv_intros call_defs Requeue_def appended_enqueue reg_Task_def Let_def Status_def split_beta
    snapshotTaskLocked_def tk_update_def SucceedResult_def FailDisposition_def RecordProgress_def RecordWrite_def add_event_def
    RegisterRecoveredTask_def alloc_def split: option.split)

lemma next_pops:
  assumes "\<not> rg_paused r" and "rg_queue r = a # q"
  shows "\<exists>g. fst (Next now ws r) = Some (Inr \<lparr>tk_state = a, tk_attemptGen = g\<rparr>)"
    and "rg_queue (snd (Next now ws r)) = q" and "\<not> rg_paused (snd (Next now ws r))"
  using assms by (simp_all add: Next.simps [of now ws] Let_def signalLocked_def)

definition nexts :: "(int64 \<times> reg_cmd) list \<Rightarrow> nat" where
  "nexts cs = length (filter (\<lambda>(now, c). c = RNext) cs)"

lemma orderly_runs:
  assumes "\<forall>x\<in>set cs. orderly (snd x)" and "\<not> rg_paused r" and "nexts cs \<le> length (rg_queue r)"
  shows "\<not> rg_paused (run_regs cs r) \<and> (\<exists>new. rg_queue (run_regs cs r) = drop (nexts cs) (rg_queue r) @ new)"
  using assms
proof (induction cs arbitrary: r)
  case (Cons x cs)
  obtain now c where x: "x = (now, c)" by (cases x)
  show ?case
  proof (cases "c = RNext")
    case True
    then obtain a q where q: "rg_queue r = a # q" using Cons.prems(3) x by (cases "rg_queue r") (auto simp: nexts_def)
    then show ?thesis
      using Cons.IH [of "snd (Next now [] r)"] next_pops [OF Cons.prems(2) q] Cons.prems True x by (simp add: nexts_def)
  next
    case False
    then have "appended r (run_reg now c r)" using Cons.prems(1) x by (intro orderly_run) simp_all
    then obtain new where n: "\<not> rg_paused (run_reg now c r)" "rg_queue (run_reg now c r) = rg_queue r @ new"
      using Cons.prems(2) by (auto simp: appended_def)
    moreover have "nexts (x # cs) = nexts cs" using False x by (simp add: nexts_def)
    ultimately show ?thesis using Cons.IH [OF _ n(1)] Cons.prems(1,3) x by auto
  qed
qed (simp add: nexts_def)

text \<open>Queued tasks are served in order and none is skipped: if nobody pauses or cancels, a task with \<open>n\<close> others before it is what
  \<open>Next\<close> returns after exactly \<open>n\<close> earlier calls of it, whatever else is called in between.\<close>

theorem queued_task_served_in_order:
  assumes "\<not> rg_paused r" and "rg_queue r = before @ a # after" and "\<forall>x\<in>set cs. orderly (snd x)"
    and "nexts cs = length before"
  shows "\<exists>g. fst (Next now ws (run_regs cs r)) = Some (Inr \<lparr>tk_state = a, tk_attemptGen = g\<rparr>)"
proof -
  obtain new where "\<not> rg_paused (run_regs cs r)" "rg_queue (run_regs cs r) = a # (after @ new)"
    using orderly_runs [OF assms(3,1)] assms(2,4) by auto
  then show ?thesis by (rule next_pops(1))
qed

section \<open>The bytes of an attempt\<close>

lemma i64_overflow: "2 ^ 63 \<le> x \<Longrightarrow> x < 2 ^ 64 \<Longrightarrow> i64 x = x - 2 ^ 64"
proof -
  assume x: "2 ^ 63 \<le> x" "x < 2 ^ 64"
  have "i64 x = (x + 2 ^ 63) mod 2 ^ 64 - 2 ^ 63"
    unfolding i64_def by (subst signed_take_bit_eq_take_bit_shift) (simp add: take_bit_eq_mod)
  also have "(x + 2 ^ 63) mod 2 ^ 64 = x + 2 ^ 63 - 2 ^ 64"
    using x by (intro int_mod_pos_eq [where q = 1]) simp_all
  finally show ?thesis by simp
qed

text \<open>The bytes that a write adds to an attempt of a given total size.\<close>

definition write_bytes :: "int64 \<Rightarrow> int64 \<Rightarrow> int64 \<Rightarrow> int set" where
  "write_bytes tot offset sz = (if sz \<le> 0 \<or> offset < 0 \<or> \<not> fits64 (offset + sz) then {}
     else {offset..<if tot > 0 \<and> offset + sz > tot then tot else offset + sz})"

text \<open>The ranges are well formed, hold only offsets that fit, and the counter counts their bytes.\<close>

definition bytes_ok :: "taskState \<Rightarrow> bool" where
  "bytes_ok s \<longleftrightarrow> wf_ranges (ts_ranges s) \<and> covered (ts_ranges s) \<subseteq> {0..<2 ^ 63 - 1} \<and>
     ts_downloaded s = int (card (covered (ts_ranges s)))"

lemma card_byte_set: "B \<subseteq> {0..<2 ^ 63 - 1 :: int} \<Longrightarrow> fits64 (int (card B))"
  using card_mono [of "{0..<2 ^ 63 - 1 :: int}" B] by (simp add: fits64_def)

lemma addRange_result:
  assumes "wf_ranges rs" and "0 \<le> a" and "a < b"
  shows "snd (addRange rs a b) = b - a - int (card ({a..<b} \<inter> covered rs))"
  using assms by (simp add: addRange_def addRange_overlap_card Let_def)

lemma cell_events [simp]:
  "cell (r\<lparr>rg_events := e, rg_firstByte := t, rg_lastByte := u\<rparr>) = cell r"
  by (simp add: cell_def fun_eq_iff)

definition write_end :: "int64 \<Rightarrow> int64 \<Rightarrow> int64 \<Rightarrow> int64" where
  "write_end tot offset sz = (if tot > 0 \<and> offset + sz > tot then tot else offset + sz)"

lemma RecordWrite_rejected:
  assumes "sz \<le> 0 \<or> offset < 0 \<or> \<not> fits64 (offset + sz) \<or> write_end (ts_totalSize (cell r (tk_state t))) offset sz \<le> offset"
    and "fits64 offset" and "fits64 sz"
  shows "RecordWrite t offset sz now r = (0, r)"
proof (cases "0 < sz \<and> 0 \<le> offset \<and> \<not> fits64 (offset + sz)")
  case True
  then have "i64 (offset + sz) = offset + sz - 2 ^ 64"
    using assms(2,3) by (intro i64_overflow) (auto simp: fits64_def)
  then have "i64 (offset + sz) < offset" using assms(3) by (simp add: fits64_def)
  then show ?thesis by (simp add: RecordWrite_def Let_def)
next
  case False
  then show ?thesis using assms(1) by (auto simp: RecordWrite_def Let_def i64_id write_end_def)
qed

lemma RecordWrite_accepted:
  assumes "tk_state t < length (rg_heap r)" and "\<not> stale t r" and "s = cell r (tk_state t)"
    and "0 < sz" and "0 \<le> offset" and "fits64 (offset + sz)" and "fin = write_end (ts_totalSize s) offset sz" and "offset < fin"
    and "addRange (ts_ranges s) offset fin = (rs', u)" and "s' = cell (snd (RecordWrite t offset sz now r)) (tk_state t)"
  shows "fst (RecordWrite t offset sz now r) = u \<and> ts_ranges s' = rs' \<and>
    ts_downloaded s' = (if u = 0 then ts_downloaded s else i64 (ts_downloaded s + u)) \<and>
    ts_totalSize s' = ts_totalSize s \<and> ts_attemptGen s' = ts_attemptGen s"
proof -
  have "i64 (offset + sz) = offset + sz" using assms(6) by (rule i64_id)
  then have "RecordWrite t offset sz now r =
      (if u = 0 then (0, upd_cell (tk_state t) (\<lambda>s. s\<lparr>ts_ranges := rs'\<rparr>) r)
       else let r1 = upd_cell (tk_state t) (\<lambda>s. s\<lparr>ts_ranges := rs', ts_downloaded := i64 (ts_downloaded s + u)\<rparr>) r
            in (u, if ts_hasNetworkProgress s then r1 else add_event now u (tk_state t) r1))"
    using assms(2-5,7-9) by (simp add: RecordWrite_def Let_def write_end_def)
  then show ?thesis using assms(1,3,10) by (simp add: Let_def add_event_def cell_upd)
qed

lemma RecordWrite_bytes:
  fixes now
  assumes "tk_state t < length (rg_heap r)" and "\<not> stale t r" and "s = cell r (tk_state t)" and "bytes_ok s"
    and "fits64 offset" and "fits64 sz" and "s' = cell (snd (RecordWrite t offset sz now r)) (tk_state t)"
  shows "bytes_ok s' \<and> covered (ts_ranges s') = covered (ts_ranges s) \<union> write_bytes (ts_totalSize s) offset sz \<and>
    fst (RecordWrite t offset sz now r) = ts_downloaded s' - ts_downloaded s \<and>
    ts_totalSize s' = ts_totalSize s \<and> ts_attemptGen s' = ts_attemptGen s"
proof (cases "sz \<le> 0 \<or> offset < 0 \<or> \<not> fits64 (offset + sz) \<or> write_end (ts_totalSize s) offset sz \<le> offset")
  case True
  then have "RecordWrite t offset sz now r = (0, r)" using assms(3,5,6) by (intro RecordWrite_rejected) simp_all
  moreover have "write_bytes (ts_totalSize s) offset sz = {}" using True by (auto simp: write_bytes_def write_end_def)
  ultimately show ?thesis using assms(3,4,7) by simp
next
  case False
  define fin where "fin = write_end (ts_totalSize s) offset sz"
  have f: "0 \<le> offset" "offset < fin" "0 < sz" "fits64 (offset + sz)" using False by (auto simp: fin_def)
  let ?rs = "ts_ranges s" and ?A = "{offset..<fin}"
  have wf: "wf_ranges ?rs" and old: "ts_downloaded s = int (card (covered ?rs))" "covered ?rs \<subseteq> {0..<2 ^ 63 - 1}"
    using assms(4) by (auto simp: bytes_ok_def)
  obtain rs' u where add: "addRange ?rs offset fin = (rs', u)" by fastforce
  have rs: "wf_ranges rs'" "covered rs' = covered ?rs \<union> ?A"
    using reg.invar_add [OF wf f(1,2)] reg.cov_add [OF wf f(1,2)] add by simp_all
  have "fin \<le> 2 ^ 63 - 1" using f(4) by (auto simp: fin_def write_end_def fits64_def)
  then have sub: "covered rs' \<subseteq> {0..<2 ^ 63 - 1}" using old(2) f rs(2) by auto
  have "card (covered rs') + card (?A \<inter> covered ?rs) = card ?A + card (covered ?rs)"
    using card_Un_Int [of ?A "covered ?rs"] by (simp add: rs(2) Un_commute)
  then have u: "u = int (card (covered rs')) - int (card (covered ?rs))"
    using addRange_result [OF wf f(1,2)] add f(1,2) by simp
  have "fits64 (int (card (covered rs')))" by (rule card_byte_set [OF sub])
  moreover have "write_bytes (ts_totalSize s) offset sz = ?A" using f by (simp add: write_bytes_def fin_def write_end_def)
  ultimately show ?thesis
    using RecordWrite_accepted [OF assms(1-3) f(3,1,4) fin_def f(2) add assms(7)] rs sub u old
    by (auto simp: bytes_ok_def i64_id)
qed

definition write_cmds :: "Task \<Rightarrow> (int64 \<times> int64 \<times> int64) list \<Rightarrow> (int64 \<times> reg_cmd) list" where
  "write_cmds t ws = map (\<lambda>(now, offset, sz). (now, RWrite t offset sz)) ws"

lemma RecordWrite_heap: "length (rg_heap (snd (RecordWrite t offset sz now r))) = length (rg_heap r)"
  by (simp add: RecordWrite_def Let_def split_beta add_event_def)

text \<open>C31. The ranges and the byte counter of an attempt implement a set of bytes: a sequence of \<open>RecordWrite\<close> calls
  adds exactly the bytes of the valid writes, cut at the total size, and the counter is the number of elements, for every offset
  and length including those whose end overflows.\<close>

theorem record_writes_refine_byte_set:
  assumes "tk_state t < length (rg_heap r)" and "\<not> stale t r" and "bytes_ok (cell r (tk_state t))"
    and "\<forall>(now, offset, sz)\<in>set ws. fits64 offset \<and> fits64 sz"
    and "s = cell r (tk_state t)" and "s' = cell (run_regs (write_cmds t ws) r) (tk_state t)"
  shows "covered (ts_ranges s') = covered (ts_ranges s) \<union> (\<Union>(now, offset, sz)\<in>set ws. write_bytes (ts_totalSize s) offset sz) \<and>
    bytes_ok s'"
  using assms
proof (induction ws arbitrary: r s)
  case (Cons w ws)
  obtain now offset sz where w: "w = (now, offset, sz)" by (metis prod_cases3)
  let ?r = "snd (RecordWrite t offset sz now r)"
  note b = RecordWrite_bytes [OF Cons.prems(1,2,5) _ _ _ refl, of offset sz now]
  have "stale t ?r = stale t r" using b Cons.prems by (simp add: stale_def w)
  with Cons.IH [of ?r "cell ?r (tk_state t)"] b Cons.prems show ?case
    by (simp add: w write_cmds_def RecordWrite_heap Un_assoc)
qed (simp add: write_cmds_def)

section \<open>A finished task in the queue\<close>

lemma prune_loop_frame:
  "rg_heap (prune_loop ids r) = rg_heap r \<and> rg_queue (prune_loop ids r) = rg_queue r \<and> rg_paused (prune_loop ids r) = rg_paused r"
  by (induction ids r rule: prune_loop.induct) (auto simp: archiveOldTaskMetricsLocked_def split: option.splits)

lemma finish_cell_frame:
  "a < length (rg_heap r) \<Longrightarrow> (\<And>s. ts_state (e s) = ts_state s) \<Longrightarrow>
    ts_state (cell (finish_cell a st e m p al sha now r) a) = st \<and>
    rg_queue (finish_cell a st e m p al sha now r) = rg_queue r \<and> rg_paused (finish_cell a st e m p al sha now r) = rg_paused r \<and>
    length (rg_heap (finish_cell a st e m p al sha now r)) = length (rg_heap r)"
  by (simp add: finish_cell_def Let_def pruneTerminalOrderLocked_def cell_def [of "prune_loop ids r" for ids r] prune_loop_frame)
    (simp add: upd_cell_def Let_def)

text \<open>C38. \<open>FinishTask\<close> does not look at the queue: a task that is finished while it is first in the queue is
  handed out again by \<open>Next\<close> and becomes active, although it had ended.\<close>

theorem finished_queued_task_runs_again:
  assumes "\<not> rg_paused r" and "rg_queue r = a # q" and "a < length (rg_heap r)" and "rg_tasks r tid = Some a"
    and "gen = ts_attemptGen (cell r a)" and "gen \<noteq> []" and "\<not> isTerminal (ts_state (cell r a))" and "isTerminal st"
    and "FinishTask tid gen st cls m p al sha now r = (res, r1)" and "Next now' ws r1 = (nx, r2)"
  shows "res = FinishAcceptedNewTerminal \<and> ts_state (cell r1 a) = st \<and>
    (\<exists>g. nx = Some (Inr \<lparr>tk_state = a, tk_attemptGen = g\<rparr>)) \<and> ts_state (cell r2 a) = StateResolving"
proof -
  have r1: "res = FinishAcceptedNewTerminal" "r1 = finish_cell a st (\<lambda>s. s\<lparr>ts_errorClass := cls\<rparr>) m p al sha now r"
    using assms(4-7,9) by (simp_all add: FinishTask_def finish_guarded_def)
  note f = finish_cell_frame [OF assms(3), of "\<lambda>s. s\<lparr>ts_errorClass := cls\<rparr>" st m p al sha now, simplified, folded r1(2)]
  have "nx = fst (Next now' ws r1)" "r2 = snd (Next now' ws r1)" using assms(10) by simp_all
  then show ?thesis
    using f r1(1) assms(1-3) next_pops(1) [of r1 a q now' ws]
    by (simp add: Next.simps [of now' ws r1] Let_def signalLocked_def cell_def upd_cell_def)
qed

section \<open>Instances\<close>

definition ex_request :: "string \<Rightarrow> TaskRequest" where
  "ex_request tid = \<lparr>q_ID = tid, q_Peer = ''c'', q_MessageID = 7, q_FinalPath = [], q_ExpectedSize = 100, q_Retry = False,
     q_TargetTitle = [], q_MediaType = [], q_FileName = [], q_Date = 0, q_MaxRetries = 0\<rparr>"

text \<open>Two submitted tasks; the first is handed out.\<close>

definition ex_two :: Registry where
  "ex_two = run_regs [(1, RSubmit (ex_request ''a'')), (2, RSubmit (ex_request ''b''))] (NewRegistry 4 2)"

definition ex_one :: Registry where
  "ex_one = run_regs [(3, RNext)] ex_two"

lemma ex_two_simps [simp]: "rg_queue ex_two = [0, 1]" "\<not> rg_paused ex_two" "length (rg_heap ex_two) = 2"
  "rg_tasks ex_two ''a'' = Some 0" "ts_attemptGen (cell ex_two 0) = ''1''" "ts_state (cell ex_two 0) = StateQueued"
  by code_simp+

lemma ex_valid_request: "validateRequest (ex_request ''a'') = None" "validateRequest (ex_request ''b'') = None"
  by code_simp+

lemma ex_two_tasks [simp]: "rg_tasks ex_two = [''a'' \<mapsto> 0, ''b'' \<mapsto> 1]"
  unfolding ex_two_def run_regs_simps run_reg.simps Submit_def ex_valid_request
  by (simp add: Let_def ex_request_def NewRegistry_def NewRegistryWithContext_def queue_full_def alloc_def snapshotTaskLocked_def
      enqueue_def signalLocked_def)

lemma ex_reach: "reg_reach ex_two" "reg_reach ex_one"
proof -
  show two: "reg_reach ex_two"
    unfolding ex_two_def NewRegistry_def run_regs_simps
    by (intro reg_call reg_new) (simp_all add: cmd_ok_def)
  show "reg_reach ex_one"
    unfolding ex_one_def run_regs_simps by (intro reg_call two) (simp add: cmd_ok_def)
qed

theorem finished_queued_task_runs_again_witness:
  "ts_state (cell (snd (Next 5 [] (snd (FinishTask ''a'' ''1'' StateSuccess [] [] [] False [] 4 ex_two)))) 0) = StateResolving"
proof -
  obtain res r1 where f: "FinishTask ''a'' ''1'' StateSuccess [] [] [] False [] 4 ex_two = (res, r1)" by fastforce
  obtain nx r2 where n: "Next 5 [] r1 = (nx, r2)" by fastforce
  show ?thesis using finished_queued_task_runs_again [OF _ _ _ _ _ _ _ _ f n, of 0 "[1]"] f n by (simp add: isTerminal_def)
qed

definition ex_done :: Registry where
  "ex_done = run_regs [(4, RFail \<lparr>tk_state = 0, tk_attemptGen = ''1''\<rparr> \<lparr>f_Stage = ''s'', f_Op = ''o'', f_Class = ''c'',
     f_Unavailable = False, f_Retryable = True, f_RetryOwner = [], f_PhysicalAttemptID = [], f_Message = ''m'', f_Cause = None\<rparr>)] ex_one"



theorem queued_task_served_in_order_witness:
  "\<exists>g. fst (Next 9 [] (run_regs [(3, RNext), (4, RSubmit (ex_request ''d''))] ex_two)) = Some (Inr \<lparr>tk_state = 1, tk_attemptGen = g\<rparr>)"
  by (rule queued_task_served_in_order [where before = "[0]" and after = "[]"]) (simp_all add: nexts_def)

theorem record_writes_refine_byte_set_witness:
  "covered (ts_ranges (cell (run_regs (write_cmds \<lparr>tk_state = 0, tk_attemptGen = ''1''\<rparr> [(5, 60, 50), (6, 0, 70)]) ex_one) 0)) = {0..<100}"
proof -
  have c: "0 < length (rg_heap ex_one)" "ts_ranges (cell ex_one 0) = []" "ts_downloaded (cell ex_one 0) = 0"
    "ts_totalSize (cell ex_one 0) = 100" "ts_attemptGen (cell ex_one 0) = ''1''" by code_simp+
  have u: "(\<Union>(now, offset, sz)\<in>set [(5, 60, 50), (6, 0, 70)]. write_bytes 100 offset sz) = {0..<100}"
    by (auto simp: write_bytes_def fits64_def)
  show ?thesis
    using record_writes_refine_byte_set [of "\<lparr>tk_state = 0, tk_attemptGen = ''1''\<rparr>" ex_one "[(5, 60, 50), (6, 0, 70)]", OF _ _ _ _ refl refl] c u
    by (simp add: stale_def bytes_ok_def fits64_def)
qed

lemma ex_one_tasks [simp]: "rg_tasks ex_one = [''a'' \<mapsto> 0, ''b'' \<mapsto> 1]" "rg_terminalLimit ex_one = 2" "rg_terminalOrder ex_one = []"
  "length (rg_heap ex_one) = 2" "rg_queueCapacity ex_one = 4" "ts_state (cell ex_one 0) = StateResolving" "ts_attemptGen (cell ex_one 0) = ''1''"
    apply (simp add: ex_one_def Next.simps [of 3 "[]"] Let_def signalLocked_def)
  by code_simp+

lemma ex_done_tasks: "rg_tasks ex_done = [''a'' \<mapsto> 0, ''b'' \<mapsto> 1]"
  unfolding ex_done_def run_regs_simps run_reg.simps FailDisposition_def
  by (simp add: finishWithGen_def isTerminal_def finish_cell_def Let_def pruneTerminalOrderLocked_def)

lemma ex_retry_tasks: "dom (rg_tasks (run_reg 8 (RRetry ''a'' None None) ex_done)) = {''a'', ''b''}"
proof -
  have "\<not> queue_full ex_done" "isTerminal (ts_state (cell ex_done 0))" by code_simp+
  then show ?thesis
    by (auto simp: RetryTaskWithDecider_def Let_def ex_done_tasks alloc_def snapshotTaskLocked_def enqueue_def signalLocked_def split_beta)
qed

theorem totals_conserved_witness:
  "ss_WireRxBytes (fst (Status [''a'', ''b''] 9 (run_reg 8 (RRetry ''a'' None None) ex_done))) = ss_WireRxBytes (fst (Status [''b'', ''a''] 7 ex_done))"
proof -
  have "reg_reach ex_done"
    unfolding ex_done_def run_regs_simps
  proof (intro reg_call ex_reach)
    show "cmd_ok ex_one (RFail \<lparr>tk_state = 0, tk_attemptGen = ''1''\<rparr> \<lparr>f_Stage = ''s'', f_Op = ''o'', f_Class = ''c'',
     f_Unavailable = False, f_Retryable = True, f_RetryOwner = [], f_PhysicalAttemptID = [], f_Message = ''m'', f_Cause = None\<rparr>)"
      by (simp add: cmd_ok_def)
  qed
  moreover have "set [''b'', ''a''] = dom (rg_tasks ex_done)" unfolding ex_done_tasks by auto
  moreover have "set [''a'', ''b''] = dom (rg_tasks (run_reg 8 (RRetry ''a'' None None) ex_done))"
    unfolding ex_retry_tasks by simp
  ultimately show ?thesis
    by (intro totals_conserved [THEN conjunct1]) (simp_all only: cmd_ok_def counts.simps handle.simps, simp_all)
qed

end
