(* ===== verification/Data_Gate.thy ===== *)
theory Data_Gate
  imports Prelude
begin

text \<open>
  The gate for data requests (\<open>core/transfer/gate.go\<close>): a limit on the requests in flight and the cooldowns of the data
  centres. The semaphore of \<open>golang.org/x/sync/semaphore\<close> is a parameter with the laws \<open>semaphore_ok\<close>. The callers of
  \<open>Acquire\<close> are a step relation, so that every interleaving of their critical sections and atomic operations is
  a run. Times are nanoseconds.
\<close>

section \<open>State and operations\<close>

text \<open>Semaphore states are of type \<open>'s\<close>. \<open>sem_acquire\<close> takes one permit, or is \<open>None\<close> while there is none.\<close>

record 's semaphore =
  sem_new :: "int64 \<Rightarrow> 's"
  sem_acquire :: "'s \<Rightarrow> 's option"
  sem_release :: "'s \<Rightarrow> 's"

text \<open>What the package documents of a weighted semaphore, for a measure \<open>held\<close> of the permits in use: a new semaphore has none in use,
  acquiring takes one and never exceeds the size, releasing gives one back.\<close>

definition semaphore_ok :: "'s semaphore \<Rightarrow> int64 \<Rightarrow> ('s \<Rightarrow> int) \<Rightarrow> bool" where
  "semaphore_ok S size64 held \<longleftrightarrow> held (sem_new S size64) = 0 \<and>
     (\<forall>s s'. sem_acquire S s = Some s' \<longrightarrow> held s' = held s + 1 \<and> held s' \<le> size64) \<and>
     (\<forall>s. 0 < held s \<longrightarrow> held (sem_release S s) = held s - 1)"

record 's DataGate =
  dg_sem :: 's
  dg_maxInFlight :: int64
  dg_inFlight :: int64
  dg_dcCooldowns :: "int \<rightharpoonup> int64"

definition DefaultMaxDataInFlight :: int64 where
  "DefaultMaxDataInFlight = 40"

definition NewDataGate :: "'s semaphore \<Rightarrow> int64 \<Rightarrow> 's DataGate" where
  "NewDataGate S maxInFlight =
     (let n = (if maxInFlight \<le> 0 then DefaultMaxDataInFlight else maxInFlight)
      in \<lparr>dg_sem = sem_new S n, dg_maxInFlight = n, dg_inFlight = 0, dg_dcCooldowns = Map.empty\<rparr>)"

text \<open>A \<open>nil\<close> gate is \<open>None\<close>.\<close>

definition InFlight :: "'s DataGate option \<Rightarrow> int64" where
  "InFlight go = (case go of None \<Rightarrow> 0 | Some g \<Rightarrow> dg_inFlight g)"

definition MaxInFlight :: "'s DataGate option \<Rightarrow> int64" where
  "MaxInFlight go = (case go of None \<Rightarrow> DefaultMaxDataInFlight | Some g \<Rightarrow> dg_maxInFlight g)"

definition Max_alias :: "'s DataGate option \<Rightarrow> int64" where
  "Max_alias go = MaxInFlight go"

definition TriggerFloodWait :: "int64 \<Rightarrow> int \<Rightarrow> int64 \<Rightarrow> 's DataGate \<Rightarrow> 's DataGate" where
  "TriggerFloodWait now dc d g =
     (if d \<le> 0 then g
      else let notBefore = now + d
      in if (case dg_dcCooldowns g dc of None \<Rightarrow> True | Some current \<Rightarrow> notBefore > current)
         then g\<lparr>dg_dcCooldowns := (dg_dcCooldowns g)(dc \<mapsto> notBefore)\<rparr> else g)"

definition IsDCCooledDown :: "int64 \<Rightarrow> int \<Rightarrow> 's DataGate option \<Rightarrow> bool" where
  "IsDCCooledDown now dc go = (case go of None \<Rightarrow> False
     | Some g \<Rightarrow> (case dg_dcCooldowns g dc of None \<Rightarrow> False | Some nb \<Rightarrow> now < nb))"

text \<open>The two critical sections of \<open>Acquire\<close>: the check before the semaphore, which also drops the expired
  entries, and the verification after it. Both give the time still to wait.\<close>

definition wait_time :: "int64 \<Rightarrow> int \<Rightarrow> 's DataGate \<Rightarrow> int64" where
  "wait_time now dc g = (case dg_dcCooldowns g dc of None \<Rightarrow> 0 | Some nb \<Rightarrow> if now < nb then nb - now else 0)"

definition acquire_check :: "int64 \<Rightarrow> int \<Rightarrow> 's DataGate \<Rightarrow> int64 \<times> 's DataGate" where
  "acquire_check now dc g =
     (let g1 = g\<lparr>dg_dcCooldowns := (\<lambda>d. case dg_dcCooldowns g d of None \<Rightarrow> None
            | Some nb \<Rightarrow> if now > nb then None else Some nb)\<rparr>
      in (wait_time now dc g1, g1))"

definition acquire_verify :: "int64 \<Rightarrow> int \<Rightarrow> 's DataGate \<Rightarrow> int64" where
  "acquire_verify now dc g = wait_time now dc g"

text \<open>
  Callers of \<open>Acquire\<close> run concurrently. A caller is at the check, waits for the end of a cooldown, waits for a permit,
  is at the verification, is about to count itself, holds the permit, has uncounted itself, or is
  done: with an error, or after its release. The release function runs its body once.
\<close>

datatype caller = AtCheck | Cooling int64 | AtSem | AtVerify | AtCount | Holding | Uncounted | Released | Failed_ctx

text \<open>One step of a caller for the data centre \<open>dc\<close> at time \<open>now\<close>.\<close>

inductive Acquire_step :: "'s semaphore \<Rightarrow> int64 \<Rightarrow> int \<Rightarrow> caller \<times> 's DataGate \<Rightarrow> caller \<times> 's DataGate \<Rightarrow> bool"
  for S :: "'s semaphore" and now :: int64 and dc :: int where
  check_wait: "acquire_check now dc g = (w, g') \<Longrightarrow> w > 0 \<Longrightarrow> Acquire_step S now dc (AtCheck, g) (Cooling (now + w), g')"
| check_pass: "acquire_check now dc g = (w, g') \<Longrightarrow> w \<le> 0 \<Longrightarrow> Acquire_step S now dc (AtCheck, g) (AtSem, g')"
| cool_over: "until \<le> now \<Longrightarrow> Acquire_step S now dc (Cooling until, g) (AtCheck, g)"
| cool_done: "Acquire_step S now dc (Cooling until, g) (Failed_ctx, g)"
| sem_got: "sem_acquire S (dg_sem g) = Some s \<Longrightarrow> Acquire_step S now dc (AtSem, g) (AtVerify, g\<lparr>dg_sem := s\<rparr>)"
| sem_done: "Acquire_step S now dc (AtSem, g) (Failed_ctx, g)"
| verify_wait: "acquire_verify now dc g = w \<Longrightarrow> w > 0 \<Longrightarrow>
    Acquire_step S now dc (AtVerify, g) (Cooling (now + w), g\<lparr>dg_sem := sem_release S (dg_sem g)\<rparr>)"
| verify_pass: "acquire_verify now dc g \<le> 0 \<Longrightarrow> Acquire_step S now dc (AtVerify, g) (AtCount, g)"
| count_in: "Acquire_step S now dc (AtCount, g) (Holding, g\<lparr>dg_inFlight := i64 (dg_inFlight g + 1)\<rparr>)"
| count_out: "Acquire_step S now dc (Holding, g) (Uncounted, g\<lparr>dg_inFlight := i64 (dg_inFlight g - 1)\<rparr>)"
| give_back: "Acquire_step S now dc (Uncounted, g) (Released, g\<lparr>dg_sem := sem_release S (dg_sem g)\<rparr>)"
| release_again: "Acquire_step S now dc (Released, g) (Released, g)"

inductive_cases check_cases: "Acquire_step S now dc (AtCheck, g) x"

text \<open>A system: the callers with their data centres, and the gate. Steps are a new caller, a step of one caller, and a
  flood wait that the server reports; the clock does not go back.\<close>

record 's gate_sys =
  gs_callers :: "(int \<times> caller) list"
  gs_gate :: "'s DataGate"
  gs_now :: int64

inductive gate_step :: "'s semaphore \<Rightarrow> 's gate_sys \<Rightarrow> 's gate_sys \<Rightarrow> bool" for S :: "'s semaphore" where
  new_caller: "gate_step S y (y\<lparr>gs_callers := gs_callers y @ [(dc, AtCheck)]\<rparr>)"
| caller_step: "i < length (gs_callers y) \<Longrightarrow> gs_callers y ! i = (dc, p) \<Longrightarrow>
    Acquire_step S (gs_now y) dc (p, gs_gate y) (p', g') \<Longrightarrow>
    gate_step S y (y\<lparr>gs_callers := (gs_callers y)[i := (dc, p')], gs_gate := g'\<rparr>)"
| flood: "gate_step S y (y\<lparr>gs_gate := TriggerFloodWait (gs_now y) dc d (gs_gate y)\<rparr>)"
| tick: "gs_now y \<le> t \<Longrightarrow> gate_step S y (y\<lparr>gs_now := t\<rparr>)"

inductive gate_reach :: "'s semaphore \<Rightarrow> 's gate_sys \<Rightarrow> 's gate_sys \<Rightarrow> bool" for S :: "'s semaphore" and y0 where
  gate_start: "gate_reach S y0 y0"
| gate_next: "gate_reach S y0 y \<Longrightarrow> gate_step S y y' \<Longrightarrow> gate_reach S y0 y'"

definition gate_init :: "'s semaphore \<Rightarrow> int64 \<Rightarrow> int64 \<Rightarrow> 's gate_sys" where
  "gate_init S maxInFlight now = \<lparr>gs_callers = [], gs_gate = NewDataGate S maxInFlight, gs_now = now\<rparr>"

section \<open>Permits\<close>

fun holds_permit :: "caller \<Rightarrow> bool" where
  "holds_permit AtVerify = True"
| "holds_permit AtCount = True"
| "holds_permit Holding = True"
| "holds_permit Uncounted = True"
| "holds_permit _ = False"

definition permits :: "(int \<times> caller) list \<Rightarrow> int" where
  "permits cs = int (length (filter (\<lambda>(dc, p). holds_permit p) cs))"

definition counted :: "(int \<times> caller) list \<Rightarrow> int" where
  "counted cs = int (length (filter (\<lambda>(dc, p). p = Holding) cs))"

lemma counted_le: "0 \<le> counted cs \<and> counted cs \<le> permits cs"
proof -
  have "filter (\<lambda>(dc, p). p = Holding) cs = filter (\<lambda>(dc, p). p = Holding) (filter (\<lambda>(dc, p). holds_permit p) cs)"
    by (auto simp: intro!: filter_cong)
  then have "length (filter (\<lambda>(dc, p). p = Holding) cs) \<le> length (filter (\<lambda>(dc, p). holds_permit p) cs)"
    by (metis length_filter_le)
  then show ?thesis by (simp add: counted_def permits_def)
qed

definition gate_inv :: "('s \<Rightarrow> int) \<Rightarrow> int64 \<Rightarrow> 's gate_sys \<Rightarrow> bool" where
  "gate_inv held n y \<longleftrightarrow> held (dg_sem (gs_gate y)) = permits (gs_callers y) \<and> permits (gs_callers y) \<le> n \<and>
     dg_inFlight (gs_gate y) = counted (gs_callers y) \<and> dg_maxInFlight (gs_gate y) = n"

lemma acquire_check_gate:
  "acquire_check now dc g = (w, g') \<Longrightarrow> dg_sem g' = dg_sem g \<and> dg_inFlight g' = dg_inFlight g \<and> dg_maxInFlight g' = dg_maxInFlight g"
  by (auto simp: acquire_check_def Let_def)

lemma permits_update: "i < length cs \<Longrightarrow> cs ! i = (dc, p) \<Longrightarrow>
    permits (cs[i := (dc', p')]) = permits cs - of_bool (holds_permit p) + of_bool (holds_permit p')"
  by (simp add: permits_def count_update)

lemma counted_update: "i < length cs \<Longrightarrow> cs ! i = (dc, p) \<Longrightarrow>
    counted (cs[i := (dc', p')]) = counted cs - of_bool (p = Holding) + of_bool (p' = Holding)"
  by (simp add: counted_def count_update)

lemma permits_pos: "i < length cs \<Longrightarrow> cs ! i = (dc, p) \<Longrightarrow> holds_permit p \<Longrightarrow> 0 < permits cs"
  using nth_mem [of i cs] by (force simp: permits_def filter_empty_conv)

lemma count_fits: "fits64 n \<Longrightarrow> permits cs \<le> n \<Longrightarrow> i64 (counted cs) = counted cs"
  using counted_le [of cs] by (intro i64_id) (auto simp: fits64_def)

lemma Acquire_step_inv:
  assumes "Acquire_step S now dc (p, g) (p', g')" and "semaphore_ok S n held" and "fits64 n"
    and "i < length cs" and "cs ! i = (dc, p)" and "held (dg_sem g) = permits cs" and "permits cs \<le> n"
    and "dg_inFlight g = counted cs" and "dg_maxInFlight g = n"
  defines "cs' \<equiv> cs[i := (dc, p')]"
  shows "held (dg_sem g') = permits cs' \<and> permits cs' \<le> n \<and> dg_inFlight g' = counted cs' \<and> dg_maxInFlight g' = n"
proof -
  note u = permits_update [OF assms(4,5), of dc p'] counted_update [OF assms(4,5), of dc p']
  have pos: "holds_permit p \<Longrightarrow> 0 < held (dg_sem g)" using permits_pos [OF assms(4,5)] assms(6) by simp
  have sem: "\<And>s s'. sem_acquire S s = Some s' \<Longrightarrow> held s' = held s + 1 \<and> held s' \<le> n"
    "\<And>s. 0 < held s \<Longrightarrow> held (sem_release S s) = held s - 1"
    using assms(2) unfolding semaphore_ok_def by blast+
  have f: "permits cs' \<le> n \<Longrightarrow> i64 (counted cs') = counted cs'" using count_fits [OF assms(3)] by blast
  show ?thesis
    using assms(1)
  proof (cases rule: Acquire_step.cases)
    case (check_wait w)
    then show ?thesis using u assms(6-9) acquire_check_gate [OF check_wait(3)] by (simp add: cs'_def)
  next
    case (check_pass w)
    then show ?thesis using u assms(6-9) acquire_check_gate [OF check_pass(3)] by (simp add: cs'_def)
  next
    case (sem_got s)
    then show ?thesis using u assms(6-9) sem(1) [of "dg_sem g" s] by (simp add: cs'_def)
  qed (use u assms(6-9) pos sem(2) [of "dg_sem g"] f in \<open>simp_all add: cs'_def\<close>)
qed

lemma permits_snoc [simp]: "permits (cs @ [(dc, AtCheck)]) = permits cs" "counted (cs @ [(dc, AtCheck)]) = counted cs"
  by (simp_all add: permits_def counted_def)

lemma flood_fields [simp]:
  "dg_sem (TriggerFloodWait now dc d g) = dg_sem g" "dg_inFlight (TriggerFloodWait now dc d g) = dg_inFlight g"
  "dg_maxInFlight (TriggerFloodWait now dc d g) = dg_maxInFlight g"
  by (simp_all add: TriggerFloodWait_def Let_def)

lemma gate_step_inv:
  assumes "gate_step S y y'" and "semaphore_ok S n held" and "fits64 n" and "gate_inv held n y"
  shows "gate_inv held n y'"
  using assms(1)
proof (cases rule: gate_step.cases)
  case (caller_step i dc p p' g')
  then show ?thesis
    using Acquire_step_inv [OF caller_step(4) assms(2,3) caller_step(2,3)] assms(4) by (simp add: gate_inv_def)
qed (use assms(4) in \<open>simp_all add: gate_inv_def\<close>)

lemma gate_reach_inv:
  assumes "gate_reach S y0 y" and "semaphore_ok S n held" and "fits64 n" and "gate_inv held n y0"
  shows "gate_inv held n y"
  using assms(1)
proof (induction rule: gate_reach.induct)
  case gate_start
  show ?case by (rule assms(4))
next
  case (gate_next y y')
  show ?case by (rule gate_step_inv [OF gate_next(2) assms(2,3) gate_next(3)])
qed

text \<open>C32. The gate limits the requests in flight under every interleaving of callers, flood waits and cancellations: the counter
  is the number of callers that hold a permit and have counted themselves, it never exceeds the limit, and the permits of the
  semaphore in use are exactly those of callers between acquiring and releasing, so a caller that waits for a cooldown, failed or
  released holds none.\<close>

theorem gate_never_exceeds_limit:
  assumes "semaphore_ok S n held" and "n = (if maxInFlight \<le> 0 then 40 else maxInFlight)" and "fits64 n"
    and "gate_reach S (gate_init S maxInFlight now) y"
  shows "InFlight (Some (gs_gate y)) = counted (gs_callers y) \<and> counted (gs_callers y) \<le> MaxInFlight (Some (gs_gate y)) \<and>
    held (dg_sem (gs_gate y)) = permits (gs_callers y)"
proof -
  have "gate_inv held n (gate_init S maxInFlight now)"
    using assms(1,2) by (auto simp: gate_inv_def gate_init_def NewDataGate_def DefaultMaxDataInFlight_def Let_def permits_def
        counted_def semaphore_ok_def)
  then have "gate_inv held n y" by (rule gate_reach_inv [OF assms(4,1,3)])
  then show ?thesis using counted_le [of "gs_callers y"] by (auto simp: gate_inv_def InFlight_def MaxInFlight_def)
qed

section \<open>Flood waits\<close>

text \<open>The data centre is barred until \<open>t\<close>, unless \<open>t\<close> is over.\<close>

definition barred :: "int \<Rightarrow> int64 \<Rightarrow> int64 \<Rightarrow> 's DataGate \<Rightarrow> bool" where
  "barred dc t now g \<longleftrightarrow> t < now \<or> (\<exists>nb. dg_dcCooldowns g dc = Some nb \<and> t \<le> nb)"

lemma barred_trigger: "0 < d \<Longrightarrow> barred dc (now + d) now (TriggerFloodWait now dc d g)"
  by (auto simp: barred_def TriggerFloodWait_def Let_def split: option.splits)

lemma barred_check: "barred dc t now g \<Longrightarrow> acquire_check now dc' g = (w, g') \<Longrightarrow> barred dc t now g'"
  by (auto simp: barred_def acquire_check_def Let_def)

lemma barred_Acquire: "Acquire_step S now dc' (p, g) (p', g') \<Longrightarrow> barred dc t now g \<Longrightarrow> barred dc t now g'"
  by (erule Acquire_step.cases) (simp_all add: barred_check, simp_all add: barred_def)

lemma barred_step: "gate_step S y y' \<Longrightarrow> barred dc t (gs_now y) (gs_gate y) \<Longrightarrow> barred dc t (gs_now y') (gs_gate y')"
proof (erule gate_step.cases)
  fix z i dc' p p' g'
  assume "y = z" "y' = z\<lparr>gs_callers := (gs_callers z)[i := (dc', p')], gs_gate := g'\<rparr>" "barred dc t (gs_now y) (gs_gate y)"
    "Acquire_step S (gs_now z) dc' (p, gs_gate z) (p', g')"
  then show ?thesis by (simp add: barred_Acquire)
qed (auto simp: barred_def TriggerFloodWait_def Let_def split: if_splits option.splits)

lemma barred_reach: "gate_reach S y0 y \<Longrightarrow> barred dc t (gs_now y0) (gs_gate y0) \<Longrightarrow> barred dc t (gs_now y) (gs_gate y)"
  by (induction rule: gate_reach.induct) (auto intro: barred_step)

inductive_cases verify_cases: "Acquire_step S now dc (AtVerify, g) (AtCount, g')"

text \<open>C33. After a flood wait of \<open>d\<close> for a data centre, no caller for it passes the verification before \<open>d\<close> is over,
  whatever shorter waits are reported and whatever expired entries other callers drop in between.\<close>

theorem flood_wait_respected:
  assumes "0 < d" and "y1 = y0\<lparr>gs_gate := TriggerFloodWait (gs_now y0) dc d (gs_gate y0)\<rparr>" and "gate_reach S y1 y"
    and "Acquire_step S (gs_now y) dc (AtVerify, gs_gate y) (AtCount, g')"
  shows "gs_now y0 + d \<le> gs_now y"
proof -
  have "barred dc (gs_now y0 + d) (gs_now y) (gs_gate y)"
    using barred_reach [OF assms(3)] assms(1,2) by (simp add: barred_trigger)
  moreover have "acquire_verify (gs_now y) dc (gs_gate y) \<le> 0" using assms(4) by (auto elim: verify_cases)
  ultimately show ?thesis by (auto simp: barred_def acquire_verify_def wait_time_def split: if_splits)
qed

section \<open>Instances\<close>

text \<open>A counter as semaphore of size 2.\<close>

definition ex_semaphore :: "int semaphore" where
  "ex_semaphore = \<lparr>sem_new = (\<lambda>n. 0), sem_acquire = (\<lambda>s. if s < 2 then Some (s + 1) else None), sem_release = (\<lambda>s. s - 1)\<rparr>"

lemma ex_semaphore_ok: "semaphore_ok ex_semaphore 2 (\<lambda>s. s)"
  by (simp add: semaphore_ok_def ex_semaphore_def)

text \<open>One caller that has passed to the verification.\<close>

definition ex_gate_sys :: "caller \<Rightarrow> int \<Rightarrow> int gate_sys" where
  "ex_gate_sys p s = \<lparr>gs_callers = [(2, p)], gs_gate = \<lparr>dg_sem = s, dg_maxInFlight = 2, dg_inFlight = 0, dg_dcCooldowns = Map.empty\<rparr>, gs_now = 5\<rparr>"

lemma ex_gate_reach: "gate_reach ex_semaphore (gate_init ex_semaphore 2 5) (ex_gate_sys AtVerify 1)"
proof -
  let ?i = "gate_init ex_semaphore 2 5"
  have "gate_step ex_semaphore ?i (ex_gate_sys AtCheck 0)"
    using gate_step.new_caller [of ex_semaphore ?i 2]
    by (simp add: gate_init_def ex_gate_sys_def NewDataGate_def ex_semaphore_def)
  moreover have "gate_step ex_semaphore (ex_gate_sys AtCheck 0) (ex_gate_sys AtSem 0)"
    using gate_step.caller_step [of 0 "ex_gate_sys AtCheck 0" 2 AtCheck ex_semaphore AtSem "gs_gate (ex_gate_sys AtCheck 0)"]
      Acquire_step.check_pass [of 5 2 "gs_gate (ex_gate_sys AtCheck 0)" 0 "gs_gate (ex_gate_sys AtCheck 0)" ex_semaphore]
    by (simp add: ex_gate_sys_def acquire_check_def wait_time_def Let_def)
  moreover have "gate_step ex_semaphore (ex_gate_sys AtSem 0) (ex_gate_sys AtVerify 1)"
    using gate_step.caller_step [of 0 "ex_gate_sys AtSem 0" 2 AtSem ex_semaphore AtVerify "gs_gate (ex_gate_sys AtVerify 1)"]
      Acquire_step.sem_got [of ex_semaphore "gs_gate (ex_gate_sys AtSem 0)" 1 5 2]
    by (simp add: ex_gate_sys_def ex_semaphore_def)
  ultimately show ?thesis by (meson gate_reach.intros)
qed

theorem gate_never_exceeds_limit_witness:
  "permits (gs_callers (ex_gate_sys AtVerify 1)) = 1 \<and> InFlight (Some (gs_gate (ex_gate_sys AtVerify 1))) = 0"
  using gate_never_exceeds_limit [OF ex_semaphore_ok _ _ ex_gate_reach]
  by (simp add: fits64_def ex_gate_sys_def permits_def InFlight_def)

theorem flood_wait_respected_witness: "gs_now (ex_gate_sys AtVerify 1) + 3 \<le> 9"
proof -
  let ?y0 = "ex_gate_sys AtVerify 1"
  let ?y1 = "?y0\<lparr>gs_gate := TriggerFloodWait (gs_now ?y0) 2 3 (gs_gate ?y0)\<rparr>"
  let ?y = "?y1\<lparr>gs_now := 9\<rparr>"
  have "gate_step ex_semaphore ?y1 ?y" by (rule gate_step.tick) (simp add: ex_gate_sys_def)
  then have "gate_reach ex_semaphore ?y1 ?y" by (meson gate_reach.intros)
  moreover have "Acquire_step ex_semaphore (gs_now ?y) 2 (AtVerify, gs_gate ?y) (AtCount, gs_gate ?y)"
    by (rule Acquire_step.verify_pass) (simp add: acquire_verify_def wait_time_def ex_gate_sys_def TriggerFloodWait_def)
  ultimately show ?thesis
    using flood_wait_respected [of 3 ?y1 ?y0 2 ex_semaphore ?y "gs_gate ?y"] by (simp add: ex_gate_sys_def)
qed

end
