(* ===== verification/File_Transfer.thy ===== *)
theory File_Transfer
  imports Data_Gate Byte_Ranges Go_Strings
begin

text \<open>
  The transfer manager (\<open>core/transfer/manager.go\<close>) and the gated invoker (\<open>core/transfer/adapter.go\<close>): request
  budgets, the identities of requests, the counting of requests, and the classified result of a download. The parallel download of the
  client library and the inner invoker are arguments (\<open>par_env\<close>, \<open>invoke_env\<close>). The callbacks for retries and the
  construction of library clients are left out.
\<close>

declare split_paired_All [simp del] split_paired_Ex [simp del]

section \<open>Sizes and budgets\<close>

definition DefaultFileConcurrency :: int64 where
  "DefaultFileConcurrency = 5"

definition DefaultMaxFileThreads :: int64 where
  "DefaultMaxFileThreads = 8"

definition GotdPartSize :: int64 where
  "GotdPartSize = 512 * 1024"

definition DefaultMaxRetryAttempts :: int64 where
  "DefaultMaxRetryAttempts = 20"

text \<open>Division of Go integers truncates towards zero.\<close>

definition go_div :: "int64 \<Rightarrow> int64 \<Rightarrow> int64" where
  "go_div a b = sgn a * sgn b * (\<bar>a\<bar> div \<bar>b\<bar>)"

definition ComputeChunkCount :: "int64 \<Rightarrow> int64" where
  "ComputeChunkCount size64 =
     (if size64 \<le> 0 then 1
      else let chunks = go_div (i64 (size64 + GotdPartSize - 1)) GotdPartSize
           in if chunks \<le> 0 then 1 else chunks)"

definition ComputeRequestBudget :: "int64 \<Rightarrow> int64 \<Rightarrow> int64" where
  "ComputeRequestBudget expectedSize maxRetriesPerChunk =
     (let m = (if maxRetriesPerChunk \<le> 0 then DefaultMaxRetryAttempts else maxRetriesPerChunk)
      in i64 (ComputeChunkCount expectedSize * i64 (1 + m)))"

section \<open>Errors\<close>

text \<open>
  The errors that requests return: the exhausted budget, the two context errors, an error of the server with its type
  and the duration of a flood wait, any other error, and an \<open>InvocationError\<close> that binds the identity and the
  label of a request to its error.
\<close>

datatype inv_error = ErrRequestBudgetExhausted | ErrCanceled | ErrDeadline
  | ErrServer string string "int64 option" | ErrOther string | InvocationError inv_error string string

fun err_text :: "inv_error \<Rightarrow> string" where
  "err_text ErrRequestBudgetExhausted = ''request budget exhausted''"
| "err_text ErrCanceled = ''context canceled''"
| "err_text ErrDeadline = ''context deadline exceeded''"
| "err_text (ErrServer ty txt d) = txt"
| "err_text (ErrOther txt) = txt"
| "err_text (InvocationError e phys label) = err_text e"

text \<open>\<open>errors.Is\<close>, \<open>tgerr.Is\<close> and \<open>tgerr.AsFloodWait\<close> look through \<open>InvocationError\<close>.\<close>

fun unwrapped :: "inv_error \<Rightarrow> inv_error" where
  "unwrapped (InvocationError e phys label) = unwrapped e"
| "unwrapped e = e"

definition is_server :: "string list \<Rightarrow> inv_error \<Rightarrow> bool" where
  "is_server types e = (case unwrapped e of ErrServer ty txt d \<Rightarrow> ty \<in> set types | _ \<Rightarrow> False)"

definition AsFloodWait :: "inv_error option \<Rightarrow> int64 option" where
  "AsFloodWait eo = (case eo of None \<Rightarrow> None
     | Some e \<Rightarrow> (case unwrapped e of ErrServer ty txt d \<Rightarrow> d | _ \<Rightarrow> None))"

fun ExtractPhysicalAttempt :: "inv_error \<Rightarrow> (string \<times> string) option" where
  "ExtractPhysicalAttempt (InvocationError e phys label) = Some (phys, label)"
| "ExtractPhysicalAttempt e = None"

datatype te_cause = CauseErr inv_error | CauseText string

record TransferError =
  te_Stage :: string
  te_Op :: string
  te_Class :: string
  te_Unavailable :: bool
  te_Retryable :: bool
  te_RetryOwner :: string
  te_Cause :: te_cause

definition cause_text :: "te_cause \<Rightarrow> string" where
  "cause_text c = (case c of CauseErr e \<Rightarrow> err_text e | CauseText s \<Rightarrow> s)"

definition te_Error :: "TransferError \<Rightarrow> string" where
  "te_Error e = ''['' @ te_Stage e @ '':'' @ te_Op e @ ''] '' @ te_Class e @ '' (owner: '' @ te_RetryOwner e @ ''): '' @
     cause_text (te_Cause e)"

section \<open>The context of a task\<close>

text \<open>The counters are pointers that the requests of one download share; \<open>None\<close> is \<open>nil\<close>. Operations return the context with the
  new values behind the pointers. The calls of \<open>OnInvocation\<close> are recorded.\<close>

record TransferTaskContext =
  tc_TaskID :: string
  tc_AttemptID :: string
  tc_ChatID :: string
  tc_MessageID :: int
  tc_DCID :: int
  tc_MaxRetries :: int64
  tc_RequestBudget :: int64
  tc_RequestCount :: "int64 option"
  tc_WireBytes :: "int64 option"
  tc_PhysicalRetries :: "int64 option"
  tc_RangeAttempts :: "(string \<rightharpoonup> int64) option"
  tc_FailedAttempts :: "(string \<rightharpoonup> string) option"
  tc_LastPhysicalID :: "string option option"
  tc_OnInvocation :: "(string \<times> inv_error option) list option"

definition NextInvocationID :: "string \<Rightarrow> TransferTaskContext \<Rightarrow> (string \<times> int64) \<times> TransferTaskContext" where
  "NextInvocationID rangeLabel tc =
     (let (attempt, tc1) = (case tc_RangeAttempts tc of
            None \<Rightarrow> (1, tc)
          | Some m \<Rightarrow> let n = i64 ((case m rangeLabel of None \<Rightarrow> 0 | Some c \<Rightarrow> c) + 1)
                      in (n, tc\<lparr>tc_RangeAttempts := Some (m(rangeLabel \<mapsto> n))\<rparr>));
          gen = (if tc_AttemptID tc = [] then ''1'' else tc_AttemptID tc);
          ident = gen @ ''-'' @ rangeLabel @ ''-a'' @ show_int attempt;
          tc2 = (if tc_LastPhysicalID tc1 = None then tc1 else tc1\<lparr>tc_LastPhysicalID := Some (Some ident)\<rparr>)
      in ((ident, attempt), tc2))"

definition RecordFailedAttempt :: "string \<Rightarrow> string \<Rightarrow> TransferTaskContext \<Rightarrow> TransferTaskContext" where
  "RecordFailedAttempt rangeLabel invID tc =
     (let tc1 = (case tc_FailedAttempts tc of None \<Rightarrow> tc
            | Some m \<Rightarrow> tc\<lparr>tc_FailedAttempts := Some (m(rangeLabel \<mapsto> invID))\<rparr>)
      in if tc_LastPhysicalID tc1 = None then tc1 else tc1\<lparr>tc_LastPhysicalID := Some (Some invID)\<rparr>)"

definition GetFailedAttempt :: "string \<Rightarrow> TransferTaskContext \<Rightarrow> string" where
  "GetFailedAttempt rangeLabel tc = (case tc_FailedAttempts tc of None \<Rightarrow> []
     | Some m \<Rightarrow> (case m rangeLabel of None \<Rightarrow> [] | Some v \<Rightarrow> v))"

definition GetLatestPhysicalAttemptID :: "TransferTaskContext \<Rightarrow> string" where
  "GetLatestPhysicalAttemptID tc =
     (let fallback = (if tc_AttemptID tc \<noteq> [] then tc_AttemptID tc @ ''-p0'' else ''p0'')
      in case tc_LastPhysicalID tc of
           Some (Some p) \<Rightarrow> if p \<noteq> [] then p else fallback
         | _ \<Rightarrow> fallback)"

definition PhysicalAttemptID :: "int64 \<Rightarrow> TransferTaskContext \<Rightarrow> string" where
  "PhysicalAttemptID retry tc = (if tc_AttemptID tc = [] then ''p'' @ show_int retry
     else tc_AttemptID tc @ ''-p'' @ show_int retry)"

section \<open>Requests\<close>

datatype rpc_input = NoInput | UploadGetFile int64 int | UploadGetCDNFile int64 int | OtherInput

definition extractRequestRange :: "rpc_input \<Rightarrow> string \<times> int64 \<times> int" where
  "extractRequestRange input = (case input of
     NoInput \<Rightarrow> (''rpc'', 0, 0)
   | UploadGetFile offset limit \<Rightarrow> (''chunk-'' @ show_int offset, offset, limit)
   | UploadGetCDNFile offset limit \<Rightarrow> (''cdn-'' @ show_int offset, offset, limit)
   | OtherInput \<Rightarrow> (''rpc'', 0, 0))"

text \<open>What a response holds: the bytes of a file, a box with or without such a file, another response with bytes, or
  none.\<close>

datatype rpc_output = NoOutput | UploadFile string | UploadFileBox "string option" | WithBytes string | OtherOutput

definition extractWireBytes :: "rpc_output \<Rightarrow> int64" where
  "extractWireBytes output = (case output of
     UploadFile b \<Rightarrow> int (length b)
   | UploadFileBox (Some b) \<Rightarrow> int (length b)
   | WithBytes b \<Rightarrow> int (length b)
   | _ \<Rightarrow> 0)"

text \<open>The compare-and-swap loop that counts a request: \<open>None\<close> when the budget is exhausted. The loop itself is the
  step relation \<open>count_step\<close> below.\<close>

definition count_request :: "TransferTaskContext \<Rightarrow> TransferTaskContext option" where
  "count_request tc = (case tc_RequestCount tc of
     None \<Rightarrow> Some tc
   | Some cur \<Rightarrow> if tc_RequestBudget tc > 0 \<and> cur \<ge> tc_RequestBudget tc then None
       else Some (tc\<lparr>tc_RequestCount := Some (i64 (cur + 1))\<rparr>))"

text \<open>
  \<open>Invoke\<close> with what it gets from outside: the error of \<open>Acquire\<close>, the error and the response of the
  inner invoker. A flood wait that it passes on to the gate is returned. \<open>None\<close> as context: the request does not belong to a task.
\<close>

record invoke_env =
  iv_acquire :: "inv_error option"
  iv_err :: "inv_error option"
  iv_output :: rpc_output

definition bind_error :: "string \<Rightarrow> string \<Rightarrow> inv_error \<Rightarrow> inv_error" where
  "bind_error phys label e = (if phys \<noteq> [] then InvocationError e phys label else e)"

definition fail_invoke ::
  "string \<Rightarrow> string \<Rightarrow> inv_error \<Rightarrow> TransferTaskContext option \<Rightarrow>
    inv_error option \<times> TransferTaskContext option \<times> int64 option" where
  "fail_invoke phys label e tco =
     (Some (bind_error phys label e), map_option (RecordFailedAttempt label phys) tco, None)"

definition after_invoke ::
  "invoke_env \<Rightarrow> string \<Rightarrow> string \<Rightarrow> TransferTaskContext \<Rightarrow> TransferTaskContext" where
  "after_invoke v phys label tc =
     (let tc1 = (if iv_err v = None then tc else RecordFailedAttempt label phys tc);
          tc2 = (case tc_OnInvocation tc1 of None \<Rightarrow> tc1
            | Some calls \<Rightarrow> tc1\<lparr>tc_OnInvocation := Some (calls @ [(phys, iv_err v)])\<rparr>)
      in case tc_WireBytes tc2 of None \<Rightarrow> tc2
         | Some n \<Rightarrow> let b = extractWireBytes (iv_output v)
                     in if b > 0 then tc2\<lparr>tc_WireBytes := Some (i64 (n + b))\<rparr> else tc2)"

definition Invoke ::
  "invoke_env \<Rightarrow> bool \<Rightarrow> rpc_input \<Rightarrow> TransferTaskContext option \<Rightarrow>
    inv_error option \<times> TransferTaskContext option \<times> int64 option" where
  "Invoke v hasGate input tco =
     (let (label, phys, tco1) = (case tco of
            None \<Rightarrow> ([], [], None)
          | Some tc \<Rightarrow> let label = fst (extractRequestRange input); ((ident, _), tc') = NextInvocationID label tc
                       in (label, ident, Some tc'))
      in case (case tco1 of None \<Rightarrow> Some None | Some tc \<Rightarrow> map_option Some (count_request tc)) of
           None \<Rightarrow> fail_invoke phys label ErrRequestBudgetExhausted tco1
         | Some tco2 \<Rightarrow>
             if hasGate \<and> iv_acquire v \<noteq> None then fail_invoke phys label (the (iv_acquire v)) tco2
             else (map_option (bind_error phys label) (iv_err v), map_option (after_invoke v phys label) tco2,
                   if hasGate then AsFloodWait (iv_err v) else None))"

section \<open>The manager\<close>

record TransferManager =
  tm_fileCapacity :: int64
  tm_activeFiles :: int64
  tm_maxFileThreads :: int64
  tm_gateMax :: int64
  tm_physicalRetries :: int64

record Options =
  op_FileConcurrency :: int64
  op_MaxFileThreads :: int64
  op_MaxDataInFlight :: int64

definition NewTransferManager :: "Options \<Rightarrow> TransferManager" where
  "NewTransferManager opts =
     \<lparr>tm_fileCapacity = (if op_FileConcurrency opts \<le> 0 then DefaultFileConcurrency else op_FileConcurrency opts),
      tm_activeFiles = 0,
      tm_maxFileThreads = (if op_MaxFileThreads opts \<le> 0 then DefaultMaxFileThreads else op_MaxFileThreads opts),
      tm_gateMax = (if op_MaxDataInFlight opts \<le> 0 then DefaultMaxDataInFlight else op_MaxDataInFlight opts),
      tm_physicalRetries = 0\<rparr>"

definition PhysicalRetries :: "TransferManager option \<Rightarrow> int64" where
  "PhysicalRetries mo = (case mo of None \<Rightarrow> 0 | Some m \<Rightarrow> tm_physicalRetries m)"

definition tm_ActiveFiles :: "TransferManager \<Rightarrow> int64" where
  "tm_ActiveFiles m = tm_activeFiles m"

definition SetFileConcurrency :: "int64 \<Rightarrow> TransferManager option \<Rightarrow> string option \<times> TransferManager option" where
  "SetFileConcurrency n mo = (case mo of
     None \<Rightarrow> (Some ''transfer manager is nil'', None)
   | Some m \<Rightarrow> if n < 1 \<or> n > 64 then (Some (''file concurrency must be between 1 and 64, got '' @ show_int n), Some m)
       else (None, Some (m\<lparr>tm_fileCapacity := n\<rparr>)))"

definition FileConcurrency :: "TransferManager option \<Rightarrow> int64" where
  "FileConcurrency mo = (case mo of None \<Rightarrow> 0 | Some m \<Rightarrow> tm_fileCapacity m)"

definition ComputeFileThreads :: "int64 \<Rightarrow> TransferManager \<Rightarrow> int64" where
  "ComputeFileThreads expectedSize m =
     (if expectedSize \<le> 0 then 1
      else let chunkCount = go_div (i64 (expectedSize + GotdPartSize - 1)) GotdPartSize;
               threads = (if chunkCount < tm_maxFileThreads m then chunkCount else tm_maxFileThreads m)
           in if threads < 1 then 1 else threads)"

record DownloadResult =
  dr_Written :: int64
  dr_WireBytes :: int64
  dr_ReplayBytes :: int64
  dr_RequestCount :: int64
  dr_PhysicalRetries :: int64
  dr_RequestBudget :: int64
  dr_PhysicalAttemptID :: string

text \<open>
  The parallel download of the client library: the writes it makes, each with the result of the destination,
  the number of retries it reports, what its requests do to the counters of the context, and the error it returns;
  and the error of the context at the end.
\<close>

record par_env =
  pe_writes :: "(int64 \<times> int64 \<times> string option) list"
  pe_retries :: nat
  pe_requests :: "TransferTaskContext \<Rightarrow> TransferTaskContext"
  pe_err :: "inv_error option"
  pe_ctx :: "inv_error option"

definition transfer_failure :: "string \<Rightarrow> string \<Rightarrow> bool \<Rightarrow> string \<Rightarrow> te_cause \<Rightarrow> TransferError" where
  "transfer_failure op class' unavailable owner cause = \<lparr>te_Stage = ''transfer'', te_Op = op, te_Class = class',
     te_Unavailable = unavailable, te_Retryable = False, te_RetryOwner = owner, te_Cause = cause\<rparr>"

definition file_reference_errors :: "string list" where
  "file_reference_errors = [''FILE_REFERENCE_EXPIRED'', ''FILEREF_INVALID'', ''FILE_ID_INVALID'', ''LOCATION_INVALID'']"

text \<open>The classification of the outcome.\<close>

definition classify ::
  "inv_error option \<Rightarrow> inv_error option \<Rightarrow> int64 \<Rightarrow> string CountingWriterAt \<Rightarrow> TransferError option" where
  "classify err ctxErr expectedSize writer = (case err of
     Some e \<Rightarrow> Some (
       if unwrapped e = ErrRequestBudgetExhausted
       then transfer_failure ''invoke'' ''network'' False ''gotd'' (CauseErr ErrRequestBudgetExhausted)
       else if writeErr writer \<noteq> None
       then transfer_failure ''write_chunk'' ''io'' False ''none'' (CauseText (the (writeErr writer)))
       else if ctxErr \<noteq> None
       then transfer_failure ''download'' ''canceled'' False ''none'' (CauseErr (the ctxErr))
       else if is_server file_reference_errors e
       then transfer_failure ''download'' ''unavailable'' True ''none'' (CauseErr e)
       else transfer_failure ''download'' ''network'' False ''gotd'' (CauseErr e))
   | None \<Rightarrow>
       if expectedSize > 0 \<and> \<not> writer_IsComplete writer expectedSize
       then Some (transfer_failure ''verify_coverage'' ''corrupt'' False ''none''
         (CauseText (''incomplete download coverage: covered '' @ show_int (writer_CoveredBytes writer) @ '' of '' @
           show_int expectedSize @ '' expected bytes'')))
       else None)"

definition add_retries :: "nat \<Rightarrow> TransferTaskContext \<Rightarrow> TransferTaskContext" where
  "add_retries n tc = tc\<lparr>tc_PhysicalRetries := map_option (\<lambda>k. i64 (k + int n)) (tc_PhysicalRetries tc)\<rparr>"

definition nil_context :: TransferTaskContext where
  "nil_context = \<lparr>tc_TaskID = [], tc_AttemptID = [], tc_ChatID = [], tc_MessageID = 0, tc_DCID = 0, tc_MaxRetries = 0,
     tc_RequestBudget = 0, tc_RequestCount = None, tc_WireBytes = None, tc_PhysicalRetries = None, tc_RangeAttempts = None,
     tc_FailedAttempts = None, tc_LastPhysicalID = None, tc_OnInvocation = None\<rparr>"

definition DownloadFileWithResult ::
  "par_env \<Rightarrow> int64 \<Rightarrow> bool \<Rightarrow> TransferTaskContext option \<Rightarrow> TransferManager \<Rightarrow>
    (DownloadResult \<times> TransferError option) \<times> string CountingWriterAt \<times> TransferTaskContext option \<times> TransferManager" where
  "DownloadFileWithResult v expectedSize progress tco m =
     (let m1 = m\<lparr>tm_activeFiles := i64 (tm_activeFiles m + 1)\<rparr>;
          tc = (case tco of Some tc \<Rightarrow> tc | None \<Rightarrow> nil_context);
          maxRetries = (if tco \<noteq> None \<and> tc_MaxRetries tc > 0 then tc_MaxRetries tc else DefaultMaxRetryAttempts);
          budget = (if tc_RequestBudget tc \<le> 0 then ComputeRequestBudget expectedSize maxRetries else tc_RequestBudget tc);
          tc1 = (if tco \<noteq> None then tc\<lparr>tc_RequestBudget := budget\<rparr> else tc);
          writer = WriteAll (NewCountingWriterAt expectedSize progress) (pe_writes v);
          tc2 = (if tco \<noteq> None then add_retries (pe_retries v) (pe_requests v tc1) else tc1);
          got = downloaded writer;
          wire0 = (if tco \<noteq> None then (case tc_WireBytes tc2 of None \<Rightarrow> 0 | Some n \<Rightarrow> n) else 0);
          reqCount = (if tco \<noteq> None then (case tc_RequestCount tc2 of None \<Rightarrow> 0 | Some n \<Rightarrow> n) else 0);
          wireBytes = (if wire0 < got then got else wire0);
          replayBytes = (if wireBytes > got then i64 (wireBytes - got) else 0);
          res = \<lparr>dr_Written = got, dr_WireBytes = wireBytes, dr_ReplayBytes = replayBytes, dr_RequestCount = reqCount,
            dr_PhysicalRetries = i64 (int (pe_retries v)), dr_RequestBudget = budget,
            dr_PhysicalAttemptID = GetLatestPhysicalAttemptID tc2\<rparr>;
          m2 = m1\<lparr>tm_physicalRetries := i64 (tm_physicalRetries m1 + int (pe_retries v))\<rparr>
      in ((res, classify (pe_err v) (pe_ctx v) expectedSize writer), writer,
          if tco \<noteq> None then Some tc2 else None, m2\<lparr>tm_activeFiles := i64 (tm_activeFiles m2 - 1)\<rparr>))"

definition DownloadFile ::
  "par_env \<Rightarrow> int64 \<Rightarrow> bool \<Rightarrow> TransferTaskContext option \<Rightarrow> TransferManager \<Rightarrow> int64 \<times> TransferError option" where
  "DownloadFile v expectedSize progress tco m =
     (case DownloadFileWithResult v expectedSize progress tco m of ((res, err), _) \<Rightarrow> (dr_Written res, err))"

section \<open>Identities of requests\<close>

fun invocation_ids :: "string list \<Rightarrow> TransferTaskContext \<Rightarrow> string list" where
  "invocation_ids [] tc = []"
| "invocation_ids (l # ls) tc = (let ((ident, n), tc') = NextInvocationID l tc in ident # invocation_ids ls tc')"

definition gen_of :: "TransferTaskContext \<Rightarrow> string" where
  "gen_of tc = (if tc_AttemptID tc = [] then ''1'' else tc_AttemptID tc)"

definition make_id :: "string \<Rightarrow> string \<Rightarrow> int \<Rightarrow> string" where
  "make_id gen label n = gen @ ''-'' @ label @ ''-a'' @ show_int n"

lemma a_not_digit: "CHR ''a'' \<notin> set (show_int n)"
proof -
  have "CHR ''a'' \<notin> decimal_chars" by (simp add: decimal_chars_def)
  then show ?thesis using show_nat_digits by (auto simp: show_int_def)
qed

lemma first_split:
  "us @ a # xs = vs @ a # ys \<Longrightarrow> a \<notin> set us \<Longrightarrow> a \<notin> set vs \<Longrightarrow> us = vs \<and> xs = ys"
proof (induction us arbitrary: vs)
  case Nil
  then show ?case by (cases vs) auto
next
  case (Cons u us)
  then show ?case by (cases vs) auto
qed

lemma last_a_split:
  assumes "xs @ CHR ''a'' # us = ys @ CHR ''a'' # vs" and "CHR ''a'' \<notin> set us" and "CHR ''a'' \<notin> set vs"
  shows "xs = ys \<and> us = vs"
proof -
  have "rev us @ CHR ''a'' # rev xs = rev vs @ CHR ''a'' # rev ys"
    using arg_cong [OF assms(1), of rev] by simp
  then show ?thesis using first_split [of "rev us" "CHR ''a''" "rev xs" "rev vs" "rev ys"] assms(2,3) by simp
qed

lemma make_id_inj: "make_id g l n = make_id g l' n' \<Longrightarrow> l = l' \<and> n = n'"
  using last_a_split [of "l @ ''-''" "show_int n" "l' @ ''-''" "show_int n'"] a_not_digit
  by (auto simp: make_id_def dest: show_int_inj)

text \<open>After some calls, every label has a counter, and the counters stay in range.\<close>

lemma next_invocation:
  assumes "tc_RangeAttempts tc = Some m" and "c = (case m l of None \<Rightarrow> 0 | Some c \<Rightarrow> c)" and "0 \<le> c" and "c + 1 < 2 ^ 63"
    and "NextInvocationID l tc = ((ident, n), tc')"
  shows "ident = make_id (gen_of tc) l (c + 1)" "tc_RangeAttempts tc' = Some (m(l \<mapsto> c + 1))" "gen_of tc' = gen_of tc"
proof -
  have "i64 (c + 1) = c + 1" using assms(3,4) by (intro i64_id) (simp add: fits64_def)
  with assms show "ident = make_id (gen_of tc) l (c + 1)" "tc_RangeAttempts tc' = Some (m(l \<mapsto> c + 1))" "gen_of tc' = gen_of tc"
    by (auto simp: NextInvocationID_def Let_def make_id_def gen_of_def split: if_splits)
qed

definition counter :: "(string \<rightharpoonup> int64) \<Rightarrow> string \<Rightarrow> int64" where
  "counter m l = (case m l of None \<Rightarrow> 0 | Some c \<Rightarrow> c)"

lemma invocation_ids_above:
  assumes "tc_RangeAttempts tc = Some m" and "\<forall>l. 0 \<le> counter m l \<and> counter m l + int (length ls) < 2 ^ 63"
  shows "distinct (invocation_ids ls tc) \<and>
    set (invocation_ids ls tc) \<subseteq> {make_id (gen_of tc) l n |l n. counter m l < n}"
  using assms
proof (induction ls arbitrary: tc m)
  case (Cons l ls)
  obtain ident n tc' where x: "NextInvocationID l tc = ((ident, n), tc')" by (metis prod.collapse)
  have c: "0 \<le> counter m l" "counter m l + 1 < 2 ^ 63" using spec [OF Cons.prems(2), of l] by auto
  note y = next_invocation [OF Cons.prems(1) refl _ _ x, folded counter_def, OF c]
  let ?m = "m(l \<mapsto> counter m l + 1)"
  have up: "counter ?m k = counter m k + (if k = l then 1 else 0)" for k by (simp add: counter_def)
  have "\<forall>k. 0 \<le> counter ?m k \<and> counter ?m k + int (length ls) < 2 ^ 63"
  proof
    fix k
    show "0 \<le> counter ?m k \<and> counter ?m k + int (length ls) < 2 ^ 63"
      using spec [OF Cons.prems(2), of k] unfolding up by auto
  qed
  note IH = Cons.IH [OF y(2) this, unfolded y(3) up]
  have "ident \<notin> set (invocation_ids ls tc')"
  proof
    assume "ident \<in> set (invocation_ids ls tc')"
    then obtain k i where "ident = make_id (gen_of tc) k i" "counter m k + (if k = l then 1 else 0) < i" using IH by blast
    then show False using y(1) make_id_inj [of "gen_of tc" l "counter m l + 1" k i] by auto
  qed
  moreover have "set (invocation_ids ls tc') \<subseteq> {make_id (gen_of tc) l n |l n. counter m l < n}"
    using IH by (force split: if_splits)
  moreover have "ident \<in> {make_id (gen_of tc) l n |l n. counter m l < n}" unfolding y(1) by force
  ultimately show ?case using IH by (simp add: x)
qed simp

text \<open>C92. The identities of the requests of one download are distinct, for every sequence of request labels.\<close>

theorem invocation_ids_unique:
  assumes "tc_RangeAttempts tc = Some Map.empty" and "int (length labels) < 2 ^ 63"
  shows "distinct (invocation_ids labels tc)"
  using invocation_ids_above [OF assms(1), of labels] assms(2) by (simp add: counter_def)

section \<open>The request budget\<close>

text \<open>
  The loop that counts a request loads the counter, checks the budget, and swaps only if the counter still has the loaded value.
  Its callers run concurrently.
\<close>

datatype counting = CStart | CLoaded int64 | CCounted | CRefused

inductive count_step :: "int64 \<Rightarrow> counting list \<times> int64 \<Rightarrow> counting list \<times> int64 \<Rightarrow> bool" for budget where
  count_new: "count_step budget (cs, n) (cs @ [CStart], n)"
| count_load: "i < length cs \<Longrightarrow> cs ! i = CStart \<Longrightarrow> count_step budget (cs, n) (cs[i := CLoaded n], n)"
| count_refuse: "i < length cs \<Longrightarrow> cs ! i = CLoaded cur \<Longrightarrow> budget > 0 \<and> cur \<ge> budget \<Longrightarrow>
    count_step budget (cs, n) (cs[i := CRefused], n)"
| count_swap: "i < length cs \<Longrightarrow> cs ! i = CLoaded cur \<Longrightarrow> \<not> (budget > 0 \<and> cur \<ge> budget) \<Longrightarrow> n = cur \<Longrightarrow>
    count_step budget (cs, n) (cs[i := CCounted], i64 (cur + 1))"
| count_lost: "i < length cs \<Longrightarrow> cs ! i = CLoaded cur \<Longrightarrow> \<not> (budget > 0 \<and> cur \<ge> budget) \<Longrightarrow> n \<noteq> cur \<Longrightarrow>
    count_step budget (cs, n) (cs[i := CStart], n)"

inductive count_reach :: "int64 \<Rightarrow> counting list \<times> int64 \<Rightarrow> bool" for budget where
  count_init: "count_reach budget ([], 0)"
| count_next: "count_reach budget x \<Longrightarrow> count_step budget x y \<Longrightarrow> count_reach budget y"

definition counted_requests :: "counting list \<Rightarrow> int" where
  "counted_requests cs = int (length (filter (\<lambda>c. c = CCounted) cs))"

fun count_inv :: "int64 \<Rightarrow> counting list \<times> int64 \<Rightarrow> bool" where
  "count_inv budget (cs, n) \<longleftrightarrow> n = counted_requests cs \<and> n \<le> budget \<and>
     (\<forall>cur. CLoaded cur \<in> set cs \<longrightarrow> cur \<le> n) \<and> (CRefused \<in> set cs \<longrightarrow> n = budget)"

lemma counted_requests_update:
  "i < length cs \<Longrightarrow> counted_requests (cs[i := c]) = counted_requests cs - of_bool (cs ! i = CCounted) + of_bool (c = CCounted)"
  by (simp add: counted_requests_def count_update)

lemma count_step_inv:
  assumes "count_step budget x y" and "0 < budget" and "fits64 budget" and "count_inv budget x"
  shows "count_inv budget y"
  using assms(1)
proof (cases rule: count_step.cases)
  case (count_new cs n)
  then show ?thesis using assms(4) by (auto simp: counted_requests_def)
next
  case (count_load i cs n)
  then show ?thesis using assms(4) by (auto simp: counted_requests_update dest!: set_update_subset_insert [THEN subsetD])
next
  case (count_refuse i cs cur n)
  then have "cur \<le> n" using assms(4) nth_mem [of i cs] by auto
  with count_refuse show ?thesis using assms(4)
    by (auto simp: counted_requests_update dest!: set_update_subset_insert [THEN subsetD])
next
  case (count_swap i cs cur n)
  then have "0 \<le> cur" "cur < budget" using assms(2,4) by (auto simp: counted_requests_def)
  then have "i64 (cur + 1) = cur + 1" using assms(3) by (intro i64_id) (auto simp: fits64_def)
  with count_swap show ?thesis using assms(2,4)
    by (auto simp: counted_requests_update dest!: set_update_subset_insert [THEN subsetD] intro: order.trans)
next
  case (count_lost i cs cur n)
  then show ?thesis using assms(4)
    by (auto simp: counted_requests_update dest!: set_update_subset_insert [THEN subsetD])
qed

text \<open>The compare-and-swap loop never lets more requests through than the budget under every interleaving of its
  callers, counts exactly the admitted ones, and refuses only when the budget is used up.\<close>

theorem budget_never_exceeded:
  assumes "0 < budget" and "fits64 budget" and "count_reach budget (cs, n)"
  shows "n = counted_requests cs \<and> n \<le> budget \<and> (CRefused \<in> set cs \<longrightarrow> n = budget)"
proof -
  have "count_inv budget (cs, n)"
    using assms(3)
  proof (induction "(cs, n)" arbitrary: cs n rule: count_reach.induct)
    case count_init
    then show ?case using assms(1) by (simp add: counted_requests_def)
  next
    case (count_next x cs n)
    obtain cs' n' where x: "x = (cs', n')" by (cases x)
    show ?case by (rule count_step_inv [OF count_next(3) assms(1,2) count_next(2) [OF x, folded x]])
  qed
  then show ?thesis by auto
qed

section \<open>The result of a transfer\<close>

text \<open>C34. A transfer reports success exactly when the library reported no error and the writes cover every byte of the
  file; the written bytes are the sum of the writes, the wire bytes are at least as many and the replayed bytes are the
  difference; and if the written bytes equal the size, no byte was written twice.\<close>

theorem transfer_succeeds_iff_covered:
  assumes "0 < size64" and "fits64 size64" and "list_all (write_in size64) (pe_writes v)"
    and "fits64 (sum_list (map write_len (pe_writes v)))"
    and "DownloadFileWithResult v size64 progress tco m = ((res, err), writer, tco', m')"
  shows "(err = None \<longleftrightarrow> pe_err v = None \<and> {0..<size64} \<subseteq> (\<Union>w\<in>set (pe_writes v). write_set w)) \<and>
    dr_Written res = sum_list (map write_len (pe_writes v)) \<and> dr_Written res \<le> dr_WireBytes res \<and>
    (fits64 (dr_WireBytes res) \<longrightarrow> dr_ReplayBytes res = dr_WireBytes res - dr_Written res) \<and>
    (err = None \<and> dr_Written res = size64 \<longrightarrow> sorted_wrt (\<lambda>x y. write_set x \<inter> write_set y = {}) (pe_writes v))"
proof -
  define ws where "ws = pe_writes v"
  have w: "writer = WriteAll (NewCountingWriterAt size64 progress) ws" and got: "dr_Written res = downloaded writer"
    and e: "err = classify (pe_err v) (pe_ctx v) size64 writer"
    and wire: "dr_Written res \<le> dr_WireBytes res"
    using assms(5) by (auto simp: DownloadFileWithResult_def Let_def ws_def)
  note r = writer_result [OF assms(1-4) [folded ws_def] w]
  have n: "0 \<le> sum_list (map write_len ws)" by (rule sum_list_nonneg) (auto simp: write_len_def split: prod.splits)
  have replay: "dr_ReplayBytes res = (if dr_WireBytes res > dr_Written res then i64 (dr_WireBytes res - dr_Written res) else 0)"
    using assms(5) by (auto simp: DownloadFileWithResult_def Let_def)
  have "fits64 (dr_WireBytes res) \<Longrightarrow> i64 (dr_WireBytes res - dr_Written res) = dr_WireBytes res - dr_Written res"
    using got r n wire by (intro i64_id) (auto simp: fits64_def)
  moreover have ok: "err = None \<longleftrightarrow> pe_err v = None \<and> {0..<size64} \<subseteq> (\<Union>w\<in>set ws. write_set w)"
    using r assms(1) unfolding e classify_def by (auto split: option.splits)
  moreover have "sorted_wrt (\<lambda>x y. write_set x \<inter> write_set y = {}) ws" if "err = None" "dr_Written res = size64"
  proof (rule writes_disjoint_if_counted_once)
    have "(\<Union>w\<in>set ws. write_set w) = {0..<size64}" using ok that(1) r by blast
    then show "sum_list (map write_len ws) \<le> int (card (\<Union>w\<in>set ws. write_set w))" using that(2) got r assms(1) by simp
  qed
  ultimately show ?thesis using got r wire replay by (auto simp: ws_def)
qed

text \<open>Threads and budgets.\<close>

lemma go_div_pos: "0 \<le> a \<Longrightarrow> 0 < b \<Longrightarrow> go_div a b = a div b"
  by (cases "a = 0") (simp_all add: go_div_def)

lemma chunks_exact:
  assumes "0 < n" and "n + GotdPartSize - 1 < 2 ^ 63"
  shows "go_div (i64 (n + GotdPartSize - 1)) GotdPartSize = (n + GotdPartSize - 1) div GotdPartSize"
    and "1 \<le> (n + GotdPartSize - 1) div GotdPartSize"
  using assms by (simp_all add: go_div_pos i64_id fits64_def GotdPartSize_def)

text \<open>C95. The number of threads for a file is between one and the configured maximum for every size, and is the number
  of chunks, rounded up, below the maximum, unless the rounding overflows.\<close>

theorem file_threads_bounded:
  assumes "fits64 n" and "1 \<le> tm_maxFileThreads m"
  shows "1 \<le> ComputeFileThreads n m \<and> ComputeFileThreads n m \<le> tm_maxFileThreads m \<and>
    (0 < n \<and> n + GotdPartSize - 1 < 2 ^ 63 \<longrightarrow>
      ComputeFileThreads n m = min (tm_maxFileThreads m) ((n + GotdPartSize - 1) div GotdPartSize) \<and>
      ComputeChunkCount n = (n + GotdPartSize - 1) div GotdPartSize)"
  using assms(2) chunks_exact [of n]
  by (auto simp: ComputeFileThreads_def ComputeChunkCount_def Let_def min_def)

section \<open>Instances\<close>

definition ex_context :: TransferTaskContext where
  "ex_context = nil_context\<lparr>tc_AttemptID := ''g'', tc_RangeAttempts := Some Map.empty\<rparr>"

theorem invocation_ids_unique_witness: "distinct (invocation_ids [''chunk-0'', ''chunk-0'', ''rpc''] ex_context)"
  by (rule invocation_ids_unique) (simp_all add: ex_context_def)

theorem budget_never_exceeded_witness: "counted_requests [CCounted] \<le> 1"
proof -
  have "count_reach 1 ([], 0)" by (rule count_init)
  moreover have "count_step 1 ([], 0) ([CStart], 0)" using count_new [of 1 "[]" 0] by simp
  moreover have "count_step 1 ([CStart], 0) ([CLoaded 0], 0)" using count_load [of 0 "[CStart]" 1 0] by simp
  moreover have "count_step 1 ([CLoaded 0], 0) ([CCounted], 1)" using count_swap [of 0 "[CLoaded 0]" 0 1 0] by (simp add: i64_def)
  ultimately have "count_reach 1 ([CCounted], 1)" by (meson count_next)
  from budget_never_exceeded [OF _ _ this] show ?thesis by (simp add: fits64_def)
qed

definition ex_par :: par_env where
  "ex_par = \<lparr>pe_writes = [(4, 2, None), (0, 4, None)], pe_retries = 0, pe_requests = (\<lambda>tc. tc), pe_err = None, pe_ctx = None\<rparr>"

definition ex_manager :: TransferManager where
  "ex_manager = NewTransferManager \<lparr>op_FileConcurrency = 0, op_MaxFileThreads = 0, op_MaxDataInFlight = 0\<rparr>"

theorem transfer_succeeds_iff_covered_witness:
  "snd (fst (DownloadFileWithResult ex_par 6 False (Some ex_context) ex_manager)) = None"
proof -
  obtain res err writer tco m where x: "DownloadFileWithResult ex_par 6 False (Some ex_context) ex_manager = ((res, err), writer, tco, m)"
    by (metis prod.collapse)
  have "{0..<6} \<subseteq> (\<Union>w\<in>set (pe_writes ex_par). write_set w)" by (auto simp: ex_par_def write_set_def)
  then show ?thesis
    using transfer_succeeds_iff_covered [OF _ _ _ _ x] x
    by (simp add: fits64_def ex_par_def write_in_def write_len_def)
qed

theorem file_threads_bounded_witness: "ComputeFileThreads 524289 ex_manager = 2"
  using file_threads_bounded [of 524289 ex_manager]
  by (simp add: fits64_def ex_manager_def NewTransferManager_def DefaultMaxFileThreads_def GotdPartSize_def)

end
