(* ===== verification/Path_Planner.thy ===== *)
theory Path_Planner
  imports Task_Registry Archive_Safety
begin

text \<open>
  The path of a download below the download directory (\<open>PathPlanner.Plan\<close> in \<open>app/daemon/orchestrator.go\<close>), with the
  date of the message as a civil year and month. The package \<open>filenamify\<close> is the parameter \<open>fnm\<close>; \<open>filenamify_ok\<close> states what it
  documents of its results. White space is that of ASCII.
\<close>

section \<open>Planning a path\<close>

text \<open>\<open>strings.ReplaceAll\<close> of one character by another.\<close>

definition replace_char :: "char \<Rightarrow> char \<Rightarrow> string \<Rightarrow> string" where
  "replace_char a b s = map (\<lambda>c. if c = a then b else c) s"

text \<open>\<open>filepath.Join\<close> of a list: the elements from the first nonempty one on.\<close>

definition Join_list :: "string list \<Rightarrow> string" where
  "Join_list xs = (case dropWhile (\<lambda>x. x = []) xs of [] \<Rightarrow> [] | ys \<Rightarrow> Clean (join_slash ys))"

text \<open>\<open>time.Unix(t, 0).UTC().Format("2006_01")\<close>: the civil year and month of a time in seconds.\<close>

definition pad_left :: "nat \<Rightarrow> string \<Rightarrow> string" where
  "pad_left n s = replicate (n - length s) (CHR ''0'') @ s"

definition civil_month :: "int \<Rightarrow> int \<times> int" where
  "civil_month days =
     (let z = days + 719468; era = z div 146097; doe = z mod 146097;
          yoe = (doe - doe div 1460 + doe div 36524 - doe div 146096) div 365;
          doy = doe - (365 * yoe + yoe div 4 - yoe div 100);
          mp = (5 * doy + 2) div 153;
          m = (if mp < 10 then mp + 3 else mp - 9);
          y = yoe + era * 400
      in (if m \<le> 2 then y + 1 else y, m))"

definition year_month :: "int64 \<Rightarrow> string" where
  "year_month t = (let (y, m) = civil_month (t div 86400)
     in pad_left 4 (show_nat (nat y)) @ ''_'' @ pad_left 2 (show_nat (nat m)))"

definition media_ext :: "string \<Rightarrow> string" where
  "media_ext mediaType = (if mediaType = ''photo'' then ''.jpg'' else if mediaType = ''audio'' then ''.mp3''
     else if mediaType = ''video'' then ''.mp4'' else ''.bin'')"

text \<open>\<open>fnm\<close> is \<open>filenamify.Filenamify\<close> with the replacement underscore; \<open>now\<close> is the time in seconds.\<close>

definition safe_folder :: "(string \<Rightarrow> string) \<Rightarrow> string \<Rightarrow> string \<Rightarrow> string" where
  "safe_folder fnm peer channelTitle =
     (let f0 = TrimSpace channelTitle;
          f1 = (if f0 \<noteq> [] then fnm f0 else f0);
          f2 = (if f1 = [] then fnm peer else f1);
          f3 = Clean (TrimSpace f2)
      in if f3 = [] \<or> f3 = ''.'' \<or> f3 = ''/'' \<or> HasPrefix f3 ''..'' then ''default'' else f3)"

definition safe_file_name :: "(string \<Rightarrow> string) \<Rightarrow> int \<Rightarrow> string \<Rightarrow> string \<Rightarrow> string" where
  "safe_file_name fnm msgID rawName mediaType =
     (let raw = TrimSpace rawName;
          cleanRaw = (if raw = [] \<or> raw = ''.'' \<or> raw = show_int msgID @ ''.bin'' \<or> raw = show_int msgID @ ''.unknown'' \<or>
                         raw = ''unknown.bin'' \<or> HasSuffix raw ''.unknown''
                      then show_int msgID @ media_ext mediaType else raw);
          safe = TrimSpace (fnm cleanRaw)
      in if safe = [] \<or> safe = ''.'' \<or> HasPrefix safe ''..'' then show_int msgID @ media_ext mediaType else safe)"

definition Plan :: "(string \<Rightarrow> string) \<Rightarrow> int64 \<Rightarrow> string \<Rightarrow> string \<Rightarrow> int \<Rightarrow> string \<Rightarrow> string \<Rightarrow> int64 \<Rightarrow> string" where
  "Plan fnm now peer channelTitle msgID rawName mediaType msgDate =
     (let folder = safe_folder fnm peer channelTitle;
          date = (if msgDate \<le> 86400 then now else msgDate);
          ym = year_month date;
          name = safe_file_name fnm msgID rawName mediaType;
          file = show_int msgID @ '' - '' @ name;
          p = replace_char (CHR 0x5C) (CHR ''/'') (Clean (Join_list [folder, ym, file]))
      in if HasPrefix p ''..'' \<or> HasPrefix p ''/'' then ''default/'' @ ym @ ''/'' @ file else p)"

lemma year_month_example: "year_month 1700000000 = ''2023_11'' \<and> year_month 1709164800 = ''2024_02''"
  by code_simp

section \<open>Planned paths are safe\<close>

text \<open>What the package documents of \<open>Filenamify\<close>: the result is a valid file name, without slash, backslash and NUL.\<close>

definition plain :: "string \<Rightarrow> bool" where
  "plain s \<longleftrightarrow> CHR ''/'' \<notin> set s \<and> CHR 0x5C \<notin> set s \<and> CHR 0x00 \<notin> set s"

definition filenamify_ok :: "(string \<Rightarrow> string) \<Rightarrow> bool" where
  "filenamify_ok fnm \<longleftrightarrow> (\<forall>s. plain (fnm s))"

lemma plain_simps [simp]:
  "plain []" "plain (c # s) \<longleftrightarrow> c \<noteq> CHR ''/'' \<and> c \<noteq> CHR 0x5C \<and> c \<noteq> CHR 0x00 \<and> plain s"
  "plain (s @ t) \<longleftrightarrow> plain s \<and> plain t"
  by (auto simp: plain_def)

lemma plain_TrimSpace: "plain s \<Longrightarrow> plain (TrimSpace s)"
proof -
  have "set (TrimSpace s) \<subseteq> set s"
    unfolding TrimSpace_def by (metis set_dropWhileD set_rev subsetI)
  then show "plain s \<Longrightarrow> plain (TrimSpace s)" by (auto simp: plain_def)
qed

lemma plain_show_nat [simp]: "plain (show_nat n)"
proof -
  have "CHR ''/'' \<notin> decimal_chars \<and> CHR 0x5C \<notin> decimal_chars \<and> CHR 0x00 \<notin> decimal_chars" by (simp add: decimal_chars_def)
  then show ?thesis using show_nat_digits [of n] unfolding plain_def by blast
qed

lemma plain_show_int [simp]: "plain (show_int i)"
  by (simp add: show_int_def)

lemma plain_media_ext [simp]: "plain (media_ext m)"
  by (simp add: media_ext_def)

lemma plain_year_month [simp]: "plain (year_month t)"
proof -
  have "plain (replicate n (CHR ''0''))" for n by (simp add: plain_def)
  then show ?thesis by (simp add: year_month_def pad_left_def split_beta)
qed

lemma Clean_plain: "plain s \<Longrightarrow> Clean s = (if s = [] then dot else s)"
  by (cases s) (auto simp: plain_def Clean_def elems_def split_slash_single clean_elem_def path_of_def IsAbs_Cons IsAbs_Nil
      dot_def dotdot_def)

lemma Clean_names:
  assumes "list_all normal es" and "es \<noteq> []"
  shows "Clean (join_slash es) = join_slash es" and "\<not> IsAbs (join_slash es)" and "elems (join_slash es) = es"
proof -
  have c: "canonical False es" and p: "path_of False es = join_slash es"
    using assms by (simp_all add: canonical_names path_of_def)
  show a: "\<not> IsAbs (join_slash es)" using IsAbs_path_of [OF c] by (simp add: p)
  show e: "elems (join_slash es) = es" using elems_path_of [OF c] by (simp add: p)
  show "Clean (join_slash es) = join_slash es" using a e by (simp add: Clean_def p)
qed

lemma safe_folder_name:
  assumes "filenamify_ok fnm"
  shows "plain (safe_folder fnm peer title) \<and> normal (safe_folder fnm peer title) \<and>
    \<not> HasPrefix (safe_folder fnm peer title) dotdot"
proof -
  define f2 where "f2 = (let f0 = TrimSpace title; f1 = (if f0 \<noteq> [] then fnm f0 else f0) in if f1 = [] then fnm peer else f1)"
  have "plain f2" using assms by (auto simp: f2_def filenamify_ok_def Let_def)
  then have p: "plain (TrimSpace f2)" by (rule plain_TrimSpace)
  have "safe_folder fnm peer title = (let f3 = Clean (TrimSpace f2) in
      if f3 = [] \<or> f3 = ''.'' \<or> f3 = ''/'' \<or> HasPrefix f3 ''..'' then ''default'' else f3)"
    by (simp add: safe_folder_def f2_def Let_def)
  also have "\<dots> = (if TrimSpace f2 = [] \<or> TrimSpace f2 = ''.'' \<or> HasPrefix (TrimSpace f2) ''..'' then ''default'' else TrimSpace f2)"
    using p by (auto simp: Clean_plain dot_def Let_def)
  finally show ?thesis using p
    by (auto simp: normal_def dot_def dotdot_def plain_def HasPrefix_def)
qed

lemma safe_file_name_plain:
  assumes "filenamify_ok fnm"
  shows "plain (safe_file_name fnm msgID raw m)"
  using assms plain_TrimSpace by (auto simp: safe_file_name_def Let_def filenamify_ok_def)

lemma replace_char_plain: "c \<notin> set s \<Longrightarrow> replace_char c d s = s"
  unfolding replace_char_def by (rule map_idI) auto

text \<open>The three elements of a planned path.\<close>

definition plan_elems :: "(string \<Rightarrow> string) \<Rightarrow> int64 \<Rightarrow> string \<Rightarrow> string \<Rightarrow> int \<Rightarrow> string \<Rightarrow> string \<Rightarrow> int64 \<Rightarrow> string list" where
  "plan_elems fnm now peer title msgID raw m date = [safe_folder fnm peer title,
     year_month (if date \<le> 86400 then now else date), show_int msgID @ '' - '' @ safe_file_name fnm msgID raw m]"

lemma year_month_normal: "normal (year_month t)"
proof -
  have "CHR ''_'' \<in> set (year_month t)" by (simp add: year_month_def split_beta)
  then show ?thesis using plain_year_month [of t] by (auto simp: normal_def plain_def dot_def dotdot_def)
qed

lemma plan_elems_names:
  assumes "filenamify_ok fnm"
  shows "list_all (\<lambda>e. normal e \<and> plain e) (plan_elems fnm now peer title msgID raw m date)"
proof -
  have "CHR '' '' \<in> set (show_int msgID @ '' - '' @ safe_file_name fnm msgID raw m)" by simp
  moreover have "plain (show_int msgID @ '' - '' @ safe_file_name fnm msgID raw m)"
    using safe_file_name_plain [OF assms] by simp
  ultimately have "normal (show_int msgID @ '' - '' @ safe_file_name fnm msgID raw m)"
    by (auto simp: normal_def plain_def dot_def dotdot_def)
  then show ?thesis
    using safe_folder_name [OF assms] year_month_normal safe_file_name_plain [OF assms] by (simp add: plan_elems_def)
qed

lemma Plan_elems:
  assumes "filenamify_ok fnm"
  shows "Plan fnm now peer title msgID raw m date = join_slash (plan_elems fnm now peer title msgID raw m date)"
proof -
  define es where "es = plan_elems fnm now peer title msgID raw m date"
  have n: "list_all normal es" and p: "list_all plain es" and ne: "es \<noteq> []" and h: "\<exists>xs. es = safe_folder fnm peer title # xs"
    using plan_elems_names [OF assms, of now peer title msgID raw m date]
    by (simp_all add: es_def list_all_iff plan_elems_def)
  have "Join_list es = join_slash es"
    using Clean_names(1) [OF n ne] n h by (auto simp: Join_list_def normal_def)
  moreover have "Clean (join_slash es) = join_slash es" using Clean_names(1) [OF n ne] .
  moreover have "CHR 0x5C \<notin> set (join_slash es)"
    using p by (simp add: es_def plan_elems_def plain_def)
  moreover have "\<not> HasPrefix (join_slash es) ''..''"
    using h prefix_join_slash [of dotdot "safe_folder fnm peer title"] safe_folder_name [OF assms, of peer title]
    by (auto simp: dotdot_def)
  moreover have "\<not> HasPrefix (join_slash es) ''/''" using Clean_names(2) [OF n ne] by (simp add: IsAbs_def)
  moreover obtain d where "Plan fnm now peer title msgID raw m date =
      (let p = replace_char (CHR 0x5C) (CHR ''/'') (Clean (Join_list es))
       in if HasPrefix p ''..'' \<or> HasPrefix p ''/'' then d else p)"
    by (simp add: Plan_def es_def plan_elems_def Let_def)
  ultimately show ?thesis by (simp add: replace_char_plain es_def)
qed

text \<open>C39. A planned path has exactly three elements: folder, month and file, none of them a dot entry. So it lies
  inside the download directory, it is clean, and the registry accepts it as the path of a request.\<close>

theorem planned_path_inside:
  assumes "filenamify_ok fnm" and "IsAbs dir"
    and "p = Plan fnm now peer title msgID raw m date"
  shows "elems p = plan_elems fnm now peer title msgID raw m date \<and> inside dir (Join dir (FromSlash p)) \<and>
    validateRequest (req\<lparr>q_FinalPath := p\<rparr>) = validateRequest (req\<lparr>q_FinalPath := []\<rparr>)"
proof -
  define es where "es = plan_elems fnm now peer title msgID raw m date"
  have n: "list_all normal es" and pl: "list_all plain es" and ne: "es \<noteq> []" and h: "\<exists>xs. es = safe_folder fnm peer title # xs"
    using plan_elems_names [OF assms(1), of now peer title msgID raw m date]
    by (simp_all add: es_def list_all_iff plan_elems_def)
  have p: "p = join_slash es" using Plan_elems [OF assms(1)] by (simp add: assms(3) es_def)
  note c = Clean_names [OF n ne]
  have dd: "\<not> HasPrefix p dotdot"
    using h prefix_join_slash [of dotdot "safe_folder fnm peer title"] safe_folder_name [OF assms(1), of peer title]
    by (auto simp: p)
  have "p \<noteq> dot" using c(3) ne by (auto simp: p elems_def dot_def clean_elem_def)
  with c dd have inside: "inside dir (Join dir p)" using join_rel(4) [OF assms(2), of p p] by (simp add: p)
  have "CHR 0x5C \<notin> set p \<and> CHR 0x00 \<notin> set p"
    using pl by (simp add: p es_def plan_elems_def plain_def)
  moreover have "\<not> HasPrefix p ''/''" using c(2) by (simp add: p IsAbs_def)
  moreover have "p \<noteq> dotdot" using dd by (auto simp: HasPrefix_def)
  moreover have "\<not> HasPrefix p (dotdot @ ''/'')" using dd by (auto simp: HasPrefix_def dest: append_prefixD)
  moreover have "Clean p = p" using c(1) by (simp add: p)
  ultimately have "validateRequest (req\<lparr>q_FinalPath := p\<rparr>) = validateRequest (req\<lparr>q_FinalPath := []\<rparr>)"
    by (auto simp: validateRequest_def ContainsAny_def list_ex_iff)
  with c(3) inside show ?thesis by (simp add: p es_def FromSlash_def)
qed

theorem planned_path_inside_witness:
  "inside ''/d'' (Join ''/d'' (FromSlash (Plan (\<lambda>s. []) 1700000000 ''@ch'' [] 7 [] ''video'' 0)))"
  using planned_path_inside [of "\<lambda>s. []" "''/d''" _ 1700000000 "''@ch''" "[]" 7 "[]" "''video''" 0]
  by (simp add: filenamify_ok_def IsAbs_Cons)

end
