(* ===== verification/Orchestrator.thy ===== *)
theory Orchestrator
  imports Ssd_Admission Recovery_Safety Archive_Safety Registry_Service File_Transfer Path_Planner
begin

text \<open>
  The orchestrator of the daemon (\<open>app/daemon/orchestrator.go\<close>) with its typed errors (\<open>errors.go\<close>) and task identities
  (\<open>naming.go\<close>): its state, the entry points for records and conflicts, the rounds of the scan, dispatch and finalizer loops, and one
  whole attempt, \<open>downloadOne\<close>, from the admission in the database over resolution, planning, reservation, transfer and
  verification to the commit, with every early return. The record \<open>dl_env\<close> gives what the surroundings do in one attempt: clocks, failing calls,
  the answers of the client library, and at numbered places the steps of the rest of the program.
\<close>

declare split_paired_All [simp del] split_paired_Ex [simp del]

section \<open>Typed errors\<close>

record TaskError =
  ke_Stage :: string
  ke_Op :: string
  ke_Class :: string
  ke_Unavailable :: bool
  ke_Retryable :: bool
  ke_Cause :: string

text \<open>The cause is given by its text; \<open>nil\<close> is \<open>None\<close>.\<close>

definition NewTaskError :: "string \<Rightarrow> string \<Rightarrow> string \<Rightarrow> bool \<Rightarrow> bool \<Rightarrow> string option \<Rightarrow> TaskError" where
  "NewTaskError stage op cls unavailable retryable cause = \<lparr>ke_Stage = stage, ke_Op = op, ke_Class = cls,
     ke_Unavailable = unavailable, ke_Retryable = retryable, ke_Cause = (case cause of None \<Rightarrow> cls | Some c \<Rightarrow> c)\<rparr>"

definition NewSimpleTaskError :: "string \<Rightarrow> bool \<Rightarrow> string option \<Rightarrow> TaskError" where
  "NewSimpleTaskError cls unavailable err = NewTaskError ''download'' [] cls unavailable (\<not> unavailable) err"

definition TaskError_Error :: "TaskError option \<Rightarrow> string" where
  "TaskError_Error eo = (case eo of None \<Rightarrow> [] | Some e \<Rightarrow>
     if ke_Op e \<noteq> [] then ''['' @ ke_Stage e @ '':'' @ ke_Op e @ ''] '' @ ke_Class e @ '': '' @ ke_Cause e
     else if ke_Stage e \<noteq> [] then ''['' @ ke_Stage e @ ''] '' @ ke_Class e @ '': '' @ ke_Cause e
     else ke_Class e @ '': '' @ ke_Cause e)"

definition ClassName :: "TaskError option \<Rightarrow> string" where
  "ClassName eo = (case eo of None \<Rightarrow> [] | Some e \<Rightarrow> ke_Class e)"

definition TaskError_Unwrap :: "TaskError option \<Rightarrow> string option" where
  "TaskError_Unwrap eo = map_option ke_Cause eo"

definition TaskError_IsUnavailable :: "TaskError option \<Rightarrow> bool" where
  "TaskError_IsUnavailable eo = (case eo of None \<Rightarrow> False | Some e \<Rightarrow> ke_Unavailable e)"

definition TaskError_IsRetryable :: "TaskError option \<Rightarrow> bool" where
  "TaskError_IsRetryable eo = (case eo of None \<Rightarrow> False | Some e \<Rightarrow> ke_Retryable e)"

text \<open>An error of \<open>Resolve\<close>: its text, the flood wait and the \<open>TaskError\<close> in its chain, and whether it wraps the error of a context.\<close>

record resolve_error =
  re_text :: string
  re_flood :: "int64 option"
  re_task :: "TaskError option"
  re_ctx :: bool

definition ErrorClass :: "resolve_error \<Rightarrow> string" where
  "ErrorClass e = (case re_task e of
     Some t \<Rightarrow> if ke_Class t \<noteq> [] then ke_Class t else ''download'' | None \<Rightarrow> ''download'')"

definition IsUnavailable :: "resolve_error \<Rightarrow> bool" where
  "IsUnavailable e = (case re_task e of Some t \<Rightarrow> ke_Unavailable t | None \<Rightarrow> False)"

section \<open>State\<close>

record orch =
  oc_world :: world
  oc_reg :: Registry
  oc_adm :: "SSDAdmission option"
  oc_archive :: "ArchiveWorker option"
  oc_mgr :: TransferManager
  oc_inFlight :: "string set"
  oc_publishers :: "string \<rightharpoonup> string"
  oc_finalizerWake :: bool
  oc_running :: bool
  oc_saveDir :: string
  oc_activeTasks :: int64

definition NewOrchestrator ::
  "database \<Rightarrow> fs \<Rightarrow> TransferManager \<Rightarrow> SSDAdmission option \<Rightarrow> Registry \<Rightarrow> string \<Rightarrow> orch" where
  "NewOrchestrator db f mgr adm reg dir =
     \<lparr>oc_world = \<lparr>w_fs = f, w_db = db, w_meter = Some NewStorageIOMeter\<rparr>, oc_reg = reg, oc_adm = adm, oc_archive = None,
      oc_mgr = mgr, oc_inFlight = {}, oc_publishers = Map.empty, oc_finalizerWake = False, oc_running = True,
      oc_saveDir = dir, oc_activeTasks = 0\<rparr>"

definition SetArchiveWorker :: "ArchiveWorker option \<Rightarrow> orch \<Rightarrow> orch" where
  "SetArchiveWorker w s = s\<lparr>oc_archive := w\<rparr>"

definition IsArchiveEnabled :: "orch option \<Rightarrow> bool" where
  "IsArchiveEnabled so = (case so of None \<Rightarrow> False | Some s \<Rightarrow> IsEnabled (oc_archive s))"

definition OutputDir :: "orch option \<Rightarrow> string" where
  "OutputDir so = (case so of None \<Rightarrow> ''.'' | Some s \<Rightarrow> oc_saveDir s)"

definition IsRunning :: "orch \<Rightarrow> bool" where
  "IsRunning s = oc_running s"

definition SetRunning :: "bool \<Rightarrow> orch \<Rightarrow> orch" where
  "SetRunning b s = s\<lparr>oc_running := b\<rparr>"

definition ActiveTasks :: "orch \<Rightarrow> int64" where
  "ActiveTasks s = oc_activeTasks s"

definition wakeFinalizer :: "orch \<Rightarrow> orch" where
  "wakeFinalizer s = s\<lparr>oc_finalizerWake := True\<rparr>"

abbreviation o_fs :: "orch \<Rightarrow> fs" where
  "o_fs s \<equiv> w_fs (oc_world s)"

abbreviation o_db :: "orch \<Rightarrow> database" where
  "o_db s \<equiv> w_db (oc_world s)"

definition set_reg :: "(Registry \<Rightarrow> Registry) \<Rightarrow> orch \<Rightarrow> orch" where
  "set_reg f s = s\<lparr>oc_reg := f (oc_reg s)\<rparr>"

definition set_fs :: "(fs \<Rightarrow> fs) \<Rightarrow> orch \<Rightarrow> orch" where
  "set_fs f s = s\<lparr>oc_world := (oc_world s)\<lparr>w_fs := f (o_fs s)\<rparr>\<rparr>"

definition set_db :: "database \<Rightarrow> orch \<Rightarrow> orch" where
  "set_db db s = s\<lparr>oc_world := (oc_world s)\<lparr>w_db := db\<rparr>\<rparr>"

definition set_meter :: "StorageIOMeter option \<Rightarrow> orch \<Rightarrow> orch" where
  "set_meter m s = s\<lparr>oc_world := (oc_world s)\<lparr>w_meter := m\<rparr>\<rparr>"

text \<open>A database operation that returns an error, on the database of the state.\<close>

definition db_call :: "(database \<Rightarrow> db_error option \<times> database) \<Rightarrow> orch \<Rightarrow> db_error option \<times> orch" where
  "db_call f s = (let (e, db) = f (o_db s) in (e, set_db db s))"

subsection \<open>The meter\<close>

text \<open>The archive worker shares the meter of the orchestrator.\<close>

definition Meter :: "orch option \<Rightarrow> StorageIOMeter option" where
  "Meter so = (case so of None \<Rightarrow> None | Some s \<Rightarrow> w_meter (oc_world s))"

definition SetStorageIOMeter :: "StorageIOMeter option \<Rightarrow> orch \<Rightarrow> orch" where
  "SetStorageIOMeter m s = (if m = None then s else set_meter m s)"

definition SSDPhysicalWriteBytes :: "orch option \<Rightarrow> int64" where
  "SSDPhysicalWriteBytes so = (case so of None \<Rightarrow> 0 | Some s \<Rightarrow> meter_SSDWriteBytes (w_meter (oc_world s)))"

definition SSDPhysicalReadBytes :: "orch option \<Rightarrow> int64" where
  "SSDPhysicalReadBytes so = (case so of None \<Rightarrow> 0 | Some s \<Rightarrow> meter_SSDReadBytes (w_meter (oc_world s)))"

definition SSDActiveWriters :: "orch option \<Rightarrow> int64" where
  "SSDActiveWriters so = (case so of None \<Rightarrow> 0 | Some s \<Rightarrow> meter_SSDActiveWriters (w_meter (oc_world s)))"

definition ArchivePhysicalWriteBytes :: "orch option \<Rightarrow> int64" where
  "ArchivePhysicalWriteBytes so = (case so of None \<Rightarrow> 0 | Some s \<Rightarrow> meter_ArchiveWriteBytes (w_meter (oc_world s)))"

definition ArchivePhysicalReadBytes :: "orch option \<Rightarrow> int64" where
  "ArchivePhysicalReadBytes so = (case so of None \<Rightarrow> 0 | Some s \<Rightarrow> meter_ArchiveReadBytes (w_meter (oc_world s)))"

definition ArchiveActiveWriters :: "orch option \<Rightarrow> int64" where
  "ArchiveActiveWriters so = (case so of None \<Rightarrow> 0 | Some s \<Rightarrow> meter_ArchiveActiveWriters (w_meter (oc_world s)))"

definition PhysicalTargetWriteBytes :: "orch option \<Rightarrow> int64" where
  "PhysicalTargetWriteBytes so = (if IsArchiveEnabled so then ArchivePhysicalWriteBytes so else SSDPhysicalWriteBytes so)"

definition PhysicalTargetReadBytes :: "orch option \<Rightarrow> int64" where
  "PhysicalTargetReadBytes so = (if IsArchiveEnabled so then ArchivePhysicalReadBytes so else SSDPhysicalReadBytes so)"

definition ActiveTargetWriters :: "orch option \<Rightarrow> int64" where
  "ActiveTargetWriters so = (if IsArchiveEnabled so then ArchiveActiveWriters so else SSDActiveWriters so)"

section \<open>Entry points\<close>

text \<open>\<open>fmt.Sprintf("%s:%d", chatID, messageID)\<close>.\<close>

definition CanonicalTaskID :: "string \<Rightarrow> int \<Rightarrow> string" where
  "CanonicalTaskID chatID messageID = chatID @ '':'' @ show_int messageID"

record DownloadRecord =
  dr_ChatID :: string
  dr_MessageID :: int
  dr_TargetTitle :: string
  dr_MediaType :: string
  dr_FileName :: string
  dr_CreatedAt :: int64
  dr_SavePath :: string
  dr_FileSize :: int64
  dr_Attempts :: nat

definition record_request :: "DownloadRecord \<Rightarrow> bool \<Rightarrow> TaskRequest" where
  "record_request d retry = \<lparr>q_ID = CanonicalTaskID (dr_ChatID d) (dr_MessageID d), q_Peer = dr_ChatID d,
     q_MessageID = dr_MessageID d, q_FinalPath = dr_SavePath d, q_ExpectedSize = dr_FileSize d, q_Retry = retry,
     q_TargetTitle = dr_TargetTitle d, q_MediaType = dr_MediaType d, q_FileName = dr_FileName d, q_Date = dr_CreatedAt d,
     q_MaxRetries = 0\<rparr>"

datatype submit_error = NotRunning | SubmitReg reg_error

definition SubmitRecord :: "int64 \<Rightarrow> DownloadRecord \<Rightarrow> orch \<Rightarrow> submit_error option \<times> orch" where
  "SubmitRecord now d s =
     (if \<not> IsRunning s then (Some NotRunning, s)
      else let (res, r) = Submit now (record_request d (dr_Attempts d > 0)) (oc_reg s)
           in (case res of Inl e \<Rightarrow> Some (SubmitReg e) | Inr _ \<Rightarrow> None, s\<lparr>oc_reg := r\<rparr>))"

definition TriggerStreamDispatch :: "int64 \<Rightarrow> DownloadRecord \<Rightarrow> orch \<Rightarrow> orch" where
  "TriggerStreamDispatch now d s = snd (SubmitRecord now d s)"

definition orch_CancelTasksByChatID :: "(nat \<Rightarrow> bool) \<Rightarrow> string list \<Rightarrow> int64 \<Rightarrow> string \<Rightarrow> orch \<Rightarrow> orch" where
  "orch_CancelTasksByChatID io ord now chatID s =
     (let decider = (\<lambda>peer messageID gen db.
            let (e, db') = CancelDownload io (Unix now) (peer, messageID) gen ''target disabled by user'' db in (e = None, db'));
          (db, r) = CancelTasksByChatIDWithDecider ord chatID (Some decider) now (o_db s) (oc_reg s)
      in set_db db (s\<lparr>oc_reg := r\<rparr>))"

text \<open>The conflict of a record is resolved in the database as the decision of the retry: \<open>io 0\<close> is the query, the further
  ones are the statements of the update. The query does not read the title and the date.\<close>

definition conflict_record :: "msg_key \<Rightarrow> download_row \<Rightarrow> DownloadRecord" where
  "conflict_record k r = \<lparr>dr_ChatID = fst k, dr_MessageID = snd k, dr_TargetTitle = [],
     dr_MediaType = coalesce (d_media_type r) [], dr_FileName = coalesce (d_file_name r) [], dr_CreatedAt = 0,
     dr_SavePath = coalesce (d_save_path r) [], dr_FileSize = coalesce (d_file_size r) 0, dr_Attempts = d_attempts r\<rparr>"

datatype resolve_conflict_error = RcDb db_error | RcReg reg_error

definition orch_ResolveTargetConflict ::
  "(nat \<Rightarrow> bool) \<Rightarrow> int64 \<Rightarrow> msg_key \<Rightarrow> orch \<Rightarrow> resolve_conflict_error option \<times> orch" where
  "orch_ResolveTargetConflict io now k s =
     (case GetDownloadRecord io k (o_db s) of
        Inl e \<Rightarrow> (Some (RcDb e), s)
      | Inr None \<Rightarrow> (Some (RcDb ErrConflictRecordNotFound), s)
      | Inr (Some rec) \<Rightarrow>
          if d_status rec \<noteq> Conflict then (Some (RcDb ErrConflictRecordNotFound), s)
          else let (res, db, r) = RetryTaskWithDecider now (CanonicalTaskID (fst k) (snd k))
                     (Some (record_request (conflict_record k rec) True))
                     (Some (\<lambda>newGen. ResolveTargetConflict (\<lambda>i. io (i + 1)) (Unix now) now k [newGen])) (o_db s) (oc_reg s)
               in (case res of Inl e \<Rightarrow> Some (RcReg e) | Inr _ \<Rightarrow> None, set_db db (s\<lparr>oc_reg := r\<rparr>)))"

section \<open>The loops\<close>

text \<open>One tick of \<open>scanLoop\<close>; \<open>oth n\<close> is what the rest of the program does before the \<open>n\<close>-th record.\<close>

definition pending_record :: "pending_item \<Rightarrow> DownloadRecord" where
  "pending_record i = (let r = p_row i in \<lparr>dr_ChatID = fst (p_key i), dr_MessageID = snd (p_key i), dr_TargetTitle = p_title i,
     dr_MediaType = coalesce (d_media_type r) [], dr_FileName = coalesce (d_file_name r) [], dr_CreatedAt = d_created_at r,
     dr_SavePath = coalesce (d_save_path r) [], dr_FileSize = coalesce (d_file_size r) 0, dr_Attempts = d_attempts r\<rparr>)"

fun submit_each :: "(nat \<Rightarrow> int64) \<Rightarrow> (nat \<Rightarrow> orch \<Rightarrow> orch) \<Rightarrow> nat \<Rightarrow> pending_item list \<Rightarrow> orch \<Rightarrow> orch" where
  "submit_each now oth n [] s = s"
| "submit_each now oth n (i # is) s =
     (let s1 = oth n s
      in if \<not> IsRunning s1 then s1
         else submit_each now oth (Suc n) is (snd (SubmitRecord (now n) (pending_record i) s1)))"

definition scan_tick :: "(nat \<Rightarrow> bool) \<Rightarrow> int64 \<Rightarrow> (nat \<Rightarrow> int64) \<Rightarrow> (nat \<Rightarrow> orch \<Rightarrow> orch) \<Rightarrow> orch \<Rightarrow> orch" where
  "scan_tick io now0 now oth s =
     (if \<not> IsRunning s then s
      else case GetPendingDownloads io (Unix now0) 50 (o_db s) of
             Inl _ \<Rightarrow> s
           | Inr recs \<Rightarrow> submit_each now oth 0 recs s)"

text \<open>One round of \<open>dispatchLoop\<close>: the task it starts, if any.\<close>

definition max_concurrency :: "orch \<Rightarrow> int64" where
  "max_concurrency s = (if FileConcurrency (Some (oc_mgr s)) > 0 then FileConcurrency (Some (oc_mgr s)) else 5)"

definition dispatch_round :: "int64 \<Rightarrow> wait list \<Rightarrow> orch \<Rightarrow> Task option \<times> orch" where
  "dispatch_round now ws s =
     (if \<not> IsRunning s \<or> oc_activeTasks s \<ge> max_concurrency s then (None, s)
      else case Next now ws (oc_reg s) of
             (Some (Inr t), r) \<Rightarrow> (Some t, s\<lparr>oc_reg := r, oc_activeTasks := i64 (oc_activeTasks s + 1)\<rparr>)
           | (_, r) \<Rightarrow> (None, s\<lparr>oc_reg := r\<rparr>))"

definition task_returned :: "orch \<Rightarrow> orch" where
  "task_returned s = s\<lparr>oc_activeTasks := i64 (oc_activeTasks s - 1)\<rparr>"

text \<open>The finalizer: one pass over the committing records. The environment of a record gives its clock reading, the order of
  the map of the registry, whether the context is done before it, and what the rest of the program does before it.\<close>

record fin_env =
  fe_rec :: rec_env
  fe_now :: int64
  fe_ord :: "string list"
  fe_ctx :: bool
  fe_others :: "orch \<Rightarrow> orch"

definition apply_finish :: "string list \<Rightarrow> int64 \<Rightarrow> reg_finish \<Rightarrow> Registry \<Rightarrow> Registry" where
  "apply_finish ord now f r = snd (FinishTaskByMessage ord (fst (rf_key f)) (snd (rf_key f)) (rf_gen f)
     (if rf_success f then StateSuccess else StateFailed) (rf_class f) (rf_message f) (rf_path f) False (rf_sha f) now r)"

definition reconcile_one ::
  "(string \<Rightarrow> string) \<Rightarrow> kernel \<Rightarrow> fin_env \<Rightarrow> bool \<Rightarrow> msg_key \<Rightarrow> download_row \<Rightarrow> orch \<Rightarrow> orch" where
  "reconcile_one sha256 K v archiveEnabled k r s =
     (if oc_publishers s (CanonicalTaskID (fst k) (snd k)) \<noteq> None then s
      else let (e, fins, w) = ReconcileCommittingRecord sha256 K (fe_rec v) True (oc_saveDir s) archiveEnabled k r (oc_world s)
           in s\<lparr>oc_world := w, oc_reg := fold (apply_finish (fe_ord v) (fe_now v)) fins (oc_reg s)\<rparr>)"

fun reconcile_each ::
  "(string \<Rightarrow> string) \<Rightarrow> kernel \<Rightarrow> (msg_key \<Rightarrow> fin_env) \<Rightarrow> bool \<Rightarrow> (msg_key \<times> download_row) list \<Rightarrow> orch \<Rightarrow> bool \<times> orch" where
  "reconcile_each sha256 K v archiveEnabled [] s = (True, s)"
| "reconcile_each sha256 K v archiveEnabled ((k, r) # recs) s =
     (let s1 = fe_others (v k) s
      in if fe_ctx (v k) then (False, s1)
         else reconcile_each sha256 K v archiveEnabled recs (reconcile_one sha256 K (v k) archiveEnabled k r s1))"

text \<open>The result says whether the pass returned \<open>nil\<close>.\<close>

definition ReconcileCommitting ::
  "(string \<Rightarrow> string) \<Rightarrow> kernel \<Rightarrow> (nat \<Rightarrow> bool) \<Rightarrow> (msg_key \<Rightarrow> fin_env) \<Rightarrow> orch \<Rightarrow> bool \<times> orch" where
  "ReconcileCommitting sha256 K io v s =
     (case GetPendingCommittingDownloads io (o_db s) of
        Inl _ \<Rightarrow> (False, s)
      | Inr recs \<Rightarrow> reconcile_each sha256 K v (IsEnabled (oc_archive s)) recs s)"

text \<open>One round of \<open>finalizerLoop\<close>, after a tick or a wake-up, which empties the channel.\<close>

definition finalizer_round ::
  "(string \<Rightarrow> string) \<Rightarrow> kernel \<Rightarrow> bool \<Rightarrow> (nat \<Rightarrow> bool) \<Rightarrow> (msg_key \<Rightarrow> fin_env) \<Rightarrow> orch \<Rightarrow> orch" where
  "finalizer_round sha256 K woken io v s =
     (let s1 = (if woken then s\<lparr>oc_finalizerWake := False\<rparr> else s)
      in if \<not> IsRunning s1 then s1 else snd (ReconcileCommitting sha256 K io v s1))"

section \<open>One attempt\<close>

record ResolvedMedia =
  rm_HasFile :: bool
  rm_Name :: string
  rm_Size :: int64
  rm_DCID :: int
  rm_Date :: int64
  rm_MediaType :: string

text \<open>
  What the surroundings do during one call of \<open>downloadOne\<close>. A number names the place in the code: \<open>x_now\<close> and \<open>x_io\<close> give the clock
  reading and the failing statements of a call, \<open>x_others\<close> what the rest of the program and other processes do there,
  \<open>x_ctx\<close> whether a context above the one of the task is done, \<open>x_stat\<close>, \<open>x_sha\<close> and \<open>x_rm\<close> whether reading attributes,
  hashing and removing a file fail. \<open>x_text\<close> is the text of a database error. \<open>x_chunks\<close> are the writes to the part: offset, the bytes
  that were written and the error; \<open>x_par\<close> is the rest of what the downloader of the client library does.
\<close>

type_synonym chunk = "int64 \<times> string \<times> string option"

record dl_env =
  x_now :: "nat \<Rightarrow> int64"
  x_tick :: "nat \<Rightarrow> int64"
  x_io :: "nat \<Rightarrow> nat \<Rightarrow> bool"
  x_text :: "db_error \<Rightarrow> string"
  x_others :: "nat \<Rightarrow> orch \<Rightarrow> orch"
  x_ctx :: "nat \<Rightarrow> bool"
  x_resolve :: "nat \<Rightarrow> resolve_error + ResolvedMedia"
  x_wait_done :: "nat \<Rightarrow> bool"
  x_stat :: "nat \<Rightarrow> bool"
  x_sha :: "nat \<Rightarrow> nat option"
  x_err_text :: string
  x_dir_size :: int64
  x_statfs :: statfs
  x_mkdir :: "(string \<times> nat) option"
  x_open :: "string option"
  x_prealloc :: bool
  x_chunks :: "chunk list"
  x_par :: par_env
  x_sync :: "string option"
  x_close :: "string option"
  x_rm :: "nat \<Rightarrow> bool"
  x_commit :: rec_env

text \<open>The local variables: those known from the task, and those of the plan.\<close>

record attempt =
  at_task :: Task
  at_req :: TaskRequest
  at_gen :: string

record plan =
  pn_media :: ResolvedMedia
  pn_fileName :: string
  pn_mediaType :: string
  pn_rel :: string
  pn_final :: string
  pn_part :: string

abbreviation at_key :: "attempt \<Rightarrow> msg_key" where
  "at_key a \<equiv> (q_Peer (at_req a), q_MessageID (at_req a))"

abbreviation pn_size :: "plan \<Rightarrow> int64" where
  "pn_size p \<equiv> rm_Size (pn_media p)"

definition ctx_done :: "dl_env \<Rightarrow> nat \<Rightarrow> attempt \<Rightarrow> orch \<Rightarrow> bool" where
  "ctx_done x i a s \<longleftrightarrow> x_ctx x i \<or> ts_cancelled (cell (oc_reg s) (tk_state (at_task a)))"

definition task_over :: "dl_env \<Rightarrow> nat \<Rightarrow> attempt \<Rightarrow> orch \<Rightarrow> bool" where
  "task_over x i a s \<longleftrightarrow> IsTerminal (at_task a) (oc_reg s) \<or> ctx_done x i a s"

text \<open>A failure that is neither retryable nor makes the record unavailable. The cause matters only when the message is empty.\<close>

definition failure :: "string \<Rightarrow> string \<Rightarrow> string \<Rightarrow> string \<Rightarrow> string option \<Rightarrow> FailureDisposition" where
  "failure stage op cls msg cause = \<lparr>f_Stage = stage, f_Op = op, f_Class = cls, f_Unavailable = False, f_Retryable = False,
     f_RetryOwner = ''none'', f_PhysicalAttemptID = [], f_Message = msg, f_Cause = cause\<rparr>"

definition fail_task :: "dl_env \<Rightarrow> nat \<Rightarrow> attempt \<Rightarrow> FailureDisposition \<Rightarrow> orch \<Rightarrow> orch" where
  "fail_task x i a disp s = set_reg (FailDisposition (at_task a) disp (x_now x i)) s"

definition fail_record ::
  "dl_env \<Rightarrow> nat \<Rightarrow> attempt \<Rightarrow> string \<Rightarrow> string \<Rightarrow> string \<Rightarrow> int64 \<Rightarrow> FailureDisposition \<Rightarrow> orch \<Rightarrow> db_error option \<times> orch" where
  "fail_record x i a fileName path mediaType sz disp s =
     db_call (FailDownloadDisposition (x_io x i) (Unix (x_now x i)) (at_key a) (at_gen a) fileName path mediaType sz disp) s"

text \<open>\<open>task.FailDisposition\<close>, then the record, whose error is ignored.\<close>

definition fail_both :: "dl_env \<Rightarrow> nat \<Rightarrow> attempt \<Rightarrow> plan \<Rightarrow> FailureDisposition \<Rightarrow> orch \<Rightarrow> orch" where
  "fail_both x i a p disp s =
     snd (fail_record x i a (pn_fileName p) (pn_rel p) (pn_mediaType p) (pn_size p) disp (fail_task x i a disp s))"

definition remove_part :: "dl_env \<Rightarrow> nat \<Rightarrow> plan \<Rightarrow> orch \<Rightarrow> orch" where
  "remove_part x i p s = set_fs (Remove (x_rm x i) (pn_part p)) s"

subsection \<open>Admission\<close>

definition missing_text :: "bool \<Rightarrow> string \<Rightarrow> string" where
  "missing_text planned path = (if planned
     then ''record is success in DB with planned path but file missing on disk ('' @ path @ '')''
     else ''record is success in DB but file missing or invalid on disk ('' @ path @ '')'')"

definition corrupt_text :: "bool \<Rightarrow> string \<Rightarrow> string" where
  "corrupt_text planned path = (if planned
     then ''record is success in DB with planned path but file corrupted on disk ('' @ path @ ''): sha mismatch''
     else ''record is success in DB but file corrupted on disk ('' @ path @ ''): sha mismatch'')"

text \<open>The record is already successful: the file on disk is verified.\<close>

definition already_success ::
  "(string \<Rightarrow> string) \<Rightarrow> dl_env \<Rightarrow> nat \<Rightarrow> bool \<Rightarrow> attempt \<Rightarrow> success_proof \<Rightarrow> orch \<Rightarrow> orch" where
  "already_success sha256 x i planned a pf s =
     (let final = Join (OutputDir (Some s)) (FromSlash (SavePath pf))
      in if (case Stat (x_stat x i) (o_fs s) final of None \<Rightarrow> True | Some n \<Rightarrow> node_size (x_dir_size x) n \<noteq> FileSize pf)
         then fail_task x i a (failure ''admission'' ''db_begin_download'' ''missing_file''
                (missing_text planned (SavePath pf)) None) s
         else let (d, m) = ComputeSSDFileSHA256 sha256 (x_sha x i) (o_fs s) final (w_meter (oc_world s));
                  s1 = set_meter m s
              in if d \<noteq> Some (SHA256 pf)
                 then fail_task x i a (failure ''admission'' ''db_begin_download'' ''corrupt''
                        (corrupt_text planned (SavePath pf)) None) s1
                 else set_reg (Succeed (at_task a) (SavePath pf) True (x_now x i)) s1)"

text \<open>\<open>BeginDownload\<close> and what follows when it does not admit the attempt. \<open>Inl\<close>: the attempt has returned.\<close>

definition begin_record ::
  "(string \<Rightarrow> string) \<Rightarrow> dl_env \<Rightarrow> nat \<Rightarrow> bool \<Rightarrow> attempt \<Rightarrow> string \<Rightarrow> string \<Rightarrow> string \<Rightarrow> int64 \<Rightarrow> orch \<Rightarrow> orch + orch" where
  "begin_record sha256 x i planned a fileName path mediaType sz s =
     (case db_call (BeginDownload (x_io x i) (Unix (x_now x i)) (at_key a) (at_gen a) fileName path mediaType sz) s of
        (None, s1) \<Rightarrow> Inr s1
      | (Some (ErrAlreadySuccess pf), s1) \<Rightarrow> Inl (already_success sha256 x i planned a pf s1)
      | (Some e, s1) \<Rightarrow> Inl (fail_task x i a (failure ''admission'' ''db_begin_download'' ''db_conflict'' (x_text x e)
                              (Some (x_text x e))) s1))"

subsection \<open>Resolution\<close>

text \<open>The loop over three attempts. A \<open>break\<close> inside the \<open>select\<close> leaves only the \<open>select\<close>.\<close>

fun resolve_loop :: "dl_env \<Rightarrow> nat \<Rightarrow> nat \<Rightarrow> resolve_error + ResolvedMedia \<Rightarrow> resolve_error + ResolvedMedia" where
  "resolve_loop x i 0 res = res"
| "resolve_loop x i (Suc n) res = (case x_resolve x i of
     Inr m \<Rightarrow> Inr m
   | Inl e \<Rightarrow> if re_flood e \<noteq> None \<and> \<not> x_wait_done x i then resolve_loop x (Suc i) n (Inl e)
              else if re_ctx e then Inl e
              else resolve_loop x (Suc i) n (Inl e))"

definition nil_media :: ResolvedMedia where
  "nil_media = \<lparr>rm_HasFile = False, rm_Name = [], rm_Size = 0, rm_DCID = 0, rm_Date = 0, rm_MediaType = []\<rparr>"

definition resolve_failure :: "resolve_error \<Rightarrow> FailureDisposition" where
  "resolve_failure e = \<lparr>f_Stage = ''resolve'', f_Op = ''get_message'',
     f_Class = (if IsUnavailable e then ''unavailable'' else ErrorClass e), f_Unavailable = IsUnavailable e,
     f_Retryable = \<not> IsUnavailable e, f_RetryOwner = ''none'', f_PhysicalAttemptID = [], f_Message = re_text e,
     f_Cause = Some (re_text e)\<rparr>"

definition no_media_failure :: FailureDisposition where
  "no_media_failure = (failure ''resolve'' ''validate_media'' ''unavailable'' ''message has no downloadable media'' None)
     \<lparr>f_Unavailable := True\<rparr>"

definition resolve_stage :: "dl_env \<Rightarrow> attempt \<Rightarrow> orch \<Rightarrow> orch + ResolvedMedia \<times> orch" where
  "resolve_stage x a s =
     (let req = at_req a
      in case resolve_loop x 0 3 (Inr nil_media) of
           Inl e \<Rightarrow> Inl (snd (fail_record x 1 a (q_FileName req) (q_FinalPath req) (q_MediaType req) (q_ExpectedSize req)
                           (resolve_failure e) (fail_task x 1 a (resolve_failure e) s)))
         | Inr m \<Rightarrow>
             if \<not> rm_HasFile m \<or> rm_Size m \<le> 0
             then Inl (snd (fail_record x 1 a (q_FileName req) (q_FinalPath req) (q_MediaType req) 0
                        no_media_failure (fail_task x 1 a no_media_failure s)))
             else Inr (m, set_reg (SetResolved (at_task a) (rm_Name m) (rm_Size m) (rm_DCID m)) s))"

subsection \<open>Planning\<close>

text \<open>A failed query leaves the title empty.\<close>

definition GetTargetTitle :: "(nat \<Rightarrow> bool) \<Rightarrow> string \<Rightarrow> database \<Rightarrow> string" where
  "GetTargetTitle io chatID db = (if io 0 then [] else case tab_sel (listen_targets db) chatID of
     None \<Rightarrow> [] | Some t \<Rightarrow> t_title t)"

definition plan_path :: "(string \<Rightarrow> string) \<Rightarrow> dl_env \<Rightarrow> attempt \<Rightarrow> ResolvedMedia \<Rightarrow> orch \<Rightarrow> plan" where
  "plan_path fnm x a m s =
     (let req = at_req a;
          targetTitle = (if q_TargetTitle req = [] then GetTargetTitle (x_io x 2) (q_Peer req) (o_db s) else q_TargetTitle req);
          mediaType = (if rm_MediaType m = [] then q_MediaType req else rm_MediaType m);
          fileName = (if rm_Name m = [] then q_FileName req else rm_Name m);
          msgDate = (if rm_Date m \<le> 0 then q_Date req else rm_Date m);
          rel0 = (if q_FinalPath req = []
                  then Plan fnm (Unix (x_now x 2)) (q_Peer req) targetTitle (q_MessageID req) fileName mediaType msgDate
                  else q_FinalPath req);
          rel = replace_char (CHR 0x5C) (CHR ''/'') rel0;
          final = Join (oc_saveDir s) (FromSlash rel)
      in \<lparr>pn_media = m, pn_fileName = fileName, pn_mediaType = mediaType, pn_rel = rel, pn_final = final,
          pn_part = final @ ''.part''\<rparr>)"

definition plan_stage :: "(string \<Rightarrow> string) \<Rightarrow> dl_env \<Rightarrow> attempt \<Rightarrow> ResolvedMedia \<Rightarrow> orch \<Rightarrow> plan \<times> orch" where
  "plan_stage fnm x a m s =
     (let p = plan_path fnm x a m s in (p, set_reg (SetFinalPath (at_task a) (pn_rel p)) s))"

subsection \<open>An existing file\<close>

text \<open>The record proves the file at the final path: the query, the comparison, the digest. The digest is read only when the
  rest agrees.\<close>

definition record_proof ::
  "(string \<Rightarrow> string) \<Rightarrow> dl_env \<Rightarrow> attempt \<Rightarrow> plan \<Rightarrow> int64 \<Rightarrow> orch \<Rightarrow> string option \<times> orch" where
  "record_proof sha256 x a p n s = (case GetDownloadRecord (x_io x 3) (at_key a) (o_db s) of
     Inr (Some rec) \<Rightarrow>
       if (d_status rec = Committing \<or> d_status rec = Success \<or> d_status rec = StOther ''archived'') \<and>
          coalesce (d_save_path rec) [] = pn_rel p \<and> coalesce (d_file_size rec) 0 = n \<and> coalesce (d_sha256 rec) [] \<noteq> []
       then let (d, m) = ComputeSSDFileSHA256 sha256 (x_sha x 3) (o_fs s) (pn_final p) (w_meter (oc_world s))
            in (if d = Some (coalesce (d_sha256 rec) []) then d else None, set_meter m s)
       else (None, s)
   | _ \<Rightarrow> (None, s))"

definition collision :: FailureDisposition where
  "collision = failure ''admission'' ''check_file'' ''target_conflict''
     ''destination exists with conflicting content or without task commit proof'' None"

definition existing_result :: "string \<Rightarrow> string \<Rightarrow> PublishResult" where
  "existing_result path sha = \<lparr>pr_Path = path, pr_AlreadyExists = True, pr_SHA256 = sha, pr_WireBytes = 0, pr_ReplayBytes = 0,
     pr_RequestCount = 0, pr_PhysicalRetries = 0, pr_PhysicalAttemptID = []\<rparr>"

definition check_existing :: "(string \<Rightarrow> string) \<Rightarrow> dl_env \<Rightarrow> attempt \<Rightarrow> plan \<Rightarrow> orch \<Rightarrow> orch + orch" where
  "check_existing sha256 x a p s = (case Stat (x_stat x 3) (o_fs s) (pn_final p) of
     None \<Rightarrow> Inr s
   | Some n \<Rightarrow> Inl (case record_proof sha256 x a p (node_size (x_dir_size x) n) s of
       (None, s1) \<Rightarrow> fail_both x 5 a p collision s1
     | (Some sha, s1) \<Rightarrow>
         (case db_call (CompleteExistingDownload (x_io x 4) (Unix (x_now x 4)) (at_key a) (at_gen a) (pn_rel p)
                 (node_size (x_dir_size x) n) sha (IsEnabled (oc_archive s1))) s1 of
            (Some e, s2) \<Rightarrow> fail_task x 4 a (failure ''admission'' ''db_complete_existing'' ''db_conflict'' (x_text x e)
                             (Some (x_text x e))) s2
          | (None, s2) \<Rightarrow> set_reg (SucceedResult (at_task a) (existing_result (pn_rel p) sha) (x_now x 4))
                             (s2\<lparr>oc_archive := Wake (oc_archive s2)\<rparr>))))"

subsection \<open>The transfer\<close>

text \<open>\<open>WriteAt\<close> of a file: a gap before the offset is filled with zero bytes.\<close>

definition write_bytes :: "int64 \<Rightarrow> string \<Rightarrow> string \<Rightarrow> string" where
  "write_bytes off d c = (if d = [] then c
     else let n = nat off in take n c @ replicate (n - length c) (CHR 0x00) @ d @ drop (n + length d) c)"

fun write_chunks :: "chunk list \<Rightarrow> string \<Rightarrow> string" where
  "write_chunks [] c = c"
| "write_chunks ((off, d, _) # ws) c = write_chunks ws (write_bytes off d c)"

text \<open>\<open>Preallocate\<close> of an open file: fallocate, or else truncate, extends it to the size; both may fail.\<close>

definition preallocate :: "bool \<Rightarrow> int64 \<Rightarrow> string \<Rightarrow> string" where
  "preallocate fails sz c = (if fails then c else c @ replicate (nat sz - length c) (CHR 0x00))"

definition Preallocate :: "bool \<Rightarrow> int64 \<Rightarrow> string \<Rightarrow> string" where
  "Preallocate fails sz c = (if sz \<le> 0 then c else preallocate fails sz c)"

text \<open>The open part is identified with its name. A directory of that name cannot be opened.\<close>

definition open_part :: "dl_env \<Rightarrow> plan \<Rightarrow> orch \<Rightarrow> string option \<times> orch" where
  "open_part x p s = (case (if o_fs s (pn_part p) = Some NDir then Some (''open '' @ pn_part p @ '': is a directory'') else x_open x) of
     Some txt \<Rightarrow> (Some txt, s)
   | None \<Rightarrow> (None, set_fs (\<lambda>f. f(pn_part p \<mapsto> NFile (Preallocate (x_prealloc x) (pn_size p) []))) s))"

definition part_bytes :: "plan \<Rightarrow> orch \<Rightarrow> string" where
  "part_bytes p s = (case o_fs s (pn_part p) of Some (NFile c) \<Rightarrow> c | _ \<Rightarrow> [])"

definition metered_writes :: "chunk list \<Rightarrow> StorageIOMeter \<Rightarrow> StorageIOMeter" where
  "metered_writes ws m = fold (\<lambda>(off, d, e) m. ssd_write_end (int (length d)) (ssd_write_begin m)) ws m"

definition transfer_context :: "attempt \<Rightarrow> plan \<Rightarrow> TransferTaskContext" where
  "transfer_context a p =
     (let maxRetries = (if q_MaxRetries (at_req a) > 0 then q_MaxRetries (at_req a) else DefaultMaxRetryAttempts)
      in \<lparr>tc_TaskID = q_ID (at_req a), tc_AttemptID = at_gen a, tc_ChatID = q_Peer (at_req a),
          tc_MessageID = q_MessageID (at_req a), tc_DCID = rm_DCID (pn_media p), tc_MaxRetries = maxRetries,
          tc_RequestBudget = ComputeRequestBudget (pn_size p) maxRetries, tc_RequestCount = Some 0, tc_WireBytes = Some 0,
          tc_PhysicalRetries = Some 0, tc_RangeAttempts = Some Map.empty, tc_FailedAttempts = Some Map.empty,
          tc_LastPhysicalID = Some None, tc_OnInvocation = None\<rparr>)"

definition attempt_id :: "attempt \<Rightarrow> DownloadResult \<Rightarrow> string" where
  "attempt_id a res = (if dr_PhysicalAttemptID res = [] then at_gen a @ ''-p'' @ show_int (dr_PhysicalRetries res)
     else dr_PhysicalAttemptID res)"

text \<open>The download into the part, the progress reports and the telemetry.\<close>

definition transfer :: "dl_env \<Rightarrow> attempt \<Rightarrow> plan \<Rightarrow> orch \<Rightarrow> (DownloadResult \<times> TransferError option) \<times> orch" where
  "transfer x a p s =
     (let ws = x_chunks x;
          v = (x_par x)\<lparr>pe_writes := map (\<lambda>(off, d, e). (off, int (length d), e)) ws\<rparr>;
          ((res, err), writer, tc, m) = DownloadFileWithResult v (pn_size p) True (Some (transfer_context a p)) (oc_mgr s);
          s1 = s\<lparr>oc_mgr := m, oc_world := (oc_world s)\<lparr>w_fs := (o_fs s)(pn_part p \<mapsto> NFile (write_chunks ws (part_bytes p s))),
                 w_meter := map_option (metered_writes ws) (w_meter (oc_world s))\<rparr>\<rparr>;
          s2 = set_reg (fold (\<lambda>(i, got, tot). RecordProgress (at_task a) got (x_tick x i)) (enumerate 0 (reports writer))) s1
      in ((res, err), set_reg (RecordTransferTelemetry (at_task a) (dr_Written res) (dr_WireBytes res) (dr_ReplayBytes res)
            (dr_RequestCount res) (dr_PhysicalRetries res) [attempt_id a res]) s2))"

definition wraps_canceled :: "TransferError \<Rightarrow> bool" where
  "wraps_canceled e = (case te_Cause e of CauseErr c \<Rightarrow> unwrapped c = ErrCanceled | CauseText _ \<Rightarrow> False)"

text \<open>\<open>DownloadFileWithResult\<close> returns only errors of the type \<open>TransferError\<close>.\<close>

definition transfer_failed :: "dl_env \<Rightarrow> attempt \<Rightarrow> plan \<Rightarrow> DownloadResult \<Rightarrow> TransferError \<Rightarrow> orch \<Rightarrow> orch" where
  "transfer_failed x a p res e s =
     (let s1 = remove_part x 1 p s
      in if task_over x 1 a s1 \<or> wraps_canceled e
         then fail_task x 8 a ((failure ''transfer'' ''download_file'' ''canceled'' ''task canceled during transfer''
                  (Some (te_Error e)))\<lparr>f_PhysicalAttemptID := attempt_id a res\<rparr>)
                (snd (db_call (CancelDownload (x_io x 8) (Unix (x_now x 8)) (at_key a) (at_gen a)
                   ''task canceled during transfer'') s1))
         else fail_both x 8 a p \<lparr>f_Stage = te_Stage e, f_Op = te_Op e, f_Class = te_Class e, f_Unavailable = te_Unavailable e,
                f_Retryable = te_Retryable e, f_RetryOwner = te_RetryOwner e, f_PhysicalAttemptID = attempt_id a res,
                f_Message = te_Error e, f_Cause = Some (cause_text (te_Cause e))\<rparr> s1)"

subsection \<open>Verification\<close>

text \<open>Size, fsync, close and digest; \<open>Inr\<close> carries the digest.\<close>

definition verify_part ::
  "(string \<Rightarrow> string) \<Rightarrow> dl_env \<Rightarrow> attempt \<Rightarrow> plan \<Rightarrow> DownloadResult \<Rightarrow> orch \<Rightarrow> orch + string \<times> orch" where
  "verify_part sha256 x a p res s =
     (if (case Stat (x_stat x 9) (o_fs s) (pn_part p) of None \<Rightarrow> True
          | Some n \<Rightarrow> node_size (x_dir_size x) n \<noteq> pn_size p) \<or> dr_Written res \<noteq> pn_size p
      then Inl (fail_both x 9 a p (failure ''transfer'' ''verify_size'' ''corrupt''
             (''short write: got '' @ show_int (dr_Written res) @ '', want '' @ show_int (pn_size p)) None) (remove_part x 2 p s))
      else case x_sync x of
        Some txt \<Rightarrow> Inl (fail_both x 9 a p (failure ''commit'' ''fsync'' ''io'' txt (Some txt)) (remove_part x 2 p s))
      | None \<Rightarrow> (case x_close x of
        Some txt \<Rightarrow> Inl (fail_both x 9 a p (failure ''commit'' ''close'' ''io'' txt (Some txt)) (remove_part x 2 p s))
      | None \<Rightarrow>
          (let (d, m) = ComputeSSDFileSHA256 sha256 (x_sha x 9) (o_fs s) (pn_part p) (w_meter (oc_world s));
               s1 = set_meter m s
           in case d of
                None \<Rightarrow> Inl (fail_both x 9 a p (failure ''hash'' ''sha256'' ''io'' (x_err_text x) (Some (x_err_text x)))
                          (remove_part x 2 p s1))
              | Some sha \<Rightarrow> Inr (sha, s1))))"

text \<open>The last check for a cancellation before the commit.\<close>

definition check_cancelled :: "dl_env \<Rightarrow> attempt \<Rightarrow> plan \<Rightarrow> orch \<Rightarrow> orch + orch" where
  "check_cancelled x a p s =
     (if task_over x 2 a s
      then Inl (let s1 = snd (db_call (CancelDownload (x_io x 10) (Unix (x_now x 10)) (at_key a) (at_gen a) ''canceled before commit'')
                            (remove_part x 3 p s))
                in if IsTerminal (at_task a) (oc_reg s1) then s1
                   else fail_task x 10 a (failure ''commit'' ''check_cancellation'' ''canceled'' ''task canceled before commit'' None) s1)
      else Inr s)"

subsection \<open>Publishing\<close>

abbreviation pub_key :: "attempt \<Rightarrow> string" where
  "pub_key a \<equiv> CanonicalTaskID (q_Peer (at_req a)) (q_MessageID (at_req a))"

definition register :: "attempt \<Rightarrow> orch \<Rightarrow> orch" where
  "register a s = s\<lparr>oc_publishers := (oc_publishers s)(pub_key a \<mapsto> at_gen a)\<rparr>"

definition unregister :: "attempt \<Rightarrow> orch \<Rightarrow> orch" where
  "unregister a s = s\<lparr>oc_publishers := (oc_publishers s)(pub_key a := None)\<rparr>"

text \<open>The rename and the decision about it. The digest for the decision is not metered.\<close>

definition commit_part ::
  "(string \<Rightarrow> string) \<Rightarrow> kernel \<Rightarrow> rec_env \<Rightarrow> plan \<Rightarrow> string \<Rightarrow> orch \<Rightarrow> CommitDecision \<times> orch" where
  "commit_part sha256 K v p sha s =
     (let (ce, f) = CommitSiblingPart K (v_lstat v) (v_race v) (pn_part p) (pn_final p) (o_fs s);
          (d, w) = EvaluateCommitSiblingPart sha256 v (pn_part p) (pn_final p) (pn_size p) sha ce
             ((oc_world s)\<lparr>w_fs := f, w_meter := None\<rparr>)
      in (d, s\<lparr>oc_world := w\<lparr>w_meter := w_meter (oc_world s)\<rparr>\<rparr>))"

definition publish_result :: "attempt \<Rightarrow> plan \<Rightarrow> DownloadResult \<Rightarrow> string \<Rightarrow> PublishResult" where
  "publish_result a p res sha = \<lparr>pr_Path = pn_rel p, pr_AlreadyExists = False, pr_SHA256 = sha,
     pr_WireBytes = dr_WireBytes res, pr_ReplayBytes = dr_ReplayBytes res, pr_RequestCount = dr_RequestCount res,
     pr_PhysicalRetries = dr_PhysicalRetries res, pr_PhysicalAttemptID = attempt_id a res\<rparr>"

text \<open>After the rename: the transaction, and the task. Another error than an archive conflict hands the record
  over to the finalizer.\<close>

definition complete ::
  "dl_env \<Rightarrow> attempt \<Rightarrow> plan \<Rightarrow> DownloadResult \<Rightarrow> string \<Rightarrow> string \<Rightarrow> orch \<Rightarrow> orch" where
  "complete x a p res sha finalSHA s =
     (case db_call (CompleteDownloadAndQueueArchive (x_io x 13) (Unix (x_now x 13)) (at_key a) (at_gen a) (pn_rel p) (pn_size p)
             finalSHA (IsEnabled (oc_archive s))) s of
        (e, s1) \<Rightarrow>
          if e = None \<or> e = Some ErrArchiveConflict
          then unregister a (set_reg (SucceedResult (at_task a) (publish_result a p res sha) (x_now x 14))
                 (s1\<lparr>oc_archive := Wake (oc_archive s1)\<rparr>))
          else wakeFinalizer (unregister a s1))"

text \<open>What follows from the decision. A failed record leaves the task as it is.\<close>

definition after_commit ::
  "dl_env \<Rightarrow> attempt \<Rightarrow> plan \<Rightarrow> DownloadResult \<Rightarrow> string \<Rightarrow> CommitDecision \<Rightarrow> orch \<Rightarrow> orch" where
  "after_commit x a p res sha d s = (case d of
     DecisionSuccess finalSHA \<Rightarrow> complete x a p res sha finalSHA (x_others x 7 s)
   | DecisionTargetConflict disp _ \<Rightarrow>
       (case db_call (RecordTargetConflict (x_io x 12) (Unix (x_now x 12)) (at_key a) (at_gen a) (pn_fileName p)
               (pn_rel p) (pn_mediaType p) (pn_size p) disp) s of
          (Some _, s1) \<Rightarrow> unregister a s1
        | (None, s1) \<Rightarrow> unregister a (fail_task x 12 a disp s1))
   | DecisionIOError disp _ \<Rightarrow>
       (case fail_record x 12 a (pn_fileName p) (pn_rel p) (pn_mediaType p) (pn_size p) disp s of
          (Some _, s1) \<Rightarrow> unregister a s1
        | (None, s1) \<Rightarrow> unregister a (fail_task x 12 a disp s1)))"

text \<open>The commit. The first result is whether the part is left alone by the deferred removal.\<close>

definition publish ::
  "(string \<Rightarrow> string) \<Rightarrow> kernel \<Rightarrow> dl_env \<Rightarrow> attempt \<Rightarrow> plan \<Rightarrow> DownloadResult \<Rightarrow> string \<Rightarrow> orch \<Rightarrow> bool \<times> orch" where
  "publish sha256 K x a p res sha s =
     (case db_call (PrepareDownloadCommit (x_io x 11) (Unix (x_now x 11)) (at_key a) (at_gen a) (pn_rel p) (pn_size p) sha)
             (register a s) of
        (Some e, s1) \<Rightarrow> (False, unregister a (fail_task x 11 a (failure ''commit'' ''prepare'' ''db_conflict'' (x_text x e)
                          (Some (x_text x e))) (remove_part x 4 p s1)))
      | (None, s1) \<Rightarrow>
          (let s2 = x_others x 6 (set_reg (\<lambda>r. snd (SetPublishing (at_task a) r)) (x_others x 5 s1));
               (d, s3) = commit_part sha256 K (x_commit x) p sha s2
           in (True, after_commit x a p res sha d s3)))"

subsection \<open>The whole attempt\<close>

text \<open>With the part open: the first result is whether the deferred removal leaves the part alone.\<close>

definition with_part ::
  "(string \<Rightarrow> string) \<Rightarrow> kernel \<Rightarrow> dl_env \<Rightarrow> attempt \<Rightarrow> plan \<Rightarrow> orch \<Rightarrow> bool \<times> orch" where
  "with_part sha256 K x a p s = (case transfer x a p s of
     ((res, Some e), s1) \<Rightarrow> (False, transfer_failed x a p res e (x_others x 3 s1))
   | ((res, None), s1) \<Rightarrow> (case verify_part sha256 x a p res (x_others x 3 s1) of
       Inl s2 \<Rightarrow> (False, s2)
     | Inr (sha, s2) \<Rightarrow> (case check_cancelled x a p (x_others x 4 s2) of
         Inl s3 \<Rightarrow> (False, s3)
       | Inr s3 \<Rightarrow> publish sha256 K x a p res sha s3)))"

text \<open>With the space reserved: the second admission, the directory, the part.\<close>

definition with_space ::
  "(string \<Rightarrow> string) \<Rightarrow> kernel \<Rightarrow> dl_env \<Rightarrow> attempt \<Rightarrow> plan \<Rightarrow> orch \<Rightarrow> orch" where
  "with_space sha256 K x a p s =
     (case begin_record sha256 x 6 True a (pn_fileName p) (pn_rel p) (pn_mediaType p) (pn_size p) s of
        Inl s1 \<Rightarrow> s1
      | Inr s1 \<Rightarrow>
          (let s2 = set_reg (SetDownloading (at_task a)) s1
           in case MkdirAll (x_mkdir x) (Dir (pn_final p)) (o_fs s2) of
                (Some txt, f) \<Rightarrow> fail_both x 7 a p (failure ''path'' ''mkdir'' ''io'' txt (Some txt)) (set_fs (\<lambda>_. f) s2)
              | (None, f) \<Rightarrow>
                  (let s3 = x_others x 2 (set_fs (\<lambda>_. f) s2)
                   in if task_over x 0 a s3 then s3
                      else case open_part x p s3 of
                        (Some txt, s4) \<Rightarrow> fail_both x 7 a p (failure ''download'' ''open_part'' ''io'' txt (Some txt)) s4
                      | (None, s4) \<Rightarrow>
                          (let (keep, s5) = with_part sha256 K x a p s4
                           in if keep then s5 else remove_part x 0 p s5))))"

definition run_attempt ::
  "(string \<Rightarrow> string) \<Rightarrow> (string \<Rightarrow> string) \<Rightarrow> kernel \<Rightarrow> dl_env \<Rightarrow> attempt \<Rightarrow> orch \<Rightarrow> orch" where
  "run_attempt sha256 fnm K x a s =
     (let req = at_req a
      in case begin_record sha256 x 0 False a (q_FileName req) (q_FinalPath req) (q_MediaType req) (q_ExpectedSize req) s of
           Inl s1 \<Rightarrow> s1
         | Inr s1 \<Rightarrow> (case resolve_stage x a (x_others x 0 s1) of
             Inl s2 \<Rightarrow> s2
           | Inr (m, s2) \<Rightarrow>
               (let (p, s3) = plan_stage fnm x a m s2
                in case check_existing sha256 x a p s3 of
                     Inl s4 \<Rightarrow> s4
                   | Inr s4 \<Rightarrow> (case Reserve (x_statfs x) (q_ID req) (pn_size p) (oc_adm s4) of
                       (Inl _, adm) \<Rightarrow> set_reg (\<lambda>r. snd (Requeue (at_task a) r)) (s4\<lparr>oc_adm := adm\<rparr>)
                     | (Inr rel, adm) \<Rightarrow>
                         (let s5 = with_space sha256 K x a p (x_others x 1 (s4\<lparr>oc_adm := adm\<rparr>))
                          in s5\<lparr>oc_adm := snd (release rel (oc_adm s5))\<rparr>)))))"

definition attempt_of :: "Task \<Rightarrow> orch \<Rightarrow> attempt" where
  "attempt_of t s = \<lparr>at_task = t, at_req = Request t (oc_reg s), at_gen = AttemptGen t (oc_reg s)\<rparr>"

definition downloadOne ::
  "(string \<Rightarrow> string) \<Rightarrow> (string \<Rightarrow> string) \<Rightarrow> kernel \<Rightarrow> dl_env \<Rightarrow> Task \<Rightarrow> orch \<Rightarrow> orch" where
  "downloadOne sha256 fnm K x t s =
     (let a = attempt_of t s; taskID = q_ID (at_req a)
      in if taskID \<in> oc_inFlight s then s
         else let s1 = run_attempt sha256 fnm K x a (s\<lparr>oc_inFlight := insert taskID (oc_inFlight s)\<rparr>)
              in s1\<lparr>oc_inFlight := oc_inFlight s1 - {taskID}\<rparr>)"

definition executeTask ::
  "(string \<Rightarrow> string) \<Rightarrow> (string \<Rightarrow> string) \<Rightarrow> kernel \<Rightarrow> dl_env \<Rightarrow> Task \<Rightarrow> orch \<Rightarrow> orch" where
  "executeTask sha256 fnm K x t s = downloadOne sha256 fnm K x t s"

end
