(* ===== verification/Orchestrator_Safety.thy ===== *)
theory Orchestrator_Safety
  imports Orchestrator
begin

text \<open>
  What an attempt of the orchestrator guarantees however it ends. The locales \<open>attempt_steps\<close> and \<open>whole_attempt\<close> carry a relation that holds
  for each step through all stages and early returns; their interpretations show that an attempt keeps other files, that success is recorded only with a
  verified file, and the last section that an attempt gives back what it holds.
\<close>

declare split_paired_All [simp del] split_paired_Ex [simp del]

lemmas setters = set_reg_def set_fs_def set_db_def set_meter_def

text \<open>A verified part has the size and the digest.\<close>

lemma verify_part_ok:
  assumes "verify_part sha256 x a p res s = Inr (sha, s')"
  shows "\<exists>c. o_fs s (pn_part p) = Some (NFile c) \<and> int (length c) = pn_size p \<and> sha256 c = sha"
    and "o_fs s' = o_fs s" and "o_db s' = o_db s"
proof -
  have d: "fst (file_digest sha256 (x_sha x 9) (o_fs s) (pn_part p)) = Some sha"
    and n: "\<exists>n. o_fs s (pn_part p) = Some n \<and> node_size (x_dir_size x) n = pn_size p"
    using assms by (auto simp: verify_part_def Stat_def Let_def split_beta split: if_splits option.splits)
  from digest_sound [OF d] n show "\<exists>c. o_fs s (pn_part p) = Some (NFile c) \<and> int (length c) = pn_size p \<and> sha256 c = sha"
    by (auto simp: node_size_def)
  show "o_fs s' = o_fs s" and "o_db s' = o_db s"
    using assms by (auto simp: verify_part_def Let_def split_beta setters split: if_splits option.splits)
qed

lemma record_proof_ok:
  assumes "record_proof sha256 x a p n s = (Some sha, s')"
  shows "\<exists>c. o_fs s (pn_final p) = Some (NFile c) \<and> sha256 c = sha" and "o_fs s' = o_fs s" and "o_db s' = o_db s"
proof -
  have "fst (file_digest sha256 (x_sha x 3) (o_fs s) (pn_final p)) = Some sha"
    using assms by (auto simp: record_proof_def Let_def split_beta split: sum.splits option.splits if_splits)
  then show "\<exists>c. o_fs s (pn_final p) = Some (NFile c) \<and> sha256 c = sha" by (rule digest_sound)
  show "o_fs s' = o_fs s" and "o_db s' = o_db s"
    using assms by (auto simp: record_proof_def Let_def split_beta setters split: sum.splits option.splits if_splits)
qed

section \<open>What an attempt owns\<close>

text \<open>Others neither change nor remove a file at \<open>q\<close>; they may create it.\<close>

definition spares :: "string \<Rightarrow> (orch \<Rightarrow> orch) \<Rightarrow> bool" where
  "spares q g \<longleftrightarrow> (\<forall>s c. o_fs s q = Some (NFile c) \<longrightarrow> o_fs (g s) q = Some (NFile c))"

definition spares_fs :: "string \<Rightarrow> (fs \<Rightarrow> fs) \<Rightarrow> bool" where
  "spares_fs q g \<longleftrightarrow> (\<forall>f c. f q = Some (NFile c) \<longrightarrow> g f q = Some (NFile c))"

definition considerate :: "dl_env \<Rightarrow> string \<Rightarrow> bool" where
  "considerate x q \<longleftrightarrow> (\<forall>i. spares q (x_others x i)) \<and> spares_fs q (v_race (x_commit x))"

definition ownership :: "kernel \<Rightarrow> dl_env \<Rightarrow> plan \<Rightarrow> bool" where
  "ownership K x p \<longleftrightarrow> kernel_ok K \<and> file_path (pn_final p) \<and> pn_part p = pn_final p @ ''.part'' \<and>
     considerate x (pn_part p) \<and> considerate x (pn_final p)"

lemma considerate_others: "considerate x q \<Longrightarrow> o_fs s q = Some (NFile c) \<Longrightarrow> o_fs (x_others x i s) q = Some (NFile c)"
  by (simp add: considerate_def spares_def)

lemma evaluate_fs:
  "w_fs (snd (EvaluateCommitSiblingPart sha256 v part final n sha ce w)) \<in> {w_fs w, Remove (v_rm_part v) part (w_fs w)}"
  by (auto simp: EvaluateCommitSiblingPart_def Let_def split_def split: option.splits if_splits node.splits)

lemma commit_part_keeps:
  assumes "ownership K x p" and "o_fs s (pn_part p) = Some (NFile c)" and "q \<noteq> pn_part p"
    and "spares_fs q (v_race (x_commit x))" and "o_fs s q = Some (NFile c')"
  shows "o_fs (snd (commit_part sha256 K (x_commit x) p sha s)) q = Some (NFile c')"
proof -
  let ?v = "x_commit x"
  obtain ce f where f: "CommitSiblingPart K (v_lstat ?v) (v_race ?v) (pn_part p) (pn_final p) (o_fs s) = (ce, f)" by fastforce
  have own: "kernel_ok K" "file_path (pn_part p)" "file_path (pn_final p)" "v_race ?v (o_fs s) (pn_part p) \<noteq> Some NDir"
    using assms(1,2) file_path_suffix(1) by (auto simp: ownership_def considerate_def spares_fs_def)
  have race: "v_race ?v (o_fs s) q = Some (NFile c')" using assms(4,5) by (simp add: spares_fs_def)
  have "f q = Some (NFile c')"
    using commit_result [OF own f] race assms(3,5) committed_keeps(1) by fastforce
  then show ?thesis
    using evaluate_fs [of sha256 ?v "pn_part p" "pn_final p" "pn_size p" sha ce "(oc_world s)\<lparr>w_fs := f, w_meter := None\<rparr>"] assms(3)
    by (auto simp: commit_part_def f split_beta Let_def)
qed

lemma commit_part_success:
  assumes "ownership K x p" and "o_fs s (pn_part p) = Some (NFile c)" and "int (length c) = pn_size p"
    and "commit_part sha256 K (x_commit x) p (sha256 c) s = (DecisionSuccess fsha, s')"
  shows "\<exists>c'. o_fs s' (pn_final p) = Some (NFile c') \<and> int (length c') = pn_size p \<and> sha256 c' = fsha"
proof -
  let ?v = "x_commit x"
  obtain ce f where f: "CommitSiblingPart K (v_lstat ?v) (v_race ?v) (pn_part p) (pn_final p) (o_fs s) = (ce, f)" by fastforce
  have own: "kernel_ok K" "file_path (pn_part p)" "file_path (pn_final p)" and race: "v_race ?v (o_fs s) (pn_part p) = Some (NFile c)"
    and neq: "pn_part p \<noteq> pn_final p"
    using assms(1,2) file_path_suffix(1) by (auto simp: ownership_def considerate_def spares_fs_def)
  obtain d w where e: "EvaluateCommitSiblingPart sha256 ?v (pn_part p) (pn_final p) (pn_size p) (sha256 c) ce
      ((oc_world s)\<lparr>w_fs := f, w_meter := None\<rparr>) = (d, w)" by fastforce
  from assms(4) have d: "d = DecisionSuccess fsha" and s': "o_fs s' = w_fs w"
    by (auto simp: commit_part_def f e)
  have "f (pn_final p) = Some (NFile c)" if "ce = None"
    using commit_result [OF own _ f] race that committed_keeps(2) [of "pn_part p" "pn_final p" _ f] by auto
  with evaluate_result(2) [OF e neq d] assms(3) s' show ?thesis by auto
qed

section \<open>Relations that every step of an attempt respects\<close>

text \<open>
  An attempt is a long sequence of steps with many early returns. A relation between states that is transitive and holds for
  each kind of step holds from the beginning of a stage to its end, wherever it returns. \<open>own p\<close> restricts the plan.
\<close>

locale attempt_steps =
  fixes R :: "orch \<Rightarrow> orch \<Rightarrow> bool" and x :: dl_env and a :: attempt and own :: "plan \<Rightarrow> bool"
  assumes R_trans: "R s1 s2 \<Longrightarrow> R s2 s3 \<Longrightarrow> R s1 s3"
    and R_world: "oc_world s' = oc_world s \<Longrightarrow> oc_saveDir s' = oc_saveDir s \<Longrightarrow> R s s'"
    and R_meter: "R s (set_meter m s)"
    and R_fs: "own p \<Longrightarrow> (\<And>q. o_fs s q \<noteq> None \<Longrightarrow> q \<noteq> pn_part p \<Longrightarrow> f q = o_fs s q) \<Longrightarrow> R s (set_fs (\<lambda>_. f) s)"
    and R_begin: "R s (snd (db_call (BeginDownload io now (at_key a) (at_gen a) fn sp mt sz) s))"
    and R_fail: "R s (snd (db_call (FailDownloadDisposition io now (at_key a) (at_gen a) fn sp mt sz disp) s))"
    and R_conflict: "R s (snd (db_call (RecordTargetConflict io now (at_key a) (at_gen a) fn sp mt sz disp) s))"
    and R_cancel: "R s (snd (db_call (CancelDownload io now (at_key a) (at_gen a) reason) s))"
    and R_prepare: "R s (snd (db_call (PrepareDownloadCommit io now (at_key a) (at_gen a) rel sz sha) s))"
    and R_others: "R s (x_others x i s)"
begin

lemma R_refl: "R s s"
  by (rule R_world) simp_all

lemma R_reg: "R s (set_reg f s)"
  by (rule R_world) (simp_all add: setters)

lemma R_task: "R s (fail_task x i a disp s)"
  by (simp add: fail_task_def R_reg)

lemma R_record: "R s (snd (fail_record x i a fn sp mt sz disp s))"
  unfolding fail_record_def by (rule R_fail)

lemma R_both: "R s (fail_both x i a p disp s)"
  unfolding fail_both_def by (rule R_trans [OF R_task R_record])

lemma R_remove: "own p \<Longrightarrow> R s (remove_part x i p s)"
  using R_fs [of p s "Remove (x_rm x i) (pn_part p) (o_fs s)"] by (simp add: remove_part_def setters)

lemma R_already: "R s (already_success sha256 x i planned a pf s)"
proof -
  have "R s (fail_task x i a d (set_meter m s))" "R s (set_reg f (set_meter m s))" for d m f
    using R_trans [OF R_meter R_task] R_trans [OF R_meter R_reg] by blast+
  then show ?thesis by (simp add: already_success_def Let_def split_beta R_task)
qed

lemma R_begin_record:
  "R s (case begin_record sha256 x i planned a fn sp mt sz s of Inl s' \<Rightarrow> s' | Inr s' \<Rightarrow> s')"
proof -
  obtain e s1 where c: "db_call (BeginDownload (x_io x i) (Unix (x_now x i)) (at_key a) (at_gen a) fn sp mt sz) s = (e, s1)"
    by fastforce
  have "R s s1" using R_begin [of s "x_io x i" "Unix (x_now x i)" fn sp mt sz] by (simp add: c)
  with R_trans R_task R_already show ?thesis
    by (fastforce simp: begin_record_def c split: option.split db_error.split)
qed

lemma R_resolve: "R s (case resolve_stage x a s of Inl s' \<Rightarrow> s' | Inr (m, s') \<Rightarrow> s')"
  using R_trans [OF R_task R_record] R_reg by (simp add: resolve_stage_def Let_def split: sum.split)

lemma R_plan: "R s (snd (plan_stage fnm x a m s))"
  by (simp add: plan_stage_def Let_def R_reg)

lemma R_proof: "R s (snd (record_proof sha256 x a p n s))"
  by (simp add: record_proof_def Let_def split_beta R_refl R_meter split: sum.split option.split)

lemma R_verify:
  assumes "own p"
  shows "R s (case verify_part sha256 x a p res s of Inl s' \<Rightarrow> s' | Inr (sha, s') \<Rightarrow> s')"
proof -
  have "R s (fail_both x i a p d (remove_part x j p s))" "R s (fail_both x i a p d (remove_part x j p (set_meter m s)))" for i j d m
    using R_trans [OF R_remove R_both] R_trans [OF R_meter R_trans [OF R_remove R_both]] assms by blast+
  then show ?thesis
    by (simp add: verify_part_def Let_def split_beta R_meter split: option.split)
qed

lemma R_cancelled:
  assumes "own p"
  shows "R s (case check_cancelled x a p s of Inl s' \<Rightarrow> s' | Inr s' \<Rightarrow> s')"
proof -
  have "R s (snd (db_call (CancelDownload io now (at_key a) (at_gen a) e) (remove_part x i p s)))" for io now e i
    using R_trans [OF R_remove R_cancel] assms by blast
  then show ?thesis
    using R_trans [OF _ R_task] by (simp add: check_cancelled_def Let_def R_refl)
qed

lemma R_failed:
  assumes "own p"
  shows "R s (transfer_failed x a p res e s)"
proof -
  have "R s (fail_task x i a d (snd (db_call (CancelDownload io now (at_key a) (at_gen a) t) (remove_part x j p s))))"
    "R s (fail_both x i a p d (remove_part x j p s))" for i j d io now t
    using R_trans [OF R_remove R_trans [OF R_cancel R_task]] R_trans [OF R_remove R_both] assms by blast+
  then show ?thesis by (simp add: transfer_failed_def Let_def)
qed

lemma R_open:
  assumes "own p"
  shows "R s (snd (open_part x p s))"
  using R_fs [OF assms, of s "(o_fs s)(pn_part p \<mapsto> NFile (Preallocate (x_prealloc x) (pn_size p) []))"]
  by (simp add: open_part_def R_refl setters split: option.split)

lemma R_transfer:
  assumes "own p"
  shows "R s (snd (transfer x a p s))"
proof -
  define s0 where "s0 = set_meter (map_option (metered_writes (x_chunks x)) (w_meter (oc_world s)))
    (set_fs (\<lambda>_. (o_fs s)(pn_part p \<mapsto> NFile (write_chunks (x_chunks x) (part_bytes p s)))) s)"
  have 0: "R s s0" unfolding s0_def by (rule R_trans [OF R_fs [OF assms] R_meter]) simp
  moreover have "R s0 (snd (transfer x a p s))"
    by (rule R_world) (simp_all add: transfer_def s0_def setters Let_def split_beta)
  ultimately show ?thesis by (rule R_trans)
qed

end

text \<open>Adding the three steps that publish a file.\<close>

locale whole_attempt = attempt_steps +
  fixes sha256 :: "string \<Rightarrow> string" and K :: kernel
  assumes own_ok: "own p \<Longrightarrow> ownership K x p"
    and R_existing: "own p \<Longrightarrow> o_fs s (pn_final p) = Some (NFile c) \<Longrightarrow>
      R s (snd (db_call (CompleteExistingDownload io now (at_key a) (at_gen a) (pn_rel p) (int (length c)) (sha256 c) q) s))"
    and R_complete: "own p \<Longrightarrow> o_fs s (pn_final p) = Some (NFile c) \<Longrightarrow> int (length c) = pn_size p \<Longrightarrow>
      R s (snd (db_call (CompleteDownloadAndQueueArchive io now (at_key a) (at_gen a) (pn_rel p) (pn_size p) (sha256 c) q) s))"
    and R_commit: "own p \<Longrightarrow> o_fs s (pn_part p) = Some (NFile c) \<Longrightarrow> R s (snd (commit_part sha256 K (x_commit x) p sha s))"
begin

lemma own_others:
  assumes "own p"
  shows "o_fs s (pn_part p) = Some (NFile c) \<Longrightarrow> o_fs (x_others x i s) (pn_part p) = Some (NFile c)"
    and "o_fs s (pn_final p) = Some (NFile c) \<Longrightarrow> o_fs (x_others x i s) (pn_final p) = Some (NFile c)"
  using own_ok [OF assms] considerate_others unfolding ownership_def by blast+

lemma R_check:
  assumes "own p"
  shows "R s (case check_existing sha256 x a p s of Inl s' \<Rightarrow> s' | Inr s' \<Rightarrow> s')"
proof (cases "Stat (x_stat x 3) (o_fs s) (pn_final p)")
  case None
  then show ?thesis by (simp add: check_existing_def R_refl)
next
  case (Some n)
  let ?n = "node_size (x_dir_size x) n"
  obtain d s1 where r: "record_proof sha256 x a p ?n s = (d, s1)" by fastforce
  have 1: "R s s1" using R_proof [of s sha256 p ?n] by (simp add: r)
  show ?thesis
  proof (cases d)
    case None
    then show ?thesis using R_trans [OF 1 R_both] Some by (simp add: check_existing_def r)
  next
    case (Some sha)
    obtain e s2 where c: "db_call (CompleteExistingDownload (x_io x 4) (Unix (x_now x 4)) (at_key a) (at_gen a) (pn_rel p) ?n sha
        (IsEnabled (oc_archive s1))) s1 = (e, s2)" by fastforce
    obtain content where "o_fs s1 (pn_final p) = Some (NFile content)" "?n = int (length content)" "sha = sha256 content"
      using record_proof_ok [of sha256 x a p ?n s sha s1] r Some \<open>Stat _ _ _ = Some n\<close>
      by (auto simp: Stat_def node_size_def split: if_splits)
    then have "R s1 s2"
      using R_existing [OF assms, of s1 content "x_io x 4" "Unix (x_now x 4)" "IsEnabled (oc_archive s1)"] c by simp
    then have 2: "R s s2" by (rule R_trans [OF 1])
    have 3: "R s2 (set_reg f (s2\<lparr>oc_archive := w\<rparr>))" for f w by (rule R_world) (simp_all add: setters)
    show ?thesis
      using R_trans [OF 2 R_task] R_trans [OF 2 3] \<open>Stat _ _ _ = Some n\<close> Some
      by (simp add: check_existing_def r c split: option.split)
  qed
qed

lemma R_completing:
  assumes "own p" and "o_fs s (pn_final p) = Some (NFile c)" and "int (length c) = pn_size p" and "sha256 c = fsha"
  shows "R s (complete x a p res sha fsha s)"
proof -
  obtain e s1 where c: "db_call (CompleteDownloadAndQueueArchive (x_io x 13) (Unix (x_now x 13)) (at_key a) (at_gen a) (pn_rel p)
      (pn_size p) fsha (IsEnabled (oc_archive s))) s = (e, s1)" by fastforce
  have 1: "R s s1"
    using R_complete [OF assms(1-3), of "x_io x 13" "Unix (x_now x 13)" "IsEnabled (oc_archive s)"] by (simp add: c assms(4))
  have "R s1 (unregister a (set_reg f (s1\<lparr>oc_archive := w\<rparr>)))" "R s1 (wakeFinalizer (unregister a s1))" for f w
    by (rule R_world; simp add: setters unregister_def wakeFinalizer_def)+
  with R_trans [OF 1] show ?thesis by (simp add: complete_def c)
qed

lemma R_after:
  assumes "own p" and "\<And>fsha. d = DecisionSuccess fsha \<Longrightarrow>
    \<exists>c. o_fs s (pn_final p) = Some (NFile c) \<and> int (length c) = pn_size p \<and> sha256 c = fsha"
  shows "R s (after_commit x a p res sha d s)"
proof -
  have un: "R t (unregister a t)" for t by (rule R_world) (simp_all add: unregister_def)
  show ?thesis
  proof (cases d)
    case (DecisionSuccess fsha)
    with assms(2) obtain c where c: "o_fs s (pn_final p) = Some (NFile c)" "int (length c) = pn_size p" "sha256 c = fsha" by blast
    show ?thesis
      using R_trans [OF R_others R_completing [OF assms(1) own_others(2) [OF assms(1) c(1)] c(2,3)]] DecisionSuccess
      by (simp add: after_commit_def)
  next
    case (DecisionTargetConflict disp ce)
    have "R s (snd (db_call (RecordTargetConflict (x_io x 12) (Unix (x_now x 12)) (at_key a) (at_gen a) (pn_fileName p)
        (pn_rel p) (pn_mediaType p) (pn_size p) disp) s))" by (rule R_conflict)
    note 4 = R_trans [OF this un] R_trans [OF R_trans [OF this R_task] un]
    show ?thesis using DecisionTargetConflict 4 by (auto simp: after_commit_def split: prod.split option.split)
  next
    case (DecisionIOError disp ce)
    have "R s (snd (fail_record x 12 a (pn_fileName p) (pn_rel p) (pn_mediaType p) (pn_size p) disp s))" by (rule R_record)
    note 4 = R_trans [OF this un] R_trans [OF R_trans [OF this R_task] un]
    show ?thesis using DecisionIOError 4 by (auto simp: after_commit_def split: prod.split option.split)
  qed
qed

lemma R_publish:
  assumes "own p" and part: "o_fs s (pn_part p) = Some (NFile c)" "int (length c) = pn_size p" "sha256 c = sha"
  shows "R s (snd (publish sha256 K x a p res sha s))"
proof -
  obtain e s1 where c: "db_call (PrepareDownloadCommit (x_io x 11) (Unix (x_now x 11)) (at_key a) (at_gen a) (pn_rel p) (pn_size p) sha)
      (register a s) = (e, s1)" by fastforce
  have "R s (register a s)" by (rule R_world) (simp_all add: register_def)
  moreover have "R (register a s) s1"
    using R_prepare [of "register a s" "x_io x 11" "Unix (x_now x 11)" "pn_rel p" "pn_size p" sha] by (simp add: c)
  ultimately have 1: "R s s1" by (rule R_trans)
  have early: "R s (unregister a (fail_task x i a disp (remove_part x j p s1)))" for i j disp
    by (rule R_trans [OF R_trans [OF R_trans [OF 1 R_remove [OF assms(1)]] R_task] R_world]) (simp_all add: unregister_def)
  define s2 where "s2 = x_others x 6 (set_reg (\<lambda>r. snd (SetPublishing (at_task a) r)) (x_others x 5 s1))"
  have "R s s2" unfolding s2_def by (rule R_trans [OF R_trans [OF R_trans [OF 1 R_others] R_reg] R_others])
  moreover have "o_fs s1 (pn_part p) = Some (NFile c)"
    using part(1) c by (auto simp: db_call_def register_def setters split_beta Let_def)
  then have s2: "o_fs s2 (pn_part p) = Some (NFile c)"
    unfolding s2_def using own_others(1) [OF assms(1)] by (simp add: set_reg_def)
  moreover obtain d s3 where d: "commit_part sha256 K (x_commit x) p sha s2 = (d, s3)" by fastforce
  ultimately have "R s s3" using R_trans [OF _ R_commit [OF assms(1) s2, of sha]] by simp
  moreover have "R s3 (after_commit x a p res sha d s3)"
    by (rule R_after [OF assms(1)]) (use commit_part_success [OF own_ok [OF assms(1)] s2 part(2)] part(3) d in blast)
  ultimately have "R s (after_commit x a p res sha d s3)" by (rule R_trans)
  then show ?thesis
    using early by (cases e) (simp_all add: publish_def c s2_def [symmetric] d)
qed

lemma R_part:
  assumes "own p"
  shows "R s (snd (with_part sha256 K x a p s))"
proof -
  obtain res e s1 where t: "transfer x a p s = ((res, e), s1)" by (metis surj_pair)
  have 1: "R s (x_others x 3 s1)" using R_trans [OF R_transfer [OF assms, of s] R_others] by (simp add: t)
  show ?thesis
  proof (cases e)
    case (Some err)
    then show ?thesis using R_trans [OF 1 R_failed [OF assms]] by (simp add: with_part_def t)
  next
    case None
    show ?thesis
    proof (cases "verify_part sha256 x a p res (x_others x 3 s1)")
      case (Inl s2)
      then show ?thesis using R_trans [OF 1 R_verify [OF assms, of _ sha256 res]] None by (simp add: with_part_def t)
    next
      case (Inr y)
      obtain sha s2 where y: "y = (sha, s2)" by fastforce
      have 2: "R s (x_others x 4 s2)"
        using R_trans [OF R_trans [OF 1 R_verify [OF assms, of _ sha256 res]] R_others] Inr y by simp
      obtain c where c: "o_fs (x_others x 3 s1) (pn_part p) = Some (NFile c)" "o_fs s2 = o_fs (x_others x 3 s1)"
          "int (length c) = pn_size p" "sha256 c = sha"
        using verify_part_ok(1,2) [of sha256 x a p res "x_others x 3 s1" sha s2] Inr y by auto
      then have part: "o_fs (x_others x 4 s2) (pn_part p) = Some (NFile c)" using own_others(1) [OF assms] by simp
      note 3 = R_trans [OF 2 R_cancelled [OF assms, of "x_others x 4 s2"]]
      show ?thesis
      proof (cases "check_cancelled x a p (x_others x 4 s2)")
        case (Inl s3)
        then show ?thesis using 3 None \<open>verify_part _ _ _ _ _ _ = Inr y\<close> by (simp add: with_part_def t y)
      next
        case (Inr s3)
        then have "s3 = x_others x 4 s2" by (simp add: check_cancelled_def split: if_splits)
        then show ?thesis
          using R_trans [OF 2 R_publish [OF assms part c(3,4)]] Inr None \<open>verify_part _ _ _ _ _ _ = Inr y\<close>
          by (simp add: with_part_def t y)
      qed
    qed
  qed
qed

lemma R_space:
  assumes "own p"
  shows "R s (with_space sha256 K x a p s)"
proof (cases "begin_record sha256 x 6 True a (pn_fileName p) (pn_rel p) (pn_mediaType p) (pn_size p) s")
  case (Inl s1)
  then show ?thesis
    using R_begin_record [of s sha256 6 True "pn_fileName p" "pn_rel p" "pn_mediaType p" "pn_size p"] by (simp add: with_space_def)
next
  case (Inr s1)
  have 1: "R s s1"
    using R_begin_record [of s sha256 6 True "pn_fileName p" "pn_rel p" "pn_mediaType p" "pn_size p"] by (simp add: Inr)
  define s2 where "s2 = set_reg (SetDownloading (at_task a)) s1"
  have 2: "R s s2" unfolding s2_def by (rule R_trans [OF 1 R_reg])
  obtain e f where m: "MkdirAll (x_mkdir x) (Dir (pn_final p)) (o_fs s2) = (e, f)" by fastforce
  have "f q = o_fs s2 q" if "o_fs s2 q \<noteq> None" for q
    using MkdirAll_frame [OF m, of q] that by auto
  then have 3: "R s (set_fs (\<lambda>_. f) s2)" by (intro R_trans [OF 2 R_fs [OF assms]]) simp
  show ?thesis
  proof (cases e)
    case (Some msg)
    then show ?thesis using R_trans [OF 3 R_both] by (simp add: with_space_def Inr s2_def [symmetric] m)
  next
    case None
    define s3 where "s3 = x_others x 2 (set_fs (\<lambda>_. f) s2)"
    have 4: "R s s3" unfolding s3_def by (rule R_trans [OF 3 R_others])
    obtain e' s4 where o: "open_part x p s3 = (e', s4)" by fastforce
    have 5: "R s s4" using R_trans [OF 4 R_open [OF assms, of s3]] by (simp add: o)
    note 6 = R_trans [OF 5 R_part [OF assms, of s4]]
    show ?thesis
      using 4 R_trans [OF 5 R_both] 6 R_trans [OF 6 R_remove [OF assms]]
      by (simp add: with_space_def Inr s2_def [symmetric] m None s3_def [symmetric] o split_beta split: option.split)
  qed
qed

lemma R_attempt:
  assumes "\<And>m s'. R s s' \<Longrightarrow> resolve_loop x 0 3 (Inr nil_media) = Inr m \<Longrightarrow> own (plan_path fnm x a m s')"
  shows "R s (run_attempt sha256 fnm K x a s)"
proof -
  let ?q = "at_req a"
  note b = R_begin_record [of s sha256 0 False "q_FileName ?q" "q_FinalPath ?q" "q_MediaType ?q" "q_ExpectedSize ?q"]
  show ?thesis
  proof (cases "begin_record sha256 x 0 False a (q_FileName ?q) (q_FinalPath ?q) (q_MediaType ?q) (q_ExpectedSize ?q) s")
    case (Inl s1)
    then show ?thesis using b by (simp add: run_attempt_def)
  next
    case (Inr s1)
    have 1: "R s (x_others x 0 s1)" using R_trans [OF b R_others] by (simp add: Inr)
    note 2 = R_trans [OF 1 R_resolve [of "x_others x 0 s1"]]
    show ?thesis
    proof (cases "resolve_stage x a (x_others x 0 s1)")
      case (Inl s2)
      then show ?thesis using 2 Inr by (simp add: run_attempt_def)
    next
      case (Inr y)
      obtain m s2 where y: "y = (m, s2)" by fastforce
      have 3: "R s s2" using 2 by (simp add: Inr y)
      define p where "p = plan_path fnm x a m s2"
      have "resolve_loop x 0 3 (Inr nil_media) = Inr m"
        using Inr y by (auto simp: resolve_stage_def Let_def split: sum.splits if_splits)
      then have own: "own p" unfolding p_def by (rule assms [OF 3])
      define s3 where "s3 = set_reg (SetFinalPath (at_task a) (pn_rel p)) s2"
      have pl: "plan_stage fnm x a m s2 = (p, s3)" by (simp add: plan_stage_def p_def s3_def Let_def)
      have 4: "R s s3" unfolding s3_def by (rule R_trans [OF 3 R_reg])
      note 5 = R_trans [OF 4 R_check [OF own, of s3]]
      show ?thesis
      proof (cases "check_existing sha256 x a p s3")
        case (Inl s4)
        then show ?thesis using 5 \<open>begin_record _ _ _ _ _ _ _ _ _ _ = Inr s1\<close> Inr y pl by (simp add: run_attempt_def)
      next
        case (Inr s4)
        have 6: "R s s4" using 5 by (simp add: Inr)
        obtain r adm where v: "Reserve (x_statfs x) (q_ID ?q) (pn_size p) (oc_adm s4) = (r, adm)" by fastforce
        have w: "R s (s4\<lparr>oc_adm := adm\<rparr>)" by (rule R_trans [OF 6 R_world]) simp_all
        have "R s (set_reg f (s4\<lparr>oc_adm := adm\<rparr>))" for f by (rule R_trans [OF w R_reg])
        moreover have "R s (with_space sha256 K x a p (x_others x 1 (s4\<lparr>oc_adm := adm\<rparr>)))"
          by (rule R_trans [OF R_trans [OF w R_others] R_space [OF own]])
        then have "R s (with_space sha256 K x a p (x_others x 1 (s4\<lparr>oc_adm := adm\<rparr>))\<lparr>oc_adm := h\<rparr>)" for h
          by (rule R_trans [OF _ R_world]) simp_all
        ultimately show ?thesis
          using \<open>begin_record _ _ _ _ _ _ _ _ _ _ = Inr s1\<close> \<open>resolve_stage _ _ _ = Inr y\<close> y pl Inr
          by (simp add: run_attempt_def v Let_def split: sum.split)
      qed
    qed
  qed
qed

lemma R_download:
  assumes "a = attempt_of t s"
    and "\<And>m s'. R s s' \<Longrightarrow> resolve_loop x 0 3 (Inr nil_media) = Inr m \<Longrightarrow> own (plan_path fnm x a m s')"
  shows "R s (downloadOne sha256 fnm K x t s)"
proof -
  let ?s = "s\<lparr>oc_inFlight := insert (q_ID (at_req a)) (oc_inFlight s)\<rparr>"
  have 0: "R s ?s" by (rule R_world) simp_all
  then have 1: "R s (run_attempt sha256 fnm K x a ?s)"
    by (rule R_trans [OF _ R_attempt]) (rule assms(2) [OF R_trans [OF 0]], assumption+)
  have "R s (run_attempt sha256 fnm K x a ?s\<lparr>oc_inFlight := h\<rparr>)" for h
    by (rule R_trans [OF 1 R_world]) simp_all
  then show ?thesis by (simp add: downloadOne_def assms(1) [symmetric] Let_def R_refl)
qed

end

section \<open>Other files\<close>

text \<open>\<open>p\<close> is the plan of the attempt, whatever others do meanwhile.\<close>

definition planned :: "(string \<Rightarrow> string) \<Rightarrow> dl_env \<Rightarrow> Task \<Rightarrow> orch \<Rightarrow> plan \<Rightarrow> bool" where
  "planned fnm x t s p \<longleftrightarrow> (\<forall>m s'. resolve_loop x 0 3 (Inr nil_media) = Inr m \<longrightarrow> oc_saveDir s' = oc_saveDir s \<longrightarrow>
     plan_path fnm x (attempt_of t s) m s' = p)"

definition same_dir :: "dl_env \<Rightarrow> bool" where
  "same_dir x \<longleftrightarrow> (\<forall>i s. oc_saveDir (x_others x i s) = oc_saveDir s)"

definition keeps_file :: "dl_env \<Rightarrow> string \<Rightarrow> string \<Rightarrow> orch \<Rightarrow> orch \<Rightarrow> bool" where
  "keeps_file x q c s s' \<longleftrightarrow> (same_dir x \<and> considerate x q \<longrightarrow>
     oc_saveDir s' = oc_saveDir s \<and> (o_fs s q = Some (NFile c) \<longrightarrow> o_fs s' q = Some (NFile c)))"

definition own_plan :: "kernel \<Rightarrow> dl_env \<Rightarrow> string \<Rightarrow> plan \<Rightarrow> bool" where
  "own_plan K x q p \<longleftrightarrow> ownership K x p \<and> pn_part p \<noteq> q"

lemma db_call_frame [simp]:
  "o_fs (snd (db_call f s)) = o_fs s" "oc_saveDir (snd (db_call f s)) = oc_saveDir s"
  "o_db (snd (db_call f s)) = snd (f (o_db s))" "fst (db_call f s) = fst (f (o_db s))"
  by (simp_all add: db_call_def setters split_beta Let_def)

lemma commit_part_frame [simp]:
  "oc_saveDir (snd (commit_part sha256 K v p sha s)) = oc_saveDir s"
  "o_db (snd (commit_part sha256 K v p sha s)) = o_db s"
  by (simp_all add: commit_part_def split_beta Let_def evaluate_db)

interpretation kept: whole_attempt "keeps_file x q c" x a "own_plan K x q" sha256 K for x q c a K sha256
proof (unfold_locales, goal_cases)
  case (14 p s c' sha)
  then show ?case
    using commit_part_keeps [of K x p s c' q c sha256 sha] by (auto simp: keeps_file_def own_plan_def considerate_def)
next
  case (10 s i)
  then show ?case using considerate_others by (auto simp: keeps_file_def same_dir_def)
next
  case (4 p s f)
  then show ?case by (auto simp: keeps_file_def own_plan_def setters)
qed (auto simp: keeps_file_def own_plan_def setters)

lemma planned_own:
  assumes "planned fnm x t s p" and "kernel_ok K" and "file_path (pn_final p)"
    and "considerate x (pn_part p)" and "considerate x (pn_final p)" and "oc_saveDir s' = oc_saveDir s"
    and "resolve_loop x 0 3 (Inr nil_media) = Inr m"
  shows "plan_path fnm x (attempt_of t s) m s' = p" and "ownership K x p"
proof -
  show p: "plan_path fnm x (attempt_of t s) m s' = p" using assms(1,6,7) unfolding planned_def by blast
  have "pn_part (plan_path fnm x (attempt_of t s) m s') = pn_final (plan_path fnm x (attempt_of t s) m s') @ ''.part''"
    by (simp add: plan_path_def Let_def)
  then have "pn_part p = pn_final p @ ''.part''" by (simp only: p)
  with assms show "ownership K x p" by (simp add: ownership_def)
qed

text \<open>C3. An attempt changes no file but its own part, whatever fails and however it ends: every other file keeps its content,
  a file that already has the final name included.\<close>

theorem download_keeps_other_files:
  assumes "kernel_ok K" and "planned fnm x t s p" and "file_path (pn_final p)" and "same_dir x"
    and "considerate x (pn_part p)" and "considerate x (pn_final p)" and "considerate x q" and "q \<noteq> pn_part p"
    and "o_fs s q = Some (NFile c)"
  shows "o_fs (downloadOne sha256 fnm K x t s) q = Some (NFile c)"
proof -
  have "keeps_file x q c s (downloadOne sha256 fnm K x t s)"
  proof (rule kept.R_download [OF refl])
    fix m s' assume "keeps_file x q c s s'" and m: "resolve_loop x 0 3 (Inr nil_media) = Inr m"
    then have "oc_saveDir s' = oc_saveDir s" using assms(4,7) by (simp add: keeps_file_def)
    from planned_own [OF assms(2,1,3,5,6) this m] assms(8) show "own_plan K x q (plan_path fnm x (attempt_of t s) m s')"
      by (simp add: own_plan_def)
  qed
  with assms(4,7,9) show ?thesis by (simp add: keeps_file_def)
qed

section \<open>Success is verified\<close>

lemma begin_no_success:
  assumes "db_ok db" and "drow (snd (BeginDownload io now k g f p m n db)) k = Some r'" and "d_status r' = Success"
  shows "drow db k = Some r'"
proof (cases "drow db k")
  case None
  with assms show ?thesis by (auto simp: BeginDownload_def row_defs split: if_splits)
next
  case (Some r)
  with begin_effect [OF assms(1), of k g f p m n io now] assms(2,3) show ?thesis by (auto simp: dl_effect_def)
qed

lemma prepare_no_success:
  assumes "db_ok db" and "drow (snd (PrepareDownloadCommit io now k g p n s db)) k = Some r'" and "d_status r' = Success"
  shows "drow db k = Some r'"
proof (cases "drow db k")
  case None
  with assms show ?thesis by (auto simp: PrepareDownloadCommit_def split: if_splits)
next
  case (Some r)
  with prepare_effect [OF assms(1), of k g p n s io now] assms(2,3) show ?thesis by (auto simp: dl_effect_def)
qed

lemma cancel_no_success:
  assumes "db_ok db" and "drow (snd (CancelDownload io now k g e db)) k = Some r'" and "d_status r' = Success"
  shows "drow db k = Some r'"
proof (cases "drow db k")
  case None
  with assms show ?thesis by (auto simp: CancelDownload_def Let_def split_beta split: if_splits)
next
  case (Some r)
  with cancel_effect [OF assms(1), of k g e io now] assms(2,3) show ?thesis by (auto simp: dl_effect_def)
qed

lemma disposition_no_success:
  assumes "db_ok db" and "drow (snd (FailDownloadDisposition io now k g f p m n d db)) k = Some r'" and "d_status r' = Success"
  shows "drow db k = Some r'"
proof (cases "drow db k")
  case None
  with assms show ?thesis
    by (auto simp: FailDownloadDisposition_def FailDownload_def RecordTargetConflict_def row_defs split: if_splits)
next
  case (Some r)
  with disposition_effect [OF assms(1), of k g f p m n d io now] assms(2,3) show ?thesis by (auto simp: dl_effect_def)
qed

lemma existing_new_success:
  assumes "db_ok db" and "drow (snd (CompleteExistingDownload io now k g p n s q db)) k = Some r'"
    and "d_status r' = Success" and "drow db k \<noteq> Some r'"
  shows "row_proof r' = (p, n, s)"
proof -
  obtain e db' where c: "CompleteExistingDownload io now k g p n s q db = (e, db')" by force
  have ne: "db' \<noteq> db" using assms(2,4) c by auto
  have "d_status r \<noteq> Success" if "drow db k = Some r" for r
    using that ne c by (auto simp: CompleteExistingDownload_def split: if_splits)
  then have "completed q k p n s db (e, db')" using existing_completed [OF assms(1), of k q p n s io now g] c by simp
  with ne show ?thesis using assms(2) c by (auto simp: completed_def split: option.splits db_error.splits)
qed

text \<open>The file at the final path is what the row says.\<close>

definition row_verified :: "(string \<Rightarrow> string) \<Rightarrow> plan \<Rightarrow> orch \<Rightarrow> download_row \<Rightarrow> bool" where
  "row_verified sha256 p s r \<longleftrightarrow> (\<exists>c. o_fs s (pn_final p) = Some (NFile c) \<and> row_proof r = (pn_rel p, int (length c), sha256 c))"

text \<open>The rest of the program keeps the database well formed and does not itself complete the record.\<close>

definition lets_be :: "dl_env \<Rightarrow> msg_key \<Rightarrow> bool" where
  "lets_be x k \<longleftrightarrow> (\<forall>i s. db_ok (o_db s) \<longrightarrow> db_ok (o_db (x_others x i s)) \<and>
     (\<forall>r. drow (o_db (x_others x i s)) k = Some r \<longrightarrow> d_status r = Success \<longrightarrow> drow (o_db s) k = Some r))"

definition success_sound :: "(string \<Rightarrow> string) \<Rightarrow> dl_env \<Rightarrow> msg_key \<Rightarrow> plan \<Rightarrow> orch \<Rightarrow> orch \<Rightarrow> bool" where
  "success_sound sha256 x k p s s' \<longleftrightarrow> (same_dir x \<and> considerate x (pn_final p) \<and> lets_be x k \<longrightarrow>
     oc_saveDir s' = oc_saveDir s \<and> (\<forall>r. row_verified sha256 p s r \<longrightarrow> row_verified sha256 p s' r) \<and>
     (db_ok (o_db s) \<longrightarrow> db_ok (o_db s') \<and>
        (\<forall>r. drow (o_db s') k = Some r \<longrightarrow> d_status r = Success \<longrightarrow> drow (o_db s) k = Some r \<or> row_verified sha256 p s' r)))"

lemma sound_db:
  assumes "\<And>db. db_ok db \<Longrightarrow> db_ok (snd (f db))"
    and "\<And>db r. db_ok db \<Longrightarrow> drow (snd (f db)) k = Some r \<Longrightarrow> d_status r = Success \<Longrightarrow> drow db k = Some r"
  shows "success_sound sha256 x k p s (snd (db_call f s))"
  unfolding success_sound_def row_verified_def db_call_frame using assms by blast

lemma effect_ok: "dl_effect k c db db' \<Longrightarrow> db_ok db'"
  by (simp add: dl_effect_def)

lemmas op_ok = effect_ok [OF begin_effect] effect_ok [OF prepare_effect] effect_ok [OF cancel_effect]
  effect_ok [OF disposition_effect] effect_ok [OF conflict_effect] effect_ok [OF existing_effect] effect_ok [OF complete_effect]

lemma sound_trans:
  assumes "success_sound sha256 x k p s1 s2" and "success_sound sha256 x k p s2 s3"
  shows "success_sound sha256 x k p s1 s3"
proof (unfold success_sound_def, intro impI)
  assume rely: "same_dir x \<and> considerate x (pn_final p) \<and> lets_be x k"
  have 1: "oc_saveDir s2 = oc_saveDir s1" "\<And>r. row_verified sha256 p s1 r \<Longrightarrow> row_verified sha256 p s2 r"
    "db_ok (o_db s1) \<Longrightarrow> db_ok (o_db s2)" "\<And>r. db_ok (o_db s1) \<Longrightarrow> drow (o_db s2) k = Some r \<Longrightarrow> d_status r = Success \<Longrightarrow>
      drow (o_db s1) k = Some r \<or> row_verified sha256 p s2 r"
    using assms(1) rely unfolding success_sound_def by blast+
  have 2: "oc_saveDir s3 = oc_saveDir s2" "\<And>r. row_verified sha256 p s2 r \<Longrightarrow> row_verified sha256 p s3 r"
    "db_ok (o_db s2) \<Longrightarrow> db_ok (o_db s3)" "\<And>r. db_ok (o_db s2) \<Longrightarrow> drow (o_db s3) k = Some r \<Longrightarrow> d_status r = Success \<Longrightarrow>
      drow (o_db s2) k = Some r \<or> row_verified sha256 p s3 r"
    using assms(2) rely unfolding success_sound_def by blast+
  show "oc_saveDir s3 = oc_saveDir s1 \<and> (\<forall>r. row_verified sha256 p s1 r \<longrightarrow> row_verified sha256 p s3 r) \<and>
     (db_ok (o_db s1) \<longrightarrow> db_ok (o_db s3) \<and>
        (\<forall>r. drow (o_db s3) k = Some r \<longrightarrow> d_status r = Success \<longrightarrow> drow (o_db s1) k = Some r \<or> row_verified sha256 p s3 r))"
    using 1 2 by metis
qed

text \<open>A step that leaves the database alone and keeps the final file.\<close>

lemma sound_fs:
  assumes "o_db s' = o_db s" and "oc_saveDir s' = oc_saveDir s"
    and "\<And>c. considerate x (pn_final p) \<Longrightarrow> o_fs s (pn_final p) = Some (NFile c) \<Longrightarrow> o_fs s' (pn_final p) = Some (NFile c)"
  shows "success_sound sha256 x k p s s'"
  unfolding success_sound_def row_verified_def assms(1,2) using assms(3) by blast

lemma sound_others: "success_sound sha256 x k p s (x_others x i s)"
proof (unfold success_sound_def, intro impI)
  assume rely: "same_dir x \<and> considerate x (pn_final p) \<and> lets_be x k"
  then have "row_verified sha256 p (x_others x i s) r" if "row_verified sha256 p s r" for r
    using that considerate_others [of x "pn_final p" s _ i] by (auto simp: row_verified_def)
  with rely show "oc_saveDir (x_others x i s) = oc_saveDir s \<and>
     (\<forall>r. row_verified sha256 p s r \<longrightarrow> row_verified sha256 p (x_others x i s) r) \<and>
     (db_ok (o_db s) \<longrightarrow> db_ok (o_db (x_others x i s)) \<and>
        (\<forall>r. drow (o_db (x_others x i s)) k = Some r \<longrightarrow> d_status r = Success \<longrightarrow>
           drow (o_db s) k = Some r \<or> row_verified sha256 p (x_others x i s) r))"
    unfolding same_dir_def lets_be_def by blast
qed

text \<open>A completing transaction whose row describes the final file.\<close>

lemma sound_completing:
  assumes "o_fs s (pn_final p) = Some (NFile c)" and "\<And>db. db_ok db \<Longrightarrow> db_ok (snd (f db))"
    and "\<And>db r. db_ok db \<Longrightarrow> drow (snd (f db)) k = Some r \<Longrightarrow> d_status r = Success \<Longrightarrow> drow db k \<noteq> Some r \<Longrightarrow>
      row_proof r = (pn_rel p, int (length c), sha256 c)"
  shows "success_sound sha256 x k p s (snd (db_call f s))"
  unfolding success_sound_def row_verified_def db_call_frame using assms by blast

interpretation sound: whole_attempt "success_sound sha256 x (at_key a) p" x a "\<lambda>p'. p' = p \<and> ownership K x p" sha256 K
  for sha256 x a p K
proof (unfold_locales, goal_cases)
  case (1 s1 s2 s3)
  then show ?case by (rule sound_trans)
next
  case (2 s' s)
  then show ?case by (intro sound_fs) simp_all
next
  case (3 s m)
  show ?case by (rule sound_fs) (simp_all add: setters)
next
  case (4 p' s f)
  then have "pn_final p \<noteq> pn_part p" by (simp add: ownership_def)
  with 4 show ?case by (intro sound_fs) (simp_all add: setters)
next
  case (5 s io now fn sp mt sz)
  show ?case by (rule sound_db [OF op_ok(1) begin_no_success])
next
  case (6 s io now fn sp mt sz disp)
  show ?case by (rule sound_db [OF op_ok(4) disposition_no_success])
next
  case (7 s io now fn sp mt sz disp)
  show ?case by (rule sound_db [OF op_ok(5) conflict_no_success])
next
  case (8 s io now reason)
  show ?case by (rule sound_db [OF op_ok(3) cancel_no_success])
next
  case (9 s io now rel sz sha)
  show ?case by (rule sound_db [OF op_ok(2) prepare_no_success])
next
  case (10 s i)
  show ?case by (rule sound_others)
next
  case (11 p')
  then show ?case by simp
next
  case (12 p' s c io now q)
  then have f: "o_fs s (pn_final p) = Some (NFile c)" and p': "p' = p" by simp_all
  show ?case unfolding p' by (rule sound_completing [OF f]) (erule op_ok(6), rule existing_new_success)
next
  case (13 p' s c io now q)
  then have f: "o_fs s (pn_final p) = Some (NFile c)" and p': "p' = p" "pn_size p = int (length c)" by simp_all
  show ?case unfolding p' by (rule sound_completing [OF f]) (erule op_ok(7), rule complete_new_success)
next
  case (14 p' s c sha)
  then have own: "ownership K x p" "o_fs s (pn_part p) = Some (NFile c)" "p' = p" by simp_all
  then have "pn_final p \<noteq> pn_part p" by (simp add: ownership_def)
  with own show ?case
    by (intro sound_fs) (simp_all add: commit_part_keeps considerate_def)
qed

section \<open>What an attempt holds while it runs\<close>

lemma setter_frames [simp]:
  "oc_publishers (set_reg f s) = oc_publishers s" "oc_adm (set_reg f s) = oc_adm s"
  "oc_publishers (set_fs g s) = oc_publishers s" "oc_adm (set_fs g s) = oc_adm s"
  "oc_publishers (set_meter m s) = oc_publishers s" "oc_adm (set_meter m s) = oc_adm s"
  "oc_publishers (snd (db_call h s)) = oc_publishers s" "oc_adm (snd (db_call h s)) = oc_adm s"
  by (simp_all add: setters db_call_def split_beta Let_def)

lemma stage_frames [simp]:
  "oc_publishers (fail_task x i a d s) = oc_publishers s" "oc_adm (fail_task x i a d s) = oc_adm s"
  "oc_publishers (fail_both x i a p d s) = oc_publishers s" "oc_adm (fail_both x i a p d s) = oc_adm s"
  "oc_publishers (snd (fail_record x i a fn sp mt sz d s)) = oc_publishers s"
  "oc_adm (snd (fail_record x i a fn sp mt sz d s)) = oc_adm s"
  "oc_publishers (remove_part x i p s) = oc_publishers s" "oc_adm (remove_part x i p s) = oc_adm s"
  "oc_publishers (already_success sha256 x i b a pf s) = oc_publishers s" "oc_adm (already_success sha256 x i b a pf s) = oc_adm s"
  "oc_publishers (snd (record_proof sha256 x a p n s)) = oc_publishers s" "oc_adm (snd (record_proof sha256 x a p n s)) = oc_adm s"
  "oc_publishers (snd (open_part x p s)) = oc_publishers s" "oc_adm (snd (open_part x p s)) = oc_adm s"
  "oc_publishers (snd (transfer x a p s)) = oc_publishers s" "oc_adm (snd (transfer x a p s)) = oc_adm s"
  "oc_publishers (transfer_failed x a p res e s) = oc_publishers s" "oc_adm (transfer_failed x a p res e s) = oc_adm s"
  "oc_publishers (snd (commit_part sha256 K v p sha s)) = oc_publishers s"
  "oc_adm (snd (commit_part sha256 K v p sha s)) = oc_adm s"
  by (simp_all add: fail_task_def fail_both_def fail_record_def remove_part_def already_success_def record_proof_def open_part_def
      transfer_def transfer_failed_def commit_part_def Let_def split_beta split: option.split sum.split)

definition same_holds :: "orch \<Rightarrow> orch \<Rightarrow> bool" where
  "same_holds s s' \<longleftrightarrow> oc_publishers s' = oc_publishers s \<and> oc_adm s' = oc_adm s"

lemma begin_holds: "same_holds s (case begin_record sha256 x i b a fn sp mt sz s of Inl s' \<Rightarrow> s' | Inr s' \<Rightarrow> s')"
proof -
  obtain e s1 where c: "db_call (BeginDownload (x_io x i) (Unix (x_now x i)) (at_key a) (at_gen a) fn sp mt sz) s = (e, s1)"
    by fastforce
  have "oc_publishers s1 = oc_publishers s" "oc_adm s1 = oc_adm s"
    using setter_frames(7,8) [of "BeginDownload (x_io x i) (Unix (x_now x i)) (at_key a) (at_gen a) fn sp mt sz" s] by (simp_all add: c)
  then show ?thesis by (auto simp: same_holds_def begin_record_def c split: option.split db_error.split)
qed

lemma resolve_holds: "same_holds s (case resolve_stage x a s of Inl s' \<Rightarrow> s' | Inr (m, s') \<Rightarrow> s')"
  by (simp add: same_holds_def resolve_stage_def Let_def split: sum.split)

lemma check_holds: "same_holds s (case check_existing sha256 x a p s of Inl s' \<Rightarrow> s' | Inr s' \<Rightarrow> s')"
proof (cases "Stat (x_stat x 3) (o_fs s) (pn_final p)")
  case (Some n)
  obtain d s1 where r: "record_proof sha256 x a p (node_size (x_dir_size x) n) s = (d, s1)" by fastforce
  have s1: "oc_publishers s1 = oc_publishers s" "oc_adm s1 = oc_adm s"
    using stage_frames(11,12) [of sha256 x a p "node_size (x_dir_size x) n" s] by (simp_all add: r)
  show ?thesis
  proof (cases d)
    case (Some sha)
    define f where "f = CompleteExistingDownload (x_io x 4) (Unix (x_now x 4)) (at_key a) (at_gen a) (pn_rel p)
      (node_size (x_dir_size x) n) sha (IsEnabled (oc_archive s1))"
    obtain e s2 where c: "db_call f s1 = (e, s2)" by fastforce
    have "oc_publishers s2 = oc_publishers s" "oc_adm s2 = oc_adm s" using setter_frames(7,8) [of f s1] s1 by (simp_all add: c)
    with Some \<open>Stat _ _ _ = Some n\<close> show ?thesis
      by (simp add: same_holds_def check_existing_def r f_def [symmetric] c split: option.split)
  qed (use \<open>Stat _ _ _ = Some n\<close> s1 in \<open>simp add: same_holds_def check_existing_def r\<close>)
qed (simp add: same_holds_def check_existing_def)

lemma verify_holds: "same_holds s (case verify_part sha256 x a p res s of Inl s' \<Rightarrow> s' | Inr (sha, s') \<Rightarrow> s')"
  by (simp add: same_holds_def verify_part_def Let_def split_beta split: option.split)

lemma cancelled_holds: "same_holds s (case check_cancelled x a p s of Inl s' \<Rightarrow> s' | Inr s' \<Rightarrow> s')"
  by (simp add: same_holds_def check_cancelled_def Let_def)

text \<open>The rest of the program does not publish the same record, does not reserve for the same task and does not replace the admission.\<close>

definition reserved :: "orch \<Rightarrow> string \<Rightarrow> int64 option" where
  "reserved s tid = (case oc_adm s of None \<Rightarrow> None | Some ad \<Rightarrow> reservations ad tid)"

definition holds_nothing :: "dl_env \<Rightarrow> string \<Rightarrow> string \<Rightarrow> bool" where
  "holds_nothing x key tid \<longleftrightarrow> (\<forall>i s. (oc_publishers s key = None \<longrightarrow> oc_publishers (x_others x i s) key = None) \<and>
     (oc_adm (x_others x i s) = None \<longleftrightarrow> oc_adm s = None) \<and> (reserved s tid = None \<longrightarrow> reserved (x_others x i s) tid = None))"

lemma reserved_same: "oc_adm s' = oc_adm s \<Longrightarrow> reserved s' tid = reserved s tid"
  by (simp add: reserved_def)

definition free_of :: "string \<Rightarrow> bool \<Rightarrow> orch \<Rightarrow> bool" where
  "free_of key b s \<longleftrightarrow> oc_publishers s key = None \<and> (oc_adm s = None \<longleftrightarrow> b)"

lemma free_same: "same_holds s s' \<Longrightarrow> free_of key b s' = free_of key b s"
  by (simp add: same_holds_def free_of_def)

lemma free_others: "holds_nothing x key tid \<Longrightarrow> free_of key b s \<Longrightarrow> free_of key b (x_others x i s)"
  by (simp add: holds_nothing_def free_of_def)

lemma adm_others: "holds_nothing x key tid \<Longrightarrow> oc_adm (x_others x i s) = None \<longleftrightarrow> oc_adm s = None"
  by (simp add: holds_nothing_def)

lemma complete_free:
  assumes "oc_adm s = None \<longleftrightarrow> b"
  shows "free_of (pub_key a) b (complete x a p res sha fsha s)"
proof -
  define f where "f = CompleteDownloadAndQueueArchive (x_io x 13) (Unix (x_now x 13)) (at_key a) (at_gen a) (pn_rel p) (pn_size p)
             fsha (IsEnabled (oc_archive s))"
  obtain e s1 where c: "db_call f s = (e, s1)" by fastforce
  have "oc_adm s1 = oc_adm s" using setter_frames(8) [of f s] by (simp add: c)
  with assms show ?thesis by (simp add: complete_def f_def [symmetric] c free_of_def unregister_def wakeFinalizer_def)
qed

lemma after_free:
  assumes "holds_nothing x key tid" and "oc_adm s = None \<longleftrightarrow> b"
  shows "free_of (pub_key a) b (after_commit x a p res sha d s)"
proof (cases d)
  case (DecisionSuccess fsha)
  then show ?thesis using complete_free adm_others [OF assms(1)] assms(2) by (simp add: after_commit_def)
next
  case (DecisionTargetConflict disp ce)
  define f where "f = RecordTargetConflict (x_io x 12) (Unix (x_now x 12)) (at_key a) (at_gen a) (pn_fileName p)
    (pn_rel p) (pn_mediaType p) (pn_size p) disp"
  obtain e s1 where c: "db_call f s = (e, s1)" by fastforce
  have "oc_adm s1 = oc_adm s" using setter_frames(8) [of f s] by (simp add: c)
  with DecisionTargetConflict assms show ?thesis
    by (simp add: after_commit_def f_def [symmetric] c free_of_def unregister_def split: option.split)
next
  case (DecisionIOError disp ce)
  obtain e s1 where c: "fail_record x 12 a (pn_fileName p) (pn_rel p) (pn_mediaType p) (pn_size p) disp s = (e, s1)" by fastforce
  have "oc_adm s1 = oc_adm s"
    using stage_frames(6) [of x 12 a "pn_fileName p" "pn_rel p" "pn_mediaType p" "pn_size p" disp s] by (simp add: c)
  with DecisionIOError assms show ?thesis
    by (simp add: after_commit_def c free_of_def unregister_def split: option.split)
qed

lemma publish_free:
  assumes "holds_nothing x key tid" and "oc_adm s = None \<longleftrightarrow> b"
  shows "free_of (pub_key a) b (snd (publish sha256 K x a p res sha s))"
proof -
  define f where "f = PrepareDownloadCommit (x_io x 11) (Unix (x_now x 11)) (at_key a) (at_gen a) (pn_rel p) (pn_size p) sha"
  obtain e s1 where c: "db_call f (register a s) = (e, s1)" by fastforce
  have 1: "oc_adm s1 = None \<longleftrightarrow> b" using setter_frames(8) [of f "register a s", unfolded c] assms(2) by (simp add: register_def)
  define s2 where "s2 = x_others x 6 (set_reg (\<lambda>r. snd (SetPublishing (at_task a) r)) (x_others x 5 s1))"
  obtain d s3 where d: "commit_part sha256 K (x_commit x) p sha s2 = (d, s3)" by fastforce
  have "oc_adm s3 = None \<longleftrightarrow> b"
    using stage_frames(20) [of sha256 K "x_commit x" p sha s2, unfolded d] 1 adm_others [OF assms(1)] by (simp add: s2_def)
  from after_free [OF assms(1) this] 1 show ?thesis
    by (simp add: publish_def f_def [symmetric] c s2_def [symmetric] d free_of_def unregister_def split: option.split)
qed

lemma part_free:
  assumes "holds_nothing x (pub_key a) tid" and "free_of (pub_key a) b s"
  shows "free_of (pub_key a) b (snd (with_part sha256 K x a p s))"
proof -
  obtain res e s1 where t: "transfer x a p s = ((res, e), s1)" by (metis surj_pair)
  have "same_holds s s1" using stage_frames(15,16) [of x a p s] by (simp add: t same_holds_def)
  then have 1: "free_of (pub_key a) b (x_others x 3 s1)" using assms free_same free_others by metis
  show ?thesis
  proof (cases e)
    case (Some err)
    have "same_holds (x_others x 3 s1) (transfer_failed x a p res err (x_others x 3 s1))" by (simp add: same_holds_def)
    with 1 Some free_same show ?thesis by (simp add: with_part_def t)
  next
    case None
    note 2 = free_same [OF verify_holds [of "x_others x 3 s1" sha256 x a p res]]
    show ?thesis
    proof (cases "verify_part sha256 x a p res (x_others x 3 s1)")
      case (Inl s2)
      with 1 2 None show ?thesis by (simp add: with_part_def t)
    next
      case (Inr y)
      obtain sha s2 where y: "y = (sha, s2)" by fastforce
      have 3: "free_of (pub_key a) b (x_others x 4 s2)" using free_others [OF assms(1)] 1 2 Inr y by simp
      note 4 = free_same [OF cancelled_holds [of "x_others x 4 s2" x a p]]
      show ?thesis
        using 3 4 publish_free [OF assms(1), of "x_others x 4 s2" b] Inr y None
        by (cases "check_cancelled x a p (x_others x 4 s2)")
          (auto simp: with_part_def t free_of_def check_cancelled_def split: if_splits)
    qed
  qed
qed

lemma space_free:
  assumes "holds_nothing x (pub_key a) tid" and "free_of (pub_key a) b s"
  shows "free_of (pub_key a) b (with_space sha256 K x a p s)"
proof -
  note 1 = free_same [OF begin_holds [of s sha256 x 6 True a "pn_fileName p" "pn_rel p" "pn_mediaType p" "pn_size p"]]
  show ?thesis
  proof (cases "begin_record sha256 x 6 True a (pn_fileName p) (pn_rel p) (pn_mediaType p) (pn_size p) s")
    case (Inl s1)
    with 1 assms(2) show ?thesis by (simp add: with_space_def)
  next
    case (Inr s1)
    define s2 where "s2 = set_reg (SetDownloading (at_task a)) s1"
    obtain e f where m: "MkdirAll (x_mkdir x) (Dir (pn_final p)) (o_fs s2) = (e, f)" by fastforce
    have 2: "free_of (pub_key a) b (set_fs (\<lambda>_. f) s2)" using 1 Inr assms(2) by (simp add: free_of_def s2_def)
    define s3 where "s3 = x_others x 2 (set_fs (\<lambda>_. f) s2)"
    have 3: "free_of (pub_key a) b s3" unfolding s3_def by (rule free_others [OF assms(1) 2])
    obtain e' s4 where o: "open_part x p s3 = (e', s4)" by fastforce
    have 4: "free_of (pub_key a) b s4" using stage_frames(13,14) [of x p s3, unfolded o] 3 by (simp add: free_of_def)
    have 5: "free_of (pub_key a) b (snd (with_part sha256 K x a p s4))" by (rule part_free [OF assms(1) 4])
    show ?thesis
      using 2 3 4 5
      by (auto simp: with_space_def Inr s2_def [symmetric] m s3_def [symmetric] o split_beta free_of_def split: option.split)
  qed
qed

lemma release_reserved:
  assumes "Reserve st tid n ao = (Inr rel, ao')" and "(ao'' = None) = (ao' = None)"
  shows "(case snd (release rel ao'') of None \<Rightarrow> None | Some ad \<Rightarrow> reservations ad tid) = None"
  using assms by (auto simp: Reserve_def release_def drop_reservation_def Let_def split: option.splits if_splits prod.splits)

lemma reserve_fails:
  assumes "Reserve st tid n ao = (Inl e, ao')" and "(case ao of None \<Rightarrow> None | Some ad \<Rightarrow> reservations ad tid) = None"
  shows "(case ao' of None \<Rightarrow> None | Some ad \<Rightarrow> reservations ad tid) = None"
  using assms by (auto simp: Reserve_def drop_reservation_def Let_def split: option.splits if_splits prod.splits)

lemma attempt_free:
  assumes h: "holds_nothing x (pub_key a) (q_ID (at_req a))" and "oc_publishers s (pub_key a) = None"
    and "reserved s (q_ID (at_req a)) = None"
  shows "oc_publishers (run_attempt sha256 fnm K x a s) (pub_key a) = None \<and>
    reserved (run_attempt sha256 fnm K x a s) (q_ID (at_req a)) = None"
proof -
  let ?q = "at_req a" and ?k = "pub_key a"
  define idle where "idle s \<longleftrightarrow> oc_publishers s ?k = None \<and> reserved s (q_ID ?q) = None" for s
  have same: "idle s'' = idle s'" if "same_holds s' s''" for s' s''
    using that by (simp add: idle_def same_holds_def reserved_def)
  have others: "idle (x_others x i s')" if "idle s'" for i s'
    using h that by (simp add: idle_def holds_nothing_def)
  have 0: "idle s" using assms(2,3) by (simp add: idle_def)
  note b = same [OF begin_holds [of s sha256 x 0 False a "q_FileName ?q" "q_FinalPath ?q" "q_MediaType ?q" "q_ExpectedSize ?q"]]
  have "idle (run_attempt sha256 fnm K x a s)"
  proof (cases "begin_record sha256 x 0 False a (q_FileName ?q) (q_FinalPath ?q) (q_MediaType ?q) (q_ExpectedSize ?q) s")
    case (Inl s1)
    with 0 b show ?thesis by (simp add: run_attempt_def)
  next
    case bg: (Inr s1)
    have 1: "idle (x_others x 0 s1)" using 0 b others bg by simp
    note r = same [OF resolve_holds [of "x_others x 0 s1" x a]]
    show ?thesis
    proof (cases "resolve_stage x a (x_others x 0 s1)")
      case (Inl s2)
      with 1 r bg show ?thesis by (simp add: run_attempt_def)
    next
      case rs: (Inr y)
      obtain m s2 where y: "y = (m, s2)" by fastforce
      obtain p s3 where pl: "plan_stage fnm x a m s2 = (p, s3)" by fastforce
      have "same_holds s2 s3" using pl by (auto simp: plan_stage_def Let_def same_holds_def)
      then have 3: "idle s3" using 1 r rs y same by simp
      note c = same [OF check_holds [of s3 sha256 x a p]]
      show ?thesis
      proof (cases "check_existing sha256 x a p s3")
        case (Inl s4)
        with 3 c bg rs y pl show ?thesis by (simp add: run_attempt_def)
      next
        case ck: (Inr s4)
        then have 4: "idle s4" using 3 c by simp
        obtain v adm where v: "Reserve (x_statfs x) (q_ID ?q) (pn_size p) (oc_adm s4) = (v, adm)" by fastforce
        show ?thesis
        proof (cases v)
          case (Inl e)
          then have "run_attempt sha256 fnm K x a s = set_reg (\<lambda>r. snd (Requeue (at_task a) r)) (s4\<lparr>oc_adm := adm\<rparr>)"
            using bg rs y pl ck v by (simp add: run_attempt_def)
          with reserve_fails [OF v [unfolded Inl]] 4 show ?thesis by (simp add: idle_def reserved_def)
        next
          case (Inr rel)
          define s5 where "s5 = with_space sha256 K x a p (x_others x 1 (s4\<lparr>oc_adm := adm\<rparr>))"
          have "free_of ?k (adm = None) (x_others x 1 (s4\<lparr>oc_adm := adm\<rparr>))"
            using free_others [OF h] 4 by (simp add: free_of_def idle_def)
          from space_free [OF h this] have f: "free_of ?k (adm = None) s5" by (simp add: s5_def)
          have "run_attempt sha256 fnm K x a s = s5\<lparr>oc_adm := snd (release rel (oc_adm s5))\<rparr>"
            using bg rs y pl ck v Inr by (simp add: run_attempt_def s5_def Let_def)
          with f release_reserved [OF v [unfolded Inr], of "oc_adm s5"] show ?thesis
            by (simp add: idle_def reserved_def free_of_def)
        qed
      qed
    qed
  qed
  then show ?thesis by (simp add: idle_def)
qed

text \<open>C4. However an attempt ends, it gives back what it holds: its task is not in flight any more, its record has no publisher, and no space is
  reserved for its task.\<close>

theorem download_releases_resources:
  assumes "a = attempt_of t s" and "q_ID (at_req a) \<notin> oc_inFlight s" and "oc_publishers s (pub_key a) = None"
    and "reserved s (q_ID (at_req a)) = None" and "holds_nothing x (pub_key a) (q_ID (at_req a))"
    and "s' = downloadOne sha256 fnm K x t s"
  shows "q_ID (at_req a) \<notin> oc_inFlight s' \<and> oc_publishers s' (pub_key a) = None \<and> reserved s' (q_ID (at_req a)) = None"
proof -
  let ?s = "s\<lparr>oc_inFlight := insert (q_ID (at_req a)) (oc_inFlight s)\<rparr>"
  have "reserved ?s (q_ID (at_req a)) = None" using assms(4) by (simp add: reserved_def)
  with attempt_free [OF assms(5), of ?s sha256 fnm K] assms(2,3,6) show ?thesis
    by (simp add: downloadOne_def Let_def assms(1) [symmetric] reserved_def)
qed

section \<open>Instances\<close>

text \<open>A message whose file arrives in two writes, for a task that has been handed out.\<close>

definition ex_media :: ResolvedMedia where
  "ex_media = \<lparr>rm_HasFile = True, rm_Name = ''v'', rm_Size = 3, rm_DCID = 2, rm_Date = 5, rm_MediaType = ''video''\<rparr>"

definition ex_dl :: dl_env where
  "ex_dl = \<lparr>x_now = (\<lambda>i. 9), x_tick = (\<lambda>i. 9), x_io = (\<lambda>i. no_fault), x_text = (\<lambda>e. []), x_others = (\<lambda>i s. s), x_ctx = (\<lambda>i. False),
     x_resolve = (\<lambda>i. Inr ex_media), x_wait_done = (\<lambda>i. False), x_stat = (\<lambda>i. False), x_sha = (\<lambda>i. None), x_err_text = [],
     x_dir_size = 4096, x_statfs = ex_statfs, x_mkdir = None, x_open = None, x_prealloc = False,
     x_chunks = [(2, ''z'', None), (0, ''xy'', None)], x_par = ex_par, x_sync = None, x_close = None, x_rm = (\<lambda>i. False),
     x_commit = ex_env None\<rparr>"

definition ex_task_request :: TaskRequest where
  "ex_task_request = \<lparr>q_ID = ''c:7'', q_Peer = ''c'', q_MessageID = 7, q_FinalPath = ''v'', q_ExpectedSize = 3, q_Retry = False,
     q_TargetTitle = [], q_MediaType = [], q_FileName = [], q_Date = 0, q_MaxRetries = 0\<rparr>"

definition ex_task :: Task where
  "ex_task = \<lparr>tk_state = 0, tk_attemptGen = ''g''\<rparr>"

definition ex_orch :: orch where
  "ex_orch = NewOrchestrator (ex_db Pending) [''/w'' \<mapsto> NFile ''q''] ex_manager None
     ((NewRegistry 4 2)\<lparr>rg_heap := [new_state ex_task_request StateResolving 3 1 ''g'' 1 0]\<rparr>) ''/d''"

definition ex_plan :: plan where
  "ex_plan = \<lparr>pn_media = ex_media, pn_fileName = ''v'', pn_mediaType = ''video'', pn_rel = ''v'', pn_final = ''/d/v'', pn_part = ''/d/v.part''\<rparr>"

lemma ex_orch_simps [simp]:
  "oc_saveDir ex_orch = ''/d''" "oc_publishers ex_orch = Map.empty" "oc_adm ex_orch = None" "oc_inFlight ex_orch = {}"
  "o_fs ex_orch = [''/w'' \<mapsto> NFile ''q'']" "o_db ex_orch = ex_db Pending"
  "x_others ex_dl i = (\<lambda>s. s)" "attempt_of ex_task ex_orch = \<lparr>at_task = ex_task, at_req = ex_task_request, at_gen = ''g''\<rparr>"
  by (simp_all add: ex_orch_def NewOrchestrator_def ex_dl_def attempt_of_def ex_task_def Request_def AttemptGen_def cell_def new_state_def
      NewRegistry_def NewRegistryWithContext_def)

lemma ex_plan_simps [simp]:
  "pn_part ex_plan = ''/d/v.part''" "pn_final ex_plan = ''/d/v''" "pn_rel ex_plan = ''v''" "pn_media ex_plan = ex_media"
  by (simp_all add: ex_plan_def)

lemma ex_final: "file_path ''/d/v''" "Join ''/d'' (FromSlash ''v'') = ''/d/v''"
  "replace_char (CHR 0x5C) (CHR ''/'') ''v'' = ''v''"
  by (code_simp, code_simp, code_simp)

lemma ex_planned: "planned fnm ex_dl ex_task ex_orch ex_plan"
proof -
  have "plan_path fnm ex_dl (attempt_of ex_task ex_orch) ex_media s = ex_plan" if "oc_saveDir s = oc_saveDir ex_orch" for s
    using that by (simp add: plan_path_def Let_def ex_plan_def ex_final ex_task_request_def) (simp add: ex_media_def)
  then show ?thesis by (simp add: planned_def ex_dl_def numeral_3_eq_3)
qed

lemma ex_considerate: "considerate ex_dl q" "same_dir ex_dl" "holds_nothing ex_dl key tid" "lets_be ex_dl k"
  by (simp_all add: considerate_def spares_def spares_fs_def same_dir_def holds_nothing_def lets_be_def)
    (simp add: ex_dl_def ex_env_def)

theorem download_keeps_other_files_witness: "o_fs (downloadOne id id plain_kernel ex_dl ex_task ex_orch) ''/w'' = Some (NFile ''q'')"
  by (rule download_keeps_other_files [OF plain_kernel_ok ex_planned]) (simp_all add: ex_final ex_considerate)

theorem download_releases_resources_witness:
  "''c:7'' \<notin> oc_inFlight (downloadOne id id plain_kernel ex_dl ex_task ex_orch)"
  using download_releases_resources [OF refl, of ex_task ex_orch ex_dl]
  by (simp add: ex_considerate reserved_def ex_task_request_def)

end
