(* ===== verification/Orchestrator_Completion.thy ===== *)
theory Orchestrator_Completion
  imports Orchestrator_Safety
begin

text \<open>
  What an attempt of the orchestrator achieves: the bytes of the writes make up the content, an attempt in which nothing fails completes while the rest of
  the program goes on, a file that is already at the planned path is a conflict, and success is recorded only with a verified file.
\<close>

declare split_paired_All [simp del] split_paired_Ex [simp del]

section \<open>The bytes of the part\<close>

text \<open>A write that carries the bytes the content has at its place.\<close>

definition piece :: "string \<Rightarrow> chunk \<Rightarrow> bool" where
  "piece content w = (case w of (off, d, _) \<Rightarrow> 0 \<le> off \<and> nat off + length d \<le> length content \<and>
     take (length d) (drop (nat off) content) = d)"

text \<open>The writes bring every byte of the content, and none twice.\<close>

definition delivers :: "string \<Rightarrow> chunk list \<Rightarrow> bool" where
  "delivers content ws \<longleftrightarrow> list_all (piece content) ws \<and> sum_list (map (\<lambda>(off, d, e). length d) ws) = length content \<and>
     (\<forall>i<length content. \<exists>(off, d, e)\<in>set ws. nat off \<le> i \<and> i < nat off + length d)"

definition holds_byte :: "string \<Rightarrow> string \<Rightarrow> nat \<Rightarrow> bool" where
  "holds_byte content c i \<longleftrightarrow> i < length c \<and> c ! i = content ! i"

lemma length_write_bytes: "length (write_bytes off d c) = (if d = [] then length c else max (length c) (nat off + length d))"
  by (simp add: write_bytes_def Let_def min_def max_def)

lemma nth_write_bytes:
  shows "nat off \<le> i \<Longrightarrow> i < nat off + length d \<Longrightarrow> write_bytes off d c ! i = d ! (i - nat off)"
    and "i < length c \<Longrightarrow> \<not> (nat off \<le> i \<and> i < nat off + length d) \<Longrightarrow> write_bytes off d c ! i = c ! i"
proof -
  define n where "n = nat off"
  define h where "h = take n c @ replicate (n - length c) (CHR 0x00)"
  have h: "length h = n" and w: "write_bytes off d c = (if d = [] then c else h @ d @ drop (n + length d) c)"
    by (auto simp: h_def write_bytes_def n_def Let_def min_def)
  show "nat off \<le> i \<Longrightarrow> i < nat off + length d \<Longrightarrow> write_bytes off d c ! i = d ! (i - nat off)"
    unfolding w n_def [symmetric] using h by (auto simp: nth_append)
  show "write_bytes off d c ! i = c ! i" if i: "i < length c" "\<not> (nat off \<le> i \<and> i < nat off + length d)"
  proof (cases "i < n")
    case True
    then have "h ! i = c ! i" using i(1) by (simp add: h_def nth_append)
    with True h show ?thesis by (simp add: w nth_append)
  next
    case False
    then have l: "n + length d \<le> i" using i(2) by (simp add: n_def)
    then have "(h @ d @ drop (n + length d) c) ! i = drop (n + length d) c ! (i - (n + length d))"
      using nth_append_right [of "h @ d" i "drop (n + length d) c"] h by simp
    with l i(1) show ?thesis by (simp add: w)
  qed
qed

lemma piece_nth: "piece content (off, d, e) \<Longrightarrow> j < length d \<Longrightarrow> d ! j = content ! (nat off + j)"
  using nth_take [of j "length d" "drop (nat off) content"] by (simp add: piece_def)

lemma write_piece:
  assumes "piece content (off, d, e)" and "length c \<le> length content"
  shows "length (write_bytes off d c) \<le> length content"
    and "holds_byte content c i \<Longrightarrow> holds_byte content (write_bytes off d c) i"
    and "nat off \<le> i \<Longrightarrow> i < nat off + length d \<Longrightarrow> holds_byte content (write_bytes off d c) i"
proof -
  show "length (write_bytes off d c) \<le> length content"
    using assms by (simp add: length_write_bytes piece_def)
  show in_piece: "holds_byte content (write_bytes off d c) i" if i: "nat off \<le> i" "i < nat off + length d" for i
  proof -
    have l: "i < length (write_bytes off d c)" using i by (auto simp: length_write_bytes)
    show ?thesis
      using nth_write_bytes(1) [OF i] piece_nth [OF assms(1), of "i - nat off"] i l by (simp add: holds_byte_def)
  qed
  show "holds_byte content (write_bytes off d c) i" if h: "holds_byte content c i"
  proof (cases "nat off \<le> i \<and> i < nat off + length d")
    case False
    have l: "i < length (write_bytes off d c)" using h by (auto simp: length_write_bytes holds_byte_def)
    with False h nth_write_bytes(2) [of i c off d] show ?thesis by (simp add: holds_byte_def)
  qed (use in_piece in blast)
qed

lemma write_chunks_bytes:
  assumes "list_all (piece content) ws" and "length c \<le> length content"
  shows "length (write_chunks ws c) \<le> length content"
    and "holds_byte content c i \<or> (\<exists>(off, d, e)\<in>set ws. nat off \<le> i \<and> i < nat off + length d) \<Longrightarrow>
      holds_byte content (write_chunks ws c) i"
proof -
  have "length (write_chunks ws c) \<le> length content \<and>
    (holds_byte content c i \<or> (\<exists>(off, d, e)\<in>set ws. nat off \<le> i \<and> i < nat off + length d) \<longrightarrow>
      holds_byte content (write_chunks ws c) i)"
    using assms
  proof (induction ws arbitrary: c)
    case (Cons w ws)
    obtain off d e where w: "w = (off, d, e)" by (cases w)
    have p: "piece content (off, d, e)" and ps: "list_all (piece content) ws" using Cons.prems(1) w by simp_all
    note wp = write_piece [OF p Cons.prems(2)]
    from Cons.IH [OF ps wp(1)] show ?case using wp(2,3) [of i] by (auto simp: w)
  qed simp
  then show "length (write_chunks ws c) \<le> length content"
    and "holds_byte content c i \<or> (\<exists>(off, d, e)\<in>set ws. nat off \<le> i \<and> i < nat off + length d) \<Longrightarrow>
      holds_byte content (write_chunks ws c) i" by simp_all
qed

lemma write_chunks_delivers:
  assumes "delivers content ws" and "length c \<le> length content"
  shows "write_chunks ws c = content"
proof -
  have ps: "list_all (piece content) ws" using assms(1) by (simp add: delivers_def)
  have h: "holds_byte content (write_chunks ws c) i" if "i < length content" for i
    using write_chunks_bytes(2) [OF ps assms(2)] assms(1) that by (simp add: delivers_def)
  have "length content \<le> length (write_chunks ws c)"
    using h [of "length content - 1"] by (cases content) (auto simp: holds_byte_def)
  with write_chunks_bytes(1) [OF ps assms(2)] h show ?thesis by (intro nth_equalityI) (auto simp: holds_byte_def)
qed

abbreviation chunk_write :: "chunk \<Rightarrow> int64 \<times> int64 \<times> string option" where
  "chunk_write \<equiv> \<lambda>(off, d, e). (off, int (length d), e)"

lemma delivers_writes:
  assumes "delivers content ws"
  shows "list_all (write_in (int (length content))) (map chunk_write ws)"
    and "sum_list (map write_len (map chunk_write ws)) = int (length content)"
    and "{0..<int (length content)} \<subseteq> (\<Union>w\<in>set (map chunk_write ws). write_set w)"
proof -
  have ps: "list_all (piece content) ws" and sum: "sum_list (map (\<lambda>(off, d, e). length d) ws) = length content"
    using assms by (auto simp: delivers_def)
  have cov: "\<exists>off d e. (off, d, e) \<in> set ws \<and> nat off \<le> i \<and> i < nat off + length d" if "i < length content" for i
    using assms that unfolding delivers_def by blast
  show "list_all (write_in (int (length content))) (map chunk_write ws)"
    using ps by (fastforce simp: list_all_iff write_in_def piece_def split_beta)
  have "sum_list (map write_len (map chunk_write ws)) = int (sum_list (map (\<lambda>(off, d, e). length d) ws))"
    by (induction ws) (auto simp: write_len_def)
  then show "sum_list (map write_len (map chunk_write ws)) = int (length content)" using sum by simp
  show "{0..<int (length content)} \<subseteq> (\<Union>w\<in>set (map chunk_write ws). write_set w)"
  proof
    fix j assume j: "j \<in> {0..<int (length content)}"
    then have "nat j < length content" by (simp add: nat_less_iff)
    from cov [OF this] obtain off d e where m: "(off, d, e) \<in> set ws" "nat off \<le> nat j" "nat j < nat off + length d"
      by blast
    have "0 \<le> off" using ps m(1) by (auto simp: list_all_iff piece_def)
    then have "j \<in> write_set (chunk_write (off, d, e))" using m(2,3) j by (auto simp: write_set_def)
    with m(1) show "j \<in> (\<Union>w\<in>set (map chunk_write ws). write_set w)" by force
  qed
qed

section \<open>The task while the attempt runs\<close>

definition live :: "Task \<Rightarrow> Registry \<Rightarrow> bool" where
  "live t r \<longleftrightarrow> tk_state t < length (rg_heap r) \<and> \<not> IsTerminal t r \<and> \<not> ts_cancelled (cell r (tk_state t))"

lemma live_upd:
  assumes "live t r" and "\<And>s. ts_state (f s) = ts_state s \<or> \<not> isTerminal (ts_state (f s))" and "\<And>s. ts_attemptGen (f s) = ts_attemptGen s"
    and "\<And>s. ts_cancelled (f s) = ts_cancelled s"
  shows "live t (upd_cell (tk_state t) f r)"
  using assms(1,3,4) assms(2) [of "cell r (tk_state t)"] by (auto simp: live_def IsTerminal_def stale_def upd_cell_def cell_def)

lemma live_update:
  assumes "live t r" and "\<And>s. ts_state (f s) = ts_state s \<or> \<not> isTerminal (ts_state (f s))" and "\<And>s. ts_attemptGen (f s) = ts_attemptGen s"
    and "\<And>s. ts_cancelled (f s) = ts_cancelled s"
  shows "live t (fst (tk_update t f r))"
  using live_upd [OF assms] assms(1) by (simp add: tk_update_def)

lemma live_events:
  assumes "live t r"
  shows "live t (add_event now diff (tk_state t) r)"
  using assms by (simp add: add_event_def live_def IsTerminal_def stale_def cell_def upd_cell_def Let_def)

lemma live_steps:
  assumes "live t r"
  shows "live t (SetResolved t n z d r)" and "live t (SetFinalPath t p r)" and "live t (SetDownloading t r)"
    and "live t (snd (SetPublishing t r))" and "live t (RecordTransferTelemetry t w wi re rc pr ids r)"
    and "live t (RecordProgress t got now r)"
proof -
  show "live t (SetResolved t n z d r)" "live t (SetFinalPath t p r)" "live t (SetDownloading t r)"
    "live t (snd (SetPublishing t r))"
    using assms by (auto simp: SetResolved_def SetFinalPath_def SetDownloading_def SetPublishing_def split_beta isTerminal_def
        intro!: live_update)
  show "live t (RecordTransferTelemetry t w wi re rc pr ids r)"
    using assms by (auto simp: RecordTransferTelemetry_def intro!: live_upd)
  show "live t (RecordProgress t got now r)"
    using assms by (auto simp: RecordProgress_def Let_def intro!: live_events live_upd)
qed

lemma live_fold: "live t r \<Longrightarrow> live t (fold (\<lambda>(i, got, tot). RecordProgress t got (tick i)) rs r)"
  by (induction rs arbitrary: r) (auto simp: live_steps)

lemma live_succeeds:
  assumes "live t r"
  shows "ts_state (cell (SucceedResult t pr now r) (tk_state t)) = StateSuccess"
proof -
  define f where "f = (\<lambda>s::taskState. s\<lparr>
          ts_wireBytes := (if pr_WireBytes pr > 0 then pr_WireBytes pr else ts_wireBytes s),
          ts_replayBytes := (if pr_ReplayBytes pr > 0 then pr_ReplayBytes pr else ts_replayBytes s),
          ts_requestCount := (if pr_RequestCount pr > 0 then pr_RequestCount pr else ts_requestCount s),
          ts_physicalRetries := (if pr_PhysicalRetries pr > 0 then pr_PhysicalRetries pr else ts_physicalRetries s),
          ts_physicalAttemptID := (if pr_PhysicalAttemptID pr \<noteq> [] then pr_PhysicalAttemptID pr
                                   else ts_physicalAttemptID s)\<rparr>)"
  have l: "live t (upd_cell (tk_state t) f r)" by (rule live_upd [OF assms]) (simp_all add: f_def)
  then show ?thesis
    unfolding SucceedResult_def f_def [symmetric]
    by (auto simp: finishWithGen_def live_def IsTerminal_def stale_def finish_cell_frame)
qed

section \<open>The attempt, when nothing fails\<close>

text \<open>Nothing the attempt calls fails, and the context stays open.\<close>

definition calm_env :: "dl_env \<Rightarrow> bool" where
  "calm_env x \<longleftrightarrow> (\<forall>i. x_io x i = no_fault \<and> \<not> x_ctx x i \<and> \<not> x_stat x i \<and> x_sha x i = None) \<and> x_mkdir x = None \<and> x_open x = None \<and>
     x_sync x = None \<and> x_close x = None \<and> pe_err (x_par x) = None \<and> \<not> v_lstat (x_commit x)"

definition dirs_clear :: "plan \<Rightarrow> fs \<Rightarrow> bool" where
  "dirs_clear p f \<longleftrightarrow> (\<forall>q\<in>set (dir_chain (Dir (pn_final p))). f q = None \<or> f q = Some NDir)"

definition admits :: "dl_env \<Rightarrow> attempt \<Rightarrow> plan \<Rightarrow> orch \<Rightarrow> bool" where
  "admits x a p s \<longleftrightarrow> (\<exists>rel adm. Reserve (x_statfs x) (q_ID (at_req a)) (pn_size p) (oc_adm s) = (Inr rel, adm))"

text \<open>The rest of the program goes on, but leaves alone what the attempt works on: its record, its task, its two files, the room
  for them and the download directory.\<close>

definition undisturbed :: "dl_env \<Rightarrow> attempt \<Rightarrow> plan \<Rightarrow> bool" where
  "undisturbed x a p \<longleftrightarrow> same_dir x \<and>
     (\<forall>i s. (db_ok (o_db s) \<longrightarrow> db_ok (o_db (x_others x i s))) \<and> drow (o_db (x_others x i s)) (at_key a) = drow (o_db s) (at_key a) \<and>
        (live (at_task a) (oc_reg s) \<longrightarrow> live (at_task a) (oc_reg (x_others x i s))) \<and>
        o_fs (x_others x i s) (pn_part p) = o_fs s (pn_part p) \<and> o_fs (x_others x i s) (pn_final p) = o_fs s (pn_final p) \<and>
        (dirs_clear p (o_fs s) \<longrightarrow> dirs_clear p (o_fs (x_others x i s))) \<and>
        (admits x a p s \<longrightarrow> admits x a p (x_others x i s))) \<and>
     (\<forall>f. v_race (x_commit x) f (pn_part p) = f (pn_part p) \<and> v_race (x_commit x) f (pn_final p) = f (pn_final p))"

text \<open>The record is the one of the attempt, and the task is live.\<close>

definition held :: "attempt \<Rightarrow> rec_status \<Rightarrow> orch \<Rightarrow> bool" where
  "held a st s \<longleftrightarrow> db_ok (o_db s) \<and> live (at_task a) (oc_reg s) \<and>
     (\<exists>r. drow (o_db s) (at_key a) = Some r \<and> d_status r = st \<and> d_attempt_generation r = at_gen a)"

text \<open>The way to the final file is clear.\<close>

definition clear_way :: "plan \<Rightarrow> fs \<Rightarrow> bool" where
  "clear_way p f \<longleftrightarrow> f (pn_final p) = None \<and> f (pn_part p) \<noteq> Some NDir \<and> dirs_clear p f"

lemma others_held:
  assumes "undisturbed x a p"
  shows "held a st s \<Longrightarrow> held a st (x_others x i s)" and "clear_way p (o_fs s) \<Longrightarrow> clear_way p (o_fs (x_others x i s))"
    and "o_fs (x_others x i s) (pn_part p) = o_fs s (pn_part p)" and "o_fs (x_others x i s) (pn_final p) = o_fs s (pn_final p)"
    and "oc_saveDir (x_others x i s) = oc_saveDir s" and "drow (o_db (x_others x i s)) (at_key a) = drow (o_db s) (at_key a)"
    and "admits x a p s \<Longrightarrow> admits x a p (x_others x i s)"
proof -
  have u: "db_ok (o_db s) \<Longrightarrow> db_ok (o_db (x_others x i s))" "drow (o_db (x_others x i s)) (at_key a) = drow (o_db s) (at_key a)"
    "live (at_task a) (oc_reg s) \<Longrightarrow> live (at_task a) (oc_reg (x_others x i s))"
    "o_fs (x_others x i s) (pn_part p) = o_fs s (pn_part p)" "o_fs (x_others x i s) (pn_final p) = o_fs s (pn_final p)"
    "dirs_clear p (o_fs s) \<Longrightarrow> dirs_clear p (o_fs (x_others x i s))" "admits x a p s \<Longrightarrow> admits x a p (x_others x i s)"
    "oc_saveDir (x_others x i s) = oc_saveDir s" for s i
    using assms unfolding undisturbed_def same_dir_def by blast+
  show "held a st s \<Longrightarrow> held a st (x_others x i s)" and "clear_way p (o_fs s) \<Longrightarrow> clear_way p (o_fs (x_others x i s))"
    and "o_fs (x_others x i s) (pn_part p) = o_fs s (pn_part p)" and "o_fs (x_others x i s) (pn_final p) = o_fs s (pn_final p)"
    and "oc_saveDir (x_others x i s) = oc_saveDir s" and "drow (o_db (x_others x i s)) (at_key a) = drow (o_db s) (at_key a)"
    and "admits x a p s \<Longrightarrow> admits x a p (x_others x i s)"
    using u by (simp_all add: held_def clear_way_def)
qed

lemma held_over: "held a st s \<Longrightarrow> calm_env x \<Longrightarrow> \<not> task_over x i a s"
  by (simp add: held_def live_def calm_env_def task_over_def ctx_done_def)

lemma held_reg: "held a st s \<Longrightarrow> (\<And>r. live (at_task a) r \<Longrightarrow> live (at_task a) (g r)) \<Longrightarrow> held a st (set_reg g s)"
  by (simp add: held_def setters)

text \<open>A record that can be begun.\<close>

definition startable :: "attempt \<Rightarrow> orch \<Rightarrow> bool" where
  "startable a s \<longleftrightarrow> (case drow (o_db s) (at_key a) of None \<Rightarrow> True
     | Some r \<Rightarrow> d_status r = Pending \<or> d_status r = Failed \<or> d_status r = Downloading \<and> d_attempt_generation r = at_gen a)"

lemma begin_startable:
  assumes "db_ok db" and "case drow db k of None \<Rightarrow> True
     | Some r \<Rightarrow> d_status r = Pending \<or> d_status r = Failed \<or> d_status r = Downloading \<and> d_attempt_generation r = g"
  shows "\<exists>db'. BeginDownload no_fault now k g f p m n db = (None, db') \<and> db_ok db' \<and>
    (\<exists>r. drow db' k = Some r \<and> d_status r = Downloading \<and> d_attempt_generation r = g)"
  using assms by (cases "drow db k") (auto simp: BeginDownload_def split_def Let_def row_defs)

lemma begin_held:
  assumes "calm_env x" and "db_ok (o_db s)" and "live (at_task a) (oc_reg s)" and "startable a s"
  shows "\<exists>s'. begin_record sha256 x i b a fn sp mt sz s = Inr s' \<and> held a Downloading s' \<and> o_fs s' = o_fs s \<and>
    oc_adm s' = oc_adm s \<and> oc_saveDir s' = oc_saveDir s"
proof -
  obtain db' where b: "BeginDownload no_fault (Unix (x_now x i)) (at_key a) (at_gen a) fn sp mt sz (o_db s) = (None, db')"
    "db_ok db'" "\<exists>r. drow db' (at_key a) = Some r \<and> d_status r = Downloading \<and> d_attempt_generation r = at_gen a"
    using begin_startable [OF assms(2) assms(4) [unfolded startable_def]] by blast
  have "x_io x i = no_fault" using assms(1) by (simp add: calm_env_def)
  with b assms(3) show ?thesis by (simp add: begin_record_def db_call_def setters held_def)
qed

definition finished :: "(string \<Rightarrow> string) \<Rightarrow> attempt \<Rightarrow> plan \<Rightarrow> string \<Rightarrow> orch \<Rightarrow> bool" where
  "finished sha256 a p content s \<longleftrightarrow> o_fs s (pn_final p) = Some (NFile content) \<and> o_fs s (pn_part p) = None \<and>
     (\<exists>r. drow (o_db s) (at_key a) = Some r \<and> d_status r = Success \<and>
        row_proof r = (pn_rel p, int (length content), sha256 content)) \<and>
     ts_state (cell (oc_reg s) (tk_state (at_task a))) = StateSuccess \<and>
     (IsEnabled (oc_archive s) \<longrightarrow> arow (o_db s) (at_key a) \<noteq> None)"

lemma Wake_enabled [simp]: "IsEnabled (Wake w) = IsEnabled w"
  by (auto simp: Wake_def IsEnabled_def split: option.split)

lemma complete_finishes:
  assumes "x_io x 13 = no_fault" and "db_ok (o_db s)" and "live (at_task a) (oc_reg s)"
    and "drow (o_db s) (at_key a) = Some r" and "d_status r = Committing" and "d_attempt_generation r = at_gen a"
    and "row_proof r = (pn_rel p, pn_size p, sha256 content)" and "pn_size p = int (length content)"
    and "o_fs s (pn_final p) = Some (NFile content)" and "o_fs s (pn_part p) = None"
  shows "finished sha256 a p content (complete x a p res sha (sha256 content) s)"
proof -
  define q where "q = IsEnabled (oc_archive s)"
  obtain e db' where c: "CompleteDownloadAndQueueArchive no_fault (Unix (x_now x 13)) (at_key a) (at_gen a) (pn_rel p) (pn_size p)
      (sha256 content) q (o_db s) = (e, db')" by fastforce
  have e: "e = None \<or> e = Some ErrArchiveConflict"
    using complete_committing [OF assms(2,4-7), of "Unix (x_now x 13)" q] c by simp
  have "completed q (at_key a) (pn_rel p) (pn_size p) (sha256 content) (o_db s) (e, db')"
    using complete_completed [OF assms(2)] c by metis
  with e have row: "\<exists>r. drow db' (at_key a) = Some r \<and> d_status r = Success \<and> row_proof r = (pn_rel p, pn_size p, sha256 content)"
    and job: "q \<Longrightarrow> arow db' (at_key a) \<noteq> None"
    by (auto simp: completed_def)
  have "complete x a p res sha (sha256 content) s = unregister a (set_reg (SucceedResult (at_task a) (publish_result a p res sha) (x_now x 14))
      ((set_db db' s)\<lparr>oc_archive := Wake (oc_archive s)\<rparr>))"
    using e by (auto simp: complete_def db_call_def assms(1) c [unfolded q_def] setters)
  with row job assms(8-10) live_succeeds [OF assms(3)] show ?thesis
    by (simp add: finished_def unregister_def setters q_def)
qed

lemma commit_plain_race:
  assumes "file_path part" and "file_path final" and "Dir part = Dir final" and "f final = None" and "f part \<noteq> None"
    and "race f final = f final" and "race f part = f part"
  shows "CommitSiblingPart plain_kernel False race part final f = (None, moved part final (race f))"
  using assms Join_Dir_Base [OF assms(1)] Join_Dir_Base [OF assms(2)]
  by (simp add: CommitSiblingPart_def Let_def commitFile_def plain_kernel_def syncDir_def)

lemma publish_finishes:
  assumes calm: "calm_env x" and u: "undisturbed x a p" and p: "file_path (pn_final p)" "pn_part p = pn_final p @ ''.part''"
    and h: "held a Downloading s" and sz: "pn_size p = int (length content)"
    and fs: "o_fs s (pn_final p) = None" "o_fs s (pn_part p) = Some (NFile content)"
  shows "\<exists>s'. publish sha256 plain_kernel x a p res (sha256 content) s = (True, s') \<and> finished sha256 a p content s'"
proof -
  let ?f = "PrepareDownloadCommit (x_io x 11) (Unix (x_now x 11)) (at_key a) (at_gen a) (pn_rel p) (pn_size p) (sha256 content)"
  have io: "x_io x 11 = no_fault" "x_io x 13 = no_fault" and ls: "\<not> v_lstat (x_commit x)" using calm by (simp_all add: calm_env_def)
  obtain r where r: "db_ok (o_db s)" "live (at_task a) (oc_reg s)" "drow (o_db s) (at_key a) = Some r" "d_status r = Downloading"
    "d_attempt_generation r = at_gen a" using h by (auto simp: held_def)
  obtain db1 where c: "?f (o_db s) = (None, db1)" and db1: "db_ok db1"
    and row: "\<exists>r. drow db1 (at_key a) = Some r \<and> d_status r = Committing \<and> d_attempt_generation r = at_gen a \<and>
      row_proof r = (pn_rel p, pn_size p, sha256 content)"
    using prepare_ok [OF r(1,3-5), of "Unix (x_now x 11)" "pn_rel p" "pn_size p" "sha256 content"] io
    by (metis prod.collapse)
  define s1 where "s1 = set_db db1 (register a s)"
  define s2 where "s2 = x_others x 6 (set_reg (\<lambda>r. snd (SetPublishing (at_task a) r)) (x_others x 5 s1))"
  have s1: "held a Committing s1" "o_fs s1 = o_fs s" using r(2) db1 row by (auto simp: s1_def held_def setters register_def)
  note oth = others_held [OF u]
  have s2: "held a Committing s2" "o_fs s2 (pn_final p) = None" "o_fs s2 (pn_part p) = Some (NFile content)"
    using oth(1) [OF held_reg [OF oth(1) [OF s1(1)], of "\<lambda>r. snd (SetPublishing (at_task a) r)"]] live_steps(4) oth(3,4) s1(2) fs
    by (auto simp: s2_def setters)
  have drow2: "drow (o_db s2) (at_key a) = drow db1 (at_key a)" using oth(6) by (simp add: s2_def setters s1_def register_def)
  have race: "v_race (x_commit x) f (pn_final p) = f (pn_final p)" "v_race (x_commit x) f (pn_part p) = f (pn_part p)" for f
    using u by (simp_all add: undisturbed_def)
  define f3 where "f3 = moved (pn_part p) (pn_final p) (v_race (x_commit x) (o_fs s2))"
  have cm: "CommitSiblingPart plain_kernel (v_lstat (x_commit x)) (v_race (x_commit x)) (pn_part p) (pn_final p) (o_fs s2) = (None, f3)"
    unfolding f3_def using commit_plain_race [of "pn_part p" "pn_final p" "o_fs s2" "v_race (x_commit x)"] race s2(2,3) ls
      file_path_append(1,2) [OF p(1), of "''.part''"] p by simp
  have f3: "f3 (pn_final p) = Some (NFile content)" "f3 (pn_part p) = None" using race s2(3) p(2) by (simp_all add: f3_def moved_def)
  define s3 where "s3 = set_fs (\<lambda>_. f3) s2"
  have d: "commit_part sha256 plain_kernel (x_commit x) p (sha256 content) s2 = (DecisionSuccess (sha256 content), s3)"
    by (simp add: commit_part_def cm EvaluateCommitSiblingPart_def s3_def setters)
  have s3: "held a Committing s3" using s2(1) by (simp add: s3_def held_def setters)
  define s4 where "s4 = x_others x 7 s3"
  have s4: "db_ok (o_db s4)" "live (at_task a) (oc_reg s4)" "drow (o_db s4) (at_key a) = drow db1 (at_key a)"
      "o_fs s4 (pn_final p) = Some (NFile content)" "o_fs s4 (pn_part p) = None"
    using oth(1) [OF s3, of 7] oth(3,4,6) [of 7 s3] f3 drow2 by (auto simp: held_def s4_def s3_def setters)
  have fin: "finished sha256 a p content (complete x a p res (sha256 content) (sha256 content) s4)"
    using complete_finishes [OF io(2) s4(1,2) _ _ _ _ sz s4(4,5)] row s4(3) by auto
  have dbc: "db_call ?f (register a s) = (None, s1)" using c by (simp add: db_call_def s1_def register_def)
  have "publish sha256 plain_kernel x a p res (sha256 content) s = (True, complete x a p res (sha256 content) (sha256 content) s4)"
    unfolding publish_def dbc by (simp add: s2_def [symmetric] d after_commit_def s4_def)
  with fin show ?thesis by blast
qed

lemma transfer_delivers:
  assumes calm: "calm_env x" and d: "delivers content (x_chunks x)" and sz: "pn_size p = int (length content)" "0 < pn_size p" "fits64 (pn_size p)"
    and h: "held a st s" and part: "o_fs s (pn_part p) = Some (NFile c)" "length c \<le> length content"
  shows "\<exists>res s'. transfer x a p s = ((res, None), s') \<and> dr_Written res = pn_size p \<and> held a st s' \<and>
    o_fs s' = (o_fs s)(pn_part p \<mapsto> NFile content)"
proof -
  define ws where "ws = map chunk_write (x_chunks x)"
  define v where "v = (x_par x)\<lparr>pe_writes := ws\<rparr>"
  define tc where "tc = transfer_context a p"
  obtain res err writer tc' m where r: "DownloadFileWithResult v (pn_size p) True (Some tc) (oc_mgr s) = ((res, err), writer, tc', m)"
    by (metis prod.collapse)
  have w: "writer = WriteAll (NewCountingWriterAt (pn_size p) True) ws" and got: "dr_Written res = downloaded writer"
    and e: "err = classify (pe_err v) (pe_ctx v) (pn_size p) writer"
    using r by (auto simp: DownloadFileWithResult_def Let_def v_def)
  note dw = delivers_writes [OF d, folded ws_def]
  have ok: "writer_IsComplete writer (pn_size p)" and n: "downloaded writer = pn_size p"
    using writer_result [OF sz(2,3) _ _ w] dw sz by simp_all
  have err: "err = None" using calm ok by (simp add: e v_def calm_env_def classify_def)
  define reg where "reg = RecordTransferTelemetry (at_task a) (dr_Written res) (dr_WireBytes res) (dr_ReplayBytes res)
    (dr_RequestCount res) (dr_PhysicalRetries res) [attempt_id a res] \<circ>
      fold (\<lambda>(i, got, tot). RecordProgress (at_task a) got (x_tick x i)) (enumerate 0 (reports writer))"
  have content: "write_chunks (x_chunks x) (part_bytes p s) = content"
    using write_chunks_delivers [OF d part(2)] part(1) by (simp add: part_bytes_def)
  have t: "transfer x a p s = ((res, None), set_reg reg (s\<lparr>oc_mgr := m, oc_world := (oc_world s)\<lparr>w_fs := (o_fs s)(pn_part p \<mapsto> NFile content),
      w_meter := map_option (metered_writes (x_chunks x)) (w_meter (oc_world s))\<rparr>\<rparr>))"
    using r [unfolded v_def ws_def tc_def] err by (simp add: transfer_def Let_def content setters reg_def)
  have "held a st (set_reg reg (s\<lparr>oc_mgr := m, oc_world := (oc_world s)\<lparr>w_fs := (o_fs s)(pn_part p \<mapsto> NFile content),
      w_meter := map_option (metered_writes (x_chunks x)) (w_meter (oc_world s))\<rparr>\<rparr>))"
    using h live_steps(5) [OF live_fold [of "at_task a" "oc_reg s" "x_tick x"]] by (simp add: held_def setters reg_def)
  with t got n show ?thesis by (simp add: setters)
qed

lemma verify_passes:
  assumes "calm_env x" and "pn_size p = int (length content)" and "dr_Written res = pn_size p"
    and "o_fs s (pn_part p) = Some (NFile content)" and "held a st s"
  shows "\<exists>s'. verify_part sha256 x a p res s = Inr (sha256 content, s') \<and> held a st s' \<and> o_fs s' = o_fs s"
  using assms by (simp add: verify_part_def calm_env_def Stat_def node_size_def ComputeSSDFileSHA256_def file_digest_def Let_def
      held_def setters)

lemma part_finishes:
  assumes calm: "calm_env x" and u: "undisturbed x a p" and p: "file_path (pn_final p)" "pn_part p = pn_final p @ ''.part''"
    and h: "held a Downloading s" and d: "delivers content (x_chunks x)"
    and sz: "pn_size p = int (length content)" "0 < pn_size p" "fits64 (pn_size p)"
    and fs: "o_fs s (pn_final p) = None" "o_fs s (pn_part p) = Some (NFile c)" "length c \<le> length content"
  shows "\<exists>s'. with_part sha256 plain_kernel x a p s = (True, s') \<and> finished sha256 a p content s'"
proof -
  note oth = others_held [OF u]
  obtain res s1 where t: "transfer x a p s = ((res, None), s1)" "dr_Written res = pn_size p" "held a Downloading s1"
    and f1: "o_fs s1 = (o_fs s)(pn_part p \<mapsto> NFile content)"
    using transfer_delivers [OF calm d sz h fs(2,3)] by blast
  have s2: "held a Downloading (x_others x 3 s1)" "o_fs (x_others x 3 s1) (pn_part p) = Some (NFile content)"
    "o_fs (x_others x 3 s1) (pn_final p) = None"
    using oth(1) [OF t(3)] oth(3,4) [of 3 s1] f1 fs(1) p(2) by simp_all
  obtain s3 where v: "verify_part sha256 x a p res (x_others x 3 s1) = Inr (sha256 content, s3)" "held a Downloading s3"
    "o_fs s3 = o_fs (x_others x 3 s1)"
    using verify_passes [OF calm sz(1) t(2) s2(2,1)] by blast
  have s4: "held a Downloading (x_others x 4 s3)" "o_fs (x_others x 4 s3) (pn_part p) = Some (NFile content)"
    "o_fs (x_others x 4 s3) (pn_final p) = None"
    using oth(1) [OF v(2)] oth(3,4) [of 4 s3] v(3) s2(2,3) by simp_all
  have c: "check_cancelled x a p (x_others x 4 s3) = Inr (x_others x 4 s3)"
    using held_over [OF s4(1) calm] by (simp add: check_cancelled_def)
  show ?thesis
    using publish_finishes [OF calm u p s4(1) sz(1) s4(3,2)] by (simp add: with_part_def t(1) v(1) c)
qed

lemma mkdir_clear:
  assumes "dirs_clear p f" and "x_mkdir x = None"
  shows "MkdirAll (x_mkdir x) (Dir (pn_final p)) f = (None, make_dirs (dir_chain (Dir (pn_final p))) f)"
proof -
  have "dropWhile (\<lambda>p. f p = None \<or> f p = Some NDir) (dir_chain (Dir (pn_final p))) = []"
    using assms(1) by (simp add: dropWhile_eq_Nil_conv dirs_clear_def)
  then show ?thesis using assms(2) by (simp only: MkdirAll_def option.case list.case)
qed

text \<open>A file and its part are not among the directories above them.\<close>

lemma final_not_dir:
  assumes "file_path dst" and "q = dst \<or> q = dst @ ''.part''"
  shows "q \<notin> set (dir_chain (Dir dst))"
proof
  assume "q \<in> set (dir_chain (Dir dst))"
  then have "length (elems q) \<le> length (butlast (elems dst))"
    using chain_length [of q "Dir dst"] elems_Dir [OF assms(1)] by simp
  moreover have "length (elems q) = length (elems dst)" "elems dst \<noteq> []"
    using assms file_path_append(3) [OF assms(1), of "''.part''"] by (auto simp: file_path_def)
  ultimately show False by (cases "elems dst" rule: rev_cases) simp_all
qed

lemma preallocated_length: "length (Preallocate fails n []) \<le> nat n"
  by (simp add: Preallocate_def preallocate_def)

lemma space_finishes:
  assumes calm: "calm_env x" and u: "undisturbed x a p" and p: "file_path (pn_final p)" "pn_part p = pn_final p @ ''.part''"
    and h: "held a Downloading s" and d: "delivers content (x_chunks x)"
    and sz: "pn_size p = int (length content)" "0 < pn_size p" "fits64 (pn_size p)" and way: "clear_way p (o_fs s)"
  shows "finished sha256 a p content (with_space sha256 plain_kernel x a p s)"
proof -
  note oth = others_held [OF u]
  have st: "startable a s" "db_ok (o_db s)" "live (at_task a) (oc_reg s)" using h by (auto simp: held_def startable_def)
  obtain s1 where b: "begin_record sha256 x 6 True a (pn_fileName p) (pn_rel p) (pn_mediaType p) (pn_size p) s = Inr s1"
    "held a Downloading s1" "o_fs s1 = o_fs s"
    using begin_held [OF calm st(2,3,1)] by blast
  define s2 where "s2 = set_reg (SetDownloading (at_task a)) s1"
  have s2: "held a Downloading s2" "o_fs s2 = o_fs s" using held_reg [OF b(2) live_steps(3)] b(3) by (simp_all add: s2_def setters)
  define f where "f = make_dirs (dir_chain (Dir (pn_final p))) (o_fs s2)"
  have mk: "MkdirAll (x_mkdir x) (Dir (pn_final p)) (o_fs s2) = (None, f)"
    using mkdir_clear [of p "o_fs s2" x] way calm s2(2) by (simp add: f_def clear_way_def calm_env_def)
  define s3 where "s3 = x_others x 2 (set_fs (\<lambda>_. f) s2)"
  have f: "f (pn_final p) = None" "f (pn_part p) \<noteq> Some NDir"
    using final_not_dir [OF p(1)] way s2(2) p(2) by (simp_all add: f_def make_dirs_def clear_way_def)
  have s3: "held a Downloading s3" "o_fs s3 (pn_final p) = None" "o_fs s3 (pn_part p) \<noteq> Some NDir"
  proof -
    have "held a Downloading (set_fs (\<lambda>_. f) s2)" using s2(1) by (simp add: held_def setters)
    from oth(1) [OF this] show "held a Downloading s3" by (simp add: s3_def)
    show "o_fs s3 (pn_final p) = None" "o_fs s3 (pn_part p) \<noteq> Some NDir"
      using f oth(3,4) [of 2 "set_fs (\<lambda>_. f) s2"] by (simp_all add: s3_def setters)
  qed
  define c where "c = Preallocate (x_prealloc x) (pn_size p) []"
  define s4 where "s4 = set_fs (\<lambda>g. g(pn_part p \<mapsto> NFile c)) s3"
  have op: "open_part x p s3 = (None, s4)" using s3(3) calm by (simp add: open_part_def s4_def c_def calm_env_def)
  have s4: "held a Downloading s4" "o_fs s4 (pn_final p) = None" "o_fs s4 (pn_part p) = Some (NFile c)" "length c \<le> length content"
    using s3 p(2) preallocated_length [of "x_prealloc x" "pn_size p"] sz(1) by (simp_all add: s4_def held_def setters c_def)
  obtain s5 where "with_part sha256 plain_kernel x a p s4 = (True, s5)" "finished sha256 a p content s5"
    using part_finishes [OF calm u p s4(1) d sz s4(2-4)] by blast
  with held_over [OF s3(1) calm, of 0] show ?thesis
    unfolding with_space_def b(1) by (simp add: s2_def [symmetric] mk s3_def [symmetric] op)
qed

lemma attempt_finishes:
  assumes calm: "calm_env x" and u: "undisturbed x a p" and p: "file_path (pn_final p)" "pn_part p = pn_final p @ ''.part''"
    and plan: "\<And>s'. oc_saveDir s' = oc_saveDir s \<Longrightarrow> plan_path fnm x a m s' = p"
    and m: "x_resolve x 0 = Inr m" "rm_HasFile m" "pn_media p = m"
    and d: "delivers content (x_chunks x)" and sz: "pn_size p = int (length content)" "0 < pn_size p" "fits64 (pn_size p)"
    and way: "clear_way p (o_fs s)" "admits x a p s" and st: "startable a s" "db_ok (o_db s)" "live (at_task a) (oc_reg s)"
  shows "finished sha256 a p content (run_attempt sha256 fnm plain_kernel x a s)"
proof -
  note oth = others_held [OF u]
  let ?q = "at_req a"
  obtain s1 where b: "begin_record sha256 x 0 False a (q_FileName ?q) (q_FinalPath ?q) (q_MediaType ?q) (q_ExpectedSize ?q) s = Inr s1"
    "held a Downloading s1" "o_fs s1 = o_fs s" "oc_adm s1 = oc_adm s" "oc_saveDir s1 = oc_saveDir s"
    using begin_held [OF calm st(2,3,1)] by blast
  have w1: "clear_way p (o_fs s1)" "admits x a p s1" using way b(3,4) by (simp_all add: admits_def)
  define s2 where "s2 = set_reg (SetResolved (at_task a) (rm_Name m) (rm_Size m) (rm_DCID m)) (x_others x 0 s1)"
  have rs: "resolve_stage x a (x_others x 0 s1) = Inr (m, s2)"
    using m sz(2) by (simp add: resolve_stage_def s2_def numeral_3_eq_3)
  have s2: "held a Downloading s2" "clear_way p (o_fs s2)" "admits x a p s2" "oc_saveDir s2 = oc_saveDir s"
    using held_reg [OF oth(1) [OF b(2)] live_steps(1)] oth(2) [OF w1(1)] oth(7) [OF w1(2)] oth(5) b(5)
    by (simp_all add: s2_def setters admits_def)
  define s3 where "s3 = set_reg (SetFinalPath (at_task a) (pn_rel p)) s2"
  have pl: "plan_stage fnm x a m s2 = (p, s3)" by (simp add: plan_stage_def plan [OF s2(4)] s3_def)
  have s3: "held a Downloading s3" "clear_way p (o_fs s3)" "admits x a p s3"
    using held_reg [OF s2(1) live_steps(2)] s2(2,3) by (simp_all add: s3_def setters admits_def)
  have ck: "check_existing sha256 x a p s3 = Inr s3"
    using s3(2) calm by (simp add: check_existing_def clear_way_def Stat_def calm_env_def)
  obtain rel adm where rv: "Reserve (x_statfs x) (q_ID ?q) (pn_size p) (oc_adm s3) = (Inr rel, adm)"
    using s3(3) by (auto simp: admits_def)
  define s4 where "s4 = x_others x 1 (s3\<lparr>oc_adm := adm\<rparr>)"
  have "held a Downloading (s3\<lparr>oc_adm := adm\<rparr>)" "clear_way p (o_fs (s3\<lparr>oc_adm := adm\<rparr>))"
    using s3(1,2) by (simp_all add: held_def)
  then have s4: "held a Downloading s4" "clear_way p (o_fs s4)" using oth(1,2) by (simp_all add: s4_def)
  have "finished sha256 a p content (with_space sha256 plain_kernel x a p s4)"
    by (rule space_finishes [OF calm u p s4(1) d sz s4(2)])
  then show ?thesis
    unfolding run_attempt_def by (simp add: b(1) rs pl ck rv s4_def [symmetric] Let_def finished_def del: One_nat_def)
qed


lemma ex_live [simp]: "live ex_task (oc_reg ex_orch)"
  by (simp add: ex_orch_def NewOrchestrator_def ex_task_def cell_def new_state_def live_def IsTerminal_def stale_def isTerminal_def
      NewRegistry_def NewRegistryWithContext_def)

lemma ex_dirs: "dir_chain (Dir ''/d/v'') = [''/d'']" by code_simp

lemma ex_calm: "calm_env ex_dl" "undisturbed ex_dl a ex_plan" "delivers ''xyz'' (x_chunks ex_dl)"
proof -
  show "calm_env ex_dl" by (simp add: calm_env_def ex_dl_def ex_par_def ex_env_def)
  show "undisturbed ex_dl a ex_plan" by (simp add: undisturbed_def ex_considerate) (simp add: ex_dl_def)
  have "(\<exists>(off, d, e)\<in>set (x_chunks ex_dl). nat off \<le> i \<and> i < nat off + length d)" if "i < 3" for i
    using that by (auto simp: ex_dl_def)
  moreover have "piece ''xyz'' (2, ''z'', None)" "piece ''xyz'' (0, ''xy'', None)" by (simp_all add: piece_def numeral_2_eq_2)
  ultimately show "delivers ''xyz'' (x_chunks ex_dl)" by (simp add: delivers_def ex_dl_def)
qed

lemma ex_start: "startable (attempt_of ex_task ex_orch) ex_orch" "admits ex_dl a p ex_orch" "clear_way ex_plan (o_fs ex_orch)"
proof -
  have "drow (ex_db Pending) (''c'', 7) = Some (ex_rec Pending)" using ex_db_simps(2) by (simp add: ex_key_def)
  then show "startable (attempt_of ex_task ex_orch) ex_orch" by (simp add: startable_def ex_task_request_def)
  show "admits ex_dl a p ex_orch" by (simp add: admits_def Reserve_def)
  show "clear_way ex_plan (o_fs ex_orch)" by (simp add: clear_way_def dirs_clear_def ex_dirs)
qed

lemma ex_resolved: "x_resolve ex_dl 0 = Inr ex_media" "rm_HasFile ex_media" "rm_Size ex_media = int (length ''xyz'')"
  by (simp_all add: ex_dl_def ex_media_def)


section \<open>A file that is already there\<close>

lemma live_fails:
  assumes "live t r" and "f_PhysicalAttemptID disp = []" and "\<not> f_Unavailable disp"
  shows "ts_state (cell (FailDisposition t disp now r) (tk_state t)) = StateFailed"
  using assms by (auto simp: FailDisposition_def finishWithGen_def live_def IsTerminal_def stale_def finish_cell_frame)

lemma conflict_recorded:
  assumes "db_ok db" and "drow db k = Some r" and "d_status r = Downloading" and "d_attempt_generation r = g" and "f_Class disp = ''target_conflict''"
  shows "\<exists>r'. drow (snd (FailDownloadDisposition no_fault now k g fn sp mt sz disp db)) k = Some r' \<and> d_status r' = Conflict"
  using assms by (auto simp: FailDownloadDisposition_def RecordTargetConflict_def stale_gen_def gen_matches_def split_def Let_def row_defs)

lemma held_no_proof: "held a Downloading s \<Longrightarrow> record_proof sha256 x a p n s = (None, s)"
  by (auto simp: held_def record_proof_def GetDownloadRecord_def)

lemma held_collides:
  assumes "calm_env x" and "held a Downloading s" and "o_fs s (pn_final p) = Some n"
  shows "\<exists>s' r. check_existing sha256 x a p s = Inl s' \<and> o_fs s' = o_fs s \<and>
    drow (o_db s') (at_key a) = Some r \<and> d_status r = Conflict \<and> ts_state (cell (oc_reg s') (tk_state (at_task a))) = StateFailed"
proof -
  obtain r where r: "db_ok (o_db s)" "live (at_task a) (oc_reg s)" "drow (o_db s) (at_key a) = Some r" "d_status r = Downloading"
    "d_attempt_generation r = at_gen a" using assms(2) by (auto simp: held_def)
  have c: "check_existing sha256 x a p s = Inl (fail_both x 5 a p collision s)"
    using assms held_no_proof [OF assms(2)] by (simp add: check_existing_def calm_env_def Stat_def)
  have io: "x_io x 5 = no_fault" using assms(1) by (simp add: calm_env_def)
  have col: "f_Class collision = ''target_conflict''" "f_PhysicalAttemptID collision = []" "\<not> f_Unavailable collision"
    by (simp_all add: collision_def failure_def)
  have st: "ts_state (cell (FailDisposition (at_task a) collision (x_now x 5) (oc_reg s)) (tk_state (at_task a))) = StateFailed"
    by (rule live_fails [OF r(2) col(2,3)])
  obtain r' where "drow (o_db (fail_both x 5 a p collision s)) (at_key a) = Some r'" "d_status r' = Conflict"
    using conflict_recorded [OF r(1,3-5) col(1), of "Unix (x_now x 5)" "pn_fileName p" "pn_rel p" "pn_mediaType p" "pn_size p"] io by (auto simp: fail_both_def fail_record_def fail_task_def setters)
  moreover have "o_fs (fail_both x 5 a p collision s) = o_fs s"
    by (simp add: fail_both_def fail_record_def fail_task_def setters)
  moreover have "oc_reg (fail_both x 5 a p collision s) = FailDisposition (at_task a) collision (x_now x 5) (oc_reg s)"
    by (simp add: fail_both_def fail_record_def fail_task_def setters db_call_def split_beta Let_def)
  ultimately show ?thesis using c st by auto
qed

text \<open>C40. A file that is already at the planned path is always a conflict, also with the right content. The check asks whether the record is committing, successful
  or archived, but the admission of the same attempt has set it to downloading. The record ends in conflict, the task failed,
  and the file is untouched.\<close>

theorem existing_file_is_conflict:
  assumes "calm_env x" and "planned fnm x t s p" and "undisturbed x a p" and "a = attempt_of t s"
    and "x_resolve x 0 = Inr m" and "rm_HasFile m" and "0 < rm_Size m" and "o_fs s (pn_final p) = Some n"
    and "startable a s" and "db_ok (o_db s)" and "live t (oc_reg s)" and "q_ID (at_req a) \<notin> oc_inFlight s"
    and "s' = downloadOne sha256 fnm K x t s"
  shows "\<exists>r. drow (o_db s') (at_key a) = Some r \<and> d_status r = Conflict \<and>
    ts_state (cell (oc_reg s') (tk_state t)) = StateFailed \<and> o_fs s' (pn_final p) = Some n"
proof -
  note oth = others_held [OF assms(3)]
  have "resolve_loop x 0 3 (Inr nil_media) = Inr m" using assms(5) by (simp add: numeral_3_eq_3)
  then have plan: "plan_path fnm x a m s1 = p" if "oc_saveDir s1 = oc_saveDir s" for s1
    using assms(2,4) that unfolding planned_def by blast
  let ?s = "s\<lparr>oc_inFlight := insert (q_ID (at_req a)) (oc_inFlight s)\<rparr>" and ?q = "at_req a"
  have task: "at_task a = t" by (simp add: assms(4) attempt_of_def)
  have "db_ok (o_db ?s)" "live (at_task a) (oc_reg ?s)" "startable a ?s" using assms(9-11) task by (simp_all add: startable_def)
  from begin_held [OF assms(1) this] obtain s1 where
    b: "begin_record sha256 x 0 False a (q_FileName ?q) (q_FinalPath ?q) (q_MediaType ?q) (q_ExpectedSize ?q) ?s = Inr s1"
    "held a Downloading s1" "o_fs s1 = o_fs s" "oc_saveDir s1 = oc_saveDir s" by force
  define s2 where "s2 = set_reg (SetResolved (at_task a) (rm_Name m) (rm_Size m) (rm_DCID m)) (x_others x 0 s1)"
  have rs: "resolve_stage x a (x_others x 0 s1) = Inr (m, s2)"
    using assms(5-7) by (simp add: resolve_stage_def s2_def numeral_3_eq_3)
  have s2: "held a Downloading s2" "oc_saveDir s2 = oc_saveDir s" "o_fs s2 (pn_final p) = Some n"
    using held_reg [OF oth(1) [OF b(2)] live_steps(1)] oth(4,5) b(3,4) assms(8) by (simp_all add: s2_def setters)
  define s3 where "s3 = set_reg (SetFinalPath (at_task a) (pn_rel p)) s2"
  have pl: "plan_stage fnm x a m s2 = (p, s3)" by (simp add: plan_stage_def plan [OF s2(2)] s3_def)
  have s3: "held a Downloading s3" "o_fs s3 (pn_final p) = Some n"
    using held_reg [OF s2(1) live_steps(2)] s2(3) by (simp_all add: s3_def setters)
  obtain s4 r where c: "check_existing sha256 x a p s3 = Inl s4" "o_fs s4 = o_fs s3" "drow (o_db s4) (at_key a) = Some r"
    "d_status r = Conflict" "ts_state (cell (oc_reg s4) (tk_state (at_task a))) = StateFailed"
    using held_collides [OF assms(1) s3] by blast
  have "run_attempt sha256 fnm K x a ?s = s4" by (simp add: run_attempt_def b(1) rs pl c(1))
  then have "s' = s4\<lparr>oc_inFlight := oc_inFlight s4 - {q_ID ?q}\<rparr>"
    using assms(12) by (simp add: assms(13) downloadOne_def Let_def assms(4) [symmetric])
  with c s3(2) task show ?thesis by simp
qed

theorem existing_file_is_conflict_witness:
  "\<exists>r. drow (o_db (downloadOne id id plain_kernel ex_dl ex_task (set_fs (\<lambda>f. f(''/d/v'' \<mapsto> NFile ''xyz'')) ex_orch))) ex_key = Some r \<and>
    d_status r = Conflict"
proof -
  let ?s = "set_fs (\<lambda>f. f(''/d/v'' \<mapsto> NFile ''xyz'')) ex_orch"
  have a: "attempt_of ex_task ?s = attempt_of ex_task ex_orch" by (simp add: attempt_of_def setters)
  have p: "planned id ex_dl ex_task ?s ex_plan" using ex_planned a by (simp add: planned_def setters)
  show ?thesis
    using existing_file_is_conflict [OF ex_calm(1) p ex_calm(2) refl ex_resolved(1,2), of "NFile ''xyz''" _ id plain_kernel, unfolded a] ex_start(1)
    by (auto simp: ex_media_def setters startable_def ex_task_request_def ex_key_def)
qed

text \<open>C2. A download is recorded as successful only with a verified file. Whatever fails and however the attempt ends: if its record has become
  successful, the file is at the planned path, and the record carries this path, the size of the file and its digest. Others may create
  files, but neither change nor remove the part and the final file, and do not complete the record themselves.\<close>

theorem download_success_verified:
  assumes "kernel_ok K" and "planned fnm x t s p" and "file_path (pn_final p)" and "same_dir x"
    and "considerate x (pn_part p)" and "considerate x (pn_final p)" and "lets_be x k"
    and "k = at_key (attempt_of t s)" and "db_ok (o_db s)"
    and "drow (o_db (downloadOne sha256 fnm K x t s)) k = Some r" and "d_status r = Success" and "drow (o_db s) k \<noteq> Some r"
  shows "\<exists>c. o_fs (downloadOne sha256 fnm K x t s) (pn_final p) = Some (NFile c) \<and>
    row_proof r = (pn_rel p, int (length c), sha256 c)"
proof -
  have "success_sound sha256 x (at_key (attempt_of t s)) p s (downloadOne sha256 fnm K x t s)"
  proof (rule sound.R_download [OF refl])
    fix m s' assume "success_sound sha256 x (at_key (attempt_of t s)) p s s'" and m: "resolve_loop x 0 3 (Inr nil_media) = Inr m"
    then have "oc_saveDir s' = oc_saveDir s" using assms(4,6-8) by (simp add: success_sound_def)
    from planned_own [OF assms(2,1,3,5,6) this m]
    show "plan_path fnm x (attempt_of t s) m s' = p \<and> ownership K x p" by simp
  qed
  with assms(4,6-12) show ?thesis by (auto simp: success_sound_def row_verified_def)
qed

lemma ex_finished: "finished id (attempt_of ex_task ex_orch) ex_plan ''xyz'' (downloadOne id id plain_kernel ex_dl ex_task ex_orch)"
proof -
  let ?a = "attempt_of ex_task ex_orch"
  let ?s = "ex_orch\<lparr>oc_inFlight := {''c:7''}\<rparr>"
  have plan: "plan_path id ex_dl ?a ex_media s = ex_plan" if "oc_saveDir s = ''/d''" for s
    using ex_planned [of id] that ex_resolved(1) by (simp add: planned_def numeral_3_eq_3)
  have "finished id ?a ex_plan ''xyz'' (run_attempt id id plain_kernel ex_dl ?a ?s)"
    by (rule attempt_finishes [OF ex_calm(1,2) _ _ plan ex_resolved(1,2)])
      (use ex_final ex_calm ex_start in \<open>simp_all add: fits64_def ex_media_def startable_def admits_def Reserve_def\<close>)
  then show ?thesis by (simp add: downloadOne_def Let_def ex_task_request_def finished_def)
qed

theorem download_success_verified_witness:
  "\<exists>c r. o_fs (downloadOne id id plain_kernel ex_dl ex_task ex_orch) ''/d/v'' = Some (NFile c) \<and> row_proof r = (''v'', int (length c), c)"
proof -
  obtain r where r: "drow (o_db (downloadOne id id plain_kernel ex_dl ex_task ex_orch)) ex_key = Some r" "d_status r = Success"
    using ex_finished by (auto simp: finished_def ex_task_request_def ex_key_def)
  then have "drow (o_db ex_orch) ex_key \<noteq> Some r" by auto
  from download_success_verified [OF plain_kernel_ok ex_planned _ ex_considerate(2,1,1,4) _ _ r this] ex_final(1)
  show ?thesis by (auto simp: ex_task_request_def ex_key_def)
qed

end
