(* ===== verification/Crash_Programs.thy ===== *)
theory Crash_Programs
  imports Archive_Worker Download_Records
begin

text \<open>
  Programs made of system calls that may fail or be interrupted, for the migration of the legacy spool
  (\<open>app/daemon/migration/spool_migrator.go\<close>): the calls of \<open>os\<close> and \<open>database/sql\<close> that it uses, on a state of files and a database, and a
  calculus of assertions with one postcondition for the return and one for a failure or a crash. A path is identified by its text;
  there are no symbolic links, and no other process changes the files. A linked file is a copy, which is the same as long as
  neither is written again. A read-only call is one call even if it opens and closes a file.
\<close>

declare split_paired_All [simp del] split_paired_Ex [simp del]


section \<open>Programs that may be interrupted\<close>

text \<open>
  A program is a sequence of system calls. The environment decides about each call, by its number: it works, it fails, or
  the process is killed before it. For calls that do their work in pieces the environment also says how much was done when they fail or
  the process is killed: how many bytes were written, which names were removed, and whether a commit had become durable.
\<close>

datatype sys = Ok | Fail string | Crash

record mig_env =
  me_sys :: "nat \<Rightarrow> sys"
  me_part :: "nat \<Rightarrow> nat"
  me_rm :: "nat \<Rightarrow> string \<Rightarrow> bool"

text \<open>The legacy database: a table that does not exist is \<open>None\<close>.\<close>

record commit_entry =
  ce_key :: msg_key
  ce_savePath :: string
  ce_fileSize :: int64
  ce_sha256 :: string

record attempt_entry =
  ae_key :: msg_key
  ae_state :: string

record mig_db =
  g_records :: "(msg_key, download_row) table option"
  g_commits :: "commit_entry list option"
  g_attempts :: "attempt_entry list option"
  g_segments :: bool
  g_cleanup :: bool
  g_verdicts :: "(string \<times> string) list option"

text \<open>The files, the names under which there may be a file, the database, the backups of it and the number of the next call.\<close>

record mig =
  mg_fs :: fs
  mg_names :: "string list"
  mg_db :: mig_db
  mg_backups :: "(string \<times> mig_db) list"
  mg_n :: nat

datatype 'a outcome = Ret 'a | Err string | Dead

type_synonym 'a prog = "mig_env \<Rightarrow> mig \<Rightarrow> 'a outcome \<times> mig"

definition ret :: "'a \<Rightarrow> 'a prog" where
  "ret x v s = (Ret x, s)"

definition raise :: "string \<Rightarrow> 'a prog" where
  "raise e v s = (Err e, s)"

definition andThen :: "'a prog \<Rightarrow> ('a \<Rightarrow> 'b prog) \<Rightarrow> 'b prog" where
  "andThen m k v s = (case m v s of (Ret x, s1) \<Rightarrow> k x v s1 | (Err e, s1) \<Rightarrow> (Err e, s1) | (Dead, s1) \<Rightarrow> (Dead, s1))"

definition catch :: "'a prog \<Rightarrow> (string \<Rightarrow> 'a prog) \<Rightarrow> 'a prog" where
  "catch m h v s = (case m v s of (Err e, s1) \<Rightarrow> h e v s1 | r \<Rightarrow> r)"

text \<open>\<open>sys_call f g\<close>: the effect \<open>f\<close> when the call works, and \<open>g\<close> when it does not.\<close>

definition sys_call :: "(mig \<Rightarrow> 'a outcome \<times> mig) \<Rightarrow> (mig_env \<Rightarrow> nat \<Rightarrow> mig \<Rightarrow> mig) \<Rightarrow> 'a prog" where
  "sys_call f g v s = (let n = mg_n s; s1 = s\<lparr>mg_n := Suc n\<rparr> in case me_sys v n of
     Ok \<Rightarrow> f s1 | Fail e \<Rightarrow> (Err e, g v n s1) | Crash \<Rightarrow> (Dead, g v n s1))"

definition untouched :: "mig_env \<Rightarrow> nat \<Rightarrow> mig \<Rightarrow> mig" where
  "untouched v n s = s"

text \<open>An ignored error; a removal before an error is passed on; an error with its prefix.\<close>

definition ignore :: "unit prog \<Rightarrow> unit prog" where
  "ignore m = catch m (\<lambda>e. ret ())"

definition on_error :: "'a prog \<Rightarrow> unit prog \<Rightarrow> 'a prog" where
  "on_error m c = catch m (\<lambda>e. andThen (ignore c) (\<lambda>_. raise e))"

definition wrapped :: "string \<Rightarrow> 'a prog \<Rightarrow> 'a prog" where
  "wrapped msg m = catch m (\<lambda>e. raise (msg @ '': '' @ e))"

fun for_all :: "('a \<Rightarrow> unit prog) \<Rightarrow> 'a list \<Rightarrow> unit prog" where
  "for_all m [] = ret ()"
| "for_all m (x # xs) = andThen (m x) (\<lambda>_. for_all m xs)"

fun map_prog :: "('a \<Rightarrow> 'b prog) \<Rightarrow> 'a list \<Rightarrow> 'b list prog" where
  "map_prog m [] = ret []"
| "map_prog m (x # xs) = andThen (m x) (\<lambda>y. andThen (map_prog m xs) (\<lambda>ys. ret (y # ys)))"

subsection \<open>System calls\<close>

definition set_node :: "string \<Rightarrow> node option \<Rightarrow> mig \<Rightarrow> mig" where
  "set_node p n s = s\<lparr>mg_fs := (mg_fs s)(p := n), mg_names := (if n = None \<or> p \<in> set (mg_names s) then mg_names s else mg_names s @ [p])\<rparr>"

text \<open>A name that does not exist is a result, not a failure.\<close>

definition stat_call :: "string \<Rightarrow> node option prog" where
  "stat_call p = sys_call (\<lambda>s. (Ret (mg_fs s p), s)) untouched"

definition sync_call :: "unit prog" where
  "sync_call = sys_call (\<lambda>s. (Ret (), s)) untouched"

definition hash_call :: "(string \<Rightarrow> string) \<Rightarrow> string \<Rightarrow> string prog" where
  "hash_call sha256 p = sys_call (\<lambda>s. (case mg_fs s p of Some (NFile c) \<Rightarrow> Ret (sha256 c) | _ \<Rightarrow> Err (''open '' @ p), s)) untouched"

definition read_call :: "string \<Rightarrow> string option prog" where
  "read_call p = sys_call (\<lambda>s. (case mg_fs s p of Some (NFile c) \<Rightarrow> Ret (Some c) | Some NDir \<Rightarrow> Err (''read '' @ p) | None \<Rightarrow> Ret None, s)) untouched"

datatype link_result = Linked | LinkExists | LinkFailed

definition link_call :: "string \<Rightarrow> string \<Rightarrow> link_result prog" where
  "link_call src dst = catch (sys_call (\<lambda>s. if mg_fs s dst \<noteq> None then (Ret LinkExists, s)
       else case mg_fs s src of Some (NFile c) \<Rightarrow> (Ret Linked, set_node dst (Some (NFile c)) s) | _ \<Rightarrow> (Ret LinkFailed, s)) untouched)
     (\<lambda>e. ret LinkFailed)"

definition create_call :: "bool \<Rightarrow> string \<Rightarrow> unit prog" where
  "create_call excl p = sys_call (\<lambda>s. if mg_fs s p = Some NDir \<or> excl \<and> mg_fs s p \<noteq> None then (Err (''open '' @ p), s)
     else (Ret (), set_node p (Some (NFile [])) s)) untouched"

definition open_call :: "string \<Rightarrow> string prog" where
  "open_call p = sys_call (\<lambda>s. (case mg_fs s p of Some (NFile c) \<Rightarrow> Ret c | _ \<Rightarrow> Err (''open '' @ p), s)) untouched"

definition write_call :: "string \<Rightarrow> string \<Rightarrow> unit prog" where
  "write_call p c = sys_call (\<lambda>s. (Ret (), set_node p (Some (NFile c)) s))
     (\<lambda>v n s. set_node p (Some (NFile (take (me_part v n) c))) s)"

text \<open>The names directly in a directory.\<close>

definition entry_of :: "string \<Rightarrow> string \<Rightarrow> bool" where
  "entry_of d q \<longleftrightarrow> HasPrefix q (d @ ''/'') \<and> CHR ''/'' \<notin> set (drop (Suc (length d)) q)"

definition entries :: "string \<Rightarrow> mig \<Rightarrow> string list" where
  "entries d s = filter (\<lambda>q. mg_fs s q \<noteq> None \<and> entry_of d q) (mg_names s)"

text \<open>\<open>os.Remove\<close>, of a name that may be missing, and of a directory that must be empty.\<close>

definition remove_call :: "string \<Rightarrow> unit prog" where
  "remove_call p = sys_call (\<lambda>s. if mg_fs s p = Some NDir \<and> entries p s \<noteq> [] then (Err (''remove '' @ p), s)
     else (Ret (), set_node p None s)) untouched"

definition below :: "string \<Rightarrow> string \<Rightarrow> bool" where
  "below d p \<longleftrightarrow> p = d \<or> HasPrefix p (d @ ''/'')"

definition remove_all_call :: "string \<Rightarrow> unit prog" where
  "remove_all_call d = sys_call (\<lambda>s. (Ret (), s\<lparr>mg_fs := (\<lambda>p. if below d p then None else mg_fs s p)\<rparr>))
     (\<lambda>v n s. s\<lparr>mg_fs := (\<lambda>p. if below d p \<and> me_rm v n p then None else mg_fs s p)\<rparr>)"

text \<open>\<open>os.MkdirAll\<close>; when it fails the environment says how many of the directories were made.\<close>

definition add_names :: "string list \<Rightarrow> string list \<Rightarrow> string list" where
  "add_names ns ps = ns @ filter (\<lambda>p. p \<notin> set ns) ps"

definition mkdir_call :: "string \<Rightarrow> unit prog" where
  "mkdir_call d = sys_call (\<lambda>s. case MkdirAll None d (mg_fs s) of
       (None, f) \<Rightarrow> (Ret (), s\<lparr>mg_fs := f, mg_names := add_names (mg_names s) (dir_chain d)\<rparr>)
     | (Some e, f) \<Rightarrow> (Err e, s\<lparr>mg_fs := f, mg_names := add_names (mg_names s) (dir_chain d)\<rparr>))
     (\<lambda>v n s. s\<lparr>mg_fs := snd (MkdirAll (Some ([], me_part v n)) d (mg_fs s)), mg_names := add_names (mg_names s) (dir_chain d)\<rparr>)"

definition query :: "(mig_db \<Rightarrow> 'a) \<Rightarrow> 'a prog" where
  "query f = sys_call (\<lambda>s. (Ret (f (mg_db s)), s)) untouched"

text \<open>A statement of a transaction, on the state the transaction has reached.\<close>

definition exec_tx :: "(mig_db \<Rightarrow> mig_db) \<Rightarrow> mig_db \<Rightarrow> mig_db prog" where
  "exec_tx f tx = sys_call (\<lambda>s. (Ret (f tx), s)) untouched"

definition commit_call :: "mig_db \<Rightarrow> unit prog" where
  "commit_call tx = sys_call (\<lambda>s. (Ret (), s\<lparr>mg_db := tx\<rparr>)) (\<lambda>v n s. if me_part v n = 0 then s else s\<lparr>mg_db := tx\<rparr>)"

definition readdir_call :: "string \<Rightarrow> string list prog" where
  "readdir_call d = sys_call (\<lambda>s. (Ret (entries d s), s)) untouched"



section \<open>Assertions about programs\<close>

text \<open>
  \<open>valid v P m Q R\<close>: started in a state with \<open>P\<close>, the program returns in a state with \<open>Q\<close> of its result, or it fails or is
  killed in a state with \<open>R\<close>. An environment is faultless when every call works; a condition \<open>\<not> faultless v\<close> in
  \<open>R\<close> says that the program returns in a faultless environment.
\<close>

definition valid :: "mig_env \<Rightarrow> (mig \<Rightarrow> bool) \<Rightarrow> 'a prog \<Rightarrow> ('a \<Rightarrow> mig \<Rightarrow> bool) \<Rightarrow> (mig \<Rightarrow> bool) \<Rightarrow> bool" where
  "valid v P m Q R \<longleftrightarrow> (\<forall>s. P s \<longrightarrow> (case m v s of (Ret x, s1) \<Rightarrow> Q x s1 | (_, s1) \<Rightarrow> R s1))"

definition faultless :: "mig_env \<Rightarrow> bool" where
  "faultless v \<longleftrightarrow> (\<forall>n. me_sys v n = Ok)"

definition stuck :: "mig_env \<Rightarrow> (mig \<Rightarrow> bool) \<Rightarrow> mig \<Rightarrow> bool" where
  "stuck v P s \<longleftrightarrow> \<not> faultless v \<and> P s"

lemma stuckD: "stuck v P s \<Longrightarrow> P s"
  by (simp add: stuck_def)

lemma valid_use: "valid v P m Q R \<Longrightarrow> P s \<Longrightarrow> m v s = (r, s1) \<Longrightarrow> (case r of Ret x \<Rightarrow> Q x s1 | _ \<Rightarrow> R s1)"
  by (force simp: valid_def split: outcome.splits)

lemma valid_ret: "(\<And>s. P s \<Longrightarrow> Q x s) \<Longrightarrow> valid v P (ret x) Q R"
  by (simp add: valid_def ret_def)

lemma valid_raise: "(\<And>s. P s \<Longrightarrow> R s) \<Longrightarrow> valid v P (raise e) Q R"
  by (simp add: valid_def raise_def)

lemma valid_andThen: "valid v P m B R \<Longrightarrow> (\<And>x. valid v (B x) (k x) Q R) \<Longrightarrow> valid v P (andThen m k) Q R"
  unfolding valid_def andThen_def by (fastforce split: prod.splits outcome.splits)

lemma valid_catch:
  "valid v P m Q E \<Longrightarrow> (\<And>e. valid v E (h e) Q R) \<Longrightarrow> (\<And>s. E s \<Longrightarrow> R s) \<Longrightarrow> valid v P (catch m h) Q R"
  unfolding valid_def catch_def by (fastforce split: prod.splits outcome.splits)

lemma valid_conseq:
  "valid v P m Q R \<Longrightarrow> (\<And>s. P' s \<Longrightarrow> P s) \<Longrightarrow> (\<And>x s. Q x s \<Longrightarrow> Q' x s) \<Longrightarrow> (\<And>s. R s \<Longrightarrow> R' s) \<Longrightarrow> valid v P' m Q' R'"
  unfolding valid_def by (fastforce split: prod.splits outcome.splits)

lemma valid_post: "valid v P m Q R \<Longrightarrow> (\<And>x s. Q x s \<Longrightarrow> Q' x s) \<Longrightarrow> (\<And>s. R s \<Longrightarrow> R' s) \<Longrightarrow> valid v P m Q' R'"
  by (erule valid_conseq) simp_all

lemma valid_pre: "valid v P m Q R \<Longrightarrow> (\<And>s. P' s \<Longrightarrow> P s) \<Longrightarrow> valid v P' m Q R"
  by (erule valid_conseq) simp_all

text \<open>A fact of the state that does not change is moved out of the assertion.\<close>

lemma valid_fact: "(A \<Longrightarrow> valid v P m Q R) \<Longrightarrow> valid v (\<lambda>s. A \<and> P s) m Q R"
  by (auto simp: valid_def)

lemma valid_ex:
  assumes "\<And>x. valid v (P x) m Q R"
  shows "valid v (\<lambda>s. \<exists>x. P x s) m Q R"
  unfolding valid_def
proof (intro allI impI)
  fix s assume "\<exists>x. P x s"
  then obtain x where "P x s" ..
  with assms [of x] show "case m v s of (Ret x, s1) \<Rightarrow> Q x s1 | (_, s1) \<Rightarrow> R s1" by (simp add: valid_def)
qed

lemma valid_disj: "valid v P1 m Q R \<Longrightarrow> valid v P2 m Q R \<Longrightarrow> valid v (\<lambda>s. P1 s \<or> P2 s) m Q R"
  by (auto simp: valid_def)

lemma valid_wrapped: "valid v P m Q R \<Longrightarrow> valid v P (wrapped msg m) Q R"
  unfolding wrapped_def by (rule valid_catch) (auto intro: valid_raise)

lemma valid_ignore: "valid v P m (\<lambda>_. Q) R \<Longrightarrow> (\<And>s. R s \<Longrightarrow> Q s) \<Longrightarrow> valid v P (ignore m) (\<lambda>_. Q) R"
  unfolding ignore_def by (rule valid_catch) (auto intro: valid_ret)

lemma valid_default: "valid v P m Q R \<Longrightarrow> (\<And>s. R s \<Longrightarrow> Q d s) \<Longrightarrow> valid v P (catch m (\<lambda>e. ret d)) Q R"
  by (rule valid_catch) (auto intro: valid_ret)

lemma valid_on_error:
  assumes "valid v P m Q R1" and "valid v R1 c (\<lambda>_. R) R" and "\<And>s. R1 s \<Longrightarrow> R s"
  shows "valid v P (on_error m c) Q R"
  unfolding on_error_def
  by (rule valid_catch [OF assms(1)])
    (auto intro!: valid_andThen [where B = "\<lambda>_. R"] valid_raise valid_ignore assms)

lemma valid_for_all:
  assumes "\<And>xs x ys. l = xs @ x # ys \<Longrightarrow> valid v (I xs) (m x) (\<lambda>_. I (xs @ [x])) R"
  shows "valid v (I []) (for_all m l) (\<lambda>_. I l) R"
proof -
  have "valid v (I xs) (for_all m ys) (\<lambda>_. I l) R" if "l = xs @ ys" for xs ys
    using that
  proof (induction ys arbitrary: xs)
    case (Cons y ys)
    from Cons.prems have "l = (xs @ [y]) @ ys" by simp
    from valid_andThen [OF assms [OF Cons.prems] Cons.IH [OF this]] show ?case by simp
  qed (auto intro: valid_ret)
  from this [of "[]" l] show ?thesis by simp
qed

lemma valid_map_prog:
  assumes "\<And>xs x ys rs. l = xs @ x # ys \<Longrightarrow> valid v (I xs rs) (m x) (\<lambda>r. I (xs @ [x]) (rs @ [r])) R"
  shows "valid v (I [] []) (map_prog m l) (I l) R"
proof -
  have "valid v (I xs rs) (map_prog m ys) (\<lambda>rs1. I l (rs @ rs1)) R" if "l = xs @ ys" for xs ys rs
    using that
  proof (induction ys arbitrary: xs rs)
    case (Cons y ys)
    from Cons.prems have l: "l = (xs @ [y]) @ ys" by simp
    show ?case unfolding map_prog.simps
    proof (rule valid_andThen [OF assms [OF Cons.prems]])
      fix r
      show "valid v (I (xs @ [y]) (rs @ [r])) (andThen (map_prog m ys) (\<lambda>rs1. ret (r # rs1))) (\<lambda>rs1. I l (rs @ rs1)) R"
        by (rule valid_andThen [OF Cons.IH [OF l]]) (auto intro: valid_ret)
    qed
  qed (auto intro: valid_ret)
  from this [of "[]" l "[]"] show ?thesis by simp
qed

lemma valid_sys:
  assumes "\<And>s. P s \<Longrightarrow> (case f (s\<lparr>mg_n := Suc (mg_n s)\<rparr>) of (Ret x, s1) \<Rightarrow> Q x s1 | (_, s1) \<Rightarrow> R s1)"
    and "\<And>s. P s \<Longrightarrow> \<not> faultless v \<Longrightarrow> R (g v (mg_n s) (s\<lparr>mg_n := Suc (mg_n s)\<rparr>))"
  shows "valid v P (sys_call f g) Q R"
  unfolding valid_def
proof (intro allI impI)
  fix s assume P: "P s"
  show "case sys_call f g v s of (Ret x, s1) \<Rightarrow> Q x s1 | (_, s1) \<Rightarrow> R s1"
  proof (cases "me_sys v (mg_n s)")
    case Ok
    with assms(1) [OF P] show ?thesis by (simp add: sys_call_def)
  next
    case (Fail e)
    then have "\<not> faultless v" by (auto simp: faultless_def) (metis sys.distinct(1))
    with Fail assms(2) [OF P] show ?thesis by (simp add: sys_call_def Let_def)
  next
    case Crash
    then have "\<not> faultless v" by (auto simp: faultless_def) (metis sys.distinct(3))
    with Crash assms(2) [OF P] show ?thesis by (simp add: sys_call_def Let_def)
  qed
qed

section \<open>The calls\<close>

text \<open>\<open>at G D\<close>: the files are \<open>G\<close>, the database is \<open>D\<close>, and every file has a known name.\<close>

definition at :: "fs \<Rightarrow> mig_db \<Rightarrow> mig \<Rightarrow> bool" where
  "at G D s \<longleftrightarrow> mg_fs s = G \<and> mg_db s = D \<and> (\<forall>p. G p \<noteq> None \<longrightarrow> p \<in> set (mg_names s))"

lemma at_n [simp]: "at G D (s\<lparr>mg_n := n\<rparr>) = at G D s"
  by (simp add: at_def)

lemma at_set_node: "at G D s \<Longrightarrow> at (G(p := x)) D (set_node p x s)"
  by (auto simp: at_def set_node_def)

lemmas call_simps = untouched_def stuck_def split_beta

lemma v_stat: "valid v (at G D) (stat_call p) (\<lambda>r s. r = G p \<and> at G D s) (stuck v (at G D))"
  unfolding stat_call_def by (rule valid_sys) (simp_all add: call_simps at_def)

lemma v_sync: "valid v (at G D) sync_call (\<lambda>_. at G D) (stuck v (at G D))"
  unfolding sync_call_def by (rule valid_sys) (simp_all add: call_simps)

lemma v_hash_any: "valid v (at G D) (hash_call h p) (\<lambda>r s. (\<forall>c. G p = Some (NFile c) \<longrightarrow> r = h c) \<and> at G D s)
    (\<lambda>s. (faultless v \<longrightarrow> \<not> (\<exists>c. G p = Some (NFile c))) \<and> at G D s)"
  unfolding hash_call_def
  by (rule valid_sys) (auto simp: call_simps at_def split: option.splits node.splits)

lemma v_hash: "G p = Some (NFile c) \<Longrightarrow> valid v (at G D) (hash_call h p) (\<lambda>r s. r = h c \<and> at G D s) (stuck v (at G D))"
  by (rule valid_post [OF v_hash_any]) (auto simp: stuck_def)

lemma v_read: "G p \<noteq> Some NDir \<Longrightarrow>
  valid v (at G D) (read_call p) (\<lambda>b s. (case b of None \<Rightarrow> G p = None | Some c \<Rightarrow> G p = Some (NFile c)) \<and> at G D s) (stuck v (at G D))"
  unfolding read_call_def
  by (rule valid_sys) (auto simp: call_simps at_def split: option.splits node.splits)

lemma v_open: "G p = Some (NFile c) \<Longrightarrow> valid v (at G D) (open_call p) (\<lambda>r s. r = c \<and> at G D s) (stuck v (at G D))"
  unfolding open_call_def by (rule valid_sys) (auto simp: call_simps at_def)

lemma v_link:
  assumes "G src = Some (NFile c)"
  shows "valid v (at G D) (link_call src dst) (\<lambda>l s. case l of Linked \<Rightarrow> G dst = None \<and> at (G(dst \<mapsto> NFile c)) D s
      | LinkExists \<Rightarrow> G dst \<noteq> None \<and> at G D s | LinkFailed \<Rightarrow> \<not> faultless v \<and> at G D s) (stuck v (at G D))"
  unfolding link_call_def
proof (rule valid_catch [where E = "stuck v (at G D)"])
  show "valid v (at G D) (sys_call (\<lambda>s. if mg_fs s dst \<noteq> None then (Ret LinkExists, s)
       else case mg_fs s src of Some (NFile c) \<Rightarrow> (Ret Linked, set_node dst (Some (NFile c)) s) | _ \<Rightarrow> (Ret LinkFailed, s)) untouched)
     (\<lambda>l s. case l of Linked \<Rightarrow> G dst = None \<and> at (G(dst \<mapsto> NFile c)) D s
      | LinkExists \<Rightarrow> G dst \<noteq> None \<and> at G D s | LinkFailed \<Rightarrow> \<not> faultless v \<and> at G D s) (stuck v (at G D))"
  proof (rule valid_sys)
    fix s assume s: "at G D s"
    then have "mg_fs s = G" by (simp add: at_def)
    with s assms at_set_node [of G D "s\<lparr>mg_n := Suc (mg_n s)\<rparr>" dst "Some (NFile c)"]
    show "case if mg_fs (s\<lparr>mg_n := Suc (mg_n s)\<rparr>) dst \<noteq> None then (Ret LinkExists, s\<lparr>mg_n := Suc (mg_n s)\<rparr>)
       else case mg_fs (s\<lparr>mg_n := Suc (mg_n s)\<rparr>) src of Some (NFile c) \<Rightarrow> (Ret Linked, set_node dst (Some (NFile c)) (s\<lparr>mg_n := Suc (mg_n s)\<rparr>))
         | _ \<Rightarrow> (Ret LinkFailed, s\<lparr>mg_n := Suc (mg_n s)\<rparr>) of
       (Ret l, s1) \<Rightarrow> (case l of Linked \<Rightarrow> G dst = None \<and> at (G(dst \<mapsto> NFile c)) D s1
      | LinkExists \<Rightarrow> G dst \<noteq> None \<and> at G D s1 | LinkFailed \<Rightarrow> \<not> faultless v \<and> at G D s1) | (_, s1) \<Rightarrow> stuck v (at G D) s1"
      by simp
  qed (simp add: call_simps)
qed (auto simp: stuck_def intro: valid_ret)

lemma v_create_excl:
  "valid v (at G D) (create_call True p) (\<lambda>_ s. G p = None \<and> at (G(p \<mapsto> NFile [])) D s) (\<lambda>s. (faultless v \<longrightarrow> G p \<noteq> None) \<and> at G D s)"
  unfolding create_call_def
  by (rule valid_sys) (auto simp: untouched_def at_def set_node_def)

lemma v_create:
  "G p = None \<Longrightarrow> valid v (at G D) (create_call e p) (\<lambda>_. at (G(p \<mapsto> NFile [])) D) (stuck v (at G D))"
  unfolding create_call_def
  by (rule valid_sys) (auto simp: call_simps at_def set_node_def)

lemma v_write:
  "valid v (at G D) (write_call p c) (\<lambda>_. at (G(p \<mapsto> NFile c)) D) (\<lambda>s. \<not> faultless v \<and> (\<exists>k. at (G(p \<mapsto> NFile (take k c))) D s))"
  unfolding write_call_def
proof (rule valid_sys, goal_cases)
  case (1 s)
  then show ?case using at_set_node [of G D "s\<lparr>mg_n := Suc (mg_n s)\<rparr>" p "Some (NFile c)"] by simp
next
  case (2 s)
  then show ?case
    using at_set_node [of G D "s\<lparr>mg_n := Suc (mg_n s)\<rparr>" p "Some (NFile (take (me_part v (mg_n s)) c))"] by auto
qed

lemma v_remove:
  assumes "G p = Some NDir \<Longrightarrow> \<forall>q. G q \<noteq> None \<longrightarrow> \<not> entry_of p q"
  shows "valid v (at G D) (remove_call p) (\<lambda>_. at (G(p := None)) D) (stuck v (at G D))"
  unfolding remove_call_def
proof (rule valid_sys, goal_cases)
  case (1 s)
  moreover have "\<not> (mg_fs s p = Some NDir \<and> entries p (s\<lparr>mg_n := Suc (mg_n s)\<rparr>) \<noteq> [])"
    using 1 assms by (auto simp: entries_def at_def filter_empty_conv)
  ultimately show ?case using at_set_node [of G D "s\<lparr>mg_n := Suc (mg_n s)\<rparr>" p None] by auto
qed (simp add: call_simps)

lemma v_remove_all:
  "valid v (at G D) (remove_all_call d) (\<lambda>_. at (\<lambda>p. if below d p then None else G p) D)
     (\<lambda>s. \<not> faultless v \<and> (\<exists>X. at (\<lambda>p. if below d p \<and> X p then None else G p) D s))"
  unfolding remove_all_call_def
proof (rule valid_sys, goal_cases)
  case (2 s)
  then show ?case by (intro conjI exI [of _ "me_rm v (mg_n s)"]) (auto simp: at_def)
qed (auto simp: at_def)

lemma v_query: "valid v (at G D) (query f) (\<lambda>r s. r = f D \<and> at G D s) (stuck v (at G D))"
  unfolding query_def by (rule valid_sys) (auto simp: call_simps at_def)

lemma v_exec: "valid v (at G D) (exec_tx f tx) (\<lambda>r s. r = f tx \<and> at G D s) (stuck v (at G D))"
  unfolding exec_tx_def by (rule valid_sys) (auto simp: call_simps at_def)

lemma v_commit: "valid v (at G D) (commit_call tx) (\<lambda>_. at G tx) (\<lambda>s. \<not> faultless v \<and> (at G D s \<or> at G tx s))"
  unfolding commit_call_def by (rule valid_sys) (auto simp: at_def)

lemma v_readdir: "valid v (at G D) (readdir_call d) (\<lambda>es s. (es = [] \<longleftrightarrow> (\<forall>q. G q \<noteq> None \<longrightarrow> \<not> entry_of d q)) \<and> at G D s) (stuck v (at G D))"
  unfolding readdir_call_def
proof (rule valid_sys, goal_cases)
  case (1 s)
  then have "entries d (s\<lparr>mg_n := Suc (mg_n s)\<rparr>) = [] \<longleftrightarrow> (\<forall>q. G q \<noteq> None \<longrightarrow> \<not> entry_of d q)"
    unfolding entries_def filter_empty_conv at_def by force
  with 1 show ?case by simp
qed (simp add: call_simps)

end
