(* ===== verification/Spool_Migration.thy ===== *)
theory Spool_Migration
  imports Crash_Programs "HOL-Library.Char_ord" "HOL-Library.List_Lexorder"
begin

text \<open>
  The migration of the legacy spool, \<open>app/daemon/migration/spool_migrator.go\<close>: the durable move of a file, the recovery of quarantines, the
  inventory, the backup and the migration itself. The functions follow the code call by call. The encoding of the manifest is
  a pair of parameters; the clock, the process number and the time stamp of the backup are arguments. Reports of failing runs, the texts of the reasons
  and the hooks of the tests are left out. A crash is the death of the process: what was written stays, so \<open>Sync\<close> is a call
  without effect that may fail.
\<close>

section \<open>The durable move\<close>

text \<open>The size and the digest to verify: those given, or those of the source.\<close>

definition expected_size :: "string \<Rightarrow> int64 \<Rightarrow> int64 prog" where
  "expected_size src n = (if n \<le> 0
     then catch (andThen (stat_call src) (\<lambda>r. ret (case r of Some (NFile c) \<Rightarrow> int (length c) | _ \<Rightarrow> n))) (\<lambda>e. ret n) else ret n)"

definition expected_sha :: "(string \<Rightarrow> string) \<Rightarrow> string \<Rightarrow> string \<Rightarrow> string prog" where
  "expected_sha sha256 src h = (if h = [] then catch (hash_call sha256 src) (\<lambda>e. ret []) else ret h)"

definition copy_file :: "string \<Rightarrow> string \<Rightarrow> unit prog" where
  "copy_file src dst = andThen (create_call True dst) (\<lambda>_.
     andThen (on_error (open_call src) (remove_call dst)) (\<lambda>c.
     andThen (on_error (write_call dst c) (remove_call dst)) (\<lambda>_.
     andThen (on_error sync_call (remove_call dst)) (\<lambda>_. on_error sync_call (remove_call dst)))))"

definition verify_dst :: "(string \<Rightarrow> string) \<Rightarrow> string \<Rightarrow> int64 \<Rightarrow> string \<Rightarrow> unit prog" where
  "verify_dst sha256 dst n h = andThen (stat_call dst) (\<lambda>r. case r of
     None \<Rightarrow> raise (''verify dst stat '' @ dst)
   | Some (NFile c) \<Rightarrow> if n > 0 \<and> int (length c) \<noteq> n then raise (''verify dst size mismatch on '' @ dst)
       else if h \<noteq> [] then andThen (hash_call sha256 dst) (\<lambda>d. if d \<noteq> h then raise (''verify dst sha mismatch on '' @ dst) else ret ())
       else ret ()
   | Some NDir \<Rightarrow> raise (''verify dst sha compute '' @ dst))"

text \<open>Opening, syncing and closing the directory are three calls.\<close>

definition sync_dir :: "unit prog" where
  "sync_dir = andThen sync_call (\<lambda>_. andThen sync_call (\<lambda>_. sync_call))"

definition durableNoReplaceMove :: "(string \<Rightarrow> string) \<Rightarrow> string \<Rightarrow> string \<Rightarrow> int64 \<Rightarrow> string \<Rightarrow> unit prog" where
  "durableNoReplaceMove sha256 src dst size0 sha0 =
     andThen (expected_size src size0) (\<lambda>n.
     andThen (expected_sha sha256 src sha0) (\<lambda>h.
     andThen (andThen (link_call src dst) (\<lambda>l. case l of
         Linked \<Rightarrow> ret () | LinkExists \<Rightarrow> raise (''link '' @ dst @ '': file exists'') | LinkFailed \<Rightarrow> copy_file src dst)) (\<lambda>_.
     andThen (on_error sync_dir (remove_call dst)) (\<lambda>_.
     andThen (on_error (verify_dst sha256 dst n h) (remove_call dst)) (\<lambda>_.
     andThen (wrapped (''remove src '' @ src) (remove_call src)) (\<lambda>_. sync_dir))))))"

definition safeNoReplaceLinkOrMove :: "(string \<Rightarrow> string) \<Rightarrow> string \<Rightarrow> string \<Rightarrow> unit prog" where
  "safeNoReplaceLinkOrMove sha256 src dst = durableNoReplaceMove sha256 src dst 0 []"


section \<open>Quarantine\<close>

record QuarantineFileEntry =
  qe_OriginalPath :: string
  qe_StagedName :: string
  qe_StagedPath :: string
  qe_Size :: int64
  qe_SHA256 :: string

record QuarantineManifest =
  qm_MigrationID :: string
  qm_QuarantineDir :: string
  qm_CreatedAt :: int64
  qm_Files :: "QuarantineFileEntry list"

record ReconcileReport =
  rr_QuarantineDirsScanned :: nat
  rr_RestoredFiles :: "string list"
  rr_CleanedFiles :: "string list"
  rr_CleanedDirs :: "string list"

definition isStrictSubpath :: "string \<Rightarrow> string \<Rightarrow> bool" where
  "isStrictSubpath baseDir targetPath = (case Rel (Clean baseDir) (Clean targetPath) of None \<Rightarrow> False
     | Some rel \<Rightarrow> \<not> (rel = dot \<or> rel = dotdot \<or> HasPrefix rel (dotdot @ ''/'') \<or> IsAbs rel))"

definition entry_error :: "string \<Rightarrow> string \<Rightarrow> QuarantineFileEntry \<Rightarrow> string option" where
  "entry_error qDir bufferDir f =
     (if qe_StagedName f = [] \<or> qe_StagedName f = dot \<or> qe_StagedName f = dotdot \<or> CHR ''/'' \<in> set (qe_StagedName f)
      then Some ''unsafe or empty staged name in manifest''
      else if Clean (qe_StagedPath f) \<noteq> Clean (Join qDir (qe_StagedName f))
      then Some ''staged path does not match expected staging location''
      else if \<not> isStrictSubpath qDir (qe_StagedPath f) then Some ''staged path escapes quarantine dir''
      else if \<not> isStrictSubpath bufferDir (qe_OriginalPath f) then Some ''original path escapes buffer dir'' else None)"

definition validateQuarantinePaths :: "QuarantineManifest \<Rightarrow> string \<Rightarrow> string \<Rightarrow> string option" where
  "validateQuarantinePaths manifest qDir bufferDir =
     (if \<not> isStrictSubpath bufferDir qDir then Some ''quarantine dir escapes buffer dir''
      else case filter (\<lambda>f. entry_error qDir bufferDir f \<noteq> None) (qm_Files manifest) of [] \<Rightarrow> None | f # _ \<Rightarrow> entry_error qDir bufferDir f)"

definition manifest_path :: "string \<Rightarrow> string" where
  "manifest_path qDir = Join qDir ''quarantine_manifest.json''"

text \<open>A pattern of the glob has no further special characters.\<close>

definition is_quarantine :: "string \<Rightarrow> string \<Rightarrow> bool" where
  "is_quarantine bufferDir q \<longleftrightarrow> (let p = Join bufferDir ''.migrator_quarantine_''
     in HasPrefix q p \<and> CHR ''/'' \<notin> set (drop (length p) q))"

definition glob_call :: "string \<Rightarrow> string list prog" where
  "glob_call bufferDir = sys_call (\<lambda>s. (Ret (filter (\<lambda>q. mg_fs s q \<noteq> None \<and> is_quarantine bufferDir q) (sort (remdups (mg_names s)))), s)) untouched"

subsection \<open>Recovery\<close>

text \<open>The verdict: the table, then its row.\<close>

definition read_verdict :: "string \<Rightarrow> bool prog" where
  "read_verdict ident = andThen (query g_verdicts) (\<lambda>t. case t of
     None \<Rightarrow> ret False
   | Some _ \<Rightarrow> andThen (query (\<lambda>db. case g_verdicts db of None \<Rightarrow> None | Some rows \<Rightarrow> map_of rows ident))
       (\<lambda>r. ret (r = Some ''COMMITTED'')))"

definition drop_quarantine :: "string \<Rightarrow> unit prog" where
  "drop_quarantine qDir = andThen (wrapped ''reconcile remove manifest'' (remove_call (manifest_path qDir)))
     (\<lambda>_. wrapped ''reconcile remove quarantine dir'' (remove_all_call qDir))"

definition purge_entry :: "QuarantineFileEntry \<Rightarrow> unit prog" where
  "purge_entry f = wrapped ''reconcile purge staged file'' (remove_call (qe_StagedPath f))"

text \<open>A copy that exists must be the one of the manifest.\<close>

definition check_copy :: "(string \<Rightarrow> string) \<Rightarrow> QuarantineFileEntry \<Rightarrow> string \<Rightarrow> node option \<Rightarrow> unit prog" where
  "check_copy sha256 f p r = (case r of None \<Rightarrow> ret ()
   | Some NDir \<Rightarrow> raise (''reconcile restore: size mismatch '' @ p)
   | Some (NFile c) \<Rightarrow> if int (length c) \<noteq> qe_Size f then raise (''reconcile restore: size mismatch '' @ p)
       else andThen (hash_call sha256 p) (\<lambda>h. if h \<noteq> qe_SHA256 f then raise (''reconcile restore: sha256 mismatch '' @ p) else ret ()))"

definition check_entry :: "(string \<Rightarrow> string) \<Rightarrow> QuarantineFileEntry \<Rightarrow> (bool \<times> bool) prog" where
  "check_entry sha256 f = andThen (stat_call (qe_StagedPath f)) (\<lambda>st. andThen (stat_call (qe_OriginalPath f)) (\<lambda>orig.
     if st = None \<and> orig = None then raise ''reconcile restore: file missing from both''
     else andThen (check_copy sha256 f (qe_StagedPath f) st) (\<lambda>_.
          andThen (check_copy sha256 f (qe_OriginalPath f) orig) (\<lambda>_. ret (st \<noteq> None, orig \<noteq> None)))))"

definition restore_entry :: "(string \<Rightarrow> string) \<Rightarrow> QuarantineFileEntry \<times> bool \<times> bool \<Rightarrow> unit prog" where
  "restore_entry sha256 = (\<lambda>(f, stagedExist, origExist).
     if stagedExist \<and> \<not> origExist
     then andThen (wrapped ''reconcile restore mkdir'' (mkdir_call (Dir (qe_OriginalPath f))))
            (\<lambda>_. wrapped ''reconcile restore durable move''
               (durableNoReplaceMove sha256 (qe_StagedPath f) (qe_OriginalPath f) (qe_Size f) (qe_SHA256 f)))
     else if stagedExist \<and> origExist
     then wrapped ''reconcile deduplicate remove staged'' (remove_call (qe_StagedPath f))
     else ret ())"

text \<open>An error of the first \<open>Stat\<close> counts as absence.\<close>

definition check_restored :: "QuarantineFileEntry \<Rightarrow> unit prog" where
  "check_restored f = andThen (catch (stat_call (qe_StagedPath f)) (\<lambda>e. ret None)) (\<lambda>st.
     if st \<noteq> None then raise ''staged file still present after restore''
     else andThen (stat_call (qe_OriginalPath f)) (\<lambda>r. case r of
       Some (NFile c) \<Rightarrow> if int (length c) \<noteq> qe_Size f then raise ''reconcile restore: original file size mismatch after restore'' else ret ()
     | _ \<Rightarrow> raise ''reconcile restore: original file does not exist after restore''))"

definition restore_all :: "(string \<Rightarrow> string) \<Rightarrow> QuarantineFileEntry list \<Rightarrow> (bool \<times> bool) list prog" where
  "restore_all sha256 files = andThen (map_prog (check_entry sha256) files) (\<lambda>plans.
     andThen (for_all (restore_entry sha256) (zip files plans)) (\<lambda>_.
     andThen (for_all check_restored files) (\<lambda>_. ret plans)))"

definition reconcile_manifest ::
  "(string \<Rightarrow> string) \<Rightarrow> bool \<Rightarrow> string \<Rightarrow> string \<Rightarrow> QuarantineManifest \<Rightarrow> ReconcileReport \<Rightarrow> ReconcileReport prog" where
  "reconcile_manifest sha256 dbOpen bufferDir qDir man rep =
     (case validateQuarantinePaths man qDir bufferDir of
        Some e \<Rightarrow> raise (''validate quarantine paths: '' @ e)
      | None \<Rightarrow>
          if \<not> dbOpen then raise ''cannot reconcile quarantine: database access failed''
          else andThen (read_verdict (qm_MigrationID man)) (\<lambda>isCommitted.
            if isCommitted
            then andThen (for_all purge_entry (qm_Files man)) (\<lambda>_. andThen (drop_quarantine qDir) (\<lambda>_.
                   ret (rep\<lparr>rr_CleanedFiles := rr_CleanedFiles rep @ map qe_OriginalPath (qm_Files man),
                            rr_CleanedDirs := rr_CleanedDirs rep @ [qDir]\<rparr>)))
            else andThen (restore_all sha256 (qm_Files man)) (\<lambda>plans. andThen (drop_quarantine qDir) (\<lambda>_.
                   ret (rep\<lparr>rr_RestoredFiles := rr_RestoredFiles rep @
                              map (qe_OriginalPath \<circ> fst) (filter (\<lambda>(f, st, orig). st) (zip (qm_Files man) plans)),
                            rr_CleanedDirs := rr_CleanedDirs rep @ [qDir]\<rparr>)))))"

definition reconcile_dir ::
  "(string \<Rightarrow> string) \<Rightarrow> (string \<Rightarrow> QuarantineManifest option) \<Rightarrow> bool \<Rightarrow> string \<Rightarrow> string \<Rightarrow> ReconcileReport \<Rightarrow> ReconcileReport prog" where
  "reconcile_dir sha256 unmarshal dbOpen bufferDir qDir rep =
     andThen (wrapped ''read quarantine manifest'' (read_call (manifest_path qDir))) (\<lambda>b. case b of
       None \<Rightarrow> andThen (wrapped ''read quarantine dir without manifest'' (readdir_call qDir)) (\<lambda>es.
         if es = [] then andThen (wrapped ''remove empty orphan quarantine dir'' (remove_call qDir))
             (\<lambda>_. ret (rep\<lparr>rr_CleanedDirs := rr_CleanedDirs rep @ [qDir]\<rparr>))
         else raise ''quarantine directory is non-empty but missing quarantine_manifest.json'')
     | Some bytes \<Rightarrow> (case unmarshal bytes of
         None \<Rightarrow> raise ''unmarshal quarantine manifest''
       | Some man \<Rightarrow> reconcile_manifest sha256 dbOpen bufferDir qDir man rep))"

fun reconcile_dirs ::
  "(string \<Rightarrow> string) \<Rightarrow> (string \<Rightarrow> QuarantineManifest option) \<Rightarrow> bool \<Rightarrow> string \<Rightarrow> string list \<Rightarrow> ReconcileReport \<Rightarrow> ReconcileReport prog" where
  "reconcile_dirs sha256 unmarshal dbOpen bufferDir [] rep = ret rep"
| "reconcile_dirs sha256 unmarshal dbOpen bufferDir (q # qs) rep =
     andThen (reconcile_dir sha256 unmarshal dbOpen bufferDir q rep) (\<lambda>rep1. reconcile_dirs sha256 unmarshal dbOpen bufferDir qs rep1)"

text \<open>The file of the database is examined and opened; both may fail.\<close>

definition open_db :: "string \<Rightarrow> bool prog" where
  "open_db dbPath = (if dbPath = [] then ret False
     else catch (andThen sync_call (\<lambda>_. andThen sync_call (\<lambda>_. ret True))) (\<lambda>e. ret False))"

definition ReconcilePendingQuarantines ::
  "(string \<Rightarrow> string) \<Rightarrow> (string \<Rightarrow> QuarantineManifest option) \<Rightarrow> string \<Rightarrow> string \<Rightarrow> ReconcileReport prog" where
  "ReconcilePendingQuarantines sha256 unmarshal dbPath bufferDir =
     (let empty = \<lparr>rr_QuarantineDirsScanned = 0, rr_RestoredFiles = [], rr_CleanedFiles = [], rr_CleanedDirs = []\<rparr>
      in if bufferDir = [] then ret empty
         else andThen (wrapped ''glob quarantine dirs'' (glob_call bufferDir)) (\<lambda>matches.
           if matches = [] then ret empty
           else andThen (open_db dbPath) (\<lambda>dbOpen.
             reconcile_dirs sha256 unmarshal dbOpen bufferDir matches (empty\<lparr>rr_QuarantineDirsScanned := length matches\<rparr>))))"

section \<open>The migration\<close>

datatype LegacyDisposition = DispositionImportSuccess | DispositionResetPending | DispositionQuarantine | DispositionAlreadyMigrated |
  DispositionTableDrop | DispositionBufferClean

record MigrationOptions =
  mo_DBPath :: string
  mo_TargetDir :: string
  mo_ArchiveDir :: string
  mo_BufferDir :: string
  mo_DryRun :: bool
  mo_CreateBackup :: bool
  mo_DropLegacyTables :: bool

record ItemReport =
  it_SourceTable :: string
  it_ChatID :: string
  it_MessageID :: int
  it_FileName :: string
  it_SavePath :: string
  it_Size :: int64
  it_SHA256 :: string
  it_LegacyState :: string
  it_Disposition :: LegacyDisposition

record MigrationReport =
  mr_LegacyTablesFound :: "string list"
  mr_TotalLegacyRows :: nat
  mr_ImportedSuccess :: nat
  mr_ResetPending :: nat
  mr_DroppedTables :: "string list"
  mr_PlannedCleanFiles :: "string list"
  mr_CleanedFiles :: "string list"
  mr_BackupPath :: string
  mr_Items :: "ItemReport list"

subsection \<open>Inventory\<close>

definition candidates :: "MigrationOptions \<Rightarrow> string \<Rightarrow> string list" where
  "candidates opts rel = (if mo_TargetDir opts \<noteq> [] then [Join (mo_TargetDir opts) (FromSlash rel)] else []) @
     (if mo_ArchiveDir opts \<noteq> [] then [Join (mo_ArchiveDir opts) (FromSlash rel)] else [])"

text \<open>Whether the first candidate that is a file has the size and the digest, as far as they are known.\<close>

fun verify_candidates :: "(string \<Rightarrow> string) \<Rightarrow> int64 \<Rightarrow> string \<Rightarrow> string list \<Rightarrow> (bool \<times> bool) prog" where
  "verify_candidates sha256 n h [] = ret (False, False)"
| "verify_candidates sha256 n h (cand # cs) =
     andThen (catch (stat_call cand) (\<lambda>e. ret None)) (\<lambda>r. case r of
       Some (NFile c) \<Rightarrow>
         if n > 0 \<and> int (length c) \<noteq> n then ret (True, False)
         else if h \<noteq> [] then catch (andThen (hash_call sha256 cand) (\<lambda>d. ret (True, ToLower d = ToLower h))) (\<lambda>e. ret (True, False))
         else ret (True, True)
     | _ \<Rightarrow> verify_candidates sha256 n h cs)"

definition verifyDiskFile :: "(string \<Rightarrow> string) \<Rightarrow> MigrationOptions \<Rightarrow> string \<Rightarrow> int64 \<Rightarrow> string \<Rightarrow> (bool \<times> bool) prog" where
  "verifyDiskFile sha256 opts rel n h = (if rel = [] then ret (False, False) else verify_candidates sha256 n h (candidates opts rel))"

definition legacy_status :: "rec_status \<Rightarrow> bool" where
  "legacy_status st \<longleftrightarrow> st \<in> {Moving, StOther ''segmenting'', StOther ''spooling'', StOther ''transferring''}"

definition legacy_rows :: "mig_db \<Rightarrow> (msg_key \<times> download_row) list" where
  "legacy_rows db = (case g_records db of None \<Rightarrow> [] | Some t \<Rightarrow> filter (\<lambda>(k, r). legacy_status (d_status r)) t)"

definition status_text :: "rec_status \<Rightarrow> string" where
  "status_text st = (case st of Pending \<Rightarrow> ''pending'' | Resolving \<Rightarrow> ''resolving'' | Moving \<Rightarrow> ''moving'' | Downloading \<Rightarrow> ''downloading''
     | Committing \<Rightarrow> ''committing'' | Success \<Rightarrow> ''success'' | Failed \<Rightarrow> ''failed'' | Unavailable \<Rightarrow> ''unavailable''
     | Conflict \<Rightarrow> ''conflict'' | StOther t \<Rightarrow> t)"

definition key_text :: "msg_key \<Rightarrow> string" where
  "key_text k = fst k @ '':'' @ show_int (snd k)"

definition commit_item :: "(string \<Rightarrow> string) \<Rightarrow> MigrationOptions \<Rightarrow> commit_entry \<Rightarrow> ItemReport prog" where
  "commit_item sha256 opts c = andThen (verifyDiskFile sha256 opts (ce_savePath c) (ce_fileSize c) (ce_sha256 c)) (\<lambda>(ex, valid).
     ret \<lparr>it_SourceTable = ''target_commits'', it_ChatID = fst (ce_key c), it_MessageID = snd (ce_key c), it_FileName = [],
       it_SavePath = ce_savePath c, it_Size = ce_fileSize c, it_SHA256 = ce_sha256 c, it_LegacyState = ''committed'',
       it_Disposition = (if ex \<and> valid then DispositionImportSuccess else DispositionResetPending)\<rparr>)"

definition attempt_item :: "attempt_entry \<Rightarrow> ItemReport" where
  "attempt_item a = \<lparr>it_SourceTable = ''spool_attempts'', it_ChatID = fst (ae_key a), it_MessageID = snd (ae_key a), it_FileName = [],
     it_SavePath = [], it_Size = 0, it_SHA256 = [], it_LegacyState = ae_state a, it_Disposition = DispositionResetPending\<rparr>"

definition record_item :: "(string \<Rightarrow> string) \<Rightarrow> MigrationOptions \<Rightarrow> msg_key \<times> download_row \<Rightarrow> ItemReport prog" where
  "record_item sha256 opts = (\<lambda>(k, r).
     let path = coalesce (d_save_path r) []; n = coalesce (d_file_size r) 0; h = coalesce (d_sha256 r) []
     in andThen (verifyDiskFile sha256 opts path n h) (\<lambda>(ex, valid).
       ret \<lparr>it_SourceTable = ''download_records'', it_ChatID = fst k, it_MessageID = snd k, it_FileName = coalesce (d_file_name r) [],
         it_SavePath = path, it_Size = n, it_SHA256 = h, it_LegacyState = status_text (d_status r),
         it_Disposition = (if ex \<and> valid \<and> n > 0 then DispositionImportSuccess else DispositionResetPending)\<rparr>))"

definition buffer_item :: "string \<times> int64 \<Rightarrow> ItemReport" where
  "buffer_item = (\<lambda>(p, n). \<lparr>it_SourceTable = ''buffer_filesystem'', it_ChatID = [], it_MessageID = 0, it_FileName = [], it_SavePath = p,
     it_Size = n, it_SHA256 = [], it_LegacyState = [], it_Disposition = DispositionBufferClean\<rparr>)"

definition is_artifact :: "string \<Rightarrow> bool" where
  "is_artifact name \<longleftrightarrow> HasSuffix name ''.spool'' \<or> HasSuffix name ''.part'' \<or> Contains name ''segment''"

text \<open>The walk visits the files strictly below the directory, each directory in the order of its names.\<close>

definition walk_call :: "string \<Rightarrow> (string \<times> int64) list prog" where
  "walk_call bufferDir = sys_call (\<lambda>s. (Ret (concat (map (\<lambda>p. case mg_fs s p of
       Some (NFile c) \<Rightarrow> if isStrictSubpath bufferDir p \<and> is_artifact (Base p) then [(p, int (length c))] else []
     | _ \<Rightarrow> []) (sort_key split_slash (remdups (mg_names s))))), s)) untouched"

definition buffer_files :: "string \<Rightarrow> (string \<times> int64) list prog" where
  "buffer_files bufferDir = (if bufferDir = [] then ret []
     else andThen (wrapped ''stat buffer directory'' (stat_call (Clean bufferDir))) (\<lambda>r.
       if r = Some NDir then wrapped ''inspect buffer directory'' (walk_call bufferDir) else ret []))"

definition has_table :: "string \<Rightarrow> mig_db \<Rightarrow> bool" where
  "has_table tbl db = (if tbl = ''target_commits'' then g_commits db \<noteq> None else if tbl = ''spool_attempts'' then g_attempts db \<noteq> None
     else if tbl = ''spool_segments'' then g_segments db else if tbl = ''spool_cleanup'' then g_cleanup db
     else tbl = ''download_records'' \<and> g_records db \<noteq> None)"

definition legacyTableCandidates :: "string list" where
  "legacyTableCandidates = [''target_commits'', ''spool_attempts'', ''spool_segments'', ''spool_cleanup'']"

definition table_exists :: "string \<Rightarrow> bool prog" where
  "table_exists tbl = wrapped (''check legacy table '' @ tbl) (query (has_table tbl))"

text \<open>The rows of a table are read when it exists.\<close>

definition read_rows :: "bool \<Rightarrow> string \<Rightarrow> (mig_db \<Rightarrow> 'a list) \<Rightarrow> 'a list prog" where
  "read_rows present msg f = (if present then wrapped msg (query f) else ret [])"

definition dispositions :: "LegacyDisposition \<Rightarrow> ItemReport list \<Rightarrow> nat" where
  "dispositions d is = length (filter (\<lambda>i. it_Disposition i = d) is)"

text \<open>The items of the rows: a message with a row in \<open>target_commits\<close> is handled by it alone.\<close>

definition row_items ::
  "(string \<Rightarrow> string) \<Rightarrow> MigrationOptions \<Rightarrow> commit_entry list \<Rightarrow> attempt_entry list \<Rightarrow> (msg_key \<times> download_row) list \<Rightarrow> ItemReport list prog" where
  "row_items sha256 opts commits attempts recs =
     (let committedKeys = map (key_text \<circ> ce_key) commits
      in andThen (map_prog (commit_item sha256 opts) commits) (\<lambda>citems.
         andThen (map_prog (record_item sha256 opts) (filter (\<lambda>(k, r). key_text k \<notin> set committedKeys) recs)) (\<lambda>ritems.
           ret (citems @ map attempt_item (filter (\<lambda>a. key_text (ae_key a) \<notin> set committedKeys) attempts) @ ritems))))"

definition inventory :: "(string \<Rightarrow> string) \<Rightarrow> MigrationOptions \<Rightarrow> MigrationReport prog" where
  "inventory sha256 opts =
     andThen (map_prog table_exists legacyTableCandidates) (\<lambda>found.
     let tables = map fst (filter snd (zip legacyTableCandidates found))
     in andThen (table_exists ''download_records'') (\<lambda>drExists.
     andThen (read_rows (''target_commits'' \<in> set tables) ''query target_commits'' (\<lambda>db. coalesce (g_commits db) [])) (\<lambda>commits.
     andThen (read_rows (''spool_attempts'' \<in> set tables) ''query spool_attempts'' (\<lambda>db. coalesce (g_attempts db) [])) (\<lambda>attempts.
     andThen (read_rows drExists ''query legacy download_records'' legacy_rows) (\<lambda>recs.
     andThen (row_items sha256 opts commits attempts recs) (\<lambda>items.
     andThen (buffer_files (mo_BufferDir opts)) (\<lambda>files.
       ret \<lparr>mr_LegacyTablesFound = tables, mr_TotalLegacyRows = length commits + length attempts + length recs,
          mr_ImportedSuccess = dispositions DispositionImportSuccess items,
          mr_ResetPending = dispositions DispositionResetPending items, mr_DroppedTables = [],
          mr_PlannedCleanFiles = map fst files, mr_CleanedFiles = [], mr_BackupPath = [], mr_Items = items @ map buffer_item files\<rparr>)))))))"

subsection \<open>Backup\<close>

text \<open>Opening and creating, copying, syncing, closing, opening the copy and checking it.\<close>

definition createVerifiedBackup :: "string \<Rightarrow> string \<Rightarrow> string prog" where
  "createVerifiedBackup dbPath timestamp = (let backupPath = dbPath @ ''.migrate.'' @ timestamp @ ''.bak'' in
     andThen (wrapped ''open src db'' sync_call) (\<lambda>_.
     andThen (wrapped ''create dst backup'' sync_call) (\<lambda>_.
     andThen (wrapped ''copy db'' (sys_call (\<lambda>s. (Ret (), s\<lparr>mg_backups := (backupPath, mg_db s) # mg_backups s\<rparr>)) untouched)) (\<lambda>_.
     andThen (wrapped ''sync dst backup'' sync_call) (\<lambda>_.
     andThen (wrapped ''close dst backup'' sync_call) (\<lambda>_.
     andThen (wrapped ''open backup for verification'' sync_call) (\<lambda>_.
     andThen (wrapped ''backup integrity check failed'' sync_call) (\<lambda>_. ret backupPath))))))))"

subsection \<open>The transaction\<close>

definition import_success :: "int64 \<Rightarrow> ItemReport \<Rightarrow> (msg_key, download_row) table \<Rightarrow> (msg_key, download_row) table" where
  "import_success now i t = tab_upsert (it_ChatID i, it_MessageID i)
     ((new_download Success now)\<lparr>d_file_name := Some (Base (it_SavePath i)), d_save_path := Some (it_SavePath i), d_media_type := Some [],
        d_file_size := Some (it_Size i), d_sha256 := Some (it_SHA256 i), d_downloaded_at := Some now\<rparr>)
     (\<lambda>r. if d_status r = StOther ''archived'' then r
        else r\<lparr>d_status := Success, d_save_path := Some (it_SavePath i), d_file_size := Some (it_Size i), d_sha256 := Some (it_SHA256 i),
               d_updated_at := now\<rparr>) t"

definition reset_record :: "int64 \<Rightarrow> ItemReport \<Rightarrow> (msg_key, download_row) table \<Rightarrow> (msg_key, download_row) table" where
  "reset_record now i t = tab_upsert (it_ChatID i, it_MessageID i)
     ((new_download Pending now)\<lparr>d_file_name := Some (Base (it_SavePath i)), d_save_path := Some (it_SavePath i), d_media_type := Some [],
        d_file_size := Some (it_Size i), d_error := Some ''legacy_incomplete_reset''\<rparr>)
     (\<lambda>r. if d_status r = Success \<or> d_status r = StOther ''archived'' then r
        else r\<lparr>d_status := Pending, d_error := Some ''legacy_incomplete_reset'', d_updated_at := now\<rparr>) t"

definition apply_item :: "int64 \<Rightarrow> ItemReport \<Rightarrow> mig_db \<Rightarrow> mig_db" where
  "apply_item now i db = (let t = coalesce (g_records db) [] in case it_Disposition i of
     DispositionImportSuccess \<Rightarrow> db\<lparr>g_records := Some (import_success now i t)\<rparr>
   | DispositionResetPending \<Rightarrow> db\<lparr>g_records := Some (reset_record now i t)\<rparr>
   | _ \<Rightarrow> db)"

text \<open>The table with its columns; the statements that add a column are ignored when the column exists.\<close>

definition ensure_records :: "mig_db \<Rightarrow> mig_db prog" where
  "ensure_records tx = andThen (wrapped ''ensure download_records'' (exec_tx (\<lambda>db. db\<lparr>g_records := Some (coalesce (g_records db) [])\<rparr>) tx)) (\<lambda>tx1.
     andThen (for_all (\<lambda>col. ignore sync_call) [''error'', ''media_type'', ''attempt_generation'', ''downloaded_at'', ''processing_started_at''])
       (\<lambda>_. ret tx1))"

text \<open>The dispositions that have a statement.\<close>

definition applied :: "LegacyDisposition \<Rightarrow> bool" where
  "applied d \<longleftrightarrow> d = DispositionImportSuccess \<or> d = DispositionResetPending"

fun apply_items :: "int64 \<Rightarrow> ItemReport list \<Rightarrow> mig_db \<Rightarrow> mig_db prog" where
  "apply_items now [] tx = ret tx"
| "apply_items now (i # is) tx = andThen
     (if applied (it_Disposition i) then wrapped ''apply item'' (exec_tx (apply_item now i) tx) else ret tx) (apply_items now is)"

definition staged_entry :: "(string \<Rightarrow> string) \<Rightarrow> string \<Rightarrow> nat \<times> string \<Rightarrow> QuarantineFileEntry prog" where
  "staged_entry sha256 qDir = (\<lambda>(idx, p).
     let name = ''staged_'' @ show_int (int idx) @ ''_'' @ Base p
     in andThen (wrapped ''stat planned buffer file'' (stat_call p)) (\<lambda>r. case r of
          Some (NFile c) \<Rightarrow> andThen (wrapped ''hash planned buffer file'' (hash_call sha256 p)) (\<lambda>h.
            ret \<lparr>qe_OriginalPath = p, qe_StagedName = name, qe_StagedPath = Join qDir name, qe_Size = int (length c), qe_SHA256 = h\<rparr>)
        | _ \<Rightarrow> raise (''stat planned buffer file '' @ p)))"

definition write_manifest :: "(QuarantineManifest \<Rightarrow> string) \<Rightarrow> string \<Rightarrow> QuarantineManifest \<Rightarrow> unit prog" where
  "write_manifest marshal qDir man =
     andThen (wrapped ''create quarantine manifest'' (create_call False (manifest_path qDir))) (\<lambda>_.
     andThen (wrapped ''write quarantine manifest'' (write_call (manifest_path qDir) (marshal man))) (\<lambda>_.
     andThen (wrapped ''fsync quarantine manifest file'' sync_call) (\<lambda>_.
     andThen (wrapped ''close quarantine manifest file'' sync_call) (\<lambda>_. wrapped ''fsync quarantine directory'' sync_dir))))"

definition stage_entry :: "(string \<Rightarrow> string) \<Rightarrow> QuarantineFileEntry \<Rightarrow> unit prog" where
  "stage_entry sha256 f = andThen (wrapped ''stat buffer file before staging'' (stat_call (qe_OriginalPath f))) (\<lambda>r.
     if r = None then raise ''stat buffer file before staging''
     else wrapped ''stage buffer file to quarantine''
       (durableNoReplaceMove sha256 (qe_OriginalPath f) (qe_StagedPath f) (qe_Size f) (qe_SHA256 f)))"

definition stage_files ::
  "(string \<Rightarrow> string) \<Rightarrow> (QuarantineManifest \<Rightarrow> string) \<Rightarrow> string \<Rightarrow> string \<Rightarrow> int64 \<Rightarrow> string list \<Rightarrow> QuarantineFileEntry list prog" where
  "stage_files sha256 marshal qDir ident now planned =
     andThen (wrapped ''create quarantine directory'' (mkdir_call qDir)) (\<lambda>_.
     andThen (map_prog (staged_entry sha256 qDir) (enumerate 0 planned)) (\<lambda>staged.
     andThen (write_manifest marshal qDir \<lparr>qm_MigrationID = ident, qm_QuarantineDir = qDir, qm_CreatedAt = now, qm_Files = staged\<rparr>) (\<lambda>_.
     andThen (for_all (stage_entry sha256) staged) (\<lambda>_. ret staged))))"

definition drop_table :: "string \<Rightarrow> mig_db \<Rightarrow> mig_db" where
  "drop_table tbl db = (if tbl = ''target_commits'' then db\<lparr>g_commits := None\<rparr> else if tbl = ''spool_attempts'' then db\<lparr>g_attempts := None\<rparr>
     else if tbl = ''spool_segments'' then db\<lparr>g_segments := False\<rparr> else if tbl = ''spool_cleanup'' then db\<lparr>g_cleanup := False\<rparr> else db)"

fun drop_tables :: "string list \<Rightarrow> mig_db \<Rightarrow> mig_db prog" where
  "drop_tables [] tx = ret tx"
| "drop_tables (t # ts) tx = andThen (wrapped ''drop legacy table'' (exec_tx (drop_table t) tx)) (drop_tables ts)"

definition ensure_verdicts :: "mig_db \<Rightarrow> mig_db" where
  "ensure_verdicts db = db\<lparr>g_verdicts := Some (coalesce (g_verdicts db) [])\<rparr>"

text \<open>The identifier is the primary key.\<close>

definition insert_verdict :: "string \<Rightarrow> mig_db \<Rightarrow> mig_db prog" where
  "insert_verdict ident tx = (if ident \<in> fst ` set (coalesce (g_verdicts tx) []) then raise ''insert migration verdict''
     else wrapped ''insert migration verdict''
       (exec_tx (\<lambda>db. db\<lparr>g_verdicts := Some (coalesce (g_verdicts db) [] @ [(ident, ''COMMITTED'')])\<rparr>) tx))"

text \<open>The rest of the transaction after staging.\<close>

definition finish_tx :: "MigrationOptions \<Rightarrow> string list \<Rightarrow> string option \<Rightarrow> mig_db \<Rightarrow> unit prog" where
  "finish_tx opts tables ident tx =
     andThen (if mo_DropLegacyTables opts then drop_tables tables tx else ret tx) (\<lambda>tx1.
     andThen (wrapped ''ensure migration verdicts table'' (exec_tx ensure_verdicts tx1)) (\<lambda>tx2.
     andThen (case ident of None \<Rightarrow> ret tx2 | Some i \<Rightarrow> insert_verdict i tx2) (\<lambda>tx3.
     wrapped ''commit migration transaction'' (commit_call tx3))))"

text \<open>After an error before the commit: the transaction is rolled back and the quarantine is recovered.\<close>

definition recover_on_error ::
  "(string \<Rightarrow> string) \<Rightarrow> (string \<Rightarrow> QuarantineManifest option) \<Rightarrow> MigrationOptions \<Rightarrow> 'a prog \<Rightarrow> 'a prog" where
  "recover_on_error sha256 unmarshal opts m = catch m (\<lambda>e.
     andThen (catch (andThen (ReconcilePendingQuarantines sha256 unmarshal (mo_DBPath opts) (mo_BufferDir opts)) (\<lambda>_. ret []))
        (\<lambda>e2. ret (''; reconcile pending quarantines error: '' @ e2))) (\<lambda>more. raise (e @ more)))"

text \<open>After the commit.\<close>

definition finalize_entry :: "QuarantineFileEntry \<Rightarrow> unit prog" where
  "finalize_entry f = wrapped ''finalize removal of staged file'' (remove_call (qe_StagedPath f))"

definition finalize :: "string \<Rightarrow> QuarantineFileEntry list \<Rightarrow> unit prog" where
  "finalize qDir staged = andThen (for_all finalize_entry staged) (\<lambda>_.
     andThen (wrapped ''finalize removal of quarantine manifest'' (remove_call (manifest_path qDir))) (\<lambda>_.
     wrapped ''finalize removal of quarantine dir'' (remove_all_call qDir)))"

definition quarantine_dir :: "MigrationOptions \<Rightarrow> int64 \<Rightarrow> string" where
  "quarantine_dir opts now = Join (mo_BufferDir opts) (''.migrator_quarantine_'' @ show_int now)"

definition migration_id :: "int64 \<Rightarrow> int \<Rightarrow> string" where
  "migration_id now pid = ''mig_'' @ show_int now @ ''_'' @ show_int pid"

definition mutate ::
  "(string \<Rightarrow> string) \<Rightarrow> (QuarantineManifest \<Rightarrow> string) \<Rightarrow> (string \<Rightarrow> QuarantineManifest option) \<Rightarrow> MigrationOptions \<Rightarrow> int64 \<Rightarrow> int \<Rightarrow>
    MigrationReport \<Rightarrow> MigrationReport prog" where
  "mutate sha256 marshal unmarshal opts now pid rep =
     andThen (wrapped ''begin transaction'' (query (\<lambda>db. db))) (\<lambda>tx0.
     andThen (ensure_records tx0) (\<lambda>tx1.
     andThen (apply_items now (mr_Items rep) tx1) (\<lambda>tx2.
     let planned = mr_PlannedCleanFiles rep; qDir = quarantine_dir opts now; ident = migration_id now pid;
         dropped = (if mo_DropLegacyTables opts then mr_LegacyTablesFound rep else [])
     in if planned \<noteq> [] \<and> mo_BufferDir opts \<noteq> []
        then andThen (recover_on_error sha256 unmarshal opts
               (andThen (stage_files sha256 marshal qDir ident now planned) (\<lambda>staged.
                andThen (finish_tx opts (mr_LegacyTablesFound rep) (Some ident) tx2) (\<lambda>_. ret staged)))) (\<lambda>staged.
             andThen (finalize qDir staged) (\<lambda>_.
               ret (rep\<lparr>mr_DroppedTables := dropped, mr_CleanedFiles := map qe_OriginalPath staged\<rparr>)))
        else andThen (finish_tx opts (mr_LegacyTablesFound rep) None tx2) (\<lambda>_. ret (rep\<lparr>mr_DroppedTables := dropped\<rparr>)))))"

text \<open>Of the errors of \<open>Stat\<close> only the missing file ends the run.\<close>

definition stat_db :: "unit prog" where
  "stat_db = catch sync_call (\<lambda>e. if e = ''file does not exist'' then raise ''database file does not exist'' else ret ())"

text \<open>\<open>now\<close>, \<open>pid\<close> and \<open>timestamp\<close> are the clock reading, the process number and the formatted time of the backup.\<close>

definition Run ::
  "(string \<Rightarrow> string) \<Rightarrow> (QuarantineManifest \<Rightarrow> string) \<Rightarrow> (string \<Rightarrow> QuarantineManifest option) \<Rightarrow> MigrationOptions \<Rightarrow> int64 \<Rightarrow> int \<Rightarrow> string \<Rightarrow>
    MigrationReport prog" where
  "Run sha256 marshal unmarshal opts now pid timestamp =
     (if mo_DBPath opts = [] then raise ''db-path must be specified''
      else andThen stat_db (\<lambda>_.
        andThen (if mo_BufferDir opts \<noteq> [] \<and> \<not> mo_DryRun opts
                 then wrapped ''reconcile pending quarantines''
                   (andThen (ReconcilePendingQuarantines sha256 unmarshal (mo_DBPath opts) (mo_BufferDir opts)) (\<lambda>_. ret ()))
                 else ret ()) (\<lambda>_.
        andThen (wrapped ''open sqlite'' sync_call) (\<lambda>_.
        andThen (inventory sha256 opts) (\<lambda>rep.
        if mo_DryRun opts then ret rep
        else andThen (if mo_CreateBackup opts \<and> mr_TotalLegacyRows rep > 0
                      then wrapped ''create verified backup'' (createVerifiedBackup (mo_DBPath opts) timestamp) else ret []) (\<lambda>backup.
             mutate sha256 marshal unmarshal opts now pid (rep\<lparr>mr_BackupPath := backup\<rparr>)))))))"

end
