(* ===== verification/Spool_Moves.thy ===== *)
theory Spool_Moves
  imports Spool_Migration
begin

text \<open>The durable move of \<open>app/daemon/migration/spool_migrator.go\<close> under faults and crashes.\<close>

lemma v_glob: "valid v (at G D) (glob_call b)
    (\<lambda>qs s. distinct qs \<and> (\<forall>q. q \<in> set qs \<longleftrightarrow> G q \<noteq> None \<and> is_quarantine b q) \<and> at G D s) (stuck v (at G D))"
  unfolding glob_call_def
  by (rule valid_sys) (auto simp: call_simps at_def)

section \<open>The durable move\<close>

lemma v_expected_size:
  assumes "G src = Some (NFile c)"
  shows "valid v (at G D) (expected_size src n) (\<lambda>m s. (m = n \<or> m = int (length c)) \<and> at G D s) (stuck v (at G D))"
proof (cases "n \<le> 0")
  case True
  have "valid v (at G D) (andThen (stat_call src) (\<lambda>r. ret (case r of Some (NFile c) \<Rightarrow> int (length c) | _ \<Rightarrow> n)))
      (\<lambda>m s. (m = n \<or> m = int (length c)) \<and> at G D s) (stuck v (at G D))"
    by (rule valid_andThen [OF v_stat]) (use assms in \<open>auto intro: valid_ret\<close>)
  from valid_default [OF this, of n] True show ?thesis by (simp add: expected_size_def stuck_def)
qed (auto simp: expected_size_def intro: valid_ret)

lemma v_expected_sha:
  assumes "G src = Some (NFile c)"
  shows "valid v (at G D) (expected_sha h src x) (\<lambda>m s. (m = x \<or> m = h c \<or> m = []) \<and> at G D s) (stuck v (at G D))"
proof (cases "x = []")
  case True
  from v_hash [of G src c v D h, OF assms] have "valid v (at G D) (hash_call h src) (\<lambda>m s. (m = x \<or> m = h c \<or> m = []) \<and> at G D s) (stuck v (at G D))"
    by (rule valid_post) auto
  from valid_default [OF this, of "[]"] True show ?thesis by (simp add: expected_sha_def stuck_def)
qed (auto simp: expected_sha_def intro: valid_ret)

text \<open>The states in which an interrupted move leaves the files: not begun, the destination in part, or finished.\<close>

definition half_moved :: "fs \<Rightarrow> string \<Rightarrow> string \<Rightarrow> string \<Rightarrow> fs \<Rightarrow> bool" where
  "half_moved G src dst c H \<longleftrightarrow> H = G \<or> G dst = None \<and> (H = G(src := None, dst \<mapsto> NFile c) \<or> (\<exists>k. H = G(dst \<mapsto> NFile (take k c))))"

definition half_at :: "fs \<Rightarrow> mig_db \<Rightarrow> string \<Rightarrow> string \<Rightarrow> string \<Rightarrow> mig \<Rightarrow> bool" where
  "half_at G D src dst c s \<longleftrightarrow> (\<exists>H. half_moved G src dst c H \<and> at H D s)"

lemma half_at_copy: "G dst = None \<Longrightarrow> at (G(dst \<mapsto> NFile (take k c))) D s \<Longrightarrow> half_at G D src dst c s"
  unfolding half_at_def half_moved_def by blast

lemma half_at_full: "G dst = None \<Longrightarrow> at (G(dst \<mapsto> NFile c)) D s \<Longrightarrow> half_at G D src dst c s"
  using half_at_copy [of G dst "length c" c] by simp

lemma half_at_start: "at G D s \<Longrightarrow> half_at G D src dst c s"
  unfolding half_at_def half_moved_def by blast

text \<open>After an error the destination is removed again.\<close>

lemma v_undo:
  assumes "G dst = None"
  shows "valid v (at (G(dst \<mapsto> NFile (take k c))) D) (remove_call dst) (\<lambda>_. half_at G D src dst c) (half_at G D src dst c)"
proof (rule valid_post [OF v_remove])
  show "half_at G D src dst c s" if "at ((G(dst \<mapsto> NFile (take k c)))(dst := None)) D s" for s
    using that assms by (intro half_at_start) (simp add: fun_upd_idem)
qed (auto dest!: stuckD half_at_copy [of G dst k c D _ src, OF assms])

lemma v_guard:
  assumes "G dst = None" and "valid v (at (G(dst \<mapsto> NFile (take k c))) D) m Q (stuck v (\<lambda>s. \<exists>j. at (G(dst \<mapsto> NFile (take j c))) D s))"
  shows "valid v (at (G(dst \<mapsto> NFile (take k c))) D) (on_error m (remove_call dst)) Q (stuck v (half_at G D src dst c))"
proof (rule valid_on_error [OF assms(2)])
  show "valid v (stuck v (\<lambda>s. \<exists>j. at (G(dst \<mapsto> NFile (take j c))) D s)) (remove_call dst)
      (\<lambda>_. stuck v (half_at G D src dst c)) (stuck v (half_at G D src dst c))"
    unfolding stuck_def
    by (rule valid_fact, rule valid_ex, rule valid_post [OF v_undo [of G dst v _ c D src, OF assms(1)]]) auto
  show "stuck v (half_at G D src dst c) s" if "stuck v (\<lambda>s. \<exists>j. at (G(dst \<mapsto> NFile (take j c))) D s) s" for s
    using that half_at_copy [of G dst _ c D _ src, OF assms(1)] by (auto simp: stuck_def)
qed

lemma v_sync_dir: "valid v (at G D) sync_dir (\<lambda>_. at G D) (stuck v (at G D))"
  unfolding sync_dir_def by (intro valid_andThen [OF v_sync] v_sync)

text \<open>The guarded steps after the destination was created.\<close>

lemma v_guard_same:
  assumes "G dst = None" and "valid v (at (G(dst \<mapsto> NFile (take k c))) D) m Q (stuck v (at (G(dst \<mapsto> NFile (take k c))) D))"
  shows "valid v (at (G(dst \<mapsto> NFile (take k c))) D) (on_error m (remove_call dst)) Q (stuck v (half_at G D src dst c))"
  by (rule v_guard [of G dst, OF assms(1)], rule valid_post [OF assms(2)]) (auto simp: stuck_def)

lemma v_guard_full:
  assumes "G dst = None" and "valid v (at (G(dst \<mapsto> NFile c)) D) m Q (stuck v (at (G(dst \<mapsto> NFile c)) D))"
  shows "valid v (at (G(dst \<mapsto> NFile c)) D) (on_error m (remove_call dst)) Q (stuck v (half_at G D src dst c))"
  using v_guard_same [of G dst v "length c" c D m Q src] assms by simp

lemma v_copy_file:
  assumes src: "G src = Some (NFile c)" "src \<noteq> dst"
  shows "valid v (at G D) (copy_file src dst) (\<lambda>_ s. G dst = None \<and> at (G(dst \<mapsto> NFile c)) D s)
      (\<lambda>s. (faultless v \<longrightarrow> G dst \<noteq> None) \<and> half_at G D src dst c s)"
proof -
  let ?S = "stuck v (half_at G D src dst c)"
  let ?I = "at (G(dst \<mapsto> NFile [])) D" and ?F = "at (G(dst \<mapsto> NFile c)) D"
  let ?R = "\<lambda>s. (faultless v \<longrightarrow> G dst \<noteq> None) \<and> half_at G D src dst c s"
  have body: "valid v ?I (andThen (on_error (open_call src) (remove_call dst)) (\<lambda>c.
       andThen (on_error (write_call dst c) (remove_call dst)) (\<lambda>_.
       andThen (on_error sync_call (remove_call dst)) (\<lambda>_. on_error sync_call (remove_call dst))))) (\<lambda>_. ?F) ?S"
    if N: "G dst = None"
  proof (rule valid_andThen)
    have "valid v ?I (open_call src) (\<lambda>r s. r = c \<and> ?I s) (stuck v ?I)"
      using src by (intro v_open) simp
    then show "valid v ?I (on_error (open_call src) (remove_call dst)) (\<lambda>r s. r = c \<and> ?I s) ?S"
      using v_guard_same [of G dst v 0 c D "open_call src" "\<lambda>r s. r = c \<and> ?I s" src] N by simp
  next
    fix r
    have "valid v ?I (write_call dst c) (\<lambda>_. ?F) (stuck v (\<lambda>s. \<exists>j. at (G(dst \<mapsto> NFile (take j c))) D s))"
      using v_write [of v "G(dst \<mapsto> NFile [])" D dst c] by (simp add: stuck_def [abs_def])
    then have w: "valid v ?I (on_error (write_call dst c) (remove_call dst)) (\<lambda>_. ?F) ?S"
      using v_guard [of G dst v 0 c D "write_call dst c" "\<lambda>_. ?F" src] N by simp
    have f: "valid v ?F (on_error sync_call (remove_call dst)) (\<lambda>_. ?F) ?S"
      by (rule v_guard_full [of G dst, OF N v_sync])
    show "valid v (\<lambda>s. r = c \<and> ?I s) (andThen (on_error (write_call dst r) (remove_call dst)) (\<lambda>_.
       andThen (on_error sync_call (remove_call dst)) (\<lambda>_. on_error sync_call (remove_call dst)))) (\<lambda>_. ?F) ?S"
      by (rule valid_fact) (simp, intro valid_andThen [OF w] valid_andThen [OF f] f)
  qed
  have new: "valid v (at G D) (create_call True dst) (\<lambda>_ s. G dst = None \<and> ?I s) ?R"
    by (rule valid_post [OF v_create_excl]) (simp_all add: half_at_start)
  show ?thesis unfolding copy_file_def
  proof (rule valid_andThen [OF new])
    fix x :: unit
    show "valid v (\<lambda>s. G dst = None \<and> ?I s) (andThen (on_error (open_call src) (remove_call dst)) (\<lambda>c.
       andThen (on_error (write_call dst c) (remove_call dst)) (\<lambda>_.
       andThen (on_error sync_call (remove_call dst)) (\<lambda>_. on_error sync_call (remove_call dst)))))
       (\<lambda>_ s. G dst = None \<and> ?F s) ?R"
      by (rule valid_fact, rule valid_post [OF body]) (auto simp: stuck_def)
  qed
qed

lemma v_verify:
  assumes "G dst = Some (NFile c)" and "n = int (length c) \<or> n \<le> 0" and "x = h c \<or> x = []"
  shows "valid v (at G D) (verify_dst h dst n x) (\<lambda>_. at G D) (stuck v (at G D))"
  unfolding verify_dst_def
proof (rule valid_andThen [OF v_stat], rule valid_fact)
  fix r assume r: "r = G dst"
  have "valid v (at G D) (andThen (hash_call h dst) (\<lambda>d. if d \<noteq> x then raise (''verify dst sha mismatch on '' @ dst) else ret ()))
      (\<lambda>_. at G D) (stuck v (at G D))" if "x \<noteq> []"
    by (rule valid_andThen [OF v_hash [of G dst c v D h, OF assms(1)]], rule valid_fact) (use assms that in \<open>auto intro: valid_ret\<close>)
  then show "valid v (at G D) (case r of None \<Rightarrow> raise (''verify dst stat '' @ dst)
     | Some (NFile c) \<Rightarrow> if n > 0 \<and> int (length c) \<noteq> n then raise (''verify dst size mismatch on '' @ dst)
       else if x \<noteq> [] then andThen (hash_call h dst) (\<lambda>d. if d \<noteq> x then raise (''verify dst sha mismatch on '' @ dst) else ret ())
       else ret ()
     | Some NDir \<Rightarrow> raise (''verify dst sha compute '' @ dst)) (\<lambda>_. at G D) (stuck v (at G D))"
    using r assms by (auto intro: valid_ret)
qed

text \<open>
  The move under any faults: the file is at its old name until the copy at the new name is whole, an existing file at the new name is
  left alone, and no other file changes. In a faultless environment only an existing file stops it.
\<close>

lemma v_move:
  assumes src: "G src = Some (NFile c)" "src \<noteq> dst" and nh: "n = int (length c) \<or> n \<le> 0" "x = h c \<or> x = []"
  shows "valid v (at G D) (durableNoReplaceMove h src dst n x) (\<lambda>_ s. G dst = None \<and> at (G(src := None, dst \<mapsto> NFile c)) D s)
      (\<lambda>s. (faultless v \<longrightarrow> G dst \<noteq> None) \<and> half_at G D src dst c s)"
proof -
  let ?F = "at (G(dst \<mapsto> NFile c)) D" and ?S = "stuck v (half_at G D src dst c)"
  let ?R = "\<lambda>s. (faultless v \<longrightarrow> G dst \<noteq> None) \<and> half_at G D src dst c s"
  have weak: "valid v P m Q ?R" if "valid v P m Q (stuck v (at G D))" for P Q and m :: "'z prog"
    by (rule valid_post [OF that]) (auto simp: stuck_def half_at_start)
  have new: "valid v (at G D) (andThen (link_call src dst) (\<lambda>l. case l of
         Linked \<Rightarrow> ret () | LinkExists \<Rightarrow> raise (''link '' @ dst @ '': file exists'') | LinkFailed \<Rightarrow> copy_file src dst))
      (\<lambda>_ s. G dst = None \<and> ?F s) ?R"
  proof (rule valid_andThen [OF weak [OF v_link [of G src c, OF src(1)]]])
    fix l
    show "valid v (\<lambda>s. case l of Linked \<Rightarrow> G dst = None \<and> ?F s | LinkExists \<Rightarrow> G dst \<noteq> None \<and> at G D s
        | LinkFailed \<Rightarrow> \<not> faultless v \<and> at G D s)
      (case l of Linked \<Rightarrow> ret () | LinkExists \<Rightarrow> raise (''link '' @ dst @ '': file exists'') | LinkFailed \<Rightarrow> copy_file src dst)
      (\<lambda>_ s. G dst = None \<and> ?F s) ?R"
    proof (cases l)
      case LinkFailed
      then show ?thesis
        by (simp only: link_result.case) (rule valid_pre [OF v_copy_file [of G src c, OF src]], simp)
    qed (auto intro!: valid_ret valid_raise half_at_start)
  qed
  have fin: "valid v ?F (andThen (on_error sync_dir (remove_call dst)) (\<lambda>_.
     andThen (on_error (verify_dst h dst m y) (remove_call dst)) (\<lambda>_.
     andThen (wrapped (''remove src '' @ src) (remove_call src)) (\<lambda>_. sync_dir))))
     (\<lambda>_. at (G(src := None, dst \<mapsto> NFile c)) D) ?S"
    if N: "G dst = None" and "m = int (length c) \<or> m \<le> 0" and "y = h c \<or> y = []" for m y
  proof (intro valid_andThen [OF v_guard_full [of G dst, OF N v_sync_dir]] valid_andThen [OF v_guard_full [of G dst, OF N v_verify]] valid_wrapped)
    have eq: "(G(dst \<mapsto> NFile c))(src := None) = G(src := None, dst \<mapsto> NFile c)" using src(2) by (simp add: fun_upd_twist)
    show "valid v ?F (andThen (wrapped (''remove src '' @ src) (remove_call src)) (\<lambda>_. sync_dir))
        (\<lambda>_. at (G(src := None, dst \<mapsto> NFile c)) D) ?S"
    proof (rule valid_andThen [OF valid_wrapped [OF valid_post [OF v_remove, where Q' = "\<lambda>_. at (G(src := None, dst \<mapsto> NFile c)) D" and R' = ?S]]])
      show "valid v (at (G(src := None, dst \<mapsto> NFile c)) D) sync_dir (\<lambda>_. at (G(src := None, dst \<mapsto> NFile c)) D) ?S"
        by (rule valid_post [OF v_sync_dir]) (use N in \<open>auto simp: stuck_def half_at_def half_moved_def\<close>)
    qed (use N src eq half_at_full [of G dst c D _ src] in \<open>auto simp: stuck_def\<close>)
  qed (use that in auto)
  show ?thesis unfolding durableNoReplaceMove_def
  proof (intro valid_andThen [OF weak [OF v_expected_size [of G src c, OF src(1)]]] valid_fact valid_andThen [OF weak [OF v_expected_sha [of G src c, OF src(1)]]]
      valid_andThen [OF new])
    fix m y assume "m = n \<or> m = int (length c)" "y = x \<or> y = h c \<or> y = []" "G dst = None"
    with nh show "valid v ?F (andThen (on_error sync_dir (remove_call dst)) (\<lambda>_.
     andThen (on_error (verify_dst h dst m y) (remove_call dst)) (\<lambda>_.
     andThen (wrapped (''remove src '' @ src) (remove_call src)) (\<lambda>_. sync_dir))))
     (\<lambda>_ s. G dst = None \<and> at (G(src := None, dst \<mapsto> NFile c)) D s) ?R"
      by (intro valid_post [OF fin]) (auto simp: stuck_def)
  qed
qed

end
