(* ===== verification/Spool_Recovery.thy ===== *)
theory Spool_Recovery
  imports Spool_Moves
begin

text \<open>
  The recovery of an interrupted migration before its commit (\<open>ReconcilePendingQuarantines\<close> of \<open>app/daemon/migration/spool_migrator.go\<close>).
  A migration has left the files in one of the states \<open>pending\<close>. The lemmas show that the recovery stays within these states
  whatever calls fail and whenever the process is killed, that the files are as before the migration when it
  returns, and that without faults only a half-written manifest or copy stops it.
\<close>

declare split_paired_All [simp del] split_paired_Ex [simp del]

section \<open>Directories\<close>

lemma v_mkdir:
  assumes "\<forall>p\<in>set (dir_chain d). G p = None \<or> G p = Some NDir"
  shows "valid v (at G D) (mkdir_call d) (\<lambda>_. at (make_dirs (dir_chain d) G) D)
      (\<lambda>s. \<not> faultless v \<and> (\<exists>n. at (make_dirs (take n (dir_chain d)) G) D s))"
  unfolding mkdir_call_def
proof (rule valid_sys, goal_cases)
  case (1 s)
  then have fs: "mg_fs s = G" by (simp add: at_def)
  have dw: "dropWhile (\<lambda>p. G p = None \<or> G p = Some NDir) (dir_chain d) = []" using assms by simp
  have "MkdirAll None d G = (None, make_dirs (dir_chain d) G)" by (simp only: MkdirAll_def dw option.case list.case)
  with 1 show ?case by (auto simp: fs at_def make_dirs_def add_names_def)
next
  case (2 s)
  then have fs: "mg_fs s = G" by (simp add: at_def)
  have tw: "takeWhile (\<lambda>p. G p = None \<or> G p = Some NDir) (dir_chain d) = dir_chain d" using assms by (simp add: takeWhile_eq_all_conv)
  have "snd (MkdirAll (Some ([], n)) d G) = make_dirs (take n (dir_chain d)) G" for n
    by (simp only: MkdirAll_def tw option.case prod.case snd_conv)
  with 2 show ?case
    by (intro conjI exI [of _ "me_part v (mg_n s)"])
      (auto simp: fs at_def make_dirs_def add_names_def split: if_splits dest: in_set_takeD)
qed

lemma v_mkdir_id:
  assumes "\<forall>p\<in>set (dir_chain d). G p = Some NDir"
  shows "valid v (at G D) (mkdir_call d) (\<lambda>_. at G D) (stuck v (at G D))"
proof -
  have "make_dirs (take n (dir_chain d)) G = G" for n
    using assms by (auto simp: make_dirs_def fun_eq_iff dest: in_set_takeD)
  from this [of "length (dir_chain d)"] this show ?thesis
    by (intro valid_post [OF v_mkdir]) (use assms in \<open>auto simp: stuck_def\<close>)
qed

section \<open>The states of a quarantine\<close>

text \<open>
  The files before the migration are \<open>F\<close>; \<open>files\<close> are the entries of the manifest and \<open>M\<close> is its text. The quarantine is a new directory and
  the entries describe files of \<open>F\<close>.
\<close>

definition quarantine :: "(string \<Rightarrow> string) \<Rightarrow> fs \<Rightarrow> string \<Rightarrow> QuarantineFileEntry list \<Rightarrow> bool" where
  "quarantine h F q files \<longleftrightarrow> distinct (map qe_OriginalPath files) \<and> distinct (map qe_StagedPath files) \<and>
     (\<forall>p. below q p \<longrightarrow> F p = None) \<and> below q (manifest_path q) \<and> manifest_path q \<noteq> q \<and>
     (\<forall>f\<in>set files. (\<exists>c. F (qe_OriginalPath f) = Some (NFile c) \<and> qe_Size f = int (length c) \<and> qe_SHA256 f = h c) \<and>
        below q (qe_StagedPath f) \<and> qe_StagedPath f \<noteq> q \<and> qe_StagedPath f \<noteq> manifest_path q \<and>
        (\<forall>d\<in>set (dir_chain (Dir (qe_OriginalPath f))). F d = Some NDir))"

text \<open>A copy of which nothing or a first part has been written.\<close>

definition part_copy :: "string \<Rightarrow> node option \<Rightarrow> bool" where
  "part_copy c x \<longleftrightarrow> x = None \<or> (\<exists>k. x = Some (NFile (take k c)))"

definition safe_copy :: "fs \<Rightarrow> QuarantineFileEntry \<Rightarrow> fs \<Rightarrow> bool" where
  "safe_copy F f H \<longleftrightarrow> (\<exists>c. F (qe_OriginalPath f) = Some (NFile c) \<and>
     (H (qe_OriginalPath f) = Some (NFile c) \<and> part_copy c (H (qe_StagedPath f)) \<or>
      H (qe_StagedPath f) = Some (NFile c) \<and> part_copy c (H (qe_OriginalPath f))))"

definition whole_copies :: "fs \<Rightarrow> QuarantineFileEntry \<Rightarrow> fs \<Rightarrow> bool" where
  "whole_copies F f H \<longleftrightarrow> (\<forall>p\<in>{qe_OriginalPath f, qe_StagedPath f}. H p = None \<or> H p = F (qe_OriginalPath f))"

definition places :: "string \<Rightarrow> QuarantineFileEntry list \<Rightarrow> string set" where
  "places q files = {q, manifest_path q} \<union> qe_OriginalPath ` set files \<union> qe_StagedPath ` set files"

text \<open>Before the commit: once the manifest is complete each file is whole at one of its two places; before that nothing was moved.\<close>

definition pending :: "fs \<Rightarrow> string \<Rightarrow> QuarantineFileEntry list \<Rightarrow> string \<Rightarrow> fs \<Rightarrow> bool" where
  "pending F q files M H \<longleftrightarrow> (\<forall>p. p \<notin> places q files \<longrightarrow> H p = F p) \<and>
     (H (manifest_path q) = Some (NFile M) \<and> H q = Some NDir \<and> (\<forall>f\<in>set files. safe_copy F f H) \<or>
      (H (manifest_path q) = None \<and> (H q = None \<or> H q = Some NDir) \<or>
         H q = Some NDir \<and> (\<exists>k. H (manifest_path q) = Some (NFile (take k M)))) \<and>
        (\<forall>f\<in>set files. H (qe_OriginalPath f) = F (qe_OriginalPath f) \<and> H (qe_StagedPath f) = None))"

definition pending_at :: "fs \<Rightarrow> string \<Rightarrow> QuarantineFileEntry list \<Rightarrow> string \<Rightarrow> mig_db \<Rightarrow> mig \<Rightarrow> bool" where
  "pending_at F q files M D s \<longleftrightarrow> (\<exists>H. pending F q files M H \<and> at H D s)"

text \<open>The states that the recovery refuses: a manifest or a copy that was written in part.\<close>

definition blocked :: "fs \<Rightarrow> string \<Rightarrow> QuarantineFileEntry list \<Rightarrow> string \<Rightarrow> fs \<Rightarrow> bool" where
  "blocked F q files M H \<longleftrightarrow> (H (manifest_path q) \<noteq> None \<and> H (manifest_path q) \<noteq> Some (NFile M)) \<or> (\<exists>f\<in>set files. \<not> whole_copies F f H)"

lemma quarantineD:
  assumes "quarantine h F q files" and "f \<in> set files"
  obtains c where "F (qe_OriginalPath f) = Some (NFile c)" "qe_Size f = int (length c)" "qe_SHA256 f = h c"
    "F (qe_StagedPath f) = None" "F q = None" "F (manifest_path q) = None" "below q (qe_StagedPath f)"
    "qe_StagedPath f \<noteq> q" "qe_StagedPath f \<noteq> manifest_path q" "\<forall>d\<in>set (dir_chain (Dir (qe_OriginalPath f))). F d = Some NDir"
  using assms by (fastforce simp: quarantine_def below_def)

lemma quarantine_None: "quarantine h F q files \<Longrightarrow> F q = None \<and> F (manifest_path q) = None"
  by (auto simp: quarantine_def below_def)

lemma quarantine_staged:
  assumes "quarantine h F q files" and "f \<in> set files"
  shows "F (qe_StagedPath f) = None" "below q (qe_StagedPath f)" "qe_StagedPath f \<noteq> q" "qe_StagedPath f \<noteq> manifest_path q"
  using assms by (auto elim!: quarantineD)

lemma quarantine_apart:
  assumes "quarantine h F q files" "f \<in> set files" "g \<in> set files"
  shows "qe_OriginalPath f \<noteq> qe_StagedPath g" "qe_OriginalPath f \<noteq> q" "qe_OriginalPath f \<noteq> manifest_path q" "\<not> below q (qe_OriginalPath f)"
  using assms by (auto elim!: quarantineD [OF assms(1)]) (auto simp: quarantine_def)

lemma quarantine_split:
  assumes "quarantine h F q (xs @ f # ys)"
  shows "qe_OriginalPath f \<notin> qe_OriginalPath ` set xs" "qe_StagedPath f \<notin> qe_StagedPath ` set xs"
    "qe_OriginalPath f \<notin> qe_StagedPath ` set xs" "qe_StagedPath f \<notin> qe_OriginalPath ` set xs"
    "qe_OriginalPath f \<noteq> qe_StagedPath f"
  using assms quarantine_apart [OF assms, of _ f] quarantine_apart [OF assms, of f] by (auto simp: quarantine_def)

lemma pending_start: "quarantine h F q files \<Longrightarrow> pending F q files M F"
  unfolding pending_def using quarantine_None quarantineD by metis

section \<open>The recovery before the commit\<close>

subsection \<open>Validation of the copies\<close>

lemma v_check_copy:
  assumes r: "r = G p" and c: "part_copy c r" and f: "qe_Size f = int (length c)" "qe_SHA256 f = h c"
  shows "valid v (at G D) (check_copy h f p r) (\<lambda>_ s. (r = None \<or> r = Some (NFile c)) \<and> at G D s)
      (\<lambda>s. (faultless v \<longrightarrow> \<not> (r = None \<or> r = Some (NFile c))) \<and> at G D s)"
proof (cases r)
  case None
  then show ?thesis by (auto simp: check_copy_def intro: valid_ret)
next
  case (Some x)
  with c obtain k where k: "r = Some (NFile (take k c))" by (auto simp: part_copy_def)
  show ?thesis
  proof (cases "take k c = c")
    case True
    with k r have "G p = Some (NFile c)" by simp
    from v_hash [of G p c v D h, OF this]
    have hs: "valid v (at G D) (hash_call h p) (\<lambda>d s. d = h c \<and> at G D s) (\<lambda>s. (faultless v \<longrightarrow> \<not> (r = None \<or> r = Some (NFile c))) \<and> at G D s)"
      by (rule valid_post) (auto simp: stuck_def)
    have "check_copy h f p r = andThen (hash_call h p) (\<lambda>d. if d \<noteq> qe_SHA256 f then raise (''reconcile restore: sha256 mismatch '' @ p) else ret ())"
      using True k f(1) by (simp add: check_copy_def)
    moreover have "valid v (at G D) (andThen (hash_call h p) (\<lambda>d. if d \<noteq> qe_SHA256 f then raise (''reconcile restore: sha256 mismatch '' @ p) else ret ()))
        (\<lambda>_ s. (r = None \<or> r = Some (NFile c)) \<and> at G D s) (\<lambda>s. (faultless v \<longrightarrow> \<not> (r = None \<or> r = Some (NFile c))) \<and> at G D s)"
      by (rule valid_andThen [OF hs], rule valid_fact) (use True k f(2) in \<open>auto intro: valid_ret\<close>)
    ultimately show ?thesis by simp
  next
    case False
    then have "length (take k c) \<noteq> length c" by (metis length_take min.absorb_iff2 nat_le_linear take_all_iff)
    with False k f show ?thesis by (auto simp: check_copy_def intro: valid_raise)
  qed
qed

definition presence :: "fs \<Rightarrow> QuarantineFileEntry \<Rightarrow> bool \<times> bool" where
  "presence G f = (G (qe_StagedPath f) \<noteq> None, G (qe_OriginalPath f) \<noteq> None)"

lemma v_check_entry:
  assumes f: "qe_Size f = int (length c)" "qe_SHA256 f = h c" and F: "F (qe_OriginalPath f) = Some (NFile c)" and s: "safe_copy F f G"
  shows "valid v (at G D) (check_entry h f) (\<lambda>r s. r = presence G f \<and> whole_copies F f G \<and> at G D s)
      (\<lambda>s. (faultless v \<longrightarrow> \<not> whole_copies F f G) \<and> at G D s)"
proof -
  let ?R = "\<lambda>s. (faultless v \<longrightarrow> \<not> whole_copies F f G) \<and> at G D s"
  have st: "valid v (at G D) (stat_call p) (\<lambda>r s. r = G p \<and> at G D s) ?R" for p
    by (rule valid_post [OF v_stat]) (auto simp: stuck_def)
  have pc: "part_copy c (G (qe_StagedPath f))" "part_copy c (G (qe_OriginalPath f))"
    and one: "\<not> (G (qe_StagedPath f) = None \<and> G (qe_OriginalPath f) = None)"
    using s F unfolding safe_copy_def part_copy_def by (auto intro: exI [of _ "length c"])
  have cc: "valid v (at G D) (check_copy h f p (G p)) (\<lambda>_ s. (G p = None \<or> G p = Some (NFile c)) \<and> at G D s) ?R"
    if "p \<in> {qe_OriginalPath f, qe_StagedPath f}" for p
    by (rule valid_post [OF v_check_copy [of "G p" G p c f h, OF refl _ f]]) (use that pc F in \<open>auto simp: whole_copies_def\<close>)
  show ?thesis unfolding check_entry_def
  proof (intro valid_andThen [OF st] valid_fact)
    fix r1 r2 assume r: "r1 = G (qe_StagedPath f)" "r2 = G (qe_OriginalPath f)"
    have body: "valid v (at G D) (andThen (check_copy h f (qe_StagedPath f) (G (qe_StagedPath f))) (\<lambda>_.
          andThen (check_copy h f (qe_OriginalPath f) (G (qe_OriginalPath f))) (\<lambda>_. ret (presence G f))))
        (\<lambda>r s. r = presence G f \<and> whole_copies F f G \<and> at G D s) ?R"
      by (intro valid_andThen [OF cc] valid_fact valid_ret) (use F in \<open>auto simp: whole_copies_def\<close>)
    then show "valid v (at G D) (if r1 = None \<and> r2 = None then raise ''reconcile restore: file missing from both''
     else andThen (check_copy h f (qe_StagedPath f) r1) (\<lambda>_.
          andThen (check_copy h f (qe_OriginalPath f) r2) (\<lambda>_. ret (r1 \<noteq> None, r2 \<noteq> None))))
        (\<lambda>r s. r = presence G f \<and> whole_copies F f G \<and> at G D s) ?R"
      using one by (auto simp: r presence_def)
  qed
qed

lemma v_check_entries:
  assumes q: "quarantine h F q files" and s: "\<forall>f\<in>set files. safe_copy F f G"
  shows "valid v (at G D) (map_prog (check_entry h) files)
      (\<lambda>r s. r = map (presence G) files \<and> (\<forall>f\<in>set files. whole_copies F f G) \<and> at G D s)
      (\<lambda>s. (faultless v \<longrightarrow> \<not> (\<forall>f\<in>set files. whole_copies F f G)) \<and> at G D s)"
proof (rule valid_pre [OF valid_map_prog [where I = "\<lambda>xs rs s. rs = map (presence G) xs \<and> (\<forall>f\<in>set xs. whole_copies F f G) \<and> at G D s"]])
  fix xs f ys rs assume l: "files = xs @ f # ys"
  then have "f \<in> set files" by simp
  with q obtain c where c: "F (qe_OriginalPath f) = Some (NFile c)" "qe_Size f = int (length c)" "qe_SHA256 f = h c"
    by (rule quarantineD)
  show "valid v (\<lambda>s. rs = map (presence G) xs \<and> (\<forall>f\<in>set xs. whole_copies F f G) \<and> at G D s) (check_entry h f)
     (\<lambda>r s. rs @ [r] = map (presence G) (xs @ [f]) \<and> (\<forall>f\<in>set (xs @ [f]). whole_copies F f G) \<and> at G D s)
     (\<lambda>s. (faultless v \<longrightarrow> \<not> (\<forall>f\<in>set files. whole_copies F f G)) \<and> at G D s)"
    by (intro valid_fact, rule valid_post [OF v_check_entry [where F = F and G = G and c = c and h = h and f = f, OF c(2,3,1)]]) (use s l in auto)
qed simp

subsection \<open>Moving the files back\<close>

definition moving :: "fs \<Rightarrow> string \<Rightarrow> QuarantineFileEntry list \<Rightarrow> string \<Rightarrow> fs \<Rightarrow> bool" where
  "moving F q files M H \<longleftrightarrow> (\<forall>p. p \<notin> places q files \<longrightarrow> H p = F p) \<and> H (manifest_path q) = Some (NFile M) \<and> H q = Some NDir \<and>
     (\<forall>f\<in>set files. safe_copy F f H)"

lemma moving_pending: "moving F q files M H \<Longrightarrow> pending F q files M H"
  by (simp add: moving_def pending_def)

lemma moving_upd:
  assumes q: "quarantine h F q files" and m: "moving F q files M H" and f: "f \<in> set files" and c: "F (qe_OriginalPath f) = Some (NFile c)"
    and ab: "a = Some (NFile c) \<and> part_copy c b \<or> b = Some (NFile c) \<and> part_copy c a"
  shows "moving F q files M (H(qe_OriginalPath f := a, qe_StagedPath f := b))"
proof -
  let ?H = "H(qe_OriginalPath f := a, qe_StagedPath f := b)"
  note ap = quarantine_apart [OF q]
  have "safe_copy F g ?H" if g: "g \<in> set files" for g
  proof (cases "g = f")
    case True
    with ab c ap [OF f f] show ?thesis by (auto simp: safe_copy_def)
  next
    case False
    with f g q have "qe_OriginalPath g \<noteq> qe_OriginalPath f" "qe_StagedPath g \<noteq> qe_StagedPath f"
      by (auto simp: quarantine_def dest: distinct_map [THEN iffD1, THEN conjunct2, THEN inj_onD])
    moreover have "safe_copy F g H" using m g by (simp add: moving_def)
    ultimately show ?thesis using ap [OF g f] ap [OF f g] by (auto simp: safe_copy_def)
  qed
  moreover have "?H (manifest_path q) = Some (NFile M)" "?H q = Some NDir"
    using m ap [OF f f] q f by (auto simp: moving_def elim!: quarantineD)
  ultimately show ?thesis using m f by (auto simp: moving_def places_def)
qed

lemma moving_dir:
  assumes q: "quarantine h F q files" and m: "moving F q files M H" and d: "F d = Some NDir"
  shows "H d = Some NDir"
proof -
  have "d \<notin> places q files"
    using d quarantine_None [OF q] by (auto simp: places_def elim!: quarantineD [OF q])
  with m d show ?thesis by (simp add: moving_def)
qed

definition restored :: "fs \<Rightarrow> QuarantineFileEntry list \<Rightarrow> fs \<Rightarrow> fs" where
  "restored F xs H = (\<lambda>p. if p \<in> qe_OriginalPath ` set xs then F p else if p \<in> qe_StagedPath ` set xs then None else H p)"

lemma restored_snoc:
  assumes "quarantine h F q (xs @ f # ys)"
  shows "restored F (xs @ [f]) H = (restored F xs H)(qe_OriginalPath f := F (qe_OriginalPath f), qe_StagedPath f := None)"
    and "restored F xs H (qe_OriginalPath f) = H (qe_OriginalPath f)" and "restored F xs H (qe_StagedPath f) = H (qe_StagedPath f)"
  using quarantine_split [OF assms] by (auto simp: restored_def fun_eq_iff)

lemma moving_restored:
  assumes q: "quarantine h F q files" and m: "moving F q files M H" and xs: "files = xs @ ys"
  shows "moving F q files M (restored F xs H)"
  using xs
proof (induction xs arbitrary: ys rule: rev_induct)
  case Nil
  have "restored F [] H = H" by (auto simp: restored_def)
  with m show ?case by simp
next
  case (snoc f xs)
  then have l: "files = xs @ f # ys" by simp
  then have f: "f \<in> set files" by simp
  with q obtain c where c: "F (qe_OriginalPath f) = Some (NFile c)" by (rule quarantineD)
  have "moving F q files M ((restored F xs H)(qe_OriginalPath f := Some (NFile c), qe_StagedPath f := None))"
    by (rule moving_upd [OF q snoc.IH [OF l] f c]) (simp add: part_copy_def)
  then show ?case using restored_snoc(1) [OF q [unfolded l], of H] c by metis
qed

lemma v_restore_entry:
  assumes q: "quarantine h F q files" and m: "moving F q files M H" and w: "\<forall>f\<in>set files. whole_copies F f H" and l: "files = xs @ f # ys"
  shows "valid v (at (restored F xs H) D) (restore_entry h (f, presence H f)) (\<lambda>_. at (restored F (xs @ [f]) H) D)
      (stuck v (pending_at F q files M D))"
proof -
  let ?G = "restored F xs H" and ?S = "stuck v (pending_at F q files M D)"
  let ?o = "qe_OriginalPath f" and ?t = "qe_StagedPath f"
  have f: "f \<in> set files" using l by simp
  with q obtain c where c: "F ?o = Some (NFile c)" "qe_Size f = int (length c)" "qe_SHA256 f = h c"
    and ch: "\<forall>d\<in>set (dir_chain (Dir ?o)). F d = Some NDir" by (rule quarantineD)
  note ne = quarantine_apart(1) [OF q f f]
  note G = restored_snoc [OF q [unfolded l], of H]
  have mG: "moving F q files M ?G" by (rule moving_restored [OF q m l])
  have pend: "pending_at F q files M D s"
    if "at (?G(?o := a, ?t := b)) D s" "a = Some (NFile c) \<and> part_copy c b \<or> b = Some (NFile c) \<and> part_copy c a" for s a b
    using that(1) moving_pending [OF moving_upd [of h F q files M ?G f c a b, OF q mG f c(1) that(2)]] by (auto simp: pending_at_def)
  have pG: "pending_at F q files M D s" if "at ?G D s" for s
    using moving_pending [OF mG] that by (auto simp: pending_at_def)
  have wf: "H ?o = None \<or> H ?o = Some (NFile c)" "H ?t = None \<or> H ?t = Some (NFile c)" "safe_copy F f H"
    using w m f c(1) by (auto simp: whole_copies_def moving_def)
  consider (move) "H ?t = Some (NFile c)" "H ?o = None" | (drop) "H ?t = Some (NFile c)" "H ?o = Some (NFile c)"
    | (stay) "H ?t = None" "H ?o = Some (NFile c)"
    using wf c(1) by (auto simp: safe_copy_def part_copy_def)
  then show ?thesis
  proof cases
    case move
    have mk: "valid v (at ?G D) (wrapped ''reconcile restore mkdir'' (mkdir_call (Dir ?o))) (\<lambda>_. at ?G D) ?S"
      by (rule valid_wrapped, rule valid_post [OF v_mkdir_id]) (use ch moving_dir [OF q mG] pG in \<open>auto simp: stuck_def\<close>)
    have half: "pending_at F q files M D s" if "half_at ?G D ?t ?o c s" for s
    proof -
      from that obtain X where X: "half_moved ?G ?t ?o c X" and s: "at X D s" by (auto simp: half_at_def)
      from X G(2,3) move ne have "X = ?G \<or> X = ?G(?o := Some (NFile c), ?t := None) \<or> (\<exists>k. X = ?G(?o := Some (NFile (take k c)), ?t := Some (NFile c)))"
        by (auto simp: half_moved_def fun_eq_iff)
      then show ?thesis
      proof (elim disjE exE)
        fix k assume "X = ?G(?o := Some (NFile (take k c)), ?t := Some (NFile c))"
        with s show ?thesis by (intro pend [of "Some (NFile (take k c))" "Some (NFile c)"]) (auto simp: part_copy_def)
      next
        assume "X = ?G(?o := Some (NFile c), ?t := None)"
        with s show ?thesis by (intro pend [of "Some (NFile c)" None]) (auto simp: part_copy_def)
      qed (use s pG in simp)
    qed
    have mv: "valid v (at ?G D) (durableNoReplaceMove h ?t ?o (qe_Size f) (qe_SHA256 f)) (\<lambda>_. at (restored F (xs @ [f]) H) D) ?S"
    proof (rule valid_post [OF v_move [where c = c]])
      show "at (restored F (xs @ [f]) H) D s" if "?G ?o = None \<and> at (?G(?t := None, ?o \<mapsto> NFile c)) D s" for s
        using that ne c(1) by (simp add: G(1) fun_upd_twist)
    qed (use G(2,3) move ne c(2,3) half in \<open>auto simp: stuck_def\<close>)
    show ?thesis using move unfolding restore_entry_def presence_def by (simp add: valid_andThen [OF mk valid_wrapped [OF mv]])
  next
    case drop
    have "?G(?t := None) = restored F (xs @ [f]) H" using drop G c(1) by (auto simp: fun_eq_iff)
    then have "valid v (at ?G D) (remove_call ?t) (\<lambda>_. at (restored F (xs @ [f]) H) D) ?S"
      by (intro valid_post [OF v_remove]) (use G(3) drop pG in \<open>auto simp: stuck_def\<close>)
    with drop show ?thesis unfolding restore_entry_def presence_def by (simp add: valid_wrapped)
  next
    case stay
    then have "?G = restored F (xs @ [f]) H" using G c(1) by (auto simp: fun_eq_iff)
    with stay show ?thesis unfolding restore_entry_def presence_def by (auto intro: valid_ret)
  qed
qed

lemma v_check_restored:
  assumes "G (qe_StagedPath f) = None" and "G (qe_OriginalPath f) = Some (NFile c)" and "qe_Size f = int (length c)"
  shows "valid v (at G D) (check_restored f) (\<lambda>_. at G D) (stuck v (at G D))"
proof -
  have "valid v (at G D) (stat_call (qe_StagedPath f)) (\<lambda>r s. r = None \<and> at G D s) (stuck v (at G D))"
    by (rule valid_post [OF v_stat]) (use assms(1) in auto)
  from valid_default [OF this, of None]
  have st: "valid v (at G D) (catch (stat_call (qe_StagedPath f)) (\<lambda>e. ret None)) (\<lambda>r s. r = None \<and> at G D s) (stuck v (at G D))"
    by (simp add: stuck_def)
  show ?thesis unfolding check_restored_def
    by (rule valid_andThen [OF st], rule valid_fact) (simp, rule valid_andThen [OF v_stat], rule valid_fact, use assms in \<open>auto intro: valid_ret\<close>)
qed

lemma zip_map_fun: "zip xs (map f xs) = map (\<lambda>x. (x, f x)) xs"
  by (induction xs) simp_all

lemma v_restore_all:
  assumes q: "quarantine h F q files" and m: "moving F q files M H"
  shows "valid v (at H D) (restore_all h files) (\<lambda>_. at (restored F files H) D)
      (\<lambda>s. pending_at F q files M D s \<and> (faultless v \<longrightarrow> blocked F q files M H))"
proof -
  let ?R = "\<lambda>s. pending_at F q files M D s \<and> (faultless v \<longrightarrow> blocked F q files M H)"
  have safe: "\<forall>f\<in>set files. safe_copy F f H" using m by (simp add: moving_def)
  have ck: "valid v (at H D) (map_prog (check_entry h) files)
      (\<lambda>r s. r = map (presence H) files \<and> (\<forall>f\<in>set files. whole_copies F f H) \<and> at H D s) ?R"
    by (rule valid_post [OF v_check_entries [OF q safe]]) (use moving_pending [OF m] in \<open>auto simp: blocked_def pending_at_def\<close>)
  have fin: "pending_at F q files M D s" if "at (restored F files H) D s" for s
    using moving_pending [OF moving_restored [OF q m, of files "[]"]] that by (auto simp: pending_at_def)
  have bk: "valid v (at H D) (for_all (restore_entry h) (zip files (map (presence H) files))) (\<lambda>_. at (restored F files H) D) ?R"
    if w: "\<forall>f\<in>set files. whole_copies F f H"
  proof -
    define I where "I = (\<lambda>xs :: (QuarantineFileEntry \<times> bool \<times> bool) list. at (restored F (map fst xs) H) D)"
    have "valid v (I []) (for_all (restore_entry h) (zip files (map (presence H) files)))
        (\<lambda>_. I (zip files (map (presence H) files))) (stuck v (pending_at F q files M D))"
    proof (rule valid_for_all)
      fix xs x ys assume l: "zip files (map (presence H) files) = xs @ x # ys"
      have z: "map (\<lambda>f. (f, presence H f)) files = xs @ x # ys" using l unfolding zip_map_fun .
      then have "map fst (map (\<lambda>f. (f, presence H f)) files) = map fst xs @ fst x # map fst ys" by simp
      then have l: "files = map fst xs @ fst x # map fst ys" by (simp add: comp_def)
      have "x \<in> set (map (\<lambda>f. (f, presence H f)) files)" unfolding z by simp
      then obtain f where x: "x = (f, presence H f)" by auto
      from v_restore_entry [OF q m w l] x
      show "valid v (I xs) (restore_entry h x) (\<lambda>_. I (xs @ [x])) (stuck v (pending_at F q files M D))"
        by (simp add: I_def)
    qed
    moreover have "restored F [] H = H" by (auto simp: restored_def)
    ultimately have "valid v (at H D) (for_all (restore_entry h) (zip files (map (presence H) files)))
        (\<lambda>_. at (restored F files H) D) (stuck v (pending_at F q files M D))" by (simp add: I_def)
    then show ?thesis by (rule valid_post) (simp_all add: stuck_def)
  qed
  have pt: "valid v (at (restored F files H) D) (for_all check_restored files) (\<lambda>_. at (restored F files H) D) ?R"
  proof (rule valid_post [OF valid_for_all [where I = "\<lambda>_. at (restored F files H) D" and R = "stuck v (at (restored F files H) D)"]])
    fix xs f ys assume l: "files = xs @ f # ys"
    then have f: "f \<in> set files" by simp
    with q obtain c where c: "F (qe_OriginalPath f) = Some (NFile c)" "qe_Size f = int (length c)" by (rule quarantineD)
    show "valid v (at (restored F files H) D) (check_restored f) (\<lambda>_. at (restored F files H) D) (stuck v (at (restored F files H) D))"
    proof (rule v_check_restored [OF _ _ c(2)])
      show "restored F files H (qe_StagedPath f) = None"
        using f quarantine_apart(1) [OF q _ f] by (force simp: restored_def)
    qed (use c(1) f in \<open>simp add: restored_def\<close>)
  qed (use fin in \<open>auto simp: stuck_def\<close>)
  show ?thesis unfolding restore_all_def
  proof (rule valid_andThen [OF ck], intro valid_fact)
    fix plans assume p: "plans = map (presence H) files" and w: "\<forall>f\<in>set files. whole_copies F f H"
    show "valid v (at H D) (andThen (for_all (restore_entry h) (zip files plans)) (\<lambda>_.
        andThen (for_all check_restored files) (\<lambda>_. ret plans))) (\<lambda>_. at (restored F files H) D) ?R"
      unfolding p by (rule valid_andThen [OF bk [OF w] valid_andThen [OF pt valid_ret]])
  qed
qed

subsection \<open>Removing the quarantine\<close>

text \<open>The files without the quarantine.\<close>

definition outside :: "string \<Rightarrow> fs \<Rightarrow> fs" where
  "outside q G = (\<lambda>p. if below q p then None else G p)"

lemma below_refl [simp]: "below q q"
  by (simp add: below_def)

lemma v_drop_quarantine:
  assumes G: "G q = Some NDir" "G (manifest_path q) = Some (NFile M)" and mp: "below q (manifest_path q)" "manifest_path q \<noteq> q"
    and rest: "\<And>p. below q p \<Longrightarrow> p \<noteq> q \<Longrightarrow> p \<noteq> manifest_path q \<Longrightarrow> G p = None"
  shows "valid v (at G D) (andThen (wrapped m1 (remove_call (manifest_path q))) (\<lambda>_. wrapped m2 (remove_all_call q))) (\<lambda>_. at (outside q G) D)
      (stuck v (\<lambda>s. \<exists>X\<in>{G, (outside q G)(q \<mapsto> NDir), outside q G}. at X D s))"
proof -
  let ?R = "stuck v (\<lambda>s. \<exists>X\<in>{G, (outside q G)(q \<mapsto> NDir), outside q G}. at X D s)"
  have one: "G(manifest_path q := None) = (outside q G)(q \<mapsto> NDir)"
    using G mp rest by (auto simp: outside_def fun_eq_iff)
  have rm: "valid v (at G D) (remove_call (manifest_path q)) (\<lambda>_. at ((outside q G)(q \<mapsto> NDir)) D) ?R"
    unfolding one [symmetric] by (rule valid_post [OF v_remove]) (use G in \<open>auto simp: stuck_def\<close>)
  have ra: "valid v (at ((outside q G)(q \<mapsto> NDir)) D) (remove_all_call q) (\<lambda>_. at (outside q G) D) ?R"
  proof (rule valid_post [OF v_remove_all])
    fix s assume "at (\<lambda>p. if below q p then None else ((outside q G)(q \<mapsto> NDir)) p) D s"
    moreover have "(\<lambda>p. if below q p then None else ((outside q G)(q \<mapsto> NDir)) p) = outside q G" by (auto simp: outside_def)
    ultimately show "at (outside q G) D s" by simp
  next
    fix s assume a: "\<not> faultless v \<and> (\<exists>X. at (\<lambda>p. if below q p \<and> X p then None else ((outside q G)(q \<mapsto> NDir)) p) D s)"
    then obtain X where X: "at (\<lambda>p. if below q p \<and> X p then None else ((outside q G)(q \<mapsto> NDir)) p) D s" by blast
    have "(\<lambda>p. if below q p \<and> X p then None else ((outside q G)(q \<mapsto> NDir)) p) = (if X q then outside q G else (outside q G)(q \<mapsto> NDir))"
      by (auto simp: outside_def)
    with a X show "?R s" by (auto simp: stuck_def split: if_splits)
  qed
  show ?thesis by (rule valid_andThen [OF valid_wrapped [OF rm] valid_wrapped [OF ra]])
qed

section \<open>The recovery of one migration\<close>

definition has_verdict :: "mig_db \<Rightarrow> string \<Rightarrow> bool" where
  "has_verdict D ident \<longleftrightarrow> (case g_verdicts D of None \<Rightarrow> False | Some rows \<Rightarrow> map_of rows ident = Some ''COMMITTED'')"

lemma v_verdict: "valid v (at G D) (read_verdict ident) (\<lambda>r s. r = has_verdict D ident \<and> at G D s) (stuck v (at G D))"
  unfolding read_verdict_def
proof (rule valid_andThen [OF v_query], rule valid_fact)
  fix t assume t: "t = g_verdicts D"
  let ?m = "andThen (query (\<lambda>db. case g_verdicts db of None \<Rightarrow> None | Some rows \<Rightarrow> map_of rows ident)) (\<lambda>r. ret (r = Some ''COMMITTED''))"
  have m: "valid v (at G D) ?m (\<lambda>r s. r = has_verdict D ident \<and> at G D s) (stuck v (at G D))"
    by (rule valid_andThen [OF v_query], rule valid_fact) (auto simp: has_verdict_def split: option.splits intro!: valid_ret)
  show "valid v (at G D) (case t of None \<Rightarrow> ret False | Some _ \<Rightarrow> ?m) (\<lambda>r s. r = has_verdict D ident \<and> at G D s) (stuck v (at G D))"
  proof (cases "g_verdicts D")
    case None
    then show ?thesis unfolding t by (auto simp: has_verdict_def intro!: valid_ret)
  next
    case (Some rows)
    then show ?thesis unfolding t using m by simp
  qed
qed

text \<open>A quarantine without manifest must be empty.\<close>

lemma v_orphan_dir:
  assumes mp: "H (manifest_path q) = None" and ne: "\<forall>p. H p \<noteq> None \<longrightarrow> \<not> entry_of q p"
  shows "valid v (at H D) (reconcile_dir h unmarshal dbOpen b q rep) (\<lambda>_. at (H(q := None)) D) (stuck v (at H D))"
proof -
  have rd: "valid v (at H D) (wrapped ''read quarantine manifest'' (read_call (manifest_path q))) (\<lambda>x s. x = None \<and> at H D s) (stuck v (at H D))"
    by (rule valid_wrapped, rule valid_post [OF v_read [of H]]) (use mp in \<open>auto split: option.splits\<close>)
  have rdd: "valid v (at H D) (wrapped ''read quarantine dir without manifest'' (readdir_call q)) (\<lambda>es s. es = [] \<and> at H D s) (stuck v (at H D))"
    by (rule valid_wrapped, rule valid_post [OF v_readdir]) (use ne in auto)
  have rm: "valid v (at H D) (wrapped ''remove empty orphan quarantine dir'' (remove_call q)) (\<lambda>_. at (H(q := None)) D) (stuck v (at H D))"
    by (rule valid_wrapped, rule v_remove) (use ne in auto)
  show ?thesis unfolding reconcile_dir_def
    by (rule valid_andThen [OF rd], rule valid_fact, simp, rule valid_andThen [OF rdd], rule valid_fact)
      (simp, rule valid_andThen [OF rm valid_ret])
qed

text \<open>A quarantine with a manifest.\<close>

lemma v_manifest_dir:
  assumes mp: "H (manifest_path q) = Some (NFile t)" and R: "\<And>s. \<not> faultless v \<Longrightarrow> at H D s \<Longrightarrow> R s"
    and un: "unmarshal t = None \<Longrightarrow> \<forall>s. at H D s \<longrightarrow> R s"
    and man: "\<And>man. unmarshal t = Some man \<Longrightarrow> valid v (at H D) (reconcile_manifest h dbOpen b q man rep) Q R"
  shows "valid v (at H D) (reconcile_dir h unmarshal dbOpen b q rep) Q R"
proof -
  have rd: "valid v (at H D) (wrapped ''read quarantine manifest'' (read_call (manifest_path q))) (\<lambda>x s. x = Some t \<and> at H D s) R"
    by (rule valid_wrapped, rule valid_post [OF v_read [of H]]) (use mp R in \<open>auto simp: stuck_def split: option.splits\<close>)
  show ?thesis unfolding reconcile_dir_def
    by (rule valid_andThen [OF rd], rule valid_fact) (use un man in \<open>auto intro!: valid_raise split: option.splits\<close>)
qed

lemma v_open_db: "path \<noteq> [] \<Longrightarrow> valid v (at G D) (open_db path) (\<lambda>r s. (faultless v \<longrightarrow> r) \<and> at G D s) (stuck v (at G D))"
proof -
  assume "path \<noteq> []"
  have "valid v (at G D) (andThen sync_call (\<lambda>_. andThen sync_call (\<lambda>_. ret True))) (\<lambda>r s. (faultless v \<longrightarrow> r) \<and> at G D s) (stuck v (at G D))"
    by (rule valid_andThen [OF v_sync valid_andThen [OF v_sync valid_ret]]) simp
  from valid_default [OF this, of False] \<open>path \<noteq> []\<close> show ?thesis by (simp add: open_db_def stuck_def)
qed

text \<open>The recovery when at most one quarantine is left.\<close>

lemma v_reconcile_one:
  assumes only: "\<And>x. H x \<noteq> None \<and> is_quarantine b x \<longleftrightarrow> x = q \<and> H q \<noteq> None" and b: "b \<noteq> []" and path: "dbPath \<noteq> []"
    and R: "\<And>s. \<not> faultless v \<Longrightarrow> at H D s \<Longrightarrow> R s" and gone: "\<And>s. H q = None \<Longrightarrow> at H D s \<Longrightarrow> Q s"
    and dir: "\<And>dbOpen rep. H q \<noteq> None \<Longrightarrow> faultless v \<longrightarrow> dbOpen \<Longrightarrow> valid v (at H D) (reconcile_dir h unmarshal dbOpen b q rep) (\<lambda>_. Q) R"
  shows "valid v (at H D) (ReconcilePendingQuarantines h unmarshal dbPath b) (\<lambda>_. Q) R"
proof -
  define e where "e = \<lparr>rr_QuarantineDirsScanned = 0, rr_RestoredFiles = [], rr_CleanedFiles = [], rr_CleanedDirs = []\<rparr>"
  have gl: "valid v (at H D) (wrapped ''glob quarantine dirs'' (glob_call b)) (\<lambda>qs s. qs = (if H q = None then [] else [q]) \<and> at H D s) R"
  proof (rule valid_wrapped, rule valid_post [OF v_glob])
    fix qs s assume "distinct qs \<and> (\<forall>q. (q \<in> set qs) = (H q \<noteq> None \<and> is_quarantine b q)) \<and> at H D s"
    then have d: "distinct qs" and s: "set qs = (if H q = None then {} else {q})" "at H D s" using only by auto
    from d s(1) have "qs = (if H q = None then [] else [q])"
      by (cases qs; cases "tl qs") (auto split: if_splits)
    with s(2) show "qs = (if H q = None then [] else [q]) \<and> at H D s" by simp
  qed (auto simp: stuck_def R)
  have db: "valid v (at H D) (open_db dbPath) (\<lambda>r s. (faultless v \<longrightarrow> r) \<and> at H D s) R"
    by (rule valid_post [OF v_open_db [OF path]]) (auto simp: stuck_def R)
  have body: "valid v (at H D) (if qs = [] then ret e else andThen (open_db dbPath) (\<lambda>dbOpen.
        reconcile_dirs h unmarshal dbOpen b qs (e\<lparr>rr_QuarantineDirsScanned := length qs\<rparr>))) (\<lambda>_. Q) R"
    if qs: "qs = (if H q = None then [] else [q])" for qs
  proof (cases "H q = None")
    case True
    with qs gone show ?thesis by (auto intro: valid_ret)
  next
    case False
    have "valid v (\<lambda>s. (faultless v \<longrightarrow> dbOpen) \<and> at H D s) (reconcile_dirs h unmarshal dbOpen b [q] rep) (\<lambda>_. Q) R" for dbOpen rep
      unfolding reconcile_dirs.simps by (rule valid_fact) (rule valid_andThen [OF dir [OF False] valid_ret])
    with qs False show ?thesis by (simp add: valid_andThen [OF db])
  qed
  show ?thesis
    unfolding ReconcilePendingQuarantines_def Let_def e_def [symmetric]
    using b by simp (rule valid_andThen [OF gl], rule valid_fact, rule body)
qed

definition recoverable ::
  "(string \<Rightarrow> string) \<Rightarrow> (string \<Rightarrow> QuarantineManifest option) \<Rightarrow> string \<Rightarrow> fs \<Rightarrow> string \<Rightarrow> QuarantineManifest \<Rightarrow> string \<Rightarrow> bool" where
  "recoverable h unmarshal b F q man M \<longleftrightarrow> quarantine h F q (qm_Files man) \<and> unmarshal M = Some man \<and>
     (\<forall>k. take k M \<noteq> M \<longrightarrow> unmarshal (take k M) = None) \<and> validateQuarantinePaths man q b = None \<and>
     b \<noteq> [] \<and> is_quarantine b q \<and> (\<forall>p. is_quarantine b p \<longrightarrow> F p = None)"

text \<open>After an attempt to recover from the files \<open>H\<close>: nothing is lost, and without faults the attempt fails only when these are blocked.\<close>

definition refused :: "fs \<Rightarrow> string \<Rightarrow> QuarantineFileEntry list \<Rightarrow> string \<Rightarrow> mig_env \<Rightarrow> mig_db \<Rightarrow> fs \<Rightarrow> mig \<Rightarrow> bool" where
  "refused F q files M v D H s \<longleftrightarrow> pending_at F q files M D s \<and> (faultless v \<longrightarrow> blocked F q files M H)"

lemma pending_cases:
  assumes "pending F q files M H" and "quarantine h F q files"
  obtains (gone) "H = F" | (empty) "H = F(q \<mapsto> NDir)" | (moving) "moving F q files M H"
    | (torn) k where "H (manifest_path q) = Some (NFile (take k M))" "take k M \<noteq> M"
proof -
  consider "moving F q files M H" | "H (manifest_path q) = None" | (t) k where "H (manifest_path q) = Some (NFile (take k M))" "H q = Some NDir"
      "\<forall>f\<in>set files. H (qe_OriginalPath f) = F (qe_OriginalPath f) \<and> H (qe_StagedPath f) = None"
    using assms(1) by (auto simp: pending_def moving_def)
  then show thesis
  proof cases
    case 2
    then have r: "\<forall>f\<in>set files. H (qe_OriginalPath f) = F (qe_OriginalPath f) \<and> H (qe_StagedPath f) = None"
      and hq: "H q = None \<or> H q = Some NDir" and o: "\<And>p. p \<notin> places q files \<Longrightarrow> H p = F p"
      using assms(1) by (auto simp: pending_def)
    have "H p = F p" if "p \<noteq> q" for p
    proof (cases "p \<in> places q files")
      case True
      with that r 2 quarantine_None [OF assms(2)] quarantine_staged [OF assms(2)] show ?thesis
        by (auto simp: places_def)
    qed (use o in blast)
    then have "H = F" if "H q = None" using that quarantine_None [OF assms(2)] by (metis ext)
    moreover have "H = F(q \<mapsto> NDir)" if "H q = Some NDir" using that \<open>\<And>p. p \<noteq> q \<Longrightarrow> H p = F p\<close> by (auto simp: fun_eq_iff)
    ultimately have "H = F \<or> H = F(q \<mapsto> NDir)" using hq by metis
    with gone empty show thesis by blast
  next
    case (t k)
    show thesis
    proof (cases "take k M = M")
      case True
      have "safe_copy F f H" if "f \<in> set files" for f
        using t(3) that by (auto simp: safe_copy_def part_copy_def elim!: quarantineD [OF assms(2)])
      with True t assms(1) have "moving F q files M H" by (simp add: moving_def pending_def)
      then show thesis by (rule moving)
    qed (use t torn in blast)
  qed (rule moving)
qed

lemma pending_none: "quarantine h F q files \<Longrightarrow> pending F q files M F \<and> pending F q files M (F(q \<mapsto> NDir))"
proof -
  assume q: "quarantine h F q files"
  then have "manifest_path q \<noteq> q" by (simp add: quarantine_def)
  with quarantine_apart [OF q] quarantine_None [OF q] quarantine_staged [OF q] show ?thesis
    by (auto simp: pending_def places_def)
qed

lemma entry_below: "entry_of q p \<Longrightarrow> below q p \<and> p \<noteq> q"
  by (auto simp: entry_of_def below_def HasPrefix_def dest: prefix_length_le)

lemma restored_outside:
  assumes q: "quarantine h F q files" and m: "moving F q files M H"
  shows "outside q (restored F files H) = F" and "restored F files H q = Some NDir"
    and "restored F files H (manifest_path q) = Some (NFile M)"
    and "below q p \<Longrightarrow> p \<noteq> q \<Longrightarrow> p \<noteq> manifest_path q \<Longrightarrow> restored F files H p = None"
proof -
  note ap = quarantine_apart [OF q]
  have n: "F p = None" if "below q p" for p using q that by (simp add: quarantine_def)
  have o: "H p = F p" if "p \<notin> places q files" for p using m that by (simp add: moving_def)
  have nq: "q \<notin> qe_OriginalPath ` set files" "q \<notin> qe_StagedPath ` set files"
    "manifest_path q \<notin> qe_OriginalPath ` set files" "manifest_path q \<notin> qe_StagedPath ` set files"
    by (metis ap(2) imageE, metis quarantine_staged(3) [OF q] imageE, metis ap(3) imageE, metis quarantine_staged(4) [OF q] imageE)
  show "outside q (restored F files H) = F"
  proof
    fix p
    have st: "p \<notin> qe_StagedPath ` set files" "p \<noteq> q" "p \<noteq> manifest_path q" if "\<not> below q p"
      using that quarantine_staged [OF q] q by (auto simp: quarantine_def)
    with o [of p] have "H p = F p" if "\<not> below q p" "p \<notin> qe_OriginalPath ` set files"
      using that by (auto simp: places_def)
    with st n [of p] show "outside q (restored F files H) p = F p"
      by (auto simp: outside_def restored_def)
  qed
  show "restored F files H q = Some NDir" "restored F files H (manifest_path q) = Some (NFile M)"
    using m nq by (simp_all add: restored_def moving_def)
  show "restored F files H p = None" if "below q p" "p \<noteq> q" "p \<noteq> manifest_path q"
    using that n o [of p] ap by (auto simp: restored_def places_def)
qed

lemma v_recover_manifest:
  assumes r: "recoverable h unmarshal b F q man M" and m: "moving F q (qm_Files man) M H" and c: "\<not> has_verdict D (qm_MigrationID man)"
    and dbOpen: "faultless v \<longrightarrow> dbOpen"
  shows "valid v (at H D) (reconcile_manifest h dbOpen b q man rep) (\<lambda>_. at F D) (refused F q (qm_Files man) M v D H)"
proof -
  let ?files = "qm_Files man" and ?R = "refused F q (qm_Files man) M v D H"
  have q: "quarantine h F q ?files" and val: "validateQuarantinePaths man q b = None" using r by (auto simp: recoverable_def)
  have RH: "?R s" if "\<not> faultless v" "at H D s" for s
    using that moving_pending [OF m] by (auto simp: refused_def pending_at_def)
  let ?G = "restored F ?files H"
  note G = restored_outside [OF q m]
  have dr: "valid v (at ?G D) (drop_quarantine q) (\<lambda>_. at F D) ?R"
    unfolding drop_quarantine_def
  proof (rule valid_post [OF v_drop_quarantine])
    fix s assume "stuck v (\<lambda>s. \<exists>X\<in>{?G, (outside q ?G)(q \<mapsto> NDir), outside q ?G}. at X D s) s"
    moreover have "pending F q ?files M ?G" using moving_pending [OF moving_restored [OF q m, of ?files "[]"]] by simp
    ultimately show "?R s" using pending_none [OF q] unfolding G(1) by (auto simp: stuck_def refused_def pending_at_def)
  qed (use G q in \<open>auto simp: quarantine_def\<close>)
  have vd: "valid v (at H D) (read_verdict (qm_MigrationID man)) (\<lambda>r s. r = has_verdict D (qm_MigrationID man) \<and> at H D s) ?R"
    by (rule valid_post [OF v_verdict]) (auto simp: stuck_def RH)
  have ra: "valid v (at H D) (restore_all h ?files) (\<lambda>_. at ?G D) ?R"
    by (rule valid_post [OF v_restore_all [OF q m]]) (auto simp: refused_def)
  show ?thesis
  proof (cases dbOpen)
    case True
    then show ?thesis unfolding reconcile_manifest_def val
      by simp (rule valid_andThen [OF vd], rule valid_fact, simp add: c, rule valid_andThen [OF ra valid_andThen [OF dr valid_ret]])
  next
    case False
    with dbOpen RH show ?thesis unfolding reconcile_manifest_def val by (auto intro: valid_raise)
  qed
qed

lemma v_recover_dir:
  assumes r: "recoverable h unmarshal b F q man M" and p: "pending F q (qm_Files man) M H" and c: "\<not> has_verdict D (qm_MigrationID man)"
    and H: "H q \<noteq> None" and dbOpen: "faultless v \<longrightarrow> dbOpen"
  shows "valid v (at H D) (reconcile_dir h unmarshal dbOpen b q rep) (\<lambda>_. at F D) (refused F q (qm_Files man) M v D H)"
proof -
  let ?files = "qm_Files man" and ?R = "refused F q (qm_Files man) M v D H"
  have q: "quarantine h F q ?files" and un: "unmarshal M = Some man" "\<forall>k. take k M \<noteq> M \<longrightarrow> unmarshal (take k M) = None"
    using r by (auto simp: recoverable_def)
  have RH: "?R s" if "\<not> faultless v" "at H D s" for s
    using that p by (auto simp: refused_def pending_at_def)
  from p q show ?thesis
  proof (cases rule: pending_cases)
    case gone
    with H quarantine_None [OF q] show ?thesis by simp
  next
    case empty
    then have "\<forall>p. H p \<noteq> None \<longrightarrow> \<not> entry_of q p" using q entry_below [of q] by (auto simp: quarantine_def)
    moreover have "H (manifest_path q) = None" "H(q := None) = F" using empty quarantine_None [OF q] q by (auto simp: fun_eq_iff quarantine_def)
    ultimately show ?thesis by (intro valid_post [OF v_orphan_dir [of H q]]) (auto simp: stuck_def RH)
  next
    case moving
    then have "H (manifest_path q) = Some (NFile M)" by (simp add: moving_def)
    then show ?thesis by (rule v_manifest_dir [of H q]) (use un v_recover_manifest [OF r moving c dbOpen] RH in auto)
  next
    case (torn k)
    then have "blocked F q ?files M H" by (simp add: blocked_def)
    with torn(1) show ?thesis
      by (intro v_manifest_dir [of H q]) (use un torn p in \<open>auto simp: refused_def pending_at_def\<close>)
  qed
qed

lemma quarantine_names:
  assumes "is_quarantine b q" and "below q p" and "p \<noteq> q"
  shows "\<not> is_quarantine b p"
proof -
  let ?n = "length (Join b ''.migrator_quarantine_'')"
  from assms(2,3) obtain t where p: "p = q @ ''/'' @ t" by (auto simp: below_def HasPrefix_def prefix_def)
  from assms(1) have "?n \<le> length q" by (auto simp: is_quarantine_def Let_def HasPrefix_def dest: prefix_length_le)
  then have "CHR ''/'' \<in> set (drop ?n p)" by (simp add: p)
  then show ?thesis by (simp add: is_quarantine_def Let_def)
qed

text \<open>Before the commit: the recovery, interrupted or not, loses nothing; when it returns all files are as before the migration; and
  without faults it returns unless the manifest or a copy was written in part.\<close>

lemma v_recover_pending:
  assumes r: "recoverable h unmarshal b F q man M" and c: "\<not> has_verdict D (qm_MigrationID man)" and path: "dbPath \<noteq> []"
    and p: "pending F q (qm_Files man) M H"
  shows "valid v (at H D) (ReconcilePendingQuarantines h unmarshal dbPath b) (\<lambda>_. at F D) (refused F q (qm_Files man) M v D H)"
proof -
  let ?files = "qm_Files man" and ?R = "refused F q (qm_Files man) M v D H"
  have q: "quarantine h F q ?files" and b: "b \<noteq> []" "is_quarantine b q" "\<forall>p. is_quarantine b p \<longrightarrow> F p = None"
    using r by (auto simp: recoverable_def)
  have RH: "?R s" if "\<not> faultless v" "at H D s" for s
    using that p by (auto simp: refused_def pending_at_def)
  have only: "H x \<noteq> None \<and> is_quarantine b x \<longleftrightarrow> x = q \<and> H q \<noteq> None" for x
  proof (cases "x \<in> places q ?files")
    case True
    have "x = q" if "is_quarantine b x"
      using that True b quarantine_names [OF b(2)] q by (auto simp: places_def quarantine_def)
    with b(2) show ?thesis by auto
  next
    case False
    then have "H x = F x" "x \<noteq> q" using p by (auto simp: pending_def places_def)
    with b(3) show ?thesis by auto
  qed
  show "valid v (at H D) (ReconcilePendingQuarantines h unmarshal dbPath b) (\<lambda>_. at F D) ?R"
  proof (rule v_reconcile_one [OF only b(1) path])
    show "at F D s" if hq: "H q = None" and s: "at H D s" for s
    proof -
      from hq have "H (manifest_path q) = None" using p by (auto simp: pending_def)
      with p q hq have "H = F" by (auto simp: moving_def elim: pending_cases)
      with s show ?thesis by simp
    qed
  qed (use RH v_recover_dir [OF r p c] in auto)
qed

end
