(* ===== verification/Spool_Staging.thy ===== *)
theory Spool_Staging
  imports Spool_Recovery
begin

text \<open>
  The names in a quarantine and their validation, the recovery after the commit (the states \<open>purging\<close>), and the staging of the
  artifacts of the buffer by \<open>Run\<close> of \<open>app/daemon/migration/spool_migrator.go\<close>: directory, manifest and moves.
\<close>

declare split_paired_All [simp del] split_paired_Ex [simp del]

section \<open>Names in the quarantine\<close>

lemma show_int_chars: "x \<in> set (show_int i) \<Longrightarrow> x = CHR ''-'' \<or> x \<in> decimal_chars"
  using show_nat_digits by (auto simp: show_int_def split: if_splits)

lemma show_int_plain: "CHR ''/'' \<notin> set (show_int i)" "CHR ''_'' \<notin> set (show_int i)"
  using show_int_chars [of "CHR ''/''" i] show_int_chars [of "CHR ''_''" i] by (auto simp: decimal_chars_def)

lemma strict_subpath_name:
  assumes "d \<noteq> []" and "normal e"
  shows "isStrictSubpath d (Join d e)"
proof -
  have s: "CHR ''/'' \<notin> set e" using assms(2) by (simp add: normal_def)
  have "\<not> HasPrefix e (dotdot @ ''/'')" "\<not> IsAbs e"
    using s by (auto simp: HasPrefix_def IsAbs_def prefix_def)
  with assms show ?thesis by (simp add: isStrictSubpath_def Rel_name [OF assms] normal_def)
qed

lemma only_slashes: "set p \<subseteq> {CHR ''/''} \<Longrightarrow> elems p = []"
proof -
  assume p: "set p \<subseteq> {CHR ''/''}"
  then have e: "\<forall>e\<in>set (split_slash p). e = []" by (induction p) auto
  have "fold (clean_elem r) es st = st" if "\<forall>e\<in>set es. e = []" for r es st
    using that by (induction es) (simp_all add: clean_skip)
  with e show "elems p = []" by (simp add: elems_def)
qed

lemma Base_no_slash:
  assumes "isStrictSubpath b p"
  shows "CHR ''/'' \<notin> set (Base p)" and "Base p \<noteq> []"
proof -
  let ?q = "rev (dropWhile (\<lambda>c. c = CHR ''/'') (rev p))"
  let ?b = "rev (takeWhile (\<lambda>c. c \<noteq> CHR ''/'') (rev ?q))"
  have b: "CHR ''/'' \<notin> set ?b" using set_takeWhileD by fastforce
  have "elems p \<noteq> []"
  proof
    assume e: "elems p = []"
    have "strip_common (elems b) [] = (elems b, [])" by (cases "elems b") simp_all
    moreover have "join_slash (dotdot # replicate n dotdot) = dotdot \<or> HasPrefix (join_slash (dotdot # replicate n dotdot)) (dotdot @ ''/'')" for n
      by (cases n) (simp_all add: HasPrefix_def)
    ultimately show False using assms e by (cases "elems b") (auto simp: isStrictSubpath_def Rel_def split: if_splits)
  qed
  then have "\<not> set p \<subseteq> {CHR ''/''}" using only_slashes by blast
  then obtain c where "c \<in> set (rev p)" "c \<noteq> CHR ''/''" by auto
  then have "dropWhile (\<lambda>c. c = CHR ''/'') (rev p) \<noteq> []" by auto
  then obtain x xs where d: "dropWhile (\<lambda>c. c = CHR ''/'') (rev p) = x # xs" by (meson neq_Nil_conv)
  then have "x \<noteq> CHR ''/''" using hd_dropWhile [of "\<lambda>c. c = CHR ''/''" "rev p"] by simp
  with d have "?b \<noteq> []" by simp
  with b show "CHR ''/'' \<notin> set (Base p)" "Base p \<noteq> []" by (auto simp: Base_def Let_def)
qed

definition staged_name :: "nat \<times> string \<Rightarrow> string" where
  "staged_name = (\<lambda>(idx, p). ''staged_'' @ show_int (int idx) @ ''_'' @ Base p)"

lemma normal_staged: "isStrictSubpath b p \<Longrightarrow> normal (staged_name (i, p))"
  using Base_no_slash [of b p] show_int_plain by (simp add: normal_def staged_name_def dot_def dotdot_def)

lemma normal_manifest: "normal ''quarantine_manifest.json''"
  by (simp add: normal_def dot_def dotdot_def)

lemma normal_quarantine: "normal (''.migrator_quarantine_'' @ show_int now)"
  using show_int_plain by (simp add: normal_def dot_def dotdot_def)

lemma staged_name_inj:
  assumes "staged_name (i, p) = staged_name (j, r)"
  shows "i = j"
proof -
  have "takeWhile (\<lambda>c. c \<noteq> CHR ''_'') (show_int x @ ''_'' @ y) = show_int x" for x y
    using show_int_plain(2) [of x] by (simp add: takeWhile_append)
  moreover have "show_int (int i) @ ''_'' @ Base p = show_int (int j) @ ''_'' @ Base r" using assms by (simp add: staged_name_def)
  ultimately have "show_int (int i) = show_int (int j)" by metis
  from show_int_inj [OF this] show ?thesis by simp
qed

lemma quarantine_dir_facts:
  assumes "mo_BufferDir opts \<noteq> []" and "q = quarantine_dir opts now"
  shows "q \<noteq> []" "Clean q = q" "elems q \<noteq> []" "isStrictSubpath (mo_BufferDir opts) q" "is_quarantine (mo_BufferDir opts) q"
    "normal e \<Longrightarrow> Join q e = q @ CHR ''/'' # e"
proof -
  let ?b = "mo_BufferDir opts" and ?n = "''.migrator_quarantine_''"
  have q: "q = Join ?b (?n @ show_int now)" using assms(2) by (simp add: quarantine_dir_def)
  note e = elems_Join_name [OF assms(1) normal_quarantine, of now, folded q]
  show el: "elems q \<noteq> []" by (simp add: e(1))
  then show ne: "q \<noteq> []" by (auto simp: elems_def clean_skip)
  show cl: "Clean q = q" using assms(1) by (simp add: q Join_def Clean_idem)
  show "isStrictSubpath ?b q" unfolding q by (rule strict_subpath_name [OF assms(1) normal_quarantine])
  have "normal ?n" by (simp add: normal_def dot_def dotdot_def)
  from elems_Join_name(3) [OF assms(1) this] e(3)
  have "q = Join ?b ?n @ show_int now"
    by (cases "elems ?b = []") (simp_all add: path_of_def join_slash_last)
  then show "is_quarantine ?b q" using show_int_plain(1) by (simp add: is_quarantine_def HasPrefix_def)
  show "Join q e = q @ CHR ''/'' # e" if "normal e" using Join_name [OF ne that el] cl by simp
qed

section \<open>The entries of the manifest\<close>

definition file_content :: "fs \<Rightarrow> string \<Rightarrow> string" where
  "file_content F p = (case F p of Some (NFile c) \<Rightarrow> c | _ \<Rightarrow> [])"

definition entry_for :: "(string \<Rightarrow> string) \<Rightarrow> fs \<Rightarrow> string \<Rightarrow> nat \<times> string \<Rightarrow> QuarantineFileEntry" where
  "entry_for h F q ip = \<lparr>qe_OriginalPath = snd ip, qe_StagedName = staged_name ip, qe_StagedPath = Join q (staged_name ip),
     qe_Size = int (length (file_content F (snd ip))), qe_SHA256 = h (file_content F (snd ip))\<rparr>"

definition entries_for :: "(string \<Rightarrow> string) \<Rightarrow> fs \<Rightarrow> string \<Rightarrow> string list \<Rightarrow> QuarantineFileEntry list" where
  "entries_for h F q planned = map (entry_for h F q) (enumerate 0 planned)"

lemma entries_for_orig [simp]: "map qe_OriginalPath (entries_for h F q planned) = planned"
  by (simp add: entries_for_def entry_for_def comp_def flip: map_map [of snd]) 

definition artifact :: "fs \<Rightarrow> string \<Rightarrow> string \<Rightarrow> bool" where
  "artifact F b p \<longleftrightarrow> (\<exists>c. F p = Some (NFile c)) \<and> isStrictSubpath b p \<and> is_artifact (Base p)"

text \<open>A state in which the migration may begin: no quarantine is left, and the directories of the buffer and of its files exist.\<close>

definition buffer_ready :: "MigrationOptions \<Rightarrow> int64 \<Rightarrow> fs \<Rightarrow> bool" where
  "buffer_ready opts now F \<longleftrightarrow> (\<forall>q p. is_quarantine (mo_BufferDir opts) q \<longrightarrow> below q p \<longrightarrow> F p = None) \<and>
     (\<forall>d\<in>set (dir_chain (quarantine_dir opts now)). d \<noteq> quarantine_dir opts now \<longrightarrow> F d = Some NDir) \<and>
     (\<forall>p c. F p = Some (NFile c) \<longrightarrow> (\<forall>d\<in>set (dir_chain (Dir p)). F d = Some NDir))"

lemma entries_quarantine:
  assumes b: "mo_BufferDir opts \<noteq> []" and q: "q = quarantine_dir opts now" and F: "buffer_ready opts now F"
    and planned: "distinct planned" "\<forall>p\<in>set planned. artifact F (mo_BufferDir opts) p"
  shows "quarantine h F q (entries_for h F q planned)"
proof -
  note Q = quarantine_dir_facts [OF b q]
  have mp: "manifest_path q = q @ CHR ''/'' # ''quarantine_manifest.json''"
    unfolding manifest_path_def by (rule Q(6) [OF normal_manifest])
  have st: "qe_StagedPath f = q @ CHR ''/'' # qe_StagedName f \<and> qe_StagedName f = staged_name (i, p)"
    if "f = entry_for h F q (i, p)" "p \<in> set planned" for f i p
    using that planned(2) Q(6) [OF normal_staged] by (auto simp: entry_for_def artifact_def)
  have "inj_on qe_StagedPath (set (entries_for h F q planned))"
  proof (rule inj_onI)
    fix f g assume "f \<in> set (entries_for h F q planned)" "g \<in> set (entries_for h F q planned)" and e: "qe_StagedPath f = qe_StagedPath g"
    then obtain i p j r where f: "f = entry_for h F q (i, p)" "(i, p) \<in> set (enumerate 0 planned)"
      and g: "g = entry_for h F q (j, r)" "(j, r) \<in> set (enumerate 0 planned)" by (auto simp: entries_for_def)
    then have "p \<in> set planned" "r \<in> set planned" by (auto simp: in_set_enumerate_eq)
    with st f(1) g(1) e have "staged_name (i, p) = staged_name (j, r)" by fastforce
    then have "i = j" by (rule staged_name_inj)
    with f g show "f = g" by (auto simp: in_set_enumerate_eq)
  qed
  moreover have "distinct (entries_for h F q planned)"
    using planned(1) entries_for_orig [of h F q planned] by (metis distinct_map)
  ultimately have ds: "distinct (map qe_StagedPath (entries_for h F q planned))" by (simp add: distinct_map)
  have "(\<exists>c. F (qe_OriginalPath f) = Some (NFile c) \<and> qe_Size f = int (length c) \<and> qe_SHA256 f = h c) \<and>
        below q (qe_StagedPath f) \<and> qe_StagedPath f \<noteq> q \<and> qe_StagedPath f \<noteq> manifest_path q \<and>
        (\<forall>d\<in>set (dir_chain (Dir (qe_OriginalPath f))). F d = Some NDir)"
    if "f \<in> set (entries_for h F q planned)" for f
  proof -
    from that obtain i p where f: "f = entry_for h F q (i, p)" and p: "p \<in> set planned"
      by (auto simp: entries_for_def in_set_enumerate_eq)
    from planned(2) p obtain c where c: "F p = Some (NFile c)" by (auto simp: artifact_def)
    with st [OF f p] F f show ?thesis
      by (auto simp: entry_for_def file_content_def below_def HasPrefix_def mp staged_name_def buffer_ready_def)
  qed
  moreover have "F p = None" if "below q p" for p using F that Q(5) by (auto simp: buffer_ready_def)
  ultimately show ?thesis using ds planned(1) by (auto simp: quarantine_def mp below_def HasPrefix_def)
qed

lemma entries_validate:
  assumes b: "mo_BufferDir opts \<noteq> []" and q: "q = quarantine_dir opts now" and man: "qm_Files man = entries_for h F q planned"
    and planned: "\<forall>p\<in>set planned. artifact F (mo_BufferDir opts) p"
  shows "validateQuarantinePaths man q (mo_BufferDir opts) = None"
proof -
  note Q = quarantine_dir_facts [OF b q]
  have "entry_error q (mo_BufferDir opts) f = None" if "f \<in> set (qm_Files man)" for f
  proof -
    from that obtain i p where f: "f = entry_for h F q (i, p)" and p: "p \<in> set planned"
      by (auto simp: man entries_for_def in_set_enumerate_eq)
    then have n: "normal (staged_name (i, p))" "isStrictSubpath (mo_BufferDir opts) p"
      using planned normal_staged by (auto simp: artifact_def)
    with strict_subpath_name [OF Q(1) n(1)] show ?thesis by (simp add: f entry_error_def entry_for_def normal_def)
  qed
  with Q(4) show ?thesis by (simp add: validateQuarantinePaths_def filter_False)
qed

section \<open>After the commit\<close>

text \<open>The artifacts are gone from their places; of the quarantine there is at most the manifest and, with it, staged files.\<close>

definition cleaned :: "fs \<Rightarrow> QuarantineFileEntry list \<Rightarrow> fs" where
  "cleaned F files = (\<lambda>p. if p \<in> qe_OriginalPath ` set files then None else F p)"

definition purging :: "fs \<Rightarrow> string \<Rightarrow> QuarantineFileEntry list \<Rightarrow> string \<Rightarrow> fs \<Rightarrow> bool" where
  "purging F q files M H \<longleftrightarrow> (\<forall>p. \<not> below q p \<longrightarrow> H p = cleaned F files p) \<and> (\<forall>p. below q p \<longrightarrow> p \<notin> places q files \<longrightarrow> H p = None) \<and>
     (H (manifest_path q) = Some (NFile M) \<and> H q = Some NDir \<and> (\<forall>f\<in>set files. H (qe_StagedPath f) \<noteq> Some NDir) \<or>
      H (manifest_path q) = None \<and> (H q = None \<or> H q = Some NDir) \<and> (\<forall>f\<in>set files. H (qe_StagedPath f) = None))"

definition purging_at :: "fs \<Rightarrow> string \<Rightarrow> QuarantineFileEntry list \<Rightarrow> string \<Rightarrow> mig_db \<Rightarrow> mig \<Rightarrow> bool" where
  "purging_at F q files M D s \<longleftrightarrow> (\<exists>H. purging F q files M H \<and> at H D s)"

lemma cleaned_below: "quarantine h F q files \<Longrightarrow> below q p \<Longrightarrow> cleaned F files p = None"
  by (auto simp: cleaned_def quarantine_def)

lemma purging_done:
  assumes "quarantine h F q files"
  shows "purging F q files M (cleaned F files)" "purging F q files M ((cleaned F files)(q \<mapsto> NDir))"
  using cleaned_below [OF assms] quarantine_staged [OF assms] assms by (auto simp: purging_def places_def quarantine_def)

lemma purging_gone:
  assumes p: "purging F q files M H" and q: "quarantine h F q files" and mp: "H (manifest_path q) = None" and hq: "H q = y"
  shows "H = (cleaned F files)(q := y)"
proof
  fix x
  have "H x = cleaned F files x" if "x \<noteq> q"
  proof (cases "below q x")
    case True
    then have "x \<notin> qe_OriginalPath ` set files" using quarantine_apart(4) [OF q] by auto
    with True that p mp have "H x = None" by (auto simp: purging_def places_def)
    with True cleaned_below [OF q] show ?thesis by simp
  qed (use p in \<open>simp add: purging_def\<close>)
  with hq show "H x = ((cleaned F files)(q := y)) x" by simp
qed

definition purged :: "QuarantineFileEntry list \<Rightarrow> fs \<Rightarrow> fs" where
  "purged xs H = (\<lambda>p. if p \<in> qe_StagedPath ` set xs then None else H p)"

lemma purged_snoc: "purged (xs @ [f]) H = (purged xs H)(qe_StagedPath f := None)"
  by (auto simp: purged_def)

lemma purging_purged:
  assumes p: "purging F q files M H" and q: "quarantine h F q files" and mp: "H (manifest_path q) = Some (NFile M)" and xs: "set xs \<subseteq> set files"
  shows "purging F q files M (purged xs H)" "purged xs H (manifest_path q) = Some (NFile M)" "purged xs H q = Some NDir"
proof -
  have nb: "p \<notin> qe_StagedPath ` set xs" if "\<not> below q p \<or> p = q \<or> p = manifest_path q" for p
    using that xs quarantine_staged [OF q] by blast
  then show m: "purged xs H (manifest_path q) = Some (NFile M)" "purged xs H q = Some NDir"
    using p mp by (auto simp: purged_def purging_def)
  show "purging F q files M (purged xs H)"
    using p m nb mp unfolding purging_def by (auto simp: purged_def)
qed

lemma v_purge:
  assumes p: "purging F q files M H" and q: "quarantine h F q files" and mp: "H (manifest_path q) = Some (NFile M)"
    and m: "\<And>f. m f = wrapped (msg f) (remove_call (qe_StagedPath f))"
  shows "valid v (at H D) (for_all m files) (\<lambda>_. at (purged files H) D) (stuck v (purging_at F q files M D))"
proof -
  have "purged [] H = H" by (simp add: purged_def)
  moreover have "valid v (at (purged [] H) D) (for_all m files) (\<lambda>_. at (purged files H) D) (stuck v (purging_at F q files M D))"
  proof (rule valid_for_all [where I = "\<lambda>xs. at (purged xs H) D"])
    fix xs f ys assume l: "files = xs @ f # ys"
    then have f: "f \<in> set files" "set xs \<subseteq> set files" by auto
    note px = purging_purged [OF p q mp f(2)]
    have nd: "purged xs H (qe_StagedPath f) \<noteq> Some NDir" using px(1,2) f(1) by (auto simp: purging_def)
    show "valid v (at (purged xs H) D) (m f) (\<lambda>_. at (purged (xs @ [f]) H) D) (stuck v (purging_at F q files M D))"
      unfolding m purged_snoc
      by (rule valid_wrapped, rule valid_post [OF v_remove]) (use nd px(1) in \<open>auto simp: stuck_def purging_at_def\<close>)
  qed
  ultimately show ?thesis by simp
qed

lemma v_drop_purged:
  assumes p: "purging F q files M H" and q: "quarantine h F q files" and mp: "H (manifest_path q) = Some (NFile M)"
  shows "valid v (at (purged files H) D) (andThen (wrapped m1 (remove_call (manifest_path q))) (\<lambda>_. wrapped m2 (remove_all_call q))) (\<lambda>_. at (cleaned F files) D) (stuck v (purging_at F q files M D))"
proof -
  let ?G = "purged files H"
  note G = purging_purged [OF p q mp, of files]
  have rest: "?G x = None" if "below q x" "x \<noteq> q" "x \<noteq> manifest_path q" for x
    using that p quarantine_apart(4) [OF q] by (auto simp: purged_def purging_def places_def)
  have out: "outside q ?G = cleaned F files"
  proof
    fix x
    show "outside q ?G x = cleaned F files x"
      using cleaned_below [OF q, of x] G(1) by (cases "below q x") (auto simp: outside_def purging_def)
  qed
  show ?thesis
  proof (rule valid_post [OF v_drop_quarantine])
    show "stuck v (purging_at F q files M D) s" if "stuck v (\<lambda>s. \<exists>X\<in>{?G, (outside q ?G)(q \<mapsto> NDir), outside q ?G}. at X D s) s" for s
      using that G(1) purging_done [OF q] unfolding out by (auto simp: stuck_def purging_at_def)
  qed (use G rest out q in \<open>auto simp: quarantine_def\<close>)
qed

lemma v_purge_manifest:
  assumes r: "recoverable h unmarshal b F q man M" and p: "purging F q (qm_Files man) M H" and mp: "H (manifest_path q) = Some (NFile M)"
    and c: "has_verdict D (qm_MigrationID man)" and db: "faultless v \<longrightarrow> dbOpen"
  shows "valid v (at H D) (reconcile_manifest h dbOpen b q man rep) (\<lambda>_. at (cleaned F (qm_Files man)) D)
      (stuck v (purging_at F q (qm_Files man) M D))"
proof (cases dbOpen)
  case True
  let ?files = "qm_Files man" and ?R = "stuck v (purging_at F q (qm_Files man) M D)"
  have q: "quarantine h F q ?files" and val: "validateQuarantinePaths man q b = None" using r by (auto simp: recoverable_def)
  have vd: "valid v (at H D) (read_verdict (qm_MigrationID man)) (\<lambda>r s. r = has_verdict D (qm_MigrationID man) \<and> at H D s) ?R"
    by (rule valid_post [OF v_verdict]) (use p in \<open>auto simp: stuck_def purging_at_def\<close>)
  have pu: "valid v (at H D) (for_all purge_entry ?files) (\<lambda>_. at (purged ?files H) D) ?R"
    by (rule v_purge [OF p q mp]) (rule purge_entry_def)
  show ?thesis using True unfolding reconcile_manifest_def val drop_quarantine_def
    by simp (rule valid_andThen [OF vd], rule valid_fact, simp add: c, rule valid_andThen [OF pu valid_andThen [OF v_drop_purged [OF p q mp] valid_ret]])
next
  case False
  with db r p show ?thesis
    unfolding reconcile_manifest_def by (auto intro!: valid_raise simp: stuck_def purging_at_def recoverable_def)
qed

lemma v_recover_purging:
  assumes r: "recoverable h unmarshal b F q man M" and c: "has_verdict D (qm_MigrationID man)" and path: "dbPath \<noteq> []"
  shows "valid v (purging_at F q (qm_Files man) M D) (ReconcilePendingQuarantines h unmarshal dbPath b)
      (\<lambda>_. at (cleaned F (qm_Files man)) D) (stuck v (purging_at F q (qm_Files man) M D))"
proof (rule valid_pre [where P = "\<lambda>s. \<exists>H. purging F q (qm_Files man) M H \<and> at H D s"], intro valid_ex valid_fact)
  fix H assume p: "purging F q (qm_Files man) M H"
  let ?files = "qm_Files man" and ?R = "stuck v (purging_at F q (qm_Files man) M D)"
  have q: "quarantine h F q ?files" and b: "b \<noteq> []" "is_quarantine b q" "\<forall>p. is_quarantine b p \<longrightarrow> F p = None"
    and un: "unmarshal M = Some man"
    using r by (auto simp: recoverable_def)
  have RH: "?R s" if "\<not> faultless v" "at H D s" for s using that p by (auto simp: stuck_def purging_at_def)
  have only: "H x \<noteq> None \<and> is_quarantine b x \<longleftrightarrow> x = q \<and> H q \<noteq> None" for x
  proof (cases "below q x")
    case True
    with quarantine_names [OF b(2)] b(2) show ?thesis by auto
  next
    case False
    with p b show ?thesis by (auto simp: purging_def cleaned_def split: if_splits)
  qed
  have dir: "valid v (at H D) (reconcile_dir h unmarshal dbOpen b q rep) (\<lambda>_. at (cleaned F ?files) D) ?R"
    if hq: "H q \<noteq> None" and db: "faultless v \<longrightarrow> dbOpen" for dbOpen rep
  proof (cases "H (manifest_path q)")
    case None
    have "H q = Some NDir" using p hq None by (auto simp: purging_def)
    with purging_gone [OF p q None] have HF: "H = (cleaned F ?files)(q \<mapsto> NDir)" .
    have "\<forall>x. H x \<noteq> None \<longrightarrow> \<not> entry_of q x" "H(q := None) = cleaned F ?files"
      using HF cleaned_below [OF q] entry_below [of q] by auto
    with None show ?thesis by (intro valid_post [OF v_orphan_dir [of H q]]) (use p in \<open>auto simp: stuck_def purging_at_def\<close>)
  next
    case (Some x)
    then have mp: "H (manifest_path q) = Some (NFile M)" using p by (auto simp: purging_def)
    then show ?thesis
      by (rule v_manifest_dir [of H q]) (use un v_purge_manifest [OF r p mp c db] RH in auto)
  qed
  show "valid v (at H D) (ReconcilePendingQuarantines h unmarshal dbPath b) (\<lambda>_. at (cleaned F ?files) D) ?R"
  proof (rule v_reconcile_one [OF only b(1) path _ _ dir])
    show "at (cleaned F ?files) D s" if hq: "H q = None" and s: "at H D s" for s
    proof -
      from hq have "H (manifest_path q) = None" using p by (auto simp: purging_def)
      from purging_gone [OF p q this hq] cleaned_below [OF q, of q] have "H = cleaned F ?files" by (simp add: fun_upd_idem)
      with s show ?thesis by simp
    qed
  qed (use RH in auto)
qed (simp add: purging_at_def)

section \<open>Staging\<close>

lemma in_own_chain:
  assumes "Clean q = q" and "elems q \<noteq> []"
  shows "q \<in> set (dir_chain q)"
proof -
  have "q = path_of (IsAbs q) (take (length (elems q)) (elems q))" using assms(1) by (simp add: Clean_def)
  moreover have "length (elems q) \<in> set [1..<Suc (length (elems q))]" using assms(2) by (simp add: Suc_le_eq)
  ultimately show ?thesis unfolding dir_chain_def set_map by (rule image_eqI)
qed

lemma v_mkdir_one:
  assumes "\<forall>d\<in>set (dir_chain q). d \<noteq> q \<longrightarrow> F d = Some NDir" and "q \<in> set (dir_chain q)" and "F q = None"
  shows "valid v (at F D) (mkdir_call q) (\<lambda>_. at (F(q \<mapsto> NDir)) D) (stuck v (\<lambda>s. at F D s \<or> at (F(q \<mapsto> NDir)) D s))"
proof -
  have m: "make_dirs (take n (dir_chain q)) F = (if q \<in> set (take n (dir_chain q)) then F(q \<mapsto> NDir) else F)" for n
    using assms(1,3) by (auto simp: make_dirs_def fun_eq_iff dest: in_set_takeD)
  from m [of "length (dir_chain q)"] assms(2) have full: "make_dirs (dir_chain q) F = F(q \<mapsto> NDir)" by simp
  show ?thesis
    by (rule valid_post [OF v_mkdir]) (use assms in \<open>auto simp: full m stuck_def split: if_splits\<close>)
qed

lemma v_staged_entry:
  assumes "F p = Some (NFile c)" and "G p = F p"
  shows "valid v (at G D) (staged_entry h q (i, p)) (\<lambda>r s. r = entry_for h F q (i, p) \<and> at G D s) (stuck v (at G D))"
proof -
  have G: "G p = Some (NFile c)" using assms by simp
  have e: "entry_for h F q (i, p) = \<lparr>qe_OriginalPath = p, qe_StagedName = ''staged_'' @ show_int (int i) @ ''_'' @ Base p,
      qe_StagedPath = Join q (''staged_'' @ show_int (int i) @ ''_'' @ Base p), qe_Size = int (length c), qe_SHA256 = h c\<rparr>"
    using assms(1) by (simp add: entry_for_def staged_name_def file_content_def)
  have hs: "valid v (at G D) (wrapped msg (hash_call h p)) (\<lambda>r s. r = h c \<and> at G D s) (stuck v (at G D))" for msg
    by (rule valid_wrapped, rule v_hash [of G, OF G])
  show ?thesis unfolding staged_entry_def
    by (simp add: Let_def, rule valid_andThen [OF valid_wrapped [OF v_stat]], rule valid_fact)
      (simp add: G, rule valid_andThen [OF hs], rule valid_fact, auto simp: e intro!: valid_ret)
qed

lemma v_staged_entries:
  assumes "\<forall>p\<in>set planned. \<exists>c. F p = Some (NFile c)" and "\<forall>p\<in>set planned. G p = F p"
  shows "valid v (at G D) (map_prog (staged_entry h q) (enumerate 0 planned)) (\<lambda>r s. r = entries_for h F q planned \<and> at G D s) (stuck v (at G D))"
proof -
  have "valid v (\<lambda>s. [] = map (entry_for h F q) [] \<and> at G D s) (map_prog (staged_entry h q) (enumerate 0 planned))
      (\<lambda>r s. r = map (entry_for h F q) (enumerate 0 planned) \<and> at G D s) (stuck v (at G D))"
  proof (rule valid_map_prog [where I = "\<lambda>xs rs s. rs = map (entry_for h F q) xs \<and> at G D s"])
    fix xs x ys rs assume l: "enumerate 0 planned = xs @ x # ys"
    obtain i p where x: "x = (i, p)" by fastforce
    have "x \<in> set (enumerate 0 planned)" unfolding l by simp
    then have "p \<in> set planned" by (auto simp: x in_set_enumerate_eq)
    then obtain c where c: "F p = Some (NFile c)" "G p = F p" using assms by blast
    show "valid v (\<lambda>s. rs = map (entry_for h F q) xs \<and> at G D s) (staged_entry h q x)
        (\<lambda>r s. rs @ [r] = map (entry_for h F q) (xs @ [x]) \<and> at G D s) (stuck v (at G D))"
      unfolding x by (rule valid_fact, rule valid_post [OF v_staged_entry [of F p c G, OF c]]) auto
  qed
  then show ?thesis by (simp add: entries_for_def)
qed

lemma v_write_manifest:
  assumes q: "quarantine h F q files" and M: "M = marshal man"
  shows "valid v (at (F(q \<mapsto> NDir)) D) (write_manifest marshal q man) (\<lambda>_. at (F(q \<mapsto> NDir, manifest_path q \<mapsto> NFile M)) D)
      (stuck v (pending_at F q files M D))"
proof -
  let ?S = "stuck v (pending_at F q files M D)" and ?m = "manifest_path q"
  have ne: "?m \<noteq> q" "F ?m = None" using q quarantine_None [OF q] by (auto simp: quarantine_def)
  have tor: "pending F q files M (F(q \<mapsto> NDir, ?m \<mapsto> NFile (take k M)))" for k
    using quarantine_apart [OF q] quarantine_staged [OF q] ne by (auto simp: pending_def places_def)
  have full: "pending F q files M (F(q \<mapsto> NDir, ?m \<mapsto> NFile M))" using tor [of "length M"] by simp
  have st: "?S s" if "stuck v (at X D) s" "pending F q files M X" for s X
    using that by (auto simp: stuck_def pending_at_def)
  have cr: "valid v (at (F(q \<mapsto> NDir)) D) (create_call False ?m) (\<lambda>_. at (F(q \<mapsto> NDir, ?m \<mapsto> NFile [])) D) ?S"
    by (rule valid_post [OF v_create [of "F(q \<mapsto> NDir)"]]) (use ne pending_none [OF q] st in auto)
  have wr: "valid v (at (F(q \<mapsto> NDir, ?m \<mapsto> NFile [])) D) (write_call ?m (marshal man)) (\<lambda>_. at (F(q \<mapsto> NDir, ?m \<mapsto> NFile M)) D) ?S"
    by (rule valid_post [OF v_write]) (use tor in \<open>auto simp: stuck_def pending_at_def M\<close>)
  have sy: "valid v (at (F(q \<mapsto> NDir, ?m \<mapsto> NFile M)) D) sync_call (\<lambda>_. at (F(q \<mapsto> NDir, ?m \<mapsto> NFile M)) D) ?S"
    by (rule valid_post [OF v_sync]) (use full st in auto)
  have sd: "valid v (at (F(q \<mapsto> NDir, ?m \<mapsto> NFile M)) D) sync_dir (\<lambda>_. at (F(q \<mapsto> NDir, ?m \<mapsto> NFile M)) D) ?S"
    by (rule valid_post [OF v_sync_dir]) (use full st in auto)
  show ?thesis unfolding write_manifest_def
    by (intro valid_andThen [OF valid_wrapped [OF cr]] valid_andThen [OF valid_wrapped [OF wr]]
        valid_andThen [OF valid_wrapped [OF sy]] valid_wrapped [OF sd])
qed

text \<open>The files after the entries \<open>xs\<close> have been staged.\<close>

definition staged_state :: "fs \<Rightarrow> QuarantineFileEntry list \<Rightarrow> fs \<Rightarrow> fs" where
  "staged_state F xs G = foldl (\<lambda>H f. H(qe_OriginalPath f := None, qe_StagedPath f := F (qe_OriginalPath f))) G xs"

lemma staged_state_snoc:
  "staged_state F (xs @ [f]) G = (staged_state F xs G)(qe_OriginalPath f := None, qe_StagedPath f := F (qe_OriginalPath f))"
  by (simp add: staged_state_def)

lemma staged_state_other: "p \<notin> qe_OriginalPath ` set xs \<Longrightarrow> p \<notin> qe_StagedPath ` set xs \<Longrightarrow> staged_state F xs G p = G p"
  by (induction xs rule: rev_induct) (auto simp: staged_state_snoc, simp add: staged_state_def)

lemma moving_staged:
  assumes q: "quarantine h F q files" and m: "moving F q files M G" and xs: "files = xs @ ys"
  shows "moving F q files M (staged_state F xs G)"
  using xs
proof (induction xs arbitrary: ys rule: rev_induct)
  case Nil
  with m show ?case by (simp add: staged_state_def)
next
  case (snoc f xs)
  then have l: "files = xs @ f # ys" by simp
  then have f: "f \<in> set files" by simp
  with q obtain c where c: "F (qe_OriginalPath f) = Some (NFile c)" by (rule quarantineD)
  show ?case unfolding staged_state_snoc c
    by (rule moving_upd [OF q snoc.IH [OF l] f c]) (simp add: part_copy_def)
qed

lemma v_stage_entry:
  assumes q: "quarantine h F q files" and l: "files = xs @ f # ys" and G: "G = F(q \<mapsto> NDir, manifest_path q \<mapsto> NFile M)"
  shows "valid v (at (staged_state F xs G) D) (stage_entry h f) (\<lambda>_. at (staged_state F (xs @ [f]) G) D) (stuck v (pending_at F q files M D))"
proof -
  let ?H = "staged_state F xs G" and ?S = "stuck v (pending_at F q files M D)" and ?o = "qe_OriginalPath f" and ?t = "qe_StagedPath f"
  have f: "f \<in> set files" using l by simp
  with q obtain c where c: "F ?o = Some (NFile c)" "qe_Size f = int (length c)" "qe_SHA256 f = h c" "F ?t = None" by (rule quarantineD)
  have "safe_copy F g G" if "g \<in> set files" for g
    using quarantine_apart [OF q that that] quarantine_staged [OF q that] that
    by (auto simp: safe_copy_def part_copy_def G elim!: quarantineD [OF q])
  then have mG: "moving F q files M G" using q by (auto simp: moving_def G places_def quarantine_def)
  have mH: "moving F q files M ?H" by (rule moving_staged [OF q mG l])
  note sp = quarantine_split [OF q [unfolded l]]
  have H: "?H ?o = Some (NFile c)" "?H ?t = None"
    using staged_state_other [OF sp(1,3), of F G] staged_state_other [OF sp(4,2), of F G]
      quarantine_apart [OF q f f] quarantine_staged [OF q f] c(1) by (auto simp: G)
  have pend: "pending_at F q files M D s" if "half_at ?H D ?o ?t c s" for s
  proof -
    from that obtain X where X: "half_moved ?H ?o ?t c X" and s: "at X D s" by (auto simp: half_at_def)
    from X H sp(5) have "X = ?H \<or> (\<exists>a b. (a = Some (NFile c) \<and> part_copy c b \<or> b = Some (NFile c) \<and> part_copy c a) \<and> X = ?H(?o := a, ?t := b))"
      unfolding half_moved_def part_copy_def by (metis fun_upd_triv fun_upd_twist)
    then have "moving F q files M X" using mH moving_upd [of h F q files M ?H f c, OF q mH f c(1)] by auto
    with s show ?thesis by (auto simp: pending_at_def dest: moving_pending)
  qed
  have st: "valid v (at ?H D) (wrapped ''stat buffer file before staging'' (stat_call ?o)) (\<lambda>r s. r = Some (NFile c) \<and> at ?H D s) ?S"
    by (rule valid_wrapped, rule valid_post [OF v_stat]) (use H moving_pending [OF mH] in \<open>auto simp: stuck_def pending_at_def\<close>)
  have mv: "valid v (at ?H D) (durableNoReplaceMove h ?o ?t (qe_Size f) (qe_SHA256 f)) (\<lambda>_. at (staged_state F (xs @ [f]) G) D) ?S"
    by (rule valid_post [OF v_move [of ?H ?o c]]) (use H sp(5) c pend in \<open>auto simp: staged_state_snoc stuck_def\<close>)
  show ?thesis unfolding stage_entry_def
    by (rule valid_andThen [OF st], rule valid_fact) (simp add: valid_wrapped [OF mv])
qed

lemma staged_purging:
  assumes q: "quarantine h F q files" and G: "G = F(q \<mapsto> NDir, manifest_path q \<mapsto> NFile M)"
  shows "purging F q files M (staged_state F files G)" and "staged_state F files G (manifest_path q) = Some (NFile M)"
    and "pending F q files M (staged_state F files G)"
proof -
  have orig: "staged_state F files G p = None" if "p \<in> qe_OriginalPath ` set files" for p
  proof -
    have "staged_state F xs G p = None" if "p \<in> qe_OriginalPath ` set xs" "set xs \<subseteq> set files" for xs
      using that
    proof (induction xs rule: rev_induct)
      case (snoc f xs)
      from snoc.prems obtain g where g: "g \<in> set files" "p = qe_OriginalPath g" and f: "f \<in> set files" by auto
      from quarantine_apart(1) [OF q g(1) f] g(2) have "p \<noteq> qe_StagedPath f" by simp
      with snoc show ?case by (auto simp: staged_state_snoc)
    qed simp
    from this [of files] that show ?thesis by simp
  qed
  have nb: "staged_state F files G p = G p" if "p \<notin> qe_OriginalPath ` set files" "\<not> below q p \<or> p \<notin> places q files \<or> p = q \<or> p = manifest_path q" for p
    by (rule staged_state_other) (use that quarantine_staged [OF q] in \<open>auto simp: places_def\<close>)
  have mG: "moving F q files M G"
    using quarantine_apart [OF q] quarantine_staged [OF q] q
    by (auto simp: moving_def G places_def safe_copy_def part_copy_def quarantine_def)
  have mS: "moving F q files M (staged_state F files G)" using moving_staged [OF q mG, of files "[]"] by simp
  then show "staged_state F files G (manifest_path q) = Some (NFile M)" "pending F q files M (staged_state F files G)"
    using moving_pending [OF mS] by (simp_all add: moving_def)
  have "staged_state F files G (qe_StagedPath f) \<noteq> Some NDir" if "f \<in> set files" for f
    using mS that by (auto simp: moving_def safe_copy_def part_copy_def)
  moreover have "staged_state F files G p = cleaned F files p" if "\<not> below q p" for p
    using that nb [of p] orig [of p] q by (auto simp: cleaned_def G quarantine_def below_def)
  moreover have "staged_state F files G p = None" if "below q p" "p \<notin> places q files" for p
    using that nb [of p] orig [of p] q by (auto simp: G quarantine_def places_def)
  ultimately show "purging F q files M (staged_state F files G)" using mS by (simp add: purging_def moving_def)
qed

lemma v_stage_files:
  assumes b: "mo_BufferDir opts \<noteq> []" and q: "q = quarantine_dir opts now" and F: "buffer_ready opts now F"
    and planned: "distinct planned" "\<forall>p\<in>set planned. artifact F (mo_BufferDir opts) p"
    and files: "files = entries_for h F q planned" and M: "M = marshal \<lparr>qm_MigrationID = ident, qm_QuarantineDir = q, qm_CreatedAt = now, qm_Files = files\<rparr>"
    and G: "G = F(q \<mapsto> NDir, manifest_path q \<mapsto> NFile M)"
  shows "valid v (at F D) (stage_files h marshal q ident now planned) (\<lambda>r s. r = files \<and> at (staged_state F files G) D s)
      (stuck v (pending_at F q files M D))"
proof -
  let ?S = "stuck v (pending_at F q files M D)"
  note Q = quarantine_dir_facts [OF b q]
  have qr: "quarantine h F q files" unfolding files by (rule entries_quarantine [OF b q F planned])
  note pn = pending_none [OF qr, of M]
  have mk: "valid v (at F D) (wrapped ''create quarantine directory'' (mkdir_call q)) (\<lambda>_. at (F(q \<mapsto> NDir)) D) ?S"
    by (rule valid_wrapped, rule valid_post [OF v_mkdir_one [OF _ in_own_chain [OF Q(2,3)]]])
      (use F q pn quarantine_None [OF qr] in \<open>auto simp: buffer_ready_def stuck_def pending_at_def\<close>)
  have pl: "\<forall>p\<in>set planned. \<exists>c. F p = Some (NFile c)" "\<forall>p\<in>set planned. (F(q \<mapsto> NDir)) p = F p"
    using planned(2) quarantine_None [OF qr] by (auto simp: artifact_def)
  have en: "valid v (at (F(q \<mapsto> NDir)) D) (map_prog (staged_entry h q) (enumerate 0 planned)) (\<lambda>r s. r = files \<and> at (F(q \<mapsto> NDir)) D s) ?S"
    unfolding files by (rule valid_post [OF v_staged_entries [where G = "F(q \<mapsto> NDir)" and F = F, OF pl]]) (use pn in \<open>auto simp: stuck_def pending_at_def files\<close>)
  have mf: "valid v (at (F(q \<mapsto> NDir)) D) (write_manifest marshal q \<lparr>qm_MigrationID = ident, qm_QuarantineDir = q, qm_CreatedAt = now, qm_Files = files\<rparr>)
      (\<lambda>_. at G D) ?S"
    unfolding G by (rule v_write_manifest [where marshal = marshal, OF qr M])
  have "valid v (at (staged_state F [] G) D) (for_all (stage_entry h) files) (\<lambda>_. at (staged_state F files G) D) ?S"
    by (rule valid_for_all [where I = "\<lambda>xs. at (staged_state F xs G) D"]) (rule v_stage_entry [OF qr _ G])
  then have fa: "valid v (at G D) (for_all (stage_entry h) files) (\<lambda>_. at (staged_state F files G) D) ?S"
    by (simp add: staged_state_def)
  show ?thesis unfolding stage_files_def
  proof (rule valid_andThen [OF mk], rule valid_andThen [OF en], rule valid_fact)
    fix r assume r: "r = files"
    show "valid v (at (F(q \<mapsto> NDir)) D) (andThen (write_manifest marshal q \<lparr>qm_MigrationID = ident, qm_QuarantineDir = q, qm_CreatedAt = now, qm_Files = r\<rparr>) (\<lambda>_.
        andThen (for_all (stage_entry h) r) (\<lambda>_. ret r))) (\<lambda>r s. r = files \<and> at (staged_state F files G) D s) ?S"
      unfolding r by (rule valid_andThen [OF mf valid_andThen [OF fa valid_ret]]) simp
  qed
qed

end
