(* ===== verification/Spool_Run.thy ===== *)
theory Spool_Run
  imports Spool_Staging
begin

text \<open>
  The inventory and the transaction of \<open>Run\<close> of \<open>app/daemon/migration/spool_migrator.go\<close>. The inventory yields a
  sound report (\<open>sound_report\<close>), the transaction commits the database \<open>migrated\<close>, and every way to interrupt
  the two leaves a state that the recovery can deal with (\<open>interrupted\<close>).
\<close>

declare split_paired_All [simp del] split_paired_Ex [simp del]

section \<open>The inventory\<close>

text \<open>A file among the candidates that agrees with the size and the digest, as far as they are known.\<close>

definition verified_on_disk :: "(string \<Rightarrow> string) \<Rightarrow> fs \<Rightarrow> string list \<Rightarrow> int64 \<Rightarrow> string \<Rightarrow> bool" where
  "verified_on_disk h F cands n x \<longleftrightarrow> (\<exists>p\<in>set cands. \<exists>c. F p = Some (NFile c) \<and> (0 < n \<longrightarrow> int (length c) = n) \<and> (x \<noteq> [] \<longrightarrow> ToLower (h c) = ToLower x))"

definition sound_item :: "(string \<Rightarrow> string) \<Rightarrow> MigrationOptions \<Rightarrow> fs \<Rightarrow> ItemReport \<Rightarrow> bool" where
  "sound_item h opts F i \<longleftrightarrow> (it_Disposition i = DispositionImportSuccess \<longrightarrow>
     verified_on_disk h F (candidates opts (it_SavePath i)) (it_Size i) (it_SHA256 i))"

definition item_for :: "msg_key \<Rightarrow> ItemReport \<Rightarrow> bool" where
  "item_for k i \<longleftrightarrow> key_text (it_ChatID i, it_MessageID i) = key_text k \<and> applied (it_Disposition i)"

definition legacy_keys :: "mig_db \<Rightarrow> msg_key list" where
  "legacy_keys D = map ce_key (coalesce (g_commits D) []) @ map ae_key (coalesce (g_attempts D) []) @ map fst (legacy_rows D)"

text \<open>What the report says: the artifacts of the buffer, an item for every legacy row, and verified files for the imports.\<close>

definition sound_report :: "(string \<Rightarrow> string) \<Rightarrow> MigrationOptions \<Rightarrow> fs \<Rightarrow> mig_db \<Rightarrow> MigrationReport \<Rightarrow> bool" where
  "sound_report h opts F D rep \<longleftrightarrow> distinct (mr_PlannedCleanFiles rep) \<and>
     (\<forall>p\<in>set (mr_PlannedCleanFiles rep). artifact F (mo_BufferDir opts) p) \<and>
     (mo_BufferDir opts \<noteq> [] \<longrightarrow> F (Clean (mo_BufferDir opts)) = Some NDir \<longrightarrow> (\<forall>p. artifact F (mo_BufferDir opts) p \<longrightarrow> p \<in> set (mr_PlannedCleanFiles rep))) \<and>
     (mo_BufferDir opts = [] \<longrightarrow> mr_PlannedCleanFiles rep = []) \<and>
     (\<forall>i\<in>set (mr_Items rep). sound_item h opts F i) \<and> (\<forall>k\<in>set (legacy_keys D). \<exists>i\<in>set (mr_Items rep). item_for k i) \<and>
     mr_LegacyTablesFound rep = filter (\<lambda>t. has_table t D) legacyTableCandidates"

lemma v_table_exists: "valid v (at F D) (table_exists t) (\<lambda>r s. r = has_table t D \<and> at F D s) (stuck v (at F D))"
  unfolding table_exists_def by (rule valid_wrapped, rule v_query)

lemma v_tables: "valid v (at F D) (map_prog table_exists ts) (\<lambda>r s. r = map (\<lambda>t. has_table t D) ts \<and> at F D s) (stuck v (at F D))"
proof -
  have "valid v (\<lambda>s. [] = map (\<lambda>t. has_table t D) [] \<and> at F D s) (map_prog table_exists ts)
      (\<lambda>r s. r = map (\<lambda>t. has_table t D) ts \<and> at F D s) (stuck v (at F D))"
    by (rule valid_map_prog [where I = "\<lambda>xs rs s. rs = map (\<lambda>t. has_table t D) xs \<and> at F D s"])
      (rule valid_fact, rule valid_post [OF v_table_exists], auto)
  then show ?thesis by simp
qed

lemma v_read_rows: "valid v (at F D) (read_rows present msg f) (\<lambda>r s. r = (if present then f D else []) \<and> at F D s) (stuck v (at F D))"
  unfolding read_rows_def by (auto intro!: valid_wrapped v_query valid_ret)

lemma v_verify_candidates:
  "valid v (at F D) (verify_candidates h n x cs) (\<lambda>r s. (fst r \<and> snd r \<longrightarrow> verified_on_disk h F cs n x) \<and> at F D s) (stuck v (at F D))"
proof (induction cs)
  case Nil
  show ?case by (auto intro: valid_ret)
next
  case (Cons p cs)
  let ?Q = "\<lambda>r s. (fst r \<and> snd r \<longrightarrow> verified_on_disk h F (p # cs) n x) \<and> at F D s"
  have st: "valid v (at F D) (catch (stat_call p) (\<lambda>e. ret None)) (\<lambda>r s. (r = None \<or> r = F p) \<and> at F D s) (stuck v (at F D))"
    by (rule valid_default, rule valid_post [OF v_stat]) (auto simp: stuck_def)
  have rest: "valid v (at F D) (verify_candidates h n x cs) ?Q (stuck v (at F D))"
    by (rule valid_post [OF Cons.IH]) (auto simp: verified_on_disk_def)
  have fl: "valid v (at F D) (if n > 0 \<and> int (length c) \<noteq> n then ret (True, False)
         else if x \<noteq> [] then catch (andThen (hash_call h p) (\<lambda>d. ret (True, ToLower d = ToLower x))) (\<lambda>e. ret (True, False))
         else ret (True, True)) ?Q (stuck v (at F D))" if c: "F p = Some (NFile c)" for c
  proof -
    have "valid v (at F D) (andThen (hash_call h p) (\<lambda>d. ret (True, ToLower d = ToLower x))) ?Q (stuck v (at F D))"
      if "\<not> (n > 0 \<and> int (length c) \<noteq> n)"
      by (rule valid_andThen [OF v_hash [of F p, OF c]], rule valid_fact) (use c that in \<open>auto simp: verified_on_disk_def intro!: valid_ret\<close>)
    from valid_default [OF this, of "(True, False)"] c show ?thesis
      by (auto simp: verified_on_disk_def stuck_def intro!: valid_ret)
  qed
  show ?case unfolding verify_candidates.simps
    by (rule valid_andThen [OF st], rule valid_fact) (use rest fl in \<open>auto split: option.splits node.splits\<close>)
qed

lemma v_verifyDiskFile:
  "valid v (at F D) (verifyDiskFile h opts rel n x) (\<lambda>r s. (fst r \<and> snd r \<longrightarrow> verified_on_disk h F (candidates opts rel) n x) \<and> at F D s) (stuck v (at F D))"
  unfolding verifyDiskFile_def using v_verify_candidates by (auto intro: valid_ret)

lemma v_commit_item:
  "valid v (at F D) (commit_item h opts c) (\<lambda>i s. (item_for (ce_key c) i \<and> sound_item h opts F i) \<and> at F D s) (stuck v (at F D))"
  unfolding commit_item_def
  by (rule valid_andThen [OF v_verifyDiskFile], rule valid_fact) (auto simp: item_for_def applied_def sound_item_def split_beta intro!: valid_ret)

lemma v_record_item:
  "valid v (at F D) (record_item h opts kr) (\<lambda>i s. (item_for (fst kr) i \<and> sound_item h opts F i) \<and> at F D s) (stuck v (at F D))"
  unfolding record_item_def split_beta Let_def
  by (rule valid_andThen [OF v_verifyDiskFile], rule valid_fact) (auto simp: item_for_def applied_def sound_item_def split_beta intro!: valid_ret)

lemma v_items:
  assumes "\<And>x. valid v (at F D) (m x) (\<lambda>i s. (item_for (key x) i \<and> sound_item h opts F i) \<and> at F D s) (stuck v (at F D))"
  shows "valid v (at F D) (map_prog m xs) (\<lambda>is s. ((\<forall>i\<in>set is. sound_item h opts F i) \<and> (\<forall>x\<in>set xs. \<exists>i\<in>set is. item_for (key x) i)) \<and> at F D s)
      (stuck v (at F D))"
proof -
  define I where "I xs js s \<longleftrightarrow> ((\<forall>i\<in>set js. sound_item h opts F i) \<and> (\<forall>x\<in>set xs. \<exists>i\<in>set js. item_for (key x) i)) \<and> at F D s" for xs js s
  have "valid v (I [] []) (map_prog m xs) (I xs) (stuck v (at F D))"
    by (rule valid_map_prog) (unfold I_def, rule valid_fact, rule valid_post [OF assms], auto)
  then show ?thesis by (simp add: I_def [abs_def])
qed

lemma v_row_items:
  "valid v (at F D) (row_items h opts commits attempts recs) (\<lambda>is s. ((\<forall>i\<in>set is. sound_item h opts F i) \<and>
      (\<forall>k\<in>set (map ce_key commits @ map ae_key attempts @ map fst recs). \<exists>i\<in>set is. item_for k i)) \<and> at F D s) (stuck v (at F D))"
  unfolding row_items_def Let_def
proof (rule valid_andThen [OF v_items [OF v_commit_item]], rule valid_fact, rule valid_andThen [OF v_items [OF v_record_item]], rule valid_fact, rule valid_ret)
  let ?keys = "map (key_text \<circ> ce_key) commits"
  fix citems ritems s assume s: "at F D s"
    and c: "(\<forall>i\<in>set citems. sound_item h opts F i) \<and> (\<forall>x\<in>set commits. \<exists>i\<in>set citems. item_for (ce_key x) i)"
    and r: "(\<forall>i\<in>set ritems. sound_item h opts F i) \<and> (\<forall>x\<in>set (filter (\<lambda>(k, r). key_text k \<notin> set ?keys) recs). \<exists>i\<in>set ritems. item_for (fst x) i)"
  let ?as = "map attempt_item (filter (\<lambda>a. key_text (ae_key a) \<notin> set ?keys) attempts)" and ?all = "citems @ map attempt_item (filter (\<lambda>a. key_text (ae_key a) \<notin> set ?keys) attempts) @ ritems"
  have shared: "\<exists>i\<in>set ?all. item_for k i" if "key_text k \<in> set ?keys" for k
    using that c by (fastforce simp: item_for_def)
  have "\<exists>i\<in>set ?all. item_for (ae_key a) i" if a: "a \<in> set attempts" for a
  proof (cases "key_text (ae_key a) \<in> set ?keys")
    case False
    with a have "attempt_item a \<in> set ?all" by auto
    moreover have "item_for (ae_key a) (attempt_item a)" by (simp add: item_for_def attempt_item_def applied_def)
    ultimately show ?thesis by blast
  qed (rule shared)
  moreover have "\<exists>i\<in>set ?all. item_for (fst x) i" if x: "x \<in> set recs" for x
  proof (cases "key_text (fst x) \<in> set ?keys")
    case False
    with x r show ?thesis by (auto simp: split_beta)
  qed (rule shared)
  moreover have "\<exists>i\<in>set ?all. item_for (ce_key x) i" if "x \<in> set commits" for x using c that by auto
  moreover have "\<forall>i\<in>set ?all. sound_item h opts F i" using c r by (auto simp: sound_item_def attempt_item_def)
  ultimately show "((\<forall>i\<in>set ?all. sound_item h opts F i) \<and>
      (\<forall>k\<in>set (map ce_key commits @ map ae_key attempts @ map fst recs). \<exists>i\<in>set ?all. item_for k i)) \<and> at F D s"
    using s by (simp only: set_append set_map) blast
qed

lemma v_buffer_files:
  "valid v (at F D) (buffer_files b) (\<lambda>fs s. (distinct (map fst fs) \<and> (\<forall>p\<in>set (map fst fs). artifact F b p) \<and> (b = [] \<longrightarrow> fs = []) \<and>
      (b \<noteq> [] \<longrightarrow> F (Clean b) = Some NDir \<longrightarrow> (\<forall>p. artifact F b p \<longrightarrow> p \<in> set (map fst fs)))) \<and> at F D s) (stuck v (at F D))"
proof (cases "b = []")
  case False
  define W :: "mig \<Rightarrow> (string \<times> int64) list" where "W s = concat (map (\<lambda>p. case mg_fs s p of
       Some (NFile c) \<Rightarrow> if isStrictSubpath b p \<and> is_artifact (Base p) then [(p, int (length c))] else []
     | _ \<Rightarrow> []) (sort_key split_slash (remdups (mg_names s))))" for s
  have fst_W: "map fst (W s) = filter (artifact (mg_fs s) b) (sort_key split_slash (remdups (mg_names s)))" for s
  proof -
    have "map fst (concat (map (\<lambda>p. case G p of Some (NFile c) \<Rightarrow> if isStrictSubpath b p \<and> is_artifact (Base p) then [(p, int (length c))] else []
       | _ \<Rightarrow> []) ns)) = filter (artifact G b) ns" for G :: fs and ns
      by (induction ns) (auto simp: artifact_def split: option.splits node.splits)
    then show ?thesis by (simp add: W_def)
  qed
  have wk: "valid v (at F D) (walk_call b) (\<lambda>fs s. (distinct (map fst fs) \<and> (\<forall>p. p \<in> set (map fst fs) \<longleftrightarrow> artifact F b p)) \<and> at F D s) (stuck v (at F D))"
    unfolding walk_call_def W_def [symmetric]
  proof (rule valid_sys, goal_cases)
    case (1 s)
    then have "mg_fs s = F" "\<And>p. artifact F b p \<Longrightarrow> p \<in> set (mg_names s)" by (auto simp: at_def artifact_def)
    moreover have "W (s\<lparr>mg_n := Suc (mg_n s)\<rparr>) = W s" by (simp add: W_def)
    ultimately show ?case using 1 by (auto simp: fst_W simp del: set_map)
  qed (simp add: call_simps)
  have "valid v (at F D) (if r = Some NDir then wrapped ''inspect buffer directory'' (walk_call b) else ret [])
      (\<lambda>fs s. (distinct (map fst fs) \<and> (\<forall>p\<in>set (map fst fs). artifact F b p) \<and> (b = [] \<longrightarrow> fs = []) \<and>
      (b \<noteq> [] \<longrightarrow> F (Clean b) = Some NDir \<longrightarrow> (\<forall>p. artifact F b p \<longrightarrow> p \<in> set (map fst fs)))) \<and> at F D s) (stuck v (at F D))"
    if r: "r = F (Clean b)" for r
  proof (cases "r = Some NDir")
    case True
    show ?thesis unfolding if_P [OF True] by (rule valid_wrapped, rule valid_post [OF wk]) (use False in auto)
  next
    case nd: False
    show ?thesis unfolding if_not_P [OF nd] by (rule valid_ret) (use nd r in auto)
  qed
  then show ?thesis unfolding buffer_files_def if_not_P [OF False]
    by (intro valid_andThen [OF valid_wrapped [OF v_stat]] valid_fact)
qed (auto simp: buffer_files_def intro: valid_ret)

lemma v_inventory:
  "valid v (at F D) (inventory h opts) (\<lambda>rep s. sound_report h opts F D rep \<and> at F D s) (stuck v (at F D))"
  unfolding inventory_def Let_def
proof (rule valid_andThen [OF v_tables], rule valid_fact, rule valid_andThen [OF v_table_exists], rule valid_fact,
    rule valid_andThen [OF v_read_rows], rule valid_fact, rule valid_andThen [OF v_read_rows], rule valid_fact,
    rule valid_andThen [OF v_read_rows], rule valid_fact, rule valid_andThen [OF v_row_items], rule valid_fact,
    rule valid_andThen [OF v_buffer_files], rule valid_fact, rule valid_ret)
  fix found dr commits attempts recs items s and files :: "(string \<times> int64) list"
  assume f: "found = map (\<lambda>t. has_table t D) legacyTableCandidates" and dr: "dr = has_table ''download_records'' D"
    and c: "commits = (if ''target_commits'' \<in> set (map fst (filter snd (zip legacyTableCandidates found))) then coalesce (g_commits D) [] else [])"
    and a: "attempts = (if ''spool_attempts'' \<in> set (map fst (filter snd (zip legacyTableCandidates found))) then coalesce (g_attempts D) [] else [])"
    and r: "recs = (if dr then legacy_rows D else [])"
    and i: "(\<forall>i\<in>set items. sound_item h opts F i) \<and> (\<forall>k\<in>set (map ce_key commits @ map ae_key attempts @ map fst recs). \<exists>i\<in>set items. item_for k i)"
    and b: "distinct (map fst files) \<and> (\<forall>p\<in>set (map fst files). artifact F (mo_BufferDir opts) p) \<and> (mo_BufferDir opts = [] \<longrightarrow> files = []) \<and>
      (mo_BufferDir opts \<noteq> [] \<longrightarrow> F (Clean (mo_BufferDir opts)) = Some NDir \<longrightarrow> (\<forall>p. artifact F (mo_BufferDir opts) p \<longrightarrow> p \<in> set (map fst files)))"
    and s: "at F D s"
  let ?t = "map fst (filter snd (zip legacyTableCandidates found))"
  have t: "?t = filter (\<lambda>t. has_table t D) legacyTableCandidates" by (simp add: f legacyTableCandidates_def)
  have "commits = coalesce (g_commits D) []" "attempts = coalesce (g_attempts D) []" "recs = legacy_rows D"
    unfolding c a r dr t by (auto simp: legacyTableCandidates_def has_table_def legacy_rows_def coalesce_def split: option.splits)
  then have k: "map ce_key commits @ map ae_key attempts @ map fst recs = legacy_keys D" by (simp add: legacy_keys_def)
  have "\<forall>j\<in>set (map buffer_item files). sound_item h opts F j" by (auto simp: buffer_item_def sound_item_def)
  then show "sound_report h opts F D
      \<lparr>mr_LegacyTablesFound = ?t, mr_TotalLegacyRows = length commits + length attempts + length recs,
          mr_ImportedSuccess = dispositions DispositionImportSuccess items,
          mr_ResetPending = dispositions DispositionResetPending items, mr_DroppedTables = [],
          mr_PlannedCleanFiles = map fst files, mr_CleanedFiles = [], mr_BackupPath = [], mr_Items = items @ map buffer_item files\<rparr> \<and> at F D s"
    using i b s unfolding k sound_report_def t by auto
qed

section \<open>The transaction\<close>

definition legacy_applied :: "int64 \<Rightarrow> MigrationReport \<Rightarrow> mig_db \<Rightarrow> mig_db" where
  "legacy_applied now rep D = fold (apply_item now) (mr_Items rep) (D\<lparr>g_records := Some (coalesce (g_records D) [])\<rparr>)"

definition verdict_added :: "string option \<Rightarrow> mig_db \<Rightarrow> mig_db" where
  "verdict_added ident D = (case ident of None \<Rightarrow> D | Some i \<Rightarrow> D\<lparr>g_verdicts := Some (coalesce (g_verdicts D) [] @ [(i, ''COMMITTED'')])\<rparr>)"

text \<open>The database the transaction commits.\<close>

definition migrated :: "MigrationOptions \<Rightarrow> int64 \<Rightarrow> string option \<Rightarrow> MigrationReport \<Rightarrow> mig_db \<Rightarrow> mig_db" where
  "migrated opts now ident rep D = verdict_added ident (ensure_verdicts
     ((if mo_DropLegacyTables opts then fold drop_table (mr_LegacyTablesFound rep) else id) (legacy_applied now rep D)))"

lemma fold_keeps: "(\<And>x D. f (g x D) = f D) \<Longrightarrow> f (fold g xs D) = f D"
  by (induction xs arbitrary: D) simp_all

lemma verdicts_kept:
  "g_verdicts (legacy_applied now rep D) = g_verdicts D" "g_verdicts (fold drop_table ts D) = g_verdicts D"
  "coalesce (g_verdicts (ensure_verdicts D)) [] = coalesce (g_verdicts D) []"
proof -
  have "g_verdicts (apply_item now i D) = g_verdicts D" for i D
    by (simp add: apply_item_def Let_def split: LegacyDisposition.splits)
  from fold_keeps [of g_verdicts "apply_item now", OF this] show "g_verdicts (legacy_applied now rep D) = g_verdicts D" by (simp add: legacy_applied_def)
  show "g_verdicts (fold drop_table ts D) = g_verdicts D" by (rule fold_keeps [of g_verdicts]) (simp add: drop_table_def)
qed (simp add: ensure_verdicts_def coalesce_def)

definition fresh_id :: "string \<Rightarrow> mig_db \<Rightarrow> bool" where
  "fresh_id ident D \<longleftrightarrow> ident \<notin> fst ` set (coalesce (g_verdicts D) [])"

lemma fresh_not_committed: "fresh_id ident D \<Longrightarrow> \<not> has_verdict D ident"
  by (auto simp: fresh_id_def has_verdict_def coalesce_def split: option.splits dest!: map_of_SomeD intro!: image_eqI)

lemma migrated_committed: "fresh_id ident D \<Longrightarrow> has_verdict (migrated opts now (Some ident) rep D) ident"
proof -
  assume f: "fresh_id ident D"
  then have "map_of (coalesce (g_verdicts D) []) ident = None" by (simp add: fresh_id_def map_of_eq_None_iff)
  then show ?thesis
    by (simp add: has_verdict_def migrated_def verdict_added_def verdicts_kept map_add_def)
qed

lemma v_apply_items: "valid v (at G D) (apply_items now is tx) (\<lambda>r s. r = fold (apply_item now) is tx \<and> at G D s) (stuck v (at G D))"
proof (induction "is" arbitrary: tx)
  case (Cons i js)
  have "valid v (at G D) (if applied (it_Disposition i) then wrapped ''apply item'' (exec_tx (apply_item now i) tx) else ret tx)
      (\<lambda>r s. r = apply_item now i tx \<and> at G D s) (stuck v (at G D))"
    by (auto simp: apply_item_def [of now i] applied_def Let_def intro!: valid_ret valid_wrapped valid_post [OF v_exec] split: LegacyDisposition.splits)
  then show ?case unfolding apply_items.simps
    by (rule valid_andThen) (rule valid_fact, simp add: Cons.IH)
qed (auto intro: valid_ret)

lemma v_drop_tables: "valid v (at G D) (drop_tables ts tx) (\<lambda>r s. r = fold drop_table ts tx \<and> at G D s) (stuck v (at G D))"
proof (induction ts arbitrary: tx)
  case (Cons t ts)
  show ?case unfolding drop_tables.simps
    by (rule valid_andThen [OF valid_wrapped [OF v_exec]]) (rule valid_fact, simp add: Cons.IH)
qed (auto intro: valid_ret)

lemma v_ensure_records:
  "valid v (at G D) (ensure_records tx) (\<lambda>r s. r = tx\<lparr>g_records := Some (coalesce (g_records tx) [])\<rparr> \<and> at G D s) (stuck v (at G D))"
proof -
  have ig: "valid v (at G D) (ignore sync_call) (\<lambda>_. at G D) (stuck v (at G D))"
    by (rule valid_ignore [OF v_sync]) (rule stuckD)
  have al: "valid v (at G D) (for_all (\<lambda>col. ignore sync_call) cols) (\<lambda>_. at G D) (stuck v (at G D))" for cols :: "string list"
    by (rule valid_for_all [where I = "\<lambda>_. at G D"]) (rule ig)
  show ?thesis unfolding ensure_records_def
    by (rule valid_andThen [OF valid_wrapped [OF v_exec]], rule valid_fact, rule valid_andThen [OF al], rule valid_ret) simp
qed

lemma v_finish_tx:
  assumes tx: "tx = legacy_applied now rep D" and ident: "\<And>i. ident = Some i \<Longrightarrow> fresh_id i D"
  shows "valid v (at G D) (finish_tx opts (mr_LegacyTablesFound rep) ident tx) (\<lambda>_. at G (migrated opts now ident rep D))
      (stuck v (\<lambda>s. at G D s \<or> at G (migrated opts now ident rep D) s))"
proof -
  let ?R = "stuck v (\<lambda>s. at G D s \<or> at G (migrated opts now ident rep D) s)"
  have weak: "valid v P m Q ?R" if "valid v P m Q (stuck v (at G D))" for P Q and m :: "'z prog"
    by (rule valid_post [OF that]) (auto simp: stuck_def)
  let ?t1 = "(if mo_DropLegacyTables opts then fold drop_table (mr_LegacyTablesFound rep) else id) tx"
  have d: "valid v (at G D) (if mo_DropLegacyTables opts then drop_tables (mr_LegacyTablesFound rep) tx else ret tx) (\<lambda>r s. r = ?t1 \<and> at G D s) ?R"
    by (rule weak) (auto intro: valid_ret v_drop_tables)
  have i: "valid v (at G D) (case ident of None \<Rightarrow> ret t | Some i \<Rightarrow> insert_verdict i t) (\<lambda>r s. r = verdict_added ident t \<and> at G D s) ?R"
    if t: "t = ensure_verdicts ?t1" for t
  proof (cases ident)
    case (Some j)
    have "j \<notin> fst ` set (coalesce (g_verdicts t) [])"
      using ident [OF Some] by (auto simp: t tx verdicts_kept fresh_id_def)
    with Some weak [OF valid_wrapped [OF v_exec]] show ?thesis by (simp add: insert_verdict_def verdict_added_def)
  qed (auto simp: verdict_added_def intro: valid_ret)
  have c: "valid v (at G D) (commit_call (migrated opts now ident rep D)) (\<lambda>_. at G (migrated opts now ident rep D)) ?R"
    by (rule valid_post [OF v_commit]) (auto simp: stuck_def)
  show ?thesis unfolding finish_tx_def
  proof (rule valid_andThen [OF d], rule valid_fact, rule valid_andThen [OF weak [OF valid_wrapped [OF v_exec]]], rule valid_fact,
      rule valid_andThen [OF i], simp, rule valid_fact, rule valid_wrapped)
    fix t1 t2 t3 assume "t1 = ?t1" "t2 = ensure_verdicts t1" "t3 = verdict_added ident t2"
    then have "t3 = migrated opts now ident rep D" by (simp add: migrated_def tx)
    with c show "valid v (at G D) (commit_call t3) (\<lambda>_. at G (migrated opts now ident rep D)) ?R" by simp
  qed
qed

section \<open>The whole run\<close>

text \<open>The laws of the encoding of the manifest: decoding gives the manifest back, and a proper prefix of its text does not decode.\<close>

definition json_laws :: "(QuarantineManifest \<Rightarrow> string) \<Rightarrow> (string \<Rightarrow> QuarantineManifest option) \<Rightarrow> bool" where
  "json_laws marshal unmarshal \<longleftrightarrow> (\<forall>m. unmarshal (marshal m) = Some m \<and> (\<forall>k. take k (marshal m) \<noteq> marshal m \<longrightarrow> unmarshal (take k (marshal m)) = None))"

definition staging :: "MigrationOptions \<Rightarrow> MigrationReport \<Rightarrow> bool" where
  "staging opts rep \<longleftrightarrow> mr_PlannedCleanFiles rep \<noteq> [] \<and> mo_BufferDir opts \<noteq> []"

definition verdict_id :: "MigrationOptions \<Rightarrow> int64 \<Rightarrow> int \<Rightarrow> MigrationReport \<Rightarrow> string option" where
  "verdict_id opts now pid rep = (if staging opts rep then Some (migration_id now pid) else None)"

definition manifest_for :: "(string \<Rightarrow> string) \<Rightarrow> MigrationOptions \<Rightarrow> int64 \<Rightarrow> int \<Rightarrow> fs \<Rightarrow> MigrationReport \<Rightarrow> QuarantineManifest" where
  "manifest_for h opts now pid F rep = \<lparr>qm_MigrationID = migration_id now pid, qm_QuarantineDir = quarantine_dir opts now, qm_CreatedAt = now,
     qm_Files = entries_for h F (quarantine_dir opts now) (mr_PlannedCleanFiles rep)\<rparr>"

definition without_files :: "string list \<Rightarrow> fs \<Rightarrow> fs" where
  "without_files ps F = (\<lambda>p. if p \<in> set ps then None else F p)"

lemma cleaned_without: "cleaned F (qm_Files (manifest_for h opts now pid F rep)) = without_files (mr_PlannedCleanFiles rep) F"
proof -
  have "qe_OriginalPath ` set (entries_for h F q planned) = set planned" for q planned
    by (metis entries_for_orig list.set_map)
  then show ?thesis by (simp add: cleaned_def without_files_def manifest_for_def)
qed

text \<open>The states an interrupted migration leaves.\<close>

definition interrupted ::
  "(string \<Rightarrow> string) \<Rightarrow> (QuarantineManifest \<Rightarrow> string) \<Rightarrow> MigrationOptions \<Rightarrow> int64 \<Rightarrow> int \<Rightarrow> fs \<Rightarrow> mig_db \<Rightarrow> MigrationReport \<Rightarrow> mig \<Rightarrow> bool" where
  "interrupted h marshal opts now pid F D rep s \<longleftrightarrow>
     (let q = quarantine_dir opts now; man = manifest_for h opts now pid F rep; D1 = migrated opts now (verdict_id opts now pid rep) rep D
      in if staging opts rep then pending_at F q (qm_Files man) (marshal man) D s \<or> purging_at F q (qm_Files man) (marshal man) D1 s
         else at F D s \<or> at F D1 s)"

lemma recoverable_manifest:
  assumes "mo_BufferDir opts \<noteq> []" and F: "buffer_ready opts now F" and rep: "sound_report h opts F D rep" and J: "json_laws marshal unmarshal"
  shows "recoverable h unmarshal (mo_BufferDir opts) F (quarantine_dir opts now) (manifest_for h opts now pid F rep) (marshal (manifest_for h opts now pid F rep))"
proof -
  note Q = quarantine_dir_facts [OF assms(1) refl]
  have pl: "distinct (mr_PlannedCleanFiles rep)" "\<forall>p\<in>set (mr_PlannedCleanFiles rep). artifact F (mo_BufferDir opts) p"
    using rep by (simp_all add: sound_report_def)
  have "F p = None" if "is_quarantine (mo_BufferDir opts) p" for p using F that by (auto simp: buffer_ready_def below_def)
  with entries_quarantine [OF assms(1) refl F pl] entries_validate [where h = h and now = now and man = "manifest_for h opts now pid F rep", OF assms(1) refl _ pl(2)] Q(5) J assms(1)
  show ?thesis by (simp add: recoverable_def manifest_for_def json_laws_def)
qed

lemma v_recover_on_error:
  assumes m: "valid v P m Q (stuck v B)"
    and B: "valid v B (ReconcilePendingQuarantines h unmarshal (mo_DBPath opts) (mo_BufferDir opts)) (\<lambda>_. B) B"
  shows "valid v P (recover_on_error h unmarshal opts m) Q (stuck v B)"
  unfolding recover_on_error_def
proof (rule valid_catch [OF m])
  fix e
  have "valid v (stuck v B) (ReconcilePendingQuarantines h unmarshal (mo_DBPath opts) (mo_BufferDir opts)) (\<lambda>_. stuck v B) (stuck v B)"
    unfolding stuck_def by (rule valid_fact, rule valid_post [OF B]) auto
  then have "valid v (stuck v B) (andThen (ReconcilePendingQuarantines h unmarshal (mo_DBPath opts) (mo_BufferDir opts)) (\<lambda>_. ret [])) (\<lambda>_. stuck v B) (stuck v B)"
    by (rule valid_andThen) (rule valid_ret)
  then show "valid v (stuck v B) (andThen (catch (andThen (ReconcilePendingQuarantines h unmarshal (mo_DBPath opts) (mo_BufferDir opts)) (\<lambda>_. ret []))
        (\<lambda>e2. ret (''; reconcile pending quarantines error: '' @ e2))) (\<lambda>more. raise (e @ more))) Q (stuck v B)"
    by (intro valid_andThen [OF valid_catch] valid_raise valid_ret)
qed simp

text \<open>The recovery keeps to the two groups of states.\<close>

lemma v_recover_either:
  assumes rc: "recoverable h unmarshal b F q man M" and fr: "fresh_id (qm_MigrationID man) D" and path: "dbPath \<noteq> []"
    and D1: "has_verdict D1 (qm_MigrationID man)"
  defines "B \<equiv> \<lambda>s. pending_at F q (qm_Files man) M D s \<or> purging_at F q (qm_Files man) M D1 s"
  shows "valid v B (ReconcilePendingQuarantines h unmarshal dbPath b) (\<lambda>_. B) B"
  unfolding B_def
proof (rule valid_disj)
  have qr: "quarantine h F q (qm_Files man)" using rc by (simp add: recoverable_def)
  show "valid v (pending_at F q (qm_Files man) M D) (ReconcilePendingQuarantines h unmarshal dbPath b)
      (\<lambda>_ s. pending_at F q (qm_Files man) M D s \<or> purging_at F q (qm_Files man) M D1 s)
      (\<lambda>s. pending_at F q (qm_Files man) M D s \<or> purging_at F q (qm_Files man) M D1 s)"
    unfolding pending_at_def [of F q "qm_Files man" M D, abs_def]
    by (intro valid_ex valid_fact, rule valid_post [OF v_recover_pending [OF rc fresh_not_committed [OF fr] path]])
      (use pending_none [OF qr, of M] in \<open>auto simp: pending_at_def refused_def\<close>)
  show "valid v (purging_at F q (qm_Files man) M D1) (ReconcilePendingQuarantines h unmarshal dbPath b)
      (\<lambda>_ s. pending_at F q (qm_Files man) M D s \<or> purging_at F q (qm_Files man) M D1 s)
      (\<lambda>s. pending_at F q (qm_Files man) M D s \<or> purging_at F q (qm_Files man) M D1 s)"
    by (rule valid_post [OF v_recover_purging [OF rc D1 path]])
      (use purging_done(1) [OF qr, of M] in \<open>auto simp: purging_at_def stuck_def\<close>)
qed

text \<open>Staging and commit, with the removal of the staged files.\<close>

lemma v_staged_commit:
  assumes b: "mo_BufferDir opts \<noteq> []" and F: "buffer_ready opts now F" and rep: "sound_report h opts F D rep" and J: "json_laws marshal unmarshal"
    and fr: "fresh_id ident D" and path: "mo_DBPath opts \<noteq> []" and man: "man = manifest_for h opts now pid F rep" and ident: "ident = migration_id now pid"
    and q: "q = quarantine_dir opts now" and D1: "D1 = migrated opts now (Some ident) rep D"
  shows "valid v (at F D) (andThen (recover_on_error h unmarshal opts
       (andThen (stage_files h marshal q ident now (mr_PlannedCleanFiles rep)) (\<lambda>staged.
        andThen (finish_tx opts (mr_LegacyTablesFound rep) (Some ident) (legacy_applied now rep D)) (\<lambda>_. ret staged)))) (\<lambda>staged.
       andThen (finalize q staged) (\<lambda>_. ret (X staged)))) (\<lambda>_. at (without_files (mr_PlannedCleanFiles rep) F) D1)
     (stuck v (\<lambda>s. pending_at F q (qm_Files man) (marshal man) D s \<or> purging_at F q (qm_Files man) (marshal man) D1 s))"
proof -
  define files where "files = qm_Files man"
  define M where "M = marshal man"
  define G where "G = F(q \<mapsto> NDir, manifest_path q \<mapsto> NFile M)"
  let ?B = "\<lambda>s. pending_at F q files M D s \<or> purging_at F q files M D1 s" and ?S = "staged_state F files G"
  have planned: "distinct (mr_PlannedCleanFiles rep)" "\<forall>p\<in>set (mr_PlannedCleanFiles rep). artifact F (mo_BufferDir opts) p"
    using rep by (simp_all add: sound_report_def)
  have rc: "recoverable h unmarshal (mo_BufferDir opts) F q man M"
    unfolding q man M_def by (rule recoverable_manifest [OF b F rep J])
  then have qr: "quarantine h F q files" by (simp add: recoverable_def files_def)
  have mid: "qm_MigrationID man = ident" "files = entries_for h F q (mr_PlannedCleanFiles rep)"
    by (simp_all add: man manifest_for_def files_def q ident)
  have mM: "M = marshal \<lparr>qm_MigrationID = ident, qm_QuarantineDir = q, qm_CreatedAt = now, qm_Files = files\<rparr>"
    by (simp add: M_def man manifest_for_def files_def q ident)
  note sp = staged_purging [OF qr G_def]
  have stg: "valid v (at F D) (stage_files h marshal q ident now (mr_PlannedCleanFiles rep)) (\<lambda>r s. r = files \<and> at ?S D s) (stuck v ?B)"
    by (rule valid_post [OF v_stage_files [where marshal = marshal, OF b q F planned mid(2) mM G_def]]) (auto simp: stuck_def)
  have fin: "valid v (at ?S D) (finish_tx opts (mr_LegacyTablesFound rep) (Some ident) (legacy_applied now rep D)) (\<lambda>_. at ?S D1) (stuck v ?B)"
    unfolding D1 by (rule valid_post [OF v_finish_tx [OF refl]]) (use fr sp in \<open>auto simp: stuck_def pending_at_def purging_at_def\<close>)
  have cm: "has_verdict D1 (qm_MigrationID man)" "fresh_id (qm_MigrationID man) D" using migrated_committed [OF fr] fr by (simp_all add: D1 mid)
  have rec: "valid v ?B (ReconcilePendingQuarantines h unmarshal (mo_DBPath opts) (mo_BufferDir opts)) (\<lambda>_. ?B) ?B"
    unfolding files_def by (rule v_recover_either [OF rc cm(2) path cm(1)])
  have roe: "valid v (at F D) (recover_on_error h unmarshal opts (andThen (stage_files h marshal q ident now (mr_PlannedCleanFiles rep)) (\<lambda>staged.
        andThen (finish_tx opts (mr_LegacyTablesFound rep) (Some ident) (legacy_applied now rep D)) (\<lambda>_. ret staged))))
      (\<lambda>r s. r = files \<and> at ?S D1 s) (stuck v ?B)"
    by (rule v_recover_on_error [OF _ rec], rule valid_andThen [OF stg], rule valid_fact, rule valid_andThen [OF fin], rule valid_ret) simp
  have pur: "valid v (at ?S D1) (for_all finalize_entry files) (\<lambda>_. at (purged files ?S) D1) (stuck v ?B)"
    by (rule valid_post [OF v_purge [OF sp(1) qr sp(2)]], rule finalize_entry_def) (auto simp: stuck_def)
  have dr: "valid v (at (purged files ?S) D1) (andThen (wrapped m1 (remove_call (manifest_path q))) (\<lambda>_. wrapped m2 (remove_all_call q)))
      (\<lambda>_. at (cleaned F files) D1) (stuck v ?B)" for m1 m2
    by (rule valid_post [OF v_drop_purged [OF sp(1) qr sp(2)]]) (auto simp: stuck_def)
  have cw: "cleaned F files = without_files (mr_PlannedCleanFiles rep) F" unfolding files_def man by (rule cleaned_without)
  show ?thesis unfolding M_def [symmetric] files_def [symmetric] finalize_def cw [symmetric]
  proof (rule valid_andThen [OF roe], rule valid_fact)
    fix r assume r: "r = files"
    show "valid v (at ?S D1) (andThen (andThen (for_all finalize_entry r) (\<lambda>_.
     andThen (wrapped ''finalize removal of quarantine manifest'' (remove_call (manifest_path q))) (\<lambda>_.
     wrapped ''finalize removal of quarantine dir'' (remove_all_call q)))) (\<lambda>_. ret (X r))) (\<lambda>_. at (cleaned F files) D1) (stuck v ?B)"
      unfolding r by (rule valid_andThen [OF valid_andThen [OF pur dr] valid_ret])
  qed
qed

lemma v_mutate:
  assumes F: "buffer_ready opts now F" and rep: "sound_report h opts F D rep" and J: "json_laws marshal unmarshal"
    and fr: "fresh_id (migration_id now pid) D" and path: "mo_DBPath opts \<noteq> []"
  shows "valid v (at F D) (mutate h marshal unmarshal opts now pid rep)
      (\<lambda>_. at (without_files (mr_PlannedCleanFiles rep) F) (migrated opts now (verdict_id opts now pid rep) rep D))
      (stuck v (interrupted h marshal opts now pid F D rep))"
proof -
  let ?I = "stuck v (interrupted h marshal opts now pid F D rep)"
  let ?D1 = "migrated opts now (verdict_id opts now pid rep) rep D"
  have start: "interrupted h marshal opts now pid F D rep s" if "at F D s" for s
  proof (cases "staging opts rep")
    case True
    then have "quarantine h F (quarantine_dir opts now) (qm_Files (manifest_for h opts now pid F rep))"
      using recoverable_manifest [OF _ F rep J, of pid] by (simp add: staging_def recoverable_def)
    from pending_none [OF this, of "marshal (manifest_for h opts now pid F rep)"] that True show ?thesis
      by (auto simp: interrupted_def Let_def pending_at_def)
  qed (use that in \<open>simp add: interrupted_def\<close>)
  have weak: "valid v P m Q ?I" if "valid v P m Q (stuck v (at F D))" for P Q and m :: "'z prog"
    by (rule valid_post [OF that]) (use start in \<open>auto simp: stuck_def\<close>)
  have tail: "valid v (at F D) (if mr_PlannedCleanFiles rep \<noteq> [] \<and> mo_BufferDir opts \<noteq> []
        then andThen (recover_on_error h unmarshal opts
               (andThen (stage_files h marshal (quarantine_dir opts now) (migration_id now pid) now (mr_PlannedCleanFiles rep)) (\<lambda>staged.
                andThen (finish_tx opts (mr_LegacyTablesFound rep) (Some (migration_id now pid)) (legacy_applied now rep D)) (\<lambda>_. ret staged)))) (\<lambda>staged.
             andThen (finalize (quarantine_dir opts now) staged) (\<lambda>_. ret (X staged)))
        else andThen (finish_tx opts (mr_LegacyTablesFound rep) None (legacy_applied now rep D)) (\<lambda>_. ret Y))
      (\<lambda>_. at (without_files (mr_PlannedCleanFiles rep) F) ?D1) ?I" for X :: "QuarantineFileEntry list \<Rightarrow> MigrationReport" and Y
  proof (cases "staging opts rep")
    case True
    then have st: "mr_PlannedCleanFiles rep \<noteq> [] \<and> mo_BufferDir opts \<noteq> []" by (simp add: staging_def)
    from True have D1: "?D1 = migrated opts now (Some (migration_id now pid)) rep D" by (simp add: verdict_id_def)
    show ?thesis unfolding if_P [OF st]
      by (rule valid_post [OF v_staged_commit [OF _ F rep J fr path refl refl refl D1]])
        (use True st in \<open>auto simp: stuck_def interrupted_def Let_def\<close>)
  next
    case False
    then have st: "\<not> (mr_PlannedCleanFiles rep \<noteq> [] \<and> mo_BufferDir opts \<noteq> [])" by (simp add: staging_def)
    with rep have "mr_PlannedCleanFiles rep = []" by (auto simp: sound_report_def)
    then have "without_files (mr_PlannedCleanFiles rep) F = F" by (simp add: without_files_def)
    moreover have "valid v (at F D) (finish_tx opts (mr_LegacyTablesFound rep) None (legacy_applied now rep D)) (\<lambda>_. at F ?D1) ?I"
      using False by (intro valid_post [OF v_finish_tx [OF refl]]) (auto simp: stuck_def interrupted_def Let_def verdict_id_def)
    ultimately show ?thesis unfolding if_not_P [OF st] by (auto intro: valid_andThen valid_ret)
  qed
  show ?thesis unfolding mutate_def Let_def
  proof (rule valid_andThen [OF weak [OF valid_wrapped [OF v_query]]], rule valid_fact, rule valid_andThen [OF weak [OF v_ensure_records]], rule valid_fact,
      rule valid_andThen [OF weak [OF v_apply_items]], rule valid_fact, goal_cases)
    case (1 t0 t1 t2)
    then have "t2 = legacy_applied now rep D" by (simp add: legacy_applied_def)
    then show ?case by (simp only: tail)
  qed
qed

end
