(* ===== verification/Spool_Safety.thy ===== *)
theory Spool_Safety
  imports Spool_Run "HOL-Library.Countable"
begin

text \<open>
  The properties of the migration of the legacy spool (\<open>app/daemon/migration/spool_migrator.go\<close>) under faults and crashes at any system
  call: no file is lost, a recovery that returns has undone or completed the migration, it returns unless a file was
  left half-written, an undisturbed migration completes, and a record becomes successful only with a verified file.
\<close>

declare split_paired_All [simp del] split_paired_Ex [simp del]

definition known_names :: "mig \<Rightarrow> bool" where
  "known_names s \<longleftrightarrow> (\<forall>p. mg_fs s p \<noteq> None \<longrightarrow> p \<in> set (mg_names s))"

lemma at_self: "known_names s \<Longrightarrow> at (mg_fs s) (mg_db s) s"
  by (simp add: known_names_def at_def)

lemma v_backup: "valid v (at F D) (createVerifiedBackup path stamp) (\<lambda>_. at F D) (stuck v (at F D))"
proof -
  have cp: "valid v (at F D) (sys_call (\<lambda>s. (Ret (), s\<lparr>mg_backups := (bp, mg_db s) # mg_backups s\<rparr>)) untouched) (\<lambda>_. at F D) (stuck v (at F D))" for bp
    by (rule valid_sys) (auto simp: call_simps at_def)
  note sy = valid_andThen [OF valid_wrapped [OF v_sync]]
  show ?thesis unfolding createVerifiedBackup_def Let_def
    by (rule sy, rule sy, rule valid_andThen [OF valid_wrapped [OF cp]], rule sy, rule sy, rule sy, rule sy, rule valid_ret)
qed

lemma v_stat_db: "valid v (at F D) stat_db (\<lambda>_. at F D) (stuck v (at F D))"
  unfolding stat_db_def by (rule valid_catch [OF v_sync]) (auto intro: valid_raise valid_ret simp: stuck_def)

lemma v_reconcile_clean:
  assumes F: "\<forall>x. is_quarantine b x \<longrightarrow> F x = None" and b: "b \<noteq> []" and path: "dbPath \<noteq> []"
  shows "valid v (at F D) (ReconcilePendingQuarantines h unmarshal dbPath b) (\<lambda>_. at F D) (stuck v (at F D))"
proof -
  have q: "is_quarantine b (Join b ''.migrator_quarantine_'')" by (simp add: is_quarantine_def HasPrefix_def)
  show ?thesis
    by (rule v_reconcile_one [where q = "Join b ''.migrator_quarantine_''", OF _ b path]) (use F q in \<open>auto simp: stuck_def\<close>)
qed

lemma ready_clean: "buffer_ready opts now F \<Longrightarrow> \<forall>x. is_quarantine (mo_BufferDir opts) x \<longrightarrow> F x = None"
  by (auto simp: buffer_ready_def below_def)

section \<open>The whole run\<close>

definition cut_off ::
  "(string \<Rightarrow> string) \<Rightarrow> (QuarantineManifest \<Rightarrow> string) \<Rightarrow> MigrationOptions \<Rightarrow> int64 \<Rightarrow> int \<Rightarrow> fs \<Rightarrow> mig_db \<Rightarrow> mig \<Rightarrow> bool" where
  "cut_off h marshal opts now pid F D s \<longleftrightarrow> at F D s \<or> (\<exists>rep. sound_report h opts F D rep \<and> interrupted h marshal opts now pid F D rep s)"

definition migration_done ::
  "(string \<Rightarrow> string) \<Rightarrow> MigrationOptions \<Rightarrow> int64 \<Rightarrow> int \<Rightarrow> fs \<Rightarrow> mig_db \<Rightarrow> mig \<Rightarrow> bool" where
  "migration_done h opts now pid F D s \<longleftrightarrow> (\<exists>rep. sound_report h opts F D rep \<and>
     at (without_files (mr_PlannedCleanFiles rep) F) (migrated opts now (verdict_id opts now pid rep) rep D) s)"

lemma sound_backup: "sound_report h opts F D (rep\<lparr>mr_BackupPath := b\<rparr>) = sound_report h opts F D rep"
  by (simp add: sound_report_def)

lemma v_Run:
  assumes F: "buffer_ready opts now F" and J: "json_laws marshal unmarshal" and fr: "fresh_id (migration_id now pid) D"
    and path: "mo_DBPath opts \<noteq> []" and wet: "\<not> mo_DryRun opts"
  shows "valid v (at F D) (Run h marshal unmarshal opts now pid stamp) (\<lambda>_. migration_done h opts now pid F D)
      (stuck v (cut_off h marshal opts now pid F D))"
proof -
  let ?R = "stuck v (cut_off h marshal opts now pid F D)"
  have weak: "valid v P m Q ?R" if "valid v P m Q (stuck v (at F D))" for P Q and m :: "'z prog"
    by (rule valid_post [OF that]) (auto simp: stuck_def cut_off_def)
  have rec: "valid v (at F D) (if mo_BufferDir opts \<noteq> [] \<and> \<not> mo_DryRun opts
       then wrapped ''reconcile pending quarantines'' (andThen (ReconcilePendingQuarantines h unmarshal (mo_DBPath opts) (mo_BufferDir opts)) (\<lambda>_. ret ()))
       else ret ()) (\<lambda>_. at F D) (stuck v (at F D))"
    using v_reconcile_clean [OF ready_clean [OF F] _ path]
    by (auto intro!: valid_ret valid_wrapped valid_andThen [where B = "\<lambda>_. at F D"])
  have bk: "valid v (at F D) (if c then wrapped m (createVerifiedBackup (mo_DBPath opts) stamp) else ret []) (\<lambda>_. at F D) (stuck v (at F D))" for c m
    by (auto intro!: valid_wrapped v_backup valid_ret)
  have mu: "valid v (at F D) (mutate h marshal unmarshal opts now pid (rep\<lparr>mr_BackupPath := b\<rparr>)) (\<lambda>_. migration_done h opts now pid F D) ?R"
    if "sound_report h opts F D rep" for rep b
  proof -
    have s: "sound_report h opts F D (rep\<lparr>mr_BackupPath := b\<rparr>)" using that by (simp add: sound_backup)
    show ?thesis
      by (rule valid_post [OF v_mutate [OF F s J fr path]]) (use s in \<open>auto simp: migration_done_def stuck_def cut_off_def\<close>)
  qed
  have main: "valid v (at F D) (andThen (inventory h opts) (\<lambda>rep.
        if mo_DryRun opts then ret rep
        else andThen (if mo_CreateBackup opts \<and> mr_TotalLegacyRows rep > 0
                      then wrapped ''create verified backup'' (createVerifiedBackup (mo_DBPath opts) stamp) else ret []) (\<lambda>backup.
             mutate h marshal unmarshal opts now pid (rep\<lparr>mr_BackupPath := backup\<rparr>)))) (\<lambda>_. migration_done h opts now pid F D) ?R"
    unfolding if_not_P [OF wet]
    by (rule valid_andThen [OF weak [OF v_inventory]], rule valid_fact, rule valid_andThen [OF weak [OF bk]]) (rule mu)
  show ?thesis unfolding Run_def if_not_P [OF path]
    by (rule valid_andThen [OF weak [OF v_stat_db]], rule valid_andThen [OF weak [OF rec]], rule valid_andThen [OF weak [OF valid_wrapped [OF v_sync]]])
      (rule main)
qed

section \<open>Recovery after any interruption\<close>

lemma finished_cut_off:
  assumes F: "buffer_ready opts now F" and J: "json_laws marshal unmarshal" and s: "migration_done h opts now pid F D s"
  shows "cut_off h marshal opts now pid F D s"
proof -
  from s obtain rep where r: "sound_report h opts F D rep"
    and a: "at (without_files (mr_PlannedCleanFiles rep) F) (migrated opts now (verdict_id opts now pid rep) rep D) s" by (auto simp: migration_done_def)
  have "interrupted h marshal opts now pid F D rep s"
  proof (cases "staging opts rep")
    case True
    then have "quarantine h F (quarantine_dir opts now) (qm_Files (manifest_for h opts now pid F rep))"
      using recoverable_manifest [OF _ F r J, of pid] by (simp add: staging_def recoverable_def)
    from purging_done(1) [OF this, of "marshal (manifest_for h opts now pid F rep)"] a True show ?thesis
      unfolding cleaned_without by (auto simp: interrupted_def Let_def purging_at_def)
  next
    case False
    with r have "mr_PlannedCleanFiles rep = []" by (auto simp: sound_report_def staging_def)
    with a False show ?thesis by (simp add: interrupted_def Let_def without_files_def)
  qed
  with r show ?thesis by (auto simp: cut_off_def)
qed

text \<open>A manifest and copies that are not half-written.\<close>

definition legible :: "(string \<Rightarrow> QuarantineManifest option) \<Rightarrow> fs \<Rightarrow> string \<Rightarrow> fs \<Rightarrow> bool" where
  "legible unmarshal F q G \<longleftrightarrow> (\<forall>t. G (manifest_path q) = Some (NFile t) \<longrightarrow>
     (\<exists>man. unmarshal t = Some man \<and> (\<forall>f\<in>set (qm_Files man). whole_copies F f G)))"

lemma blocked_illegible:
  assumes rc: "recoverable h unmarshal b F q man M" and p: "pending F q (qm_Files man) M G" and l: "legible unmarshal F q G"
  shows "\<not> blocked F q (qm_Files man) M G"
proof -
  have qr: "quarantine h F q (qm_Files man)" and un: "unmarshal M = Some man" "\<forall>k. take k M \<noteq> M \<longrightarrow> unmarshal (take k M) = None"
    using rc by (auto simp: recoverable_def)
  from p qr show ?thesis
  proof (cases rule: pending_cases)
    case (torn k)
    with un l show ?thesis by (auto simp: legible_def)
  next
    case moving
    with un l show ?thesis by (auto simp: legible_def moving_def blocked_def)
  qed (use quarantine_None [OF qr] quarantine_staged [OF qr] quarantine_apart [OF qr] qr in \<open>auto simp: blocked_def whole_copies_def quarantine_def\<close>)
qed

lemma v_recover_interrupted:
  assumes F: "buffer_ready opts now F" and J: "json_laws marshal unmarshal" and fr: "fresh_id (migration_id now pid) D"
    and path: "mo_DBPath opts \<noteq> []" and b: "mo_BufferDir opts \<noteq> []" and r: "sound_report h opts F D rep" and st: "staging opts rep"
  shows "valid v (\<lambda>s. interrupted h marshal opts now pid F D rep s \<and> (L \<longrightarrow> legible unmarshal F (quarantine_dir opts now) (mg_fs s)))
      (ReconcilePendingQuarantines h unmarshal (mo_DBPath opts) (mo_BufferDir opts))
      (\<lambda>_ s. at F D s \<or> migration_done h opts now pid F D s) (\<lambda>s. interrupted h marshal opts now pid F D rep s \<and> (faultless v \<longrightarrow> \<not> L))"
  (is "valid v _ ?rec ?Q ?R")
proof -
  define q where "q = quarantine_dir opts now"
  define man where "man = manifest_for h opts now pid F rep"
  define M where "M = marshal man"
  define D1 where "D1 = migrated opts now (verdict_id opts now pid rep) rep D"
  have rc: "recoverable h unmarshal (mo_BufferDir opts) F q man M"
    unfolding q_def man_def M_def by (rule recoverable_manifest [OF b F r J])
  have mid: "qm_MigrationID man = migration_id now pid" by (simp add: man_def manifest_for_def)
  have ids: "\<not> has_verdict D (qm_MigrationID man)" "has_verdict D1 (qm_MigrationID man)"
    using fresh_not_committed [OF fr] migrated_committed [OF fr] st by (simp_all add: mid D1_def verdict_id_def)
  have I: "interrupted h marshal opts now pid F D rep s \<longleftrightarrow> pending_at F q (qm_Files man) M D s \<or> purging_at F q (qm_Files man) M D1 s" for s
    using st by (simp add: interrupted_def Let_def q_def man_def M_def D1_def)
  have fin: "migration_done h opts now pid F D s" if "at (cleaned F (qm_Files man)) D1 s" for s
    using that r unfolding man_def cleaned_without D1_def by (auto simp: migration_done_def)
  have pen: "valid v (\<lambda>s. \<exists>H. (pending F q (qm_Files man) M H \<and> (L \<longrightarrow> legible unmarshal F q H)) \<and> at H D s) ?rec ?Q ?R"
  proof (intro valid_ex valid_fact)
    fix H assume H: "pending F q (qm_Files man) M H \<and> (L \<longrightarrow> legible unmarshal F q H)"
    then show "valid v (at H D) ?rec ?Q ?R"
      by (intro valid_post [OF v_recover_pending [OF rc ids(1) path conjunct1 [OF H]]])
        (use blocked_illegible [OF rc] I in \<open>auto simp: refused_def\<close>)
  qed
  have pur: "valid v (purging_at F q (qm_Files man) M D1) ?rec ?Q ?R"
    by (rule valid_post [OF v_recover_purging [OF rc ids(2) path]]) (use I fin in \<open>auto simp: stuck_def\<close>)
  from valid_disj [OF pen pur] show ?thesis
    by (rule valid_pre) (auto simp: I pending_at_def at_def q_def)
qed

lemma v_recover_cut_off:
  assumes F: "buffer_ready opts now F" and J: "json_laws marshal unmarshal" and fr: "fresh_id (migration_id now pid) D"
    and path: "mo_DBPath opts \<noteq> []" and b: "mo_BufferDir opts \<noteq> []"
  shows "valid v (\<lambda>s. cut_off h marshal opts now pid F D s \<and> (L \<longrightarrow> legible unmarshal F (quarantine_dir opts now) (mg_fs s)))
      (ReconcilePendingQuarantines h unmarshal (mo_DBPath opts) (mo_BufferDir opts))
      (\<lambda>_ s. at F D s \<or> migration_done h opts now pid F D s) (\<lambda>s. cut_off h marshal opts now pid F D s \<and> (faultless v \<longrightarrow> \<not> L))"
  (is "valid v _ ?rec ?Q ?R")
proof -
  let ?leg = "\<lambda>s. L \<longrightarrow> legible unmarshal F (quarantine_dir opts now) (mg_fs s)"
  have keep: "valid v (at F E) ?rec (\<lambda>_. at F E) (stuck v (at F E))" for E
    by (rule v_reconcile_clean [OF ready_clean [OF F] b path])
  have one: "valid v (\<lambda>s. interrupted h marshal opts now pid F D rep s \<and> ?leg s) ?rec ?Q ?R" if r: "sound_report h opts F D rep" for rep
  proof (cases "staging opts rep")
    case True
    show ?thesis
      by (rule valid_post [OF v_recover_interrupted [OF F J fr path b r True]]) (use r in \<open>auto simp: cut_off_def\<close>)
  next
    case False
    with r have "mr_PlannedCleanFiles rep = []" by (auto simp: sound_report_def staging_def)
    then have w: "without_files (mr_PlannedCleanFiles rep) F = F" by (simp add: without_files_def)
    have I: "interrupted h marshal opts now pid F D rep s \<longleftrightarrow> at F D s \<or> at F (migrated opts now (verdict_id opts now pid rep) rep D) s" for s
      using False by (simp add: interrupted_def Let_def)
    have "valid v (\<lambda>s. at F D s \<or> at F (migrated opts now (verdict_id opts now pid rep) rep D) s) ?rec ?Q ?R"
      by (rule valid_disj; rule valid_post [OF keep]) (use r w I in \<open>auto simp: stuck_def cut_off_def migration_done_def\<close>)
    then show ?thesis by (rule valid_pre) (simp add: I)
  qed
  have "valid v (at F D) ?rec ?Q ?R"
    by (rule valid_post [OF keep]) (auto simp: stuck_def cut_off_def)
  then have "valid v (\<lambda>s. at F D s \<or> (\<exists>rep. sound_report h opts F D rep \<and> interrupted h marshal opts now pid F D rep s \<and> ?leg s)) ?rec ?Q ?R"
    by (rule valid_disj) (rule valid_ex, rule valid_fact, rule one)
  then show ?thesis by (rule valid_pre) (auto simp: cut_off_def)
qed

definition recoveries :: "(string \<Rightarrow> string) \<Rightarrow> (string \<Rightarrow> QuarantineManifest option) \<Rightarrow> MigrationOptions \<Rightarrow> mig_env list \<Rightarrow> mig \<Rightarrow> mig" where
  "recoveries h unmarshal opts vs s = fold (\<lambda>v s. snd (ReconcilePendingQuarantines h unmarshal (mo_DBPath opts) (mo_BufferDir opts) v s)) vs s"

lemma valid_snd: "valid v P m (\<lambda>_. P) P \<Longrightarrow> P s \<Longrightarrow> P (snd (m v s))"
  using valid_use [of v P m "\<lambda>_. P" P s "fst (m v s)" "snd (m v s)"] by (simp split: outcome.splits)

lemma recoveries_cut_off:
  assumes F: "buffer_ready opts now F" and J: "json_laws marshal unmarshal" and fr: "fresh_id (migration_id now pid) D"
    and path: "mo_DBPath opts \<noteq> []" and b: "mo_BufferDir opts \<noteq> []" and s: "cut_off h marshal opts now pid F D s"
  shows "cut_off h marshal opts now pid F D (recoveries h unmarshal opts vs s)"
  using s unfolding recoveries_def
proof (induction vs arbitrary: s)
  case (Cons v vs)
  have "valid v (cut_off h marshal opts now pid F D) (ReconcilePendingQuarantines h unmarshal (mo_DBPath opts) (mo_BufferDir opts))
      (\<lambda>_. cut_off h marshal opts now pid F D) (cut_off h marshal opts now pid F D)"
    by (rule valid_conseq [OF v_recover_cut_off [where L = False, OF F J fr path b]]) (use finished_cut_off [OF F J] in \<open>auto simp: cut_off_def\<close>)
  from Cons.IH [OF valid_snd [OF this Cons.prems]] show ?case by simp
qed simp

definition migration_start :: "MigrationOptions \<Rightarrow> int64 \<Rightarrow> int \<Rightarrow> mig \<Rightarrow> bool" where
  "migration_start opts now pid s \<longleftrightarrow> buffer_ready opts now (mg_fs s) \<and> known_names s \<and> fresh_id (migration_id now pid) (mg_db s) \<and>
     mo_DBPath opts \<noteq> [] \<and> mo_BufferDir opts \<noteq> [] \<and> \<not> mo_DryRun opts"

text \<open>Every file of \<open>F\<close> is in its place, or staged and named by a readable manifest.\<close>

definition still_held :: "(string \<Rightarrow> QuarantineManifest option) \<Rightarrow> fs \<Rightarrow> string \<Rightarrow> fs \<Rightarrow> bool" where
  "still_held unmarshal F q G \<longleftrightarrow> (\<forall>p c. F p = Some (NFile c) \<longrightarrow> G p = Some (NFile c) \<or>
     (\<exists>t man f. G (manifest_path q) = Some (NFile t) \<and> unmarshal t = Some man \<and> f \<in> set (qm_Files man) \<and> qe_OriginalPath f = p \<and>
        G (qe_StagedPath f) = Some (NFile c)))"

lemma pending_held:
  assumes rc: "recoverable h unmarshal b F q man M" and p: "pending F q (qm_Files man) M G"
  shows "still_held unmarshal F q G"
  unfolding still_held_def
proof (intro allI impI)
  fix x c assume x: "F x = Some (NFile c)"
  have qr: "quarantine h F q (qm_Files man)" and un: "unmarshal M = Some man" using rc by (auto simp: recoverable_def)
  show "G x = Some (NFile c) \<or> (\<exists>t man f. G (manifest_path q) = Some (NFile t) \<and> unmarshal t = Some man \<and> f \<in> set (qm_Files man) \<and>
      qe_OriginalPath f = x \<and> G (qe_StagedPath f) = Some (NFile c))"
  proof (cases "x \<in> qe_OriginalPath ` set (qm_Files man)")
    case True
    then obtain f where f: "f \<in> set (qm_Files man)" "x = qe_OriginalPath f" by auto
    with p x un show ?thesis by (auto simp: pending_def safe_copy_def)
  next
    case False
    with x quarantine_None [OF qr] quarantine_staged(1) [OF qr] have "x \<notin> places q (qm_Files man)" by (auto simp: places_def)
    with p x show ?thesis by (simp add: pending_def)
  qed
qed

lemma cut_off_states:
  assumes F: "buffer_ready opts now F" and J: "json_laws marshal unmarshal" and b: "mo_BufferDir opts \<noteq> []" and s: "cut_off h marshal opts now pid F D s"
  shows "mg_db s = D \<and> still_held unmarshal F (quarantine_dir opts now) (mg_fs s) \<or>
    (\<exists>rep. sound_report h opts F D rep \<and> mg_db s = migrated opts now (verdict_id opts now pid rep) rep D \<and>
       (\<forall>p c. F p = Some (NFile c) \<longrightarrow> p \<in> set (mr_PlannedCleanFiles rep) \<or> mg_fs s p = Some (NFile c)))"
proof -
  have plain: ?thesis if "at F D s" using that by (auto simp: at_def still_held_def)
  moreover have ?thesis if r: "sound_report h opts F D rep" and i: "interrupted h marshal opts now pid F D rep s" for rep
  proof (cases "staging opts rep")
    case False
    with i plain r show ?thesis by (auto simp: interrupted_def Let_def at_def)
  next
    case True
    define man where "man = manifest_for h opts now pid F rep"
    have rc: "recoverable h unmarshal (mo_BufferDir opts) F (quarantine_dir opts now) man (marshal man)"
      unfolding man_def by (rule recoverable_manifest [OF b F r J])
    from i True consider (pend) "pending_at F (quarantine_dir opts now) (qm_Files man) (marshal man) D s"
      | (purge) "purging_at F (quarantine_dir opts now) (qm_Files man) (marshal man) (migrated opts now (verdict_id opts now pid rep) rep D) s"
      by (auto simp: interrupted_def Let_def man_def)
    then show ?thesis
    proof cases
      case pend
      then show ?thesis using pending_held [OF rc] by (auto simp: pending_at_def at_def)
    next
      case purge
      have cl: "cleaned F (qm_Files man) = without_files (mr_PlannedCleanFiles rep) F" unfolding man_def by (rule cleaned_without)
      have "\<not> below (quarantine_dir opts now) p" if "F p \<noteq> None" for p
        using rc that by (auto simp: recoverable_def quarantine_def)
      with purge r show ?thesis
        by (intro disjI2 exI [of _ rep]) (auto simp: purging_at_def purging_def at_def cl without_files_def)
    qed
  qed
  ultimately show ?thesis using s by (auto simp: cut_off_def)
qed

lemma run_cut_off:
  assumes J: "json_laws marshal unmarshal" and S: "migration_start opts now pid s"
  shows "cut_off h marshal opts now pid (mg_fs s) (mg_db s) (recoveries h unmarshal opts vs (snd (Run h marshal unmarshal opts now pid stamp v s)))"
proof -
  have F: "buffer_ready opts now (mg_fs s)" and fr: "fresh_id (migration_id now pid) (mg_db s)" and p: "mo_DBPath opts \<noteq> []" "mo_BufferDir opts \<noteq> []" "\<not> mo_DryRun opts"
    and a: "at (mg_fs s) (mg_db s) s"
    using S by (auto simp: migration_start_def at_self)
  let ?P = "cut_off h marshal opts now pid (mg_fs s) (mg_db s)"
  have "valid v (at (mg_fs s) (mg_db s)) (Run h marshal unmarshal opts now pid stamp) (\<lambda>_. ?P) ?P"
    by (rule valid_post [OF v_Run [OF F J fr p(1,3)]]) (auto simp: stuck_def intro: finished_cut_off [OF F J])
  from valid_use [OF this a, of "fst (Run h marshal unmarshal opts now pid stamp v s)" "snd (Run h marshal unmarshal opts now pid stamp v s)"]
  have "?P (snd (Run h marshal unmarshal opts now pid stamp v s))" by (simp split: outcome.splits)
  with recoveries_cut_off [OF F J fr p(1,2)] show ?thesis by blast
qed


lemma recovery_valid:
  assumes J: "json_laws marshal unmarshal" and S: "migration_start opts now pid s"
    and t: "t = recoveries h unmarshal opts vs (snd (Run h marshal unmarshal opts now pid stamp v s))"
    and r: "ReconcilePendingQuarantines h unmarshal (mo_DBPath opts) (mo_BufferDir opts) w t = (r, u)"
  shows "(\<exists>x. r = Ret x) \<and> (mg_fs u = mg_fs s \<and> mg_db u = mg_db s \<or>
        (\<exists>rep. sound_report h opts (mg_fs s) (mg_db s) rep \<and> mg_fs u = without_files (mr_PlannedCleanFiles rep) (mg_fs s) \<and>
           mg_db u = migrated opts now (verdict_id opts now pid rep) rep (mg_db s))) \<or>
    \<not> (\<exists>x. r = Ret x) \<and> (faultless w \<longrightarrow> \<not> legible unmarshal (mg_fs s) (quarantine_dir opts now) (mg_fs t))"
proof -
  have F: "buffer_ready opts now (mg_fs s)" and fr: "fresh_id (migration_id now pid) (mg_db s)" and p: "mo_DBPath opts \<noteq> []" "mo_BufferDir opts \<noteq> []"
    using S by (auto simp: migration_start_def)
  let ?L = "legible unmarshal (mg_fs s) (quarantine_dir opts now) (mg_fs t)"
  have "cut_off h marshal opts now pid (mg_fs s) (mg_db s) t \<and> (?L \<longrightarrow> ?L)" unfolding t using run_cut_off [OF J S] by blast
  from valid_use [OF v_recover_cut_off [OF F J fr p] this r] show ?thesis
    by (auto simp: migration_done_def at_def split: outcome.splits)
qed




section \<open>What becomes of the records\<close>

abbreviation records_of :: "mig_db \<Rightarrow> (msg_key, download_row) table" where
  "records_of D \<equiv> coalesce (g_records D) []"

definition backed :: "(string \<Rightarrow> string) \<Rightarrow> MigrationOptions \<Rightarrow> fs \<Rightarrow> download_row \<Rightarrow> bool" where
  "backed h opts F r \<longleftrightarrow> (\<exists>path n x. d_save_path r = Some path \<and> d_file_size r = Some n \<and> d_sha256 r = Some x \<and>
     verified_on_disk h F (candidates opts path) n x)"

definition accounted :: "(string \<Rightarrow> string) \<Rightarrow> MigrationOptions \<Rightarrow> fs \<Rightarrow> mig_db \<Rightarrow> mig_db \<Rightarrow> bool" where
  "accounted h opts F D E \<longleftrightarrow> pk (records_of E) \<and> (\<forall>k r. tab_sel (records_of E) k = Some r \<longrightarrow> d_status r = Success \<longrightarrow>
     (\<exists>r0. tab_sel (records_of D) k = Some r0 \<and> d_status r0 = Success) \<or> backed h opts F r)"

lemma coalesce_Some [simp]: "coalesce (Some x) y = x"
  by (simp add: coalesce_def)

lemma accounted_item:
  assumes i: "sound_item h opts F i" and E: "accounted h opts F D E"
  shows "accounted h opts F D (apply_item now i E)"
proof -
  have pk: "pk (records_of E)" using E by (simp add: accounted_def)
  have old: "(\<exists>r0. tab_sel (records_of D) k = Some r0 \<and> d_status r0 = Success) \<or> backed h opts F r"
    if "tab_sel (records_of E) k = Some r" "d_status r = Success" for k r using E that by (simp add: accounted_def)
  show ?thesis
  proof (cases "it_Disposition i")
    case DispositionImportSuccess
    with i have v: "verified_on_disk h F (candidates opts (it_SavePath i)) (it_Size i) (it_SHA256 i)" by (simp add: sound_item_def)
    show ?thesis unfolding accounted_def apply_item_def Let_def DispositionImportSuccess
      using pk v old by (auto simp: import_success_def tab_sel_upsert backed_def split: if_splits option.splits)
  next
    case DispositionResetPending
    show ?thesis unfolding accounted_def apply_item_def Let_def DispositionResetPending
      using pk old by (auto simp: reset_record_def tab_sel_upsert new_download_def split: if_splits option.splits)
  qed (use E in \<open>simp_all add: apply_item_def Let_def\<close>)
qed

lemma accounted_migrated:
  assumes pk: "pk (records_of D)" and r: "sound_report h opts F D rep"
  shows "accounted h opts F D (migrated opts now ident rep D)"
proof -
  have "accounted h opts F D (fold (apply_item now) is E)" if "\<forall>i\<in>set is. sound_item h opts F i" "accounted h opts F D E" for "is" E
    using that by (induction "is" arbitrary: E) (simp_all add: accounted_item)
  moreover have "accounted h opts F D (D\<lparr>g_records := Some (records_of D)\<rparr>)" using pk by (simp add: accounted_def)
  ultimately have l: "accounted h opts F D (legacy_applied now rep D)" using r by (simp add: legacy_applied_def sound_report_def)
  have "g_records (fold drop_table ts E) = g_records E" for ts E
    by (rule fold_keeps [of g_records]) (simp add: drop_table_def)
  then have "g_records (migrated opts now ident rep D) = g_records (legacy_applied now rep D)"
    by (simp add: migrated_def verdict_added_def ensure_verdicts_def split: option.splits)
  with l show ?thesis by (simp add: accounted_def)
qed


text \<open>C20. A manifest that cannot be decoded blocks the migration. When a quarantine holds one, as a run killed between the creation
  and the writing of the manifest leaves it (the lemma on a killed run below), no later run returns, whatever its calls do, although no file had been moved.\<close>

theorem torn_manifest_blocks:
  assumes q: "\<forall>x. mg_fs s x \<noteq> None \<and> is_quarantine (mo_BufferDir opts) x \<longleftrightarrow> x = q"
    and t: "mg_fs s (manifest_path q) = Some (NFile t)" "unmarshal t = None"
    and s: "known_names s" "mo_BufferDir opts \<noteq> []" "mo_DBPath opts \<noteq> []" "\<not> mo_DryRun opts"
  shows "\<nexists>out u. Run h marshal unmarshal opts now pid stamp v s = (Ret out, u)"
proof -
  let ?H = "mg_fs s" and ?D = "mg_db s"
  have only: "?H x \<noteq> None \<and> is_quarantine (mo_BufferDir opts) x \<longleftrightarrow> x = q \<and> ?H q \<noteq> None" for x using q by metis
  have hq: "?H q \<noteq> None" using q by metis
  have rec: "valid v (at ?H ?D) (ReconcilePendingQuarantines h unmarshal (mo_DBPath opts) (mo_BufferDir opts)) (\<lambda>_ _. False) (at ?H ?D)"
  proof (rule v_reconcile_one [OF only s(2,3)])
    show "valid v (at ?H ?D) (reconcile_dir h unmarshal dbOpen (mo_BufferDir opts) q rep) (\<lambda>_ _. False) (at ?H ?D)" for dbOpen rep
      by (rule v_manifest_dir [of ?H q t, OF t(1)]) (use t(2) in auto)
  qed (use hq in auto)
  have pre: "valid v (at ?H ?D) (if mo_BufferDir opts \<noteq> [] \<and> \<not> mo_DryRun opts
      then wrapped ''reconcile pending quarantines'' (andThen (ReconcilePendingQuarantines h unmarshal (mo_DBPath opts) (mo_BufferDir opts)) (\<lambda>_. ret ()))
      else ret ()) (\<lambda>_ _. False) (at ?H ?D)"
    unfolding if_P [OF conjI [OF s(2,4)]] by (rule valid_wrapped, rule valid_andThen [OF rec]) (simp add: valid_def)
  have st: "valid v (at ?H ?D) stat_db (\<lambda>_. at ?H ?D) (at ?H ?D)" by (rule valid_post [OF v_stat_db]) (auto simp: stuck_def)
  have "valid v (at ?H ?D) (Run h marshal unmarshal opts now pid stamp) (\<lambda>_ _. False) (at ?H ?D)"
    unfolding Run_def if_not_P [OF s(3)]
    by (rule valid_andThen [OF st], rule valid_andThen [OF pre]) (simp add: valid_def)
  from valid_use [OF this at_self [OF s(1)]] show ?thesis by fastforce
qed

section \<open>An example\<close>

definition ex_opts :: MigrationOptions where
  "ex_opts = \<lparr>mo_DBPath = ''/d'', mo_TargetDir = ''/t'', mo_ArchiveDir = [], mo_BufferDir = ''/b'', mo_DryRun = False, mo_CreateBackup = False,
     mo_DropLegacyTables = True\<rparr>"

definition ex_legacy_db :: mig_db where
  "ex_legacy_db = \<lparr>g_records = None, g_commits = Some [\<lparr>ce_key = (''c'', 1), ce_savePath = ''a'', ce_fileSize = 3, ce_sha256 = ''abc''\<rparr>],
     g_attempts = Some [\<lparr>ae_key = (''c'', 2), ae_state = ''spooling''\<rparr>], g_segments = True, g_cleanup = False, g_verdicts = None\<rparr>"

definition ex_mig :: mig where
  "ex_mig = \<lparr>mg_fs = [''/b'' \<mapsto> NDir, ''/t'' \<mapsto> NDir, ''/t/a'' \<mapsto> NFile ''abc'', ''/b/x.part'' \<mapsto> NFile ''de''],
     mg_names = [''/b'', ''/t'', ''/t/a'', ''/b/x.part''], mg_db = ex_legacy_db, mg_backups = [], mg_n = 0\<rparr>"

definition dies_at :: "nat \<Rightarrow> mig_env" where
  "dies_at k = \<lparr>me_sys = (\<lambda>n. if n < k then Ok else Crash), me_part = (\<lambda>n. 0), me_rm = (\<lambda>n p. False)\<rparr>"

definition quiet :: mig_env where
  "quiet = \<lparr>me_sys = (\<lambda>n. Ok), me_part = (\<lambda>n. 0), me_rm = (\<lambda>n p. False)\<rparr>"

lemma calm_quiet: "faultless quiet"
  by (simp add: faultless_def quiet_def)

text \<open>An encoding of manifests with the two laws: the number of the manifest in unary, closed by a brace.\<close>

definition manifest_code :: "QuarantineManifest \<Rightarrow> nat" where
  "manifest_code m = to_nat (qm_MigrationID m, qm_QuarantineDir m, qm_CreatedAt m,
     map (\<lambda>f. (qe_OriginalPath f, qe_StagedName f, qe_StagedPath f, qe_Size f, qe_SHA256 f)) (qm_Files m))"

definition manifest_decode :: "nat \<Rightarrow> QuarantineManifest" where
  "manifest_decode n = (case from_nat n of (ident, dir, tm, files) \<Rightarrow>
     \<lparr>qm_MigrationID = ident, qm_QuarantineDir = dir, qm_CreatedAt = tm, qm_Files = map (\<lambda>(p, nm, st, sz, h).
        \<lparr>qe_OriginalPath = p, qe_StagedName = nm, qe_StagedPath = st, qe_Size = sz, qe_SHA256 = h\<rparr>) files\<rparr>)"

definition unary :: "QuarantineManifest \<Rightarrow> string" where
  "unary m = replicate (manifest_code m) CHR ''x'' @ ''}''"

definition from_unary :: "string \<Rightarrow> QuarantineManifest option" where
  "from_unary t = (if t \<noteq> [] \<and> last t = CHR ''}'' then Some (manifest_decode (length t - 1)) else None)"

lemma manifest_decode_code: "manifest_decode (manifest_code m) = m"
  by (simp add: manifest_decode_def manifest_code_def comp_def map_idI)

lemma json_unary: "json_laws unary from_unary"
  unfolding json_laws_def
proof (intro allI conjI impI)
  show "from_unary (unary m) = Some m" for m by (simp add: from_unary_def unary_def manifest_decode_code)
  fix m k assume "take k (unary m) \<noteq> unary m"
  then have "\<not> length (unary m) \<le> k" by auto
  then have "k \<le> manifest_code m" by (simp add: unary_def)
  then have "take k (unary m) = replicate k CHR ''x''" by (simp add: unary_def)
  then show "from_unary (take k (unary m)) = None" by (cases k) (simp_all add: from_unary_def last_replicate del: replicate.simps)
qed

lemma ex_mig_dirs:
  "quarantine_dir ex_opts 5 = ''/b/.migrator_quarantine_5''" "dir_chain ''/b/.migrator_quarantine_5'' = [''/b'', ''/b/.migrator_quarantine_5'']"
  "dir_chain (Dir ''/t/a'') = [''/t'']" "dir_chain (Dir ''/b/x.part'') = [''/b'']" "Clean ''/b'' = ''/b''"
  "Join ''/b'' ''.migrator_quarantine_'' = ''/b/.migrator_quarantine_''"
  by code_simp+

lemma ex_mig_start: "migration_start ex_opts 5 7 ex_mig"
proof -
  have F: "mg_fs ex_mig p \<noteq> None \<Longrightarrow> p \<in> {''/b'', ''/t'', ''/t/a'', ''/b/x.part''}" for p
    by (auto simp: ex_mig_def split: if_splits)
  have "mg_fs ex_mig p = None" if "is_quarantine ''/b'' q" "below q p" for q p
  proof (rule ccontr)
    assume "mg_fs ex_mig p \<noteq> None"
    from F [OF this] have "\<not> prefix ''/b/.migrator_quarantine_'' p" by auto
    moreover have "prefix ''/b/.migrator_quarantine_'' p"
      using that by (auto simp: is_quarantine_def ex_mig_dirs HasPrefix_def below_def Let_def dest!: append_prefixD intro: prefix_order.trans)
    ultimately show False by simp
  qed
  moreover have "mo_BufferDir ex_opts = ''/b''" by (simp add: ex_opts_def)
  moreover have "known_names ex_mig" using F by (auto simp: known_names_def) (simp_all add: ex_mig_def)
  moreover have "\<forall>d\<in>set (dir_chain (Dir p)). mg_fs ex_mig d = Some NDir" if "mg_fs ex_mig p = Some (NFile c)" for p c
    using F [of p] that by (auto simp: ex_mig_dirs) (auto simp: ex_mig_def)
  ultimately show ?thesis
    by (auto simp: migration_start_def buffer_ready_def ex_mig_dirs fresh_id_def coalesce_def) (simp_all add: ex_mig_def ex_legacy_db_def ex_opts_def)
qed

lemma ex_dead: "mg_fs (snd (Run (\<lambda>c. c) marshal unmarshal ex_opts 5 7 [] (dies_at 24) ex_mig)) ''/b/.migrator_quarantine_5/quarantine_manifest.json'' = None"
  by code_simp

lemma ex_imported: "map_option d_status (tab_sel (records_of (mg_db (snd (Run (\<lambda>c. c) marshal unmarshal ex_opts 5 7 [] quiet ex_mig)))) (''c'', 1)) = Some Success"
  by code_simp

text \<open>A run that is killed between the creation and the writing of the manifest leaves an empty manifest.\<close>

lemma ex_torn: "mg_fs (snd (Run (\<lambda>c. c) marshal unmarshal ex_opts 5 7 [] (dies_at 27) ex_mig)) ''/b/.migrator_quarantine_5/quarantine_manifest.json'' = Some (NFile [])"
  by (code_simp, simp)

definition ex_left :: mig where
  "ex_left = ex_mig\<lparr>mg_fs := (mg_fs ex_mig)(''/b/.migrator_quarantine_5'' \<mapsto> NDir, ''/b/.migrator_quarantine_5/quarantine_manifest.json'' \<mapsto> NFile []),
     mg_names := mg_names ex_mig @ [''/b/.migrator_quarantine_5'', ''/b/.migrator_quarantine_5/quarantine_manifest.json'']\<rparr>"






lemma ex_left_files:
  "mg_fs ex_left p \<noteq> None \<longleftrightarrow> p \<in> set [''/b'', ''/t'', ''/t/a'', ''/b/x.part'', ''/b/.migrator_quarantine_5'', ''/b/.migrator_quarantine_5/quarantine_manifest.json'']"
  by (simp add: ex_left_def ex_mig_def)

lemma ex_left_quarantine:
  "filter (is_quarantine ''/b'') [''/b'', ''/t'', ''/t/a'', ''/b/x.part'', ''/b/.migrator_quarantine_5'', ''/b/.migrator_quarantine_5/quarantine_manifest.json''] =
    [''/b/.migrator_quarantine_5'']"
  by code_simp

lemma ex_left_names:
  "mg_names ex_left = [''/b'', ''/t'', ''/t/a'', ''/b/x.part'', ''/b/.migrator_quarantine_5'', ''/b/.migrator_quarantine_5/quarantine_manifest.json'']"
  by (simp add: ex_left_def ex_mig_def)

theorem torn_manifest_blocks_witness:
  "\<nexists>out u. Run (\<lambda>c. c) unary from_unary ex_opts 6 8 [] quiet ex_left = (Ret out, u)"
proof (rule torn_manifest_blocks [where q = "''/b/.migrator_quarantine_5''" and t = "[]"])
  define ns where "ns = [''/b'', ''/t'', ''/t/a'', ''/b/x.part'', ''/b/.migrator_quarantine_5'', ''/b/.migrator_quarantine_5/quarantine_manifest.json'']"
  have b: "mo_BufferDir ex_opts = ''/b''" by (simp add: ex_opts_def)
  have "x \<in> set ns \<and> is_quarantine ''/b'' x \<longleftrightarrow> x \<in> set (filter (is_quarantine ''/b'') ns)" for x by simp
  then show "\<forall>x. mg_fs ex_left x \<noteq> None \<and> is_quarantine (mo_BufferDir ex_opts) x \<longleftrightarrow> x = ''/b/.migrator_quarantine_5''"
    unfolding b ex_left_files ns_def ex_left_quarantine by simp
  have "manifest_path ''/b/.migrator_quarantine_5'' = ''/b/.migrator_quarantine_5/quarantine_manifest.json''" by code_simp
  then show "mg_fs ex_left (manifest_path ''/b/.migrator_quarantine_5'') = Some (NFile [])" by (simp add: ex_left_def)
  show "known_names ex_left" unfolding known_names_def ex_left_files ex_left_names by blast
qed (simp_all add: ex_opts_def from_unary_def)

end
