(* ===== verification/Chat_Tables.thy ===== *)
theory Chat_Tables
  imports Download_Records
begin

text \<open>
  The rest of \<open>app/daemon/db.go\<close>: listen targets and scan cursors, the ingestion of messages, the pages and statistics of the web server,
  the accounts, and the migration of legacy identifiers. Rows that a query returns in no specified order are in the
  order of the table, and texts are lists of bytes. Sums of sizes are taken to fit into 64 bits.
\<close>

section \<open>Text columns\<close>

text \<open>
  \<open>LIKE\<close> of SQLite: a percent sign stands for any text, an underscore for one character, and letters of ASCII match in both
  cases. Texts are bytes here, so an underscore stands for one byte.
\<close>

definition like_char :: "char \<Rightarrow> char \<Rightarrow> bool" where
  "like_char c d \<longleftrightarrow> c = CHR ''_'' \<or> ToLower [c] = ToLower [d]"

fun like :: "string \<Rightarrow> string \<Rightarrow> bool" where
  "like [] s = (s = [])"
| "like (c # p) s = (if c = CHR ''%'' then list_ex (like p) (suffixes s)
     else case s of [] \<Rightarrow> False | d # s' \<Rightarrow> like_char c d \<and> like p s')"

definition like_col :: "string \<Rightarrow> string option \<Rightarrow> bool" where
  "like_col p c = (case c of None \<Rightarrow> False | Some s \<Rightarrow> like p s)"

text \<open>\<open>CASE WHEN excluded.x != '' THEN excluded.x ELSE x END\<close>.\<close>

definition keep_text :: "string \<Rightarrow> string \<Rightarrow> string" where
  "keep_text new old = (if new \<noteq> [] then new else old)"

section \<open>Targets and cursors\<close>

record ListenTarget =
  lt_ChatID :: string
  lt_Enabled :: bool
  lt_Title :: string
  lt_Username :: string
  lt_ChatType :: string
  lt_DownloadFilter :: string
  lt_UploadTelegramChatID :: string
  lt_Priority :: int
  lt_LastReadMessageID :: int
  lt_CreatedAt :: int64
  lt_UpdatedAt :: int64
  lt_Revision :: nat

definition listen_target :: "string \<Rightarrow> target_row \<Rightarrow> int \<Rightarrow> ListenTarget" where
  "listen_target k t cursor = \<lparr>lt_ChatID = k, lt_Enabled = t_enabled t, lt_Title = t_title t, lt_Username = t_username t,
     lt_ChatType = t_chat_type t, lt_DownloadFilter = t_download_filter t, lt_UploadTelegramChatID = t_upload_telegram_chat_id t,
     lt_Priority = t_priority t, lt_LastReadMessageID = cursor, lt_CreatedAt = t_created_at t, lt_UpdatedAt = t_updated_at t,
     lt_Revision = t_revision t\<rparr>"

text \<open>\<open>ORDER BY priority DESC, updated_at DESC\<close> as two stable sorts.\<close>

definition GetListenTargets :: "(nat \<Rightarrow> bool) \<Rightarrow> database \<Rightarrow> db_error + ListenTarget list" where
  "GetListenTargets io db =
     (if io 0 then Inl ErrSql
      else Inr (sort_key (\<lambda>i. - lt_Priority i) (sort_key (\<lambda>i. - lt_UpdatedAt i)
             (map (\<lambda>(k, t). listen_target k t (case tab_sel (chat_scan_cursors db) k of None \<Rightarrow> 0 | Some c \<Rightarrow> c_cursor c))
                (listen_targets db)))))"

text \<open>The row of the first insertion, and the update of a saved target.\<close>

definition new_target :: "bool \<Rightarrow> ListenTarget \<Rightarrow> int64 \<Rightarrow> target_row" where
  "new_target enabled i now = \<lparr>t_enabled = enabled, t_title = lt_Title i, t_username = lt_Username i, t_chat_type = lt_ChatType i,
     t_download_filter = [], t_upload_telegram_chat_id = [], t_priority = 0, t_created_at = now, t_updated_at = now, t_revision = 1,
     t_peer_id = []\<rparr>"

definition named_as :: "ListenTarget \<Rightarrow> int64 \<Rightarrow> target_row \<Rightarrow> target_row" where
  "named_as i now t = t\<lparr>t_title := keep_text (lt_Title i) (t_title t), t_username := keep_text (lt_Username i) (t_username t),
     t_chat_type := keep_text (lt_ChatType i) (t_chat_type t), t_updated_at := now\<rparr>"

definition upsert_target :: "ListenTarget \<Rightarrow> int64 \<Rightarrow> database \<Rightarrow> database" where
  "upsert_target i now db = db\<lparr>listen_targets := tab_upsert (lt_ChatID i)
     ((new_target (lt_Enabled i) i now)\<lparr>t_download_filter := lt_DownloadFilter i,
        t_upload_telegram_chat_id := lt_UploadTelegramChatID i, t_priority := lt_Priority i\<rparr>)
     (\<lambda>t. (named_as i now t)\<lparr>t_enabled := lt_Enabled i, t_download_filter := lt_DownloadFilter i,
        t_upload_telegram_chat_id := lt_UploadTelegramChatID i, t_priority := lt_Priority i, t_revision := t_revision t + 1\<rparr>)
     (listen_targets db)\<rparr>"

definition upsert_cursor :: "string \<Rightarrow> int \<Rightarrow> int64 \<Rightarrow> database \<Rightarrow> database" where
  "upsert_cursor k cursor now db = db\<lparr>chat_scan_cursors := tab_upsert k
     \<lparr>c_cursor = cursor, c_mirrored_cursor = 0, c_updated_at = now\<rparr> (\<lambda>c. c\<lparr>c_cursor := cursor, c_updated_at := now\<rparr>)
     (chat_scan_cursors db)\<rparr>"

text \<open>The statements of one item in the transaction: \<open>Inl\<close> is a failure.\<close>

definition save_target :: "(nat \<Rightarrow> bool) \<Rightarrow> ListenTarget \<Rightarrow> int64 \<Rightarrow> database \<Rightarrow> db_error + database" where
  "save_target io i now tx =
     (if io 0 then Inl ErrSql
      else let tx1 = upsert_target i now tx
           in if lt_LastReadMessageID i > 0
              then if io 1 then Inl ErrSql else Inr (upsert_cursor (lt_ChatID i) (lt_LastReadMessageID i) now tx1)
              else Inr tx1)"

fun save_targets :: "(nat \<Rightarrow> bool) \<Rightarrow> ListenTarget list \<Rightarrow> int64 \<Rightarrow> database \<Rightarrow> db_error + database" where
  "save_targets io [] now tx = Inr tx"
| "save_targets io (i # is) now tx = (case save_target io i now tx of
     Inl e \<Rightarrow> Inl e | Inr tx1 \<Rightarrow> save_targets (\<lambda>n. io (n + 2)) is now tx1)"

text \<open>Begin, the statements, commit. A failure rolls back.\<close>

definition in_tx :: "(nat \<Rightarrow> bool) \<Rightarrow> bool \<Rightarrow> (db_error + database) \<Rightarrow> database \<Rightarrow> db_error option \<times> database" where
  "in_tx io commit_fails res db = (if io 0 then (Some ErrSql, db)
     else case res of Inl e \<Rightarrow> (Some e, db) | Inr tx \<Rightarrow> if commit_fails then (Some ErrSql, db) else (None, tx))"

definition SaveListenTargets ::
  "(nat \<Rightarrow> bool) \<Rightarrow> int64 \<Rightarrow> ListenTarget list \<Rightarrow> database \<Rightarrow> db_error option \<times> database" where
  "SaveListenTargets io now targets db =
     in_tx io (io (2 * length targets + 1)) (save_targets (\<lambda>n. io (n + 1)) targets now db) db"

fun save_dialogs :: "(nat \<Rightarrow> bool) \<Rightarrow> ListenTarget list \<Rightarrow> int64 \<Rightarrow> database \<Rightarrow> db_error + database" where
  "save_dialogs io [] now tx = Inr tx"
| "save_dialogs io (i # is) now tx =
     (if io 0 then Inl ErrSql
      else save_dialogs (\<lambda>n. io (n + 1)) is now (tx\<lparr>listen_targets := tab_upsert (lt_ChatID i) (new_target False i now) (named_as i now)
             (listen_targets tx)\<rparr>))"

definition SaveDiscoveredDialogs ::
  "(nat \<Rightarrow> bool) \<Rightarrow> int64 \<Rightarrow> ListenTarget list \<Rightarrow> database \<Rightarrow> db_error option \<times> database" where
  "SaveDiscoveredDialogs io now dialogs db =
     in_tx io (io (length dialogs + 1)) (save_dialogs (\<lambda>n. io (n + 1)) dialogs now db) db"

definition SaveSingleListenTarget ::
  "(nat \<Rightarrow> bool) \<Rightarrow> int64 \<Rightarrow> ListenTarget \<Rightarrow> database \<Rightarrow> db_error option \<times> database" where
  "SaveSingleListenTarget io now i db = in_tx io (io 3) (save_target (\<lambda>n. io (n + 1)) i now db) db"

definition GetScanCursorWithTime :: "(nat \<Rightarrow> bool) \<Rightarrow> string \<Rightarrow> database \<Rightarrow> db_error + int \<times> int64" where
  "GetScanCursorWithTime io k db =
     (if io 0 then Inl ErrSql
      else case tab_sel (chat_scan_cursors db) k of None \<Rightarrow> Inr (0, 0) | Some c \<Rightarrow> Inr (c_cursor c, c_updated_at c))"

definition GetScanCursor :: "(nat \<Rightarrow> bool) \<Rightarrow> string \<Rightarrow> database \<Rightarrow> db_error + int" where
  "GetScanCursor io k db = (case GetScanCursorWithTime io k db of Inl e \<Rightarrow> Inl e | Inr (c, _) \<Rightarrow> Inr c)"

definition SaveScanCursor :: "(nat \<Rightarrow> bool) \<Rightarrow> int64 \<Rightarrow> string \<Rightarrow> int \<Rightarrow> database \<Rightarrow> db_error option \<times> database" where
  "SaveScanCursor io now k cursor db = (if io 0 then (Some ErrSql, db) else (None, upsert_cursor k cursor now db))"

section \<open>Messages\<close>

record ChatMessage =
  cm_ChatID :: string
  cm_MessageID :: int
  cm_SenderID :: string
  cm_SenderName :: string
  cm_Text :: string
  cm_MediaType :: string
  cm_HasMedia :: bool
  cm_ReplyToMessageID :: int
  cm_Date :: int64
  cm_FileName :: string
  cm_FileSize :: int64

abbreviation cm_key :: "ChatMessage \<Rightarrow> msg_key" where
  "cm_key m \<equiv> (cm_ChatID m, cm_MessageID m)"

definition ingest_ext :: "string \<Rightarrow> string" where
  "ingest_ext mediaType = (if mediaType = ''photo'' then ''.jpg'' else if mediaType = ''audio'' then ''.mp3'' else ''.mp4'')"

definition ingest_file_name :: "ChatMessage \<Rightarrow> string" where
  "ingest_file_name m = (let f = cm_FileName m
     in if f = [] \<or> HasSuffix f ''.bin'' \<or> HasSuffix f ''.unknown'' then show_int (cm_MessageID m) @ ingest_ext (cm_MediaType m) else f)"

definition upsert_message :: "ChatMessage \<Rightarrow> int64 \<Rightarrow> database \<Rightarrow> database" where
  "upsert_message m now db = db\<lparr>chat_messages := tab_upsert (cm_key m)
     \<lparr>m_sender_id = cm_SenderID m, m_sender_name = cm_SenderName m, m_text = cm_Text m, m_media_type = cm_MediaType m,
      m_has_media = cm_HasMedia m, m_reply_to_message_id = cm_ReplyToMessageID m, m_date = cm_Date m, m_created_at = now,
      m_updated_at = now\<rparr>
     (\<lambda>r. r\<lparr>m_text := cm_Text m, m_media_type := cm_MediaType m, m_has_media := cm_HasMedia m, m_updated_at := now\<rparr>)
     (chat_messages db)\<rparr>"

definition placeholder_name :: "string option \<Rightarrow> bool" where
  "placeholder_name f = (case f of None \<Rightarrow> True | Some s \<Rightarrow> like ''%.bin'' s)"

definition upsert_media :: "ChatMessage \<Rightarrow> int64 \<Rightarrow> database \<Rightarrow> database" where
  "upsert_media m now db = (let f = ingest_file_name m in db\<lparr>download_records := tab_upsert (cm_key m)
     ((new_download Pending now)\<lparr>d_file_name := Some f, d_media_type := Some (cm_MediaType m), d_file_size := Some (cm_FileSize m)\<rparr>)
     (\<lambda>r. r\<lparr>d_file_name := (if placeholder_name (d_file_name r) then Some f else d_file_name r),
        d_media_type := Some (cm_MediaType m), d_file_size := Some (cm_FileSize m)\<rparr>) (download_records db)\<rparr>)"

definition IngestMessage :: "(nat \<Rightarrow> bool) \<Rightarrow> int64 \<Rightarrow> ChatMessage \<Rightarrow> database \<Rightarrow> db_error option \<times> database" where
  "IngestMessage io now m db = in_tx io (io 3)
     (if io 1 then Inl ErrSql
      else let tx = upsert_message m now db
           in if cm_HasMedia m then if io 2 then Inl ErrSql else Inr (upsert_media m now tx) else Inr tx) db"

definition chat_message :: "msg_key \<times> message_row \<Rightarrow> ChatMessage" where
  "chat_message = (\<lambda>(k, r). \<lparr>cm_ChatID = fst k, cm_MessageID = snd k, cm_SenderID = m_sender_id r, cm_SenderName = m_sender_name r,
     cm_Text = m_text r, cm_MediaType = m_media_type r, cm_HasMedia = m_has_media r, cm_ReplyToMessageID = m_reply_to_message_id r,
     cm_Date = m_date r, cm_FileName = [], cm_FileSize = 0\<rparr>)"

text \<open>A query that fails leaves its half out; the operation reports no error.\<close>

definition messages_before :: "string \<Rightarrow> int \<Rightarrow> int \<Rightarrow> database \<Rightarrow> (msg_key \<times> message_row) list" where
  "messages_before chat mid n db = limit_rows n (sort_key (\<lambda>(k, r). - snd k)
     (filter (\<lambda>(k, r). fst k = chat \<and> snd k < mid) (chat_messages db)))"

definition messages_after :: "string \<Rightarrow> int \<Rightarrow> int \<Rightarrow> database \<Rightarrow> (msg_key \<times> message_row) list" where
  "messages_after chat mid n db = limit_rows n (sort_key (\<lambda>(k, r). snd k)
     (filter (\<lambda>(k, r). fst k = chat \<and> mid \<le> snd k) (chat_messages db)))"

definition GetChatMessagesAround :: "(nat \<Rightarrow> bool) \<Rightarrow> string \<Rightarrow> int \<Rightarrow> int \<Rightarrow> int \<Rightarrow> database \<Rightarrow> ChatMessage list" where
  "GetChatMessagesAround io chat mid before after db =
     map chat_message ((if io 0 then [] else rev (messages_before chat mid before db)) @
       (if io 1 then [] else messages_after chat mid after db))"

section \<open>Pages and statistics\<close>

definition searched :: "string \<Rightarrow> msg_key \<times> download_row \<Rightarrow> bool" where
  "searched q = (\<lambda>(k, r). d_status r = Success \<and> (q \<noteq> [] \<longrightarrow>
     (let p = ''%'' @ q @ ''%'' in like_col p (d_file_name r) \<or> like p (fst k) \<or> like_col p (d_save_path r))))"

text \<open>\<open>ORDER BY downloaded_at DESC, updated_at DESC\<close>: a missing time is last. The error of the count is ignored. A negative
  offset is none.\<close>

definition GetDownloadedRecords ::
  "(nat \<Rightarrow> bool) \<Rightarrow> string \<Rightarrow> int \<Rightarrow> int \<Rightarrow> database \<Rightarrow> db_error + (msg_key \<times> download_row) list \<times> nat" where
  "GetDownloadedRecords io searchQuery limit offset db =
     (let hits = filter (searched searchQuery) (download_records db)
      in if io 1 then Inl ErrSql
         else Inr (limit_rows limit (drop (nat offset)
                (sort_key (\<lambda>(k, r). if d_downloaded_at r = None then 1 else 0 :: int)
                  (sort_key (\<lambda>(k, r). - coalesce (d_downloaded_at r) 0) (sort_key (\<lambda>(k, r). - d_updated_at r) hits)))),
              if io 0 then 0 else length hits))"

record TargetProgressStat =
  pg_ChatID :: string
  pg_TotalFiles :: nat
  pg_DownloadedFiles :: nat
  pg_PendingFiles :: nat
  pg_ProcessingFiles :: nat
  pg_FailedFiles :: nat
  pg_ConflictFiles :: nat
  pg_SkippedFiles :: nat
  pg_DownloadedBytes :: int

definition no_progress :: TargetProgressStat where
  "no_progress = \<lparr>pg_ChatID = [], pg_TotalFiles = 0, pg_DownloadedFiles = 0, pg_PendingFiles = 0, pg_ProcessingFiles = 0,
     pg_FailedFiles = 0, pg_ConflictFiles = 0, pg_SkippedFiles = 0, pg_DownloadedBytes = 0\<rparr>"

text \<open>The groups of the query, with count and sum of the sizes.\<close>

definition status_group :: "string \<times> rec_status \<Rightarrow> database \<Rightarrow> (msg_key \<times> download_row) list" where
  "status_group g db = filter (\<lambda>(k, r). (fst k, d_status r) = g) (download_records db)"

definition status_groups :: "database \<Rightarrow> (string \<times> rec_status) list" where
  "status_groups db = remdups (map (\<lambda>(k, r). (fst k, d_status r)) (download_records db))"

definition group_bytes :: "(msg_key \<times> download_row) list \<Rightarrow> int" where
  "group_bytes rs = sum_list (map (\<lambda>(k, r). coalesce (d_file_size r) 0) rs)"

definition add_group :: "database \<Rightarrow> string \<times> rec_status \<Rightarrow> (string \<rightharpoonup> TargetProgressStat) \<Rightarrow> (string \<rightharpoonup> TargetProgressStat)" where
  "add_group db g res =
     (let chat = fst g; rs = status_group g db; n = length rs;
          s0 = (case res chat of None \<Rightarrow> no_progress | Some s \<Rightarrow> s);
          s = s0\<lparr>pg_ChatID := chat, pg_TotalFiles := pg_TotalFiles s0 + n\<rparr>;
          s' = (case snd g of
              Success \<Rightarrow> s\<lparr>pg_DownloadedFiles := pg_DownloadedFiles s + n, pg_DownloadedBytes := pg_DownloadedBytes s + group_bytes rs\<rparr>
            | Pending \<Rightarrow> s\<lparr>pg_PendingFiles := pg_PendingFiles s + n\<rparr>
            | Downloading \<Rightarrow> s\<lparr>pg_ProcessingFiles := pg_ProcessingFiles s + n\<rparr>
            | Failed \<Rightarrow> s\<lparr>pg_FailedFiles := pg_FailedFiles s + n\<rparr>
            | Conflict \<Rightarrow> s\<lparr>pg_ConflictFiles := pg_ConflictFiles s + n\<rparr>
            | StOther t \<Rightarrow> if t = ''processing'' then s\<lparr>pg_ProcessingFiles := pg_ProcessingFiles s + n\<rparr>
                else if t = ''skipped'' then s\<lparr>pg_SkippedFiles := pg_SkippedFiles s + n\<rparr> else s
            | _ \<Rightarrow> s)
      in res(chat \<mapsto> s'))"

definition GetTargetProgressStats :: "(nat \<Rightarrow> bool) \<Rightarrow> database \<Rightarrow> db_error + (string \<rightharpoonup> TargetProgressStat)" where
  "GetTargetProgressStats io db = (if io 0 then Inl ErrSql else Inr (fold (add_group db) (status_groups db) Map.empty))"

section \<open>Accounts\<close>

record TelegramAccount =
  ta_Namespace :: string
  ta_row :: account_row

definition clear_active :: "database \<Rightarrow> database" where
  "clear_active db = db\<lparr>telegram_accounts := tab_upd_all (\<lambda>k r. True) (\<lambda>r. r\<lparr>u_is_active := False\<rparr>) (telegram_accounts db)\<rparr>"

text \<open>The error of the first statement is ignored.\<close>

definition SaveAccount :: "(nat \<Rightarrow> bool) \<Rightarrow> int64 \<Rightarrow> TelegramAccount \<Rightarrow> database \<Rightarrow> db_error option \<times> database" where
  "SaveAccount io now acc db =
     (let a0 = ta_row acc;
          a = a0\<lparr>u_created_at := (if u_created_at a0 = 0 then now else u_created_at a0), u_updated_at := now\<rparr>;
          db1 = (if u_is_active a \<and> \<not> io 0 then clear_active db else db)
      in if io 1 then (Some ErrSql, db1)
         else (None, db1\<lparr>telegram_accounts := tab_upsert (ta_Namespace acc) a
                (\<lambda>r. a\<lparr>u_created_at := u_created_at r\<rparr>) (telegram_accounts db1)\<rparr>))"

definition GetAccounts :: "(nat \<Rightarrow> bool) \<Rightarrow> database \<Rightarrow> db_error + (string \<times> account_row) list" where
  "GetAccounts io db = (if io 0 then Inl ErrSql
     else Inr (sort_key (\<lambda>(k, r). if u_is_active r then 0 else 1 :: int) (sort_key (\<lambda>(k, r). - u_updated_at r) (telegram_accounts db))))"

definition GetActiveAccount :: "(nat \<Rightarrow> bool) \<Rightarrow> database \<Rightarrow> db_error + string \<times> account_row" where
  "GetActiveAccount io db = (if io 0 then Inl ErrSql
     else case filter (\<lambda>(k, r). u_is_active r) (telegram_accounts db) of [] \<Rightarrow> Inl ErrSql | a # _ \<Rightarrow> Inr a)"

definition SetActiveAccount :: "(nat \<Rightarrow> bool) \<Rightarrow> int64 \<Rightarrow> string \<Rightarrow> database \<Rightarrow> db_error option \<times> database" where
  "SetActiveAccount io now ns db =
     (let db1 = (if io 0 then db else clear_active db)
      in if io 1 then (Some ErrSql, db1)
         else (None, db1\<lparr>telegram_accounts := fst (tab_upd ns (\<lambda>_. True) (\<lambda>r. r\<lparr>u_is_active := True, u_updated_at := now\<rparr>)
                (telegram_accounts db1))\<rparr>))"

definition DeleteAccount :: "(nat \<Rightarrow> bool) \<Rightarrow> string \<Rightarrow> database \<Rightarrow> db_error option \<times> database" where
  "DeleteAccount io ns db = (if io 0 then (Some ErrSql, db)
     else (None, db\<lparr>telegram_accounts := tab_del (\<lambda>k r. k = ns) (telegram_accounts db)\<rparr>))"

section \<open>Legacy identifiers\<close>

record legacy_info =
  li_NumericID :: string
  li_Title :: string
  li_Username :: string
  li_Type :: string

text \<open>The titles are given by their bytes.\<close>

definition legacyMap :: "(string \<times> legacy_info) list" where
  "legacyMap =
    [(''@memento7711bot'', \<lparr>li_NumericID = ''8844705144'',
        li_Title = map char_of [0xE7, 0xBA, 0xAA, 0xE5, 0xBF, 0xB5, 0xE5, 0x93, 0x81 :: nat] @ ''bot'', li_Username = ''memento7711bot'', li_Type = ''bot''\<rparr>),
     (''@Spjqr1_bot'', \<lparr>li_NumericID = ''8955155825'',
        li_Title = map char_of [0xE9, 0xB1, 0xBC, 0xE5, 0x93, 0xA5, 0xE5, 0x8E, 0x9F, 0xE5, 0x88, 0x9B, 0xE8, 0xA7, 0x86, 0xE9, 0xA2, 0x91,
          0xE6, 0x9C, 0xBA, 0xE5, 0x99, 0xA8, 0xE4, 0xBA, 0xBA :: nat], li_Username = ''Spjqr1_bot'', li_Type = ''bot''\<rparr>),
     (''@XHDGZB521bot'', \<lparr>li_NumericID = ''7236297057'',
        li_Title = map char_of [0xE8, 0x8A, 0xB1, 0xE5, 0x8D, 0x89, 0xE5, 0xB8, 0x82, 0xE5, 0x9C, 0xBA, 0xE9, 0xAB, 0x98, 0xE4, 0xB8, 0xAD,
          0xE9, 0x83, 0xA8 :: nat] @ ''1'', li_Username = ''XHDGZB521bot'', li_Type = ''bot''\<rparr>),
     (''@jinianpinbot'', \<lparr>li_NumericID = ''7377780474'',
        li_Title = map char_of [0xE7, 0xBA, 0xAA, 0xE5, 0xBF, 0xB5, 0xE5, 0x93, 0x81 :: nat] @ ''bot'', li_Username = ''jinianpinbot'', li_Type = ''bot''\<rparr>)]"

text \<open>\<open>UPDATE OR IGNORE\<close> of a key column: a row whose new key is taken stays. Then \<open>DELETE\<close> of the rest.\<close>

definition tab_rekey :: "('k \<Rightarrow> bool) \<Rightarrow> ('k \<Rightarrow> 'k) \<Rightarrow> ('k, 'r) table \<Rightarrow> ('k, 'r) table" where
  "tab_rekey c g t = map (\<lambda>(k, r). if c k \<and> g k \<notin> fst ` set t then (g k, r) else (k, r)) t"

definition move_rows :: "bool \<Rightarrow> bool \<Rightarrow> ('k \<Rightarrow> bool) \<Rightarrow> ('k \<Rightarrow> 'k) \<Rightarrow> ('k, 'r) table \<Rightarrow> ('k, 'r) table" where
  "move_rows upd_fails del_fails c g t =
     (let t1 = (if upd_fails then t else tab_rekey c g t) in if del_fails then t1 else tab_del (\<lambda>k r. c k) t1)"

definition migrate_target :: "(nat \<Rightarrow> bool) \<Rightarrow> int64 \<Rightarrow> string \<Rightarrow> legacy_info \<Rightarrow> database \<Rightarrow> database" where
  "migrate_target io now oldID info db = (case (if io 0 then None else tab_sel (listen_targets db) oldID) of
     None \<Rightarrow> db
   | Some old \<Rightarrow>
       (let i = \<lparr>lt_ChatID = li_NumericID info, lt_Enabled = t_enabled old, lt_Title = li_Title info, lt_Username = li_Username info,
              lt_ChatType = li_Type info, lt_DownloadFilter = [], lt_UploadTelegramChatID = [], lt_Priority = 0, lt_LastReadMessageID = 0,
              lt_CreatedAt = now, lt_UpdatedAt = now, lt_Revision = 1\<rparr>;
            t1 = (if io 1 then listen_targets db
                  else tab_upsert (li_NumericID info) (new_target (t_enabled old) i now)
                    (\<lambda>t. t\<lparr>t_enabled := t_enabled old, t_title := li_Title info, t_username := li_Username info,
                       t_chat_type := li_Type info, t_updated_at := now\<rparr>) (listen_targets db));
            t2 = (if io 2 then t1 else tab_del (\<lambda>k r. k = oldID) t1)
        in db\<lparr>listen_targets := t2\<rparr>))"

definition migrate_one :: "(nat \<Rightarrow> bool) \<Rightarrow> int64 \<Rightarrow> string \<times> legacy_info \<Rightarrow> database \<Rightarrow> database" where
  "migrate_one io now e db =
     (let oldID = fst e; newID = li_NumericID (snd e); db1 = migrate_target io now oldID (snd e) db
      in db1\<lparr>download_records := move_rows (io 3) (io 4) (\<lambda>k. fst k = oldID) (\<lambda>k. (newID, snd k)) (download_records db1),
             chat_messages := move_rows (io 5) (io 6) (\<lambda>k. fst k = oldID) (\<lambda>k. (newID, snd k)) (chat_messages db1),
             chat_scan_cursors := move_rows (io 7) (io 8) (\<lambda>k. k = oldID) (\<lambda>k. newID) (chat_scan_cursors db1)\<rparr>)"

fun migrate_each :: "(nat \<Rightarrow> bool) \<Rightarrow> int64 \<Rightarrow> (string \<times> legacy_info) list \<Rightarrow> database \<Rightarrow> database" where
  "migrate_each io now [] db = db"
| "migrate_each io now (e # es) db = migrate_each (\<lambda>n. io (n + 9)) now es (migrate_one io now e db)"

text \<open>The entries in the order in which the map is walked, then the last statement.\<close>

definition migrateLegacyUsernameIDs :: "(nat \<Rightarrow> bool) \<Rightarrow> int64 \<Rightarrow> (string \<times> legacy_info) list \<Rightarrow> database \<Rightarrow> database" where
  "migrateLegacyUsernameIDs io now entries db =
     (let db1 = migrate_each io now entries db
      in if io (9 * length entries) then db1
         else db1\<lparr>listen_targets := tab_del (\<lambda>k r. HasPrefix k ''@'' \<and> k \<notin> fst ` fst ` set (download_records db1)) (listen_targets db1)\<rparr>)"

end
