(* ===== verification/Chat_Safety.thy ===== *)
theory Chat_Safety
  imports Chat_Tables
begin

text \<open>
  The properties of the target, message and account tables: ingestion keeps the progress of downloads, at most one account is
  active, the statistics are exact, the messages around a message have no gaps, the legacy identifiers are moved completely,
  discovered dialogs never change the queue, and the pages of the downloads cover them.
\<close>

declare split_paired_All [simp del] split_paired_Ex [simp del]

section \<open>Transactions\<close>

lemma in_tx_cases:
  assumes "in_tx io c res db = (e, db')"
  obtains "e \<noteq> None" "db' = db" | "e = None" "res = Inr db'"
  using assms by (auto simp: in_tx_def split: if_splits sum.splits)

section \<open>Ingestion\<close>

text \<open>The columns of a record that say how far its download is.\<close>

definition progress_of :: "download_row \<Rightarrow> (rec_status \<times> string option \<times> string option \<times> string option) \<times> (int64 option \<times> int64 option) \<times> nat \<times> int64 \<times> string" where
  "progress_of r = ((d_status r, d_save_path r, d_sha256 r, d_error r), (d_downloaded_at r, d_processing_started_at r),
     d_attempts r, d_next_retry_at r, d_attempt_generation r)"

lemma ingest_new:
  "e = None \<Longrightarrow> IngestMessage io now m db = (e, db') \<Longrightarrow>
    db' = (if cm_HasMedia m then upsert_media m now (upsert_message m now db) else upsert_message m now db)"
  by (auto simp: IngestMessage_def Let_def elim!: in_tx_cases split: if_splits)

text \<open>C35. Ingestion keeps the progress of downloads, and is all or nothing. A message that is ingested, also again after an edit, never changes the status, the path, the digest, the error, the times, the attempts, the next retry or the generation of any download record; it adds at most its own record, which is pending. After a success the message is stored with its text, and its record exists when it has media; after a failure the database is as before.\<close>

theorem ingest_keeps_progress:
  assumes db: "db_ok db" and m: "IngestMessage io now m db = (e, db')"
  shows "db_ok db' \<and> (e \<noteq> None \<longrightarrow> db' = db) \<and>
    (e = None \<longrightarrow> (\<exists>r. tab_sel (chat_messages db') (cm_key m) = Some r \<and> m_text r = cm_Text m \<and> m_has_media r = cm_HasMedia m) \<and>
       (cm_HasMedia m \<longrightarrow> (\<exists>r. drow db' (cm_key m) = Some r))) \<and>
    (\<forall>k r. drow db k = Some r \<longrightarrow> (\<exists>r'. drow db' k = Some r' \<and> progress_of r' = progress_of r)) \<and>
    (\<forall>k r. drow db' k = Some r \<longrightarrow> drow db k = None \<longrightarrow> k = cm_key m \<and> d_status r = Pending)"
proof (cases e)
  case None
  have d: "download_records (upsert_message m now db) = download_records db" by (simp add: upsert_message_def)
  have ok: "db_ok (upsert_message m now db)" using db by (intro db_okI) (simp_all add: upsert_message_def)
  from ok have ok2: "db_ok (upsert_media m now (upsert_message m now db))"
    by (intro db_okI) (simp_all add: upsert_media_def Let_def)
  show ?thesis
  proof (cases "cm_HasMedia m")
    case True
    with ingest_new [OF None m] have e: "db' = upsert_media m now (upsert_message m now db)" by simp
    have row: "drow db' k = (if k = cm_key m then Some (case drow db k of
         None \<Rightarrow> (new_download Pending now)\<lparr>d_file_name := Some (ingest_file_name m), d_media_type := Some (cm_MediaType m), d_file_size := Some (cm_FileSize m)\<rparr>
       | Some r \<Rightarrow> r\<lparr>d_file_name := (if placeholder_name (d_file_name r) then Some (ingest_file_name m) else d_file_name r),
        d_media_type := Some (cm_MediaType m), d_file_size := Some (cm_FileSize m)\<rparr>) else drow db k)" for k
      using db by (auto simp: e upsert_media_def Let_def d tab_sel_upsert split: option.splits)
    have msg: "chat_messages db' = chat_messages (upsert_message m now db)" by (simp add: e upsert_media_def Let_def)
    have okd: "db_ok db'" using ok2 e by simp
    show ?thesis using None okd db True
      by (auto simp: row msg progress_of_def upsert_message_def new_download_def tab_sel_upsert split: option.splits)
  next
    case False
    with ingest_new [OF None m] have "db' = upsert_message m now db" by simp
    with None ok db False d show ?thesis
      by (auto simp: upsert_message_def tab_sel_upsert split: option.splits)
  qed
next
  case (Some x)
  with m have "db' = db" by (auto simp: IngestMessage_def elim!: in_tx_cases)
  with Some db show ?thesis by auto
qed

text \<open>
  The size and the media type are overwritten even in a successful record, whose digest and path stay.
\<close>

lemma ingest_overwrites_size:
  assumes "db_ok db" and "drow db (cm_key m) = Some r" and "d_status r = Success" and "cm_HasMedia m"
  shows "\<exists>r'. drow (snd (IngestMessage no_fault now m db)) (cm_key m) = Some r' \<and> d_status r' = Success \<and>
     d_file_size r' = Some (cm_FileSize m) \<and> d_sha256 r' = d_sha256 r \<and> d_save_path r' = d_save_path r"
  using assms by (simp add: IngestMessage_def in_tx_def upsert_media_def upsert_message_def Let_def)

section \<open>Accounts\<close>

datatype account_call = CSaveAccount TelegramAccount | CSetActiveAccount string | CDeleteAccount string

fun account_step :: "(nat \<Rightarrow> bool) \<times> int64 \<times> account_call \<Rightarrow> database \<Rightarrow> database" where
  "account_step (io, now, CSaveAccount acc) db = snd (SaveAccount io now acc db)"
| "account_step (io, now, CSetActiveAccount ns) db = snd (SetActiveAccount io now ns db)"
| "account_step (io, now, CDeleteAccount ns) db = snd (DeleteAccount io ns db)"

text \<open>The statement that clears the active account did not fail.\<close>

definition cleared :: "(nat \<Rightarrow> bool) \<times> int64 \<times> account_call \<Rightarrow> bool" where
  "cleared = (\<lambda>(io, now, c). (\<exists>ns. c = CDeleteAccount ns) \<or> \<not> io 0)"

definition account_active :: "database \<Rightarrow> string \<Rightarrow> bool" where
  "account_active db k \<longleftrightarrow> (\<exists>r. tab_sel (telegram_accounts db) k = Some r \<and> u_is_active r)"

definition one_active :: "database \<Rightarrow> bool" where
  "one_active db \<longleftrightarrow> (\<forall>j k. account_active db j \<longrightarrow> account_active db k \<longrightarrow> j = k)"

lemma accounts_cleared: "pk (telegram_accounts db) \<Longrightarrow> \<not> account_active (clear_active db) k"
  by (auto simp: account_active_def clear_active_def)

lemma account_call_cases:
  obtains io now acc where "x = (io, now, CSaveAccount acc)" | io now ns where "x = (io, now, CSetActiveAccount ns)"
    | io now ns where "x = (io, now, CDeleteAccount ns)"
  by (metis account_call.exhaust prod_cases3)

lemma account_step_ok:
  assumes "pk (telegram_accounts db)"
  shows "pk (telegram_accounts (account_step x db))"
  using assms by (cases x rule: account_call_cases)
    (auto simp: SaveAccount_def SetActiveAccount_def DeleteAccount_def clear_active_def Let_def)

lemma account_step_one:
  assumes pk: "pk (telegram_accounts db)" and one: "one_active db" and c: "cleared x"
  shows "one_active (account_step x db)"
proof (cases x rule: account_call_cases)
  case (1 io now acc)
  with c have io: "\<not> io 0" by (simp add: cleared_def)
  have clear: "\<not> account_active (clear_active db) k" for k by (rule accounts_cleared [OF pk])
  have pk1: "pk (telegram_accounts (clear_active db))" using pk by (simp add: clear_active_def)
  show ?thesis
  proof (cases "u_is_active (ta_row acc)")
    case True
    then show ?thesis using 1 io clear pk1
      by (auto simp: SaveAccount_def Let_def one_active_def account_active_def tab_sel_upsert split: if_splits option.splits)
  next
    case False
    then show ?thesis using 1 io pk one
      by (auto simp: SaveAccount_def Let_def one_active_def account_active_def tab_sel_upsert split: if_splits option.splits)
  qed
next
  case (2 io now ns)
  with c have io: "\<not> io 0" by (simp add: cleared_def)
  have clear: "\<not> account_active (clear_active db) k" for k by (rule accounts_cleared [OF pk])
  have pk1: "pk (telegram_accounts (clear_active db))" using pk by (simp add: clear_active_def)
  show ?thesis using 2 io clear pk1
    by (auto simp: SetActiveAccount_def Let_def one_active_def account_active_def split: if_splits)
next
  case (3 io now ns)
  then show ?thesis using pk one
    by (auto simp: DeleteAccount_def one_active_def account_active_def tab_sel_del split: if_splits option.splits)
qed

lemma active_found:
  assumes "pk (telegram_accounts db)" and "one_active db" and "account_active db k"
  shows "\<exists>r. GetActiveAccount no_fault db = Inr (k, r)"
proof -
  let ?fs = "filter (\<lambda>(k, r). u_is_active r) (telegram_accounts db)"
  from assms(3) obtain r where r: "(k, r) \<in> set ?fs"
    by (auto simp: account_active_def tab_sel_def dest: map_of_SomeD)
  then obtain j s xs where fs: "?fs = (j, s) # xs" by (cases ?fs) auto
  then have "(j, s) \<in> set (telegram_accounts db)" "u_is_active s" by (auto simp: filter_eq_Cons_iff)
  with assms(1) have "account_active db j" by (auto simp: account_active_def tab_sel_def pk_def)
  with assms(2,3) have "j = k" by (simp add: one_active_def)
  with fs show ?thesis by (simp add: GetActiveAccount_def)
qed

interpretation accounts: call_system account_step "\<lambda>db. pk (telegram_accounts db) \<and> one_active db" cleared
  by unfold_locales (simp add: account_step_ok account_step_one)


section \<open>Statistics\<close>

text \<open>The records of a chat with a status, and the sum of their sizes.\<close>

definition chat_records :: "database \<Rightarrow> string \<Rightarrow> (rec_status \<Rightarrow> bool) \<Rightarrow> (msg_key \<times> download_row) list" where
  "chat_records db chat P = filter (\<lambda>(k, r). fst k = chat \<and> P (d_status r)) (download_records db)"

lemma sum_groups:
  fixes w :: "'a \<Rightarrow> 'b::comm_monoid_add"
  assumes "distinct gs"
  shows "sum_list (map (\<lambda>g. if Q g then sum_list (map w (filter (\<lambda>x. f x = g) xs)) else 0) gs) =
    sum_list (map w (filter (\<lambda>x. f x \<in> set gs \<and> Q (f x)) xs))"
  using assms
proof (induction gs)
  case (Cons g gs)
  have "sum_list (map w (filter (\<lambda>x. f x \<in> set (g # gs) \<and> Q (f x)) xs)) =
      (if Q g then sum_list (map w (filter (\<lambda>x. f x = g) xs)) else 0) + sum_list (map w (filter (\<lambda>x. f x \<in> set gs \<and> Q (f x)) xs))"
    using Cons.prems by (induction xs) (auto simp: algebra_simps)
  with Cons show ?case by simp
qed simp

definition group_files :: "database \<Rightarrow> (rec_status \<Rightarrow> bool) \<Rightarrow> (string \<times> rec_status) list \<Rightarrow> string \<Rightarrow> nat" where
  "group_files db P gs chat = sum_list (map (\<lambda>g. if fst g = chat \<and> P (snd g) then length (status_group g db) else 0) gs)"

definition success_bytes :: "database \<Rightarrow> (string \<times> rec_status) list \<Rightarrow> string \<Rightarrow> int" where
  "success_bytes db gs chat = sum_list (map (\<lambda>g. if fst g = chat \<and> snd g = Success then group_bytes (status_group g db) else 0) gs)"

definition stat_over :: "((rec_status \<Rightarrow> bool) \<Rightarrow> nat) \<Rightarrow> int \<Rightarrow> string \<Rightarrow> TargetProgressStat" where
  "stat_over n b chat = \<lparr>pg_ChatID = chat, pg_TotalFiles = n (\<lambda>_. True), pg_DownloadedFiles = n (\<lambda>s. s = Success),
     pg_PendingFiles = n (\<lambda>s. s = Pending), pg_ProcessingFiles = n (\<lambda>s. s = Downloading \<or> s = StOther ''processing''),
     pg_FailedFiles = n (\<lambda>s. s = Failed), pg_ConflictFiles = n (\<lambda>s. s = Conflict), pg_SkippedFiles = n (\<lambda>s. s = StOther ''skipped''),
     pg_DownloadedBytes = b\<rparr>"

lemma group_files_snoc: "group_files db P (gs @ [g]) chat = group_files db P gs chat + (if fst g = chat \<and> P (snd g) then length (status_group g db) else 0)"
  by (simp add: group_files_def)

lemma success_bytes_snoc:
  "success_bytes db (gs @ [g]) chat = success_bytes db gs chat + (if fst g = chat \<and> snd g = Success then group_bytes (status_group g db) else 0)"
  by (simp add: success_bytes_def)

lemma group_none: "chat \<notin> fst ` set gs \<Longrightarrow> group_files db P gs chat = 0" "chat \<notin> fst ` set gs \<Longrightarrow> success_bytes db gs chat = 0"
  by (induction gs) (auto simp: group_files_def success_bytes_def)

lemma add_group_at:
  assumes g: "fst g = chat" and old: "(case res chat of None \<Rightarrow> no_progress | Some s \<Rightarrow> s)\<lparr>pg_ChatID := chat\<rparr> = stat_over n b chat"
  shows "add_group db g res chat = Some (stat_over (\<lambda>P. n P + (if P (snd g) then length (status_group g db) else 0))
    (b + (if snd g = Success then group_bytes (status_group g db) else 0)) chat)"
proof -
  define s0 where "s0 = (case res chat of None \<Rightarrow> no_progress | Some s \<Rightarrow> s)"
  with old have "s0\<lparr>pg_ChatID := chat\<rparr> = stat_over n b chat" by simp
  then have s0: "s0 = (stat_over n b chat)\<lparr>pg_ChatID := pg_ChatID s0\<rparr>" by (cases s0) (simp add: stat_over_def)
  obtain c where c: "s0 = (stat_over n b chat)\<lparr>pg_ChatID := c\<rparr>" using s0 by blast
  show ?thesis unfolding add_group_def Let_def g s0_def [symmetric] c
    by (cases "snd g") (simp_all add: stat_over_def)
qed

lemma fold_groups:
  "fold (add_group db) gs Map.empty chat =
    (if chat \<in> fst ` set gs then Some (stat_over (\<lambda>P. group_files db P gs chat) (success_bytes db gs chat) chat) else None)"
proof (induction gs rule: rev_induct)
  case (snoc g gs)
  show ?case
  proof (cases "fst g = chat")
    case False
    then have "add_group db g res chat = res chat" for res by (simp add: add_group_def Let_def)
    with False snoc show ?thesis by (simp add: group_files_snoc success_bytes_snoc)
  next
    case True
    define res where "res = fold (add_group db) gs Map.empty"
    have "(case res chat of None \<Rightarrow> no_progress | Some s \<Rightarrow> s)\<lparr>pg_ChatID := chat\<rparr> =
        stat_over (\<lambda>P. group_files db P gs chat) (success_bytes db gs chat) chat"
      using snoc unfolding res_def [symmetric] by (simp add: group_none no_progress_def stat_over_def)
    from add_group_at [of g chat res, OF True this, of db] True show ?thesis
      by (simp add: res_def group_files_snoc success_bytes_snoc)
  qed
qed simp

lemma status_group_eq: "status_group g db = filter (\<lambda>x. (fst (fst x), d_status (snd x)) = g) (download_records db)"
  by (simp add: status_group_def split_def)

lemma set_status_groups: "set (status_groups db) = (\<lambda>x. (fst (fst x), d_status (snd x))) ` set (download_records db)"
  by (simp add: status_groups_def split_def)

lemma groups_count:
  "group_files db P (status_groups db) chat = length (chat_records db chat P)"
  "success_bytes db (status_groups db) chat = group_bytes (chat_records db chat (\<lambda>s. s = Success))"
proof -
  let ?f = "\<lambda>x :: msg_key \<times> download_row. (fst (fst x), d_status (snd x))"
  have mem: "filter (\<lambda>x. ?f x \<in> set (status_groups db) \<and> Q (?f x)) (download_records db) = filter (\<lambda>x. Q (?f x)) (download_records db)" for Q
    by (rule filter_cong) (auto simp: set_status_groups)
  have len: "length xs = sum_list (map (\<lambda>_. 1) xs)" for xs :: "'a list" by (induction xs) simp_all
  have d: "distinct (status_groups db)" by (simp add: status_groups_def)
  show "group_files db P (status_groups db) chat = length (chat_records db chat P)"
    unfolding group_files_def chat_records_def status_group_eq len [of "filter _ _"]
    using sum_groups [OF d, where Q = "\<lambda>g. fst g = chat \<and> P (snd g)" and f = ?f and w = "\<lambda>_. 1::nat" and xs = "download_records db"]
    unfolding mem [of "\<lambda>g. fst g = chat \<and> P (snd g)"] by (simp add: split_def)
  show "success_bytes db (status_groups db) chat = group_bytes (chat_records db chat (\<lambda>s. s = Success))"
    unfolding success_bytes_def chat_records_def status_group_eq group_bytes_def
    using sum_groups [OF d, where Q = "\<lambda>g. fst g = chat \<and> snd g = Success" and f = ?f and w = "\<lambda>(k, r). coalesce (d_file_size r) 0" and xs = "download_records db"]
    unfolding mem [of "\<lambda>g. fst g = chat \<and> snd g = Success"] by (simp add: split_def)
qed

lemma progress_stats_exact:
  assumes "GetTargetProgressStats io db = Inr stats"
  shows "stats chat = (if chat_records db chat (\<lambda>_. True) = [] then None
    else Some (stat_over (\<lambda>P. length (chat_records db chat P)) (group_bytes (chat_records db chat (\<lambda>s. s = Success))) chat))"
proof -
  have "chat \<in> fst ` set (status_groups db) \<longleftrightarrow> chat_records db chat (\<lambda>_. True) \<noteq> []"
    by (force simp: set_status_groups chat_records_def filter_empty_conv image_iff)
  moreover have "stats = fold (add_group db) (status_groups db) Map.empty" using assms by (auto simp: GetTargetProgressStats_def split: if_splits)
  ultimately show ?thesis by (simp add: fold_groups groups_count)
qed

section \<open>Messages around a message\<close>

lemma limit_rows_take: "\<exists>n. limit_rows l xs = take n xs"
  by (metis limit_rows_def take_all order_refl)

lemma sorted_take_cut:
  assumes "sorted_wrt R xs" and "y \<in> set (take n xs)" and "x \<in> set xs" and "x \<notin> set (take n xs)"
  shows "R y x"
proof -
  from assms(3,4) have "x \<in> set (drop n xs)" by (metis UnE append_take_drop_id set_append)
  moreover from assms(1) have "sorted_wrt R (take n xs @ drop n xs)" by simp
  ultimately show ?thesis using assms(2) unfolding sorted_wrt_append by blast
qed

lemma sort_key_strict:
  fixes f :: "'a \<Rightarrow> int"
  assumes "distinct (map f xs)"
  shows "sorted_wrt (<) (map f (sort_key f xs))"
  using assms by (simp add: strict_sorted_iff sorted_sort_key distinct_map distinct_sort)

definition message_ids :: "database \<Rightarrow> string \<Rightarrow> int set" where
  "message_ids db chat = {i. tab_sel (chat_messages db) (chat, i) \<noteq> None}"

lemma message_ids_rows: "i \<in> message_ids db chat \<longleftrightarrow> (\<exists>r. ((chat, i), r) \<in> set (chat_messages db))"
  by (force simp: message_ids_def tab_sel_def map_of_eq_None_iff)

abbreviation row_id :: "msg_key \<times> message_row \<Rightarrow> int" where
  "row_id x \<equiv> snd (fst x)"

lemma distinct_chat_ids:
  assumes "pk (chat_messages db)"
  shows "distinct (map row_id (filter (\<lambda>x. fst (fst x) = chat \<and> P x) (chat_messages db)))"
proof -
  have "inj_on row_id (set (filter (\<lambda>x. fst (fst x) = chat \<and> P x) (chat_messages db)))"
  proof (rule inj_onI, goal_cases)
    case (1 x y)
    then have "fst x = fst y" by (auto simp: prod_eq_iff)
    with 1 assms show ?case by (auto simp: pk_def distinct_map inj_on_def)
  qed
  moreover have "distinct (chat_messages db)" using assms by (auto simp: pk_def distinct_map)
  ultimately show ?thesis by (simp add: distinct_map)
qed

text \<open>What a query with an order and a limit returns.\<close>

lemma sorted_window:
  fixes f :: "'a \<Rightarrow> int"
  assumes d: "distinct (map f fs)" and xs: "xs = map f (limit_rows n (sort_key f fs))"
  shows "sorted_wrt (<) xs" and "set xs \<subseteq> f ` set fs" and "y \<in> set xs \<Longrightarrow> x \<in> f ` set fs \<Longrightarrow> x \<le> y \<Longrightarrow> x \<in> set xs"
    and "0 \<le> n \<Longrightarrow> length xs = min (nat n) (length fs)"
proof -
  have srt: "sorted_wrt (<) (map f (sort_key f fs))" by (rule sort_key_strict [OF d])
  from xs obtain m where m: "xs = take m (map f (sort_key f fs))" using limit_rows_take [of n "sort_key f fs"] by (auto simp: take_map)
  show "sorted_wrt (<) xs" unfolding m using srt by (rule sorted_wrt_take)
  show "set xs \<subseteq> f ` set fs" unfolding m using set_take_subset [of m "map f (sort_key f fs)"] by simp
  show "x \<in> set xs" if "y \<in> set xs" "x \<in> f ` set fs" "x \<le> y"
    using sorted_take_cut [OF srt, of y m x] that unfolding m by fastforce
  show "0 \<le> n \<Longrightarrow> length xs = min (nat n) (length fs)" by (simp add: xs limit_rows_def)
qed

definition chat_rows :: "database \<Rightarrow> string \<Rightarrow> (int \<Rightarrow> bool) \<Rightarrow> (msg_key \<times> message_row) list" where
  "chat_rows db chat P = filter (\<lambda>x. fst (fst x) = chat \<and> P (row_id x)) (chat_messages db)"

lemma chat_rows_ids: "row_id ` set (chat_rows db chat P) = {i \<in> message_ids db chat. P i}"
proof (rule set_eqI)
  fix i
  show "i \<in> row_id ` set (chat_rows db chat P) \<longleftrightarrow> i \<in> {i \<in> message_ids db chat. P i}"
    by (force simp: chat_rows_def message_ids_rows image_iff)
qed

lemma chat_rows_count:
  assumes "pk (chat_messages db)"
  shows "length (chat_rows db chat P) = card {i \<in> message_ids db chat. P i}"
  using distinct_card [OF distinct_chat_ids [OF assms, of chat "\<lambda>x. P (row_id x)"]] chat_rows_ids [of db chat P]
  by (simp add: chat_rows_def)

lemma before_window:
  assumes "pk (chat_messages db)" and xs: "xs = map row_id (messages_before chat mid n db)"
  shows "sorted_wrt (>) xs" and "set xs \<subseteq> {i \<in> message_ids db chat. i < mid}"
    and "y \<in> set xs \<Longrightarrow> x \<in> message_ids db chat \<Longrightarrow> x < mid \<Longrightarrow> y \<le> x \<Longrightarrow> x \<in> set xs"
    and "0 \<le> n \<Longrightarrow> length xs = min (nat n) (card {i \<in> message_ids db chat. i < mid})"
proof -
  let ?fs = "chat_rows db chat (\<lambda>i. i < mid)" and ?f = "\<lambda>x :: msg_key \<times> message_row. - row_id x"
  have "distinct (map row_id ?fs)" unfolding chat_rows_def by (rule distinct_chat_ids [OF assms(1)])
  then have d: "distinct (map ?f ?fs)" by (simp add: distinct_map inj_on_def)
  have e: "map uminus xs = map ?f (limit_rows n (sort_key ?f ?fs))"
    by (simp add: xs messages_before_def chat_rows_def split_def)
  have img: "?f ` set ?fs = uminus ` {i \<in> message_ids db chat. i < mid}"
    unfolding chat_rows_ids [symmetric] image_image ..
  note w = sorted_window [OF d e, unfolded img]
  show "sorted_wrt (>) xs" using w(1) by (simp add: sorted_wrt_map)
  show "set xs \<subseteq> {i \<in> message_ids db chat. i < mid}" using w(2) by auto
  show "x \<in> set xs" if "y \<in> set xs" "x \<in> message_ids db chat" "x < mid" "y \<le> x" using w(3) [of "- y" "- x"] that by auto
  show "0 \<le> n \<Longrightarrow> length xs = min (nat n) (card {i \<in> message_ids db chat. i < mid})"
    using w(4) chat_rows_count [OF assms(1)] by simp
qed

lemma after_window:
  assumes "pk (chat_messages db)" and xs: "xs = map row_id (messages_after chat mid n db)"
  shows "sorted_wrt (<) xs" and "set xs \<subseteq> {i \<in> message_ids db chat. mid \<le> i}"
    and "y \<in> set xs \<Longrightarrow> x \<in> message_ids db chat \<Longrightarrow> mid \<le> x \<Longrightarrow> x \<le> y \<Longrightarrow> x \<in> set xs"
    and "0 \<le> n \<Longrightarrow> length xs = min (nat n) (card {i \<in> message_ids db chat. mid \<le> i})"
proof -
  let ?fs = "chat_rows db chat (\<lambda>i. mid \<le> i)"
  have d: "distinct (map row_id ?fs)" unfolding chat_rows_def by (rule distinct_chat_ids [OF assms(1)])
  have e: "xs = map row_id (limit_rows n (sort_key row_id ?fs))"
    by (simp add: xs messages_after_def chat_rows_def split_def)
  note w = sorted_window [OF d e, unfolded chat_rows_ids]
  show "sorted_wrt (<) xs" "set xs \<subseteq> {i \<in> message_ids db chat. mid \<le> i}" by (rule w)+
  show "x \<in> set xs" if "y \<in> set xs" "x \<in> message_ids db chat" "mid \<le> x" "x \<le> y" using w(3) that by auto
  show "0 \<le> n \<Longrightarrow> length xs = min (nat n) (card {i \<in> message_ids db chat. mid \<le> i})"
    using w(4) chat_rows_count [OF assms(1)] by simp
qed

lemma messages_around_window:
  assumes pk: "pk (chat_messages db)" and ids: "ids = map cm_MessageID (GetChatMessagesAround no_fault chat mid n m db)"
    and nm: "0 \<le> n" "0 \<le> m"
  shows "sorted_wrt (<) ids \<and> set ids \<subseteq> message_ids db chat \<and>
    (\<forall>x y z. x \<in> set ids \<longrightarrow> z \<in> set ids \<longrightarrow> y \<in> message_ids db chat \<longrightarrow> x \<le> y \<longrightarrow> y \<le> z \<longrightarrow> y \<in> set ids) \<and>
    length ids = min (nat n) (card {i \<in> message_ids db chat. i < mid}) + min (nat m) (card {i \<in> message_ids db chat. mid \<le> i})"
proof -
  define xs ys where "xs = map row_id (messages_before chat mid n db)" and "ys = map row_id (messages_after chat mid m db)"
  note b = before_window [OF pk xs_def] and a = after_window [OF pk ys_def]
  have i: "ids = rev xs @ ys"
    by (simp add: ids GetChatMessagesAround_def xs_def ys_def rev_map chat_message_def comp_def split_def)
  have lt: "x < y" if "x \<in> set xs" "y \<in> set ys" for x y
    using subsetD [OF b(2) that(1)] subsetD [OF a(2) that(2)] by simp
  have "sorted_wrt (<) (rev xs)" using b(1) by (simp add: sorted_wrt_rev)
  then have srt: "sorted_wrt (<) ids" using a(1) lt by (simp add: i sorted_wrt_append)
  have gap: "y \<in> set ids" if "x \<in> set ids" "z \<in> set ids" "y \<in> message_ids db chat" "x \<le> y" "y \<le> z" for x y z
  proof (cases "y < mid")
    case True
    then have "x \<in> set xs" using that(1,4) subsetD [OF a(2), of x] by (auto simp: i)
    then show ?thesis using b(3) [of x y] that True by (simp add: i)
  next
    case False
    then have "z \<in> set ys" using that(2,5) subsetD [OF b(2), of z] by (auto simp: i)
    then show ?thesis using a(3) [of z y] that False by (simp add: i)
  qed
  have sub: "set ids \<subseteq> message_ids db chat" using b(2) a(2) by (auto simp: i)
  have "length ids = min (nat n) (card {i \<in> message_ids db chat. i < mid}) + min (nat m) (card {i \<in> message_ids db chat. mid \<le> i})"
    unfolding i length_append length_rev b(4) [OF nm(1)] a(4) [OF nm(2)] ..
  with srt sub gap show ?thesis by blast
qed

section \<open>Legacy identifiers\<close>

lemma sel_rows: "pk t \<Longrightarrow> tab_sel t k = Some r \<longleftrightarrow> (k, r) \<in> set t"
  by (simp add: tab_sel_def pk_def)

lemma bex_pair: "(\<exists>x\<in>A. P x) \<longleftrightarrow> (\<exists>k r. (k, r) \<in> A \<and> P (k, r))"
  by (metis surj_pair)

text \<open>Rows that are moved to a new key, when no statement fails.\<close>

lemma pk_move:
  assumes t: "pk t" and g: "inj_on g {k. c k}"
  shows "pk (move_rows u d c g t)"
proof -
  define K where "K = fst ` set t"
  define h where "h k = (if c k \<and> g k \<notin> K then g k else k)" for k
  have "map fst (tab_rekey c g t) = map h (map fst t)" unfolding tab_rekey_def K_def [symmetric] by (auto simp: h_def)
  moreover have "inj_on h K" using g by (auto simp: inj_on_def h_def split: if_splits)
  ultimately have "pk (tab_rekey c g t)" using t by (simp add: pk_def distinct_map K_def del: map_map)
  with t show ?thesis by (simp add: move_rows_def Let_def)
qed

lemma set_move:
  "(j, r) \<in> set (move_rows False False c g t) \<longleftrightarrow> \<not> c j \<and> ((j, r) \<in> set t \<or> (\<exists>k. c k \<and> g k = j \<and> j \<notin> fst ` set t \<and> (k, r) \<in> set t))"
proof -
  define K where "K = fst ` set t"
  have "tab_rekey c g t = map (\<lambda>x. (if c (fst x) \<and> g (fst x) \<notin> K then g (fst x) else fst x, snd x)) t"
    unfolding tab_rekey_def K_def [symmetric] by auto
  then have "(j, r) \<in> set (tab_rekey c g t) \<longleftrightarrow> (\<exists>k. (k, r) \<in> set t \<and> j = (if c k \<and> g k \<notin> K then g k else k))"
    by (simp add: image_iff bex_pair conj_commute)
  then show ?thesis unfolding K_def [symmetric] by (auto simp: move_rows_def tab_del_def)
qed

text \<open>The rows of a table that is moved under a renaming of the keys: each comes from an old row, and every old row has a successor.\<close>

definition renamed :: "('k \<Rightarrow> 'k) \<Rightarrow> ('k, 'r) table \<Rightarrow> ('k, 'r) table \<Rightarrow> bool" where
  "renamed f t t' \<longleftrightarrow> pk t' \<and> (\<forall>k\<in>fst ` set t. f k \<in> fst ` set t') \<and> (\<forall>x\<in>set t'. \<exists>k. (k, snd x) \<in> set t \<and> f k = fst x)"

lemma renamed_move:
  assumes "pk t" and "inj_on g {k. c k}" and "\<And>k. c k \<Longrightarrow> \<not> c (g k)"
  shows "renamed (\<lambda>k. if c k then g k else k) t (move_rows False False c g t)"
proof -
  let ?t = "move_rows False False c g t"
  have fw: "(if c k then g k else k) \<in> fst ` set ?t" if "(k, r) \<in> set t" for k r
  proof (cases "c k")
    case True
    then have nc: "\<not> c (g k)" by (rule assms(3))
    have "\<exists>r'. (g k, r') \<in> set ?t"
    proof (cases "g k \<in> fst ` set t")
      case True
      then show ?thesis using nc by (auto simp: set_move)
    next
      case False
      then have "(g k, r) \<in> set ?t" using nc True that by (auto simp: set_move)
      then show ?thesis ..
    qed
    with True show ?thesis by force
  next
    case False
    with that have "(k, r) \<in> set ?t" by (simp add: set_move)
    with False show ?thesis by force
  qed
  have bw: "\<exists>k. (k, snd x) \<in> set t \<and> (if c k then g k else k) = fst x" if "x \<in> set ?t" for x
  proof -
    obtain j r where x: "x = (j, r)" by fastforce
    with that show ?thesis unfolding x set_move by auto
  qed
  have "\<forall>k\<in>fst ` set t. (if c k then g k else k) \<in> fst ` set ?t"
  proof
    fix k assume "k \<in> fst ` set t"
    then obtain r where "(k, r) \<in> set t" by fastforce
    then show "(if c k then g k else k) \<in> fst ` set ?t" by (rule fw)
  qed
  with bw pk_move [OF assms(1,2)] show ?thesis unfolding renamed_def by blast
qed

lemma renamed_trans:
  assumes "renamed f t u" and "renamed g u v"
  shows "renamed (\<lambda>k. g (f k)) t v"
proof -
  have "\<exists>k. (k, snd x) \<in> set t \<and> g (f k) = fst x" if "x \<in> set v" for x
  proof -
    from assms(2) that obtain j where j: "(j, snd x) \<in> set u" "g j = fst x" by (auto simp: renamed_def)
    with assms(1) obtain k where "(k, snd x) \<in> set t" "f k = j" by (force simp: renamed_def)
    with j show ?thesis by auto
  qed
  moreover have "g (f k) \<in> fst ` set v" if "k \<in> fst ` set t" for k
    using assms that unfolding renamed_def by blast
  ultimately show ?thesis using assms(2) by (auto simp: renamed_def)
qed

lemma renamed_refl: "pk t \<Longrightarrow> renamed (\<lambda>k. k) t t"
  by (force simp: renamed_def)

definition msg_rename :: "(string \<times> legacy_info) \<Rightarrow> msg_key \<Rightarrow> msg_key" where
  "msg_rename e k = (if fst k = fst e then (li_NumericID (snd e), snd k) else k)"

definition chat_rename :: "(string \<times> legacy_info) \<Rightarrow> string \<Rightarrow> string" where
  "chat_rename e k = (if k = fst e then li_NumericID (snd e) else k)"

lemma migrate_one_tables:
  assumes db: "db_ok db" and e: "fst e \<noteq> li_NumericID (snd e)"
  shows "renamed (msg_rename e) (download_records db) (download_records (migrate_one no_fault now e db))"
    and "renamed (msg_rename e) (chat_messages db) (chat_messages (migrate_one no_fault now e db))"
    and "renamed (chat_rename e) (chat_scan_cursors db) (chat_scan_cursors (migrate_one no_fault now e db))"
    and "tab_sel (listen_targets (migrate_one no_fault now e db)) k =
      (case tab_sel (listen_targets db) (fst e) of None \<Rightarrow> tab_sel (listen_targets db) k
       | Some old \<Rightarrow> if k = fst e then None
           else if k = li_NumericID (snd e) then tab_sel (listen_targets (migrate_one no_fault now e db)) k else tab_sel (listen_targets db) k)"
    and "tab_sel (listen_targets db) (fst e) = Some old \<Longrightarrow>
      \<exists>t. tab_sel (listen_targets (migrate_one no_fault now e db)) (li_NumericID (snd e)) = Some t \<and> t_enabled t = t_enabled old"
    and "db_ok (migrate_one no_fault now e db)"
proof -
  have tables: "download_records (migrate_target no_fault now o' i db) = download_records db"
    "chat_messages (migrate_target no_fault now o' i db) = chat_messages db"
    "chat_scan_cursors (migrate_target no_fault now o' i db) = chat_scan_cursors db"
    "archive_jobs (migrate_target no_fault now o' i db) = archive_jobs db"
    "telegram_accounts (migrate_target no_fault now o' i db) = telegram_accounts db" for o' i
    by (simp_all add: migrate_target_def Let_def split: option.splits)
  have mr: "msg_rename e = (\<lambda>k. if fst k = fst e then (li_NumericID (snd e), snd k) else k)" by (rule ext) (simp add: msg_rename_def)
  have inj: "inj_on (\<lambda>k. (li_NumericID (snd e), snd k)) {k :: msg_key. fst k = fst e}" by (auto simp: inj_on_def prod_eq_iff)
  show r: "renamed (msg_rename e) (download_records db) (download_records (migrate_one no_fault now e db))"
    "renamed (msg_rename e) (chat_messages db) (chat_messages (migrate_one no_fault now e db))"
    unfolding mr using db e by (auto simp: migrate_one_def Let_def tables intro!: renamed_move inj)
  have cr: "chat_rename e = (\<lambda>k. if k = fst e then li_NumericID (snd e) else k)" by (rule ext) (simp add: chat_rename_def)
  show c: "renamed (chat_rename e) (chat_scan_cursors db) (chat_scan_cursors (migrate_one no_fault now e db))"
    unfolding cr using db e by (auto simp: migrate_one_def Let_def tables intro!: renamed_move)
  have lt: "listen_targets (migrate_one no_fault now e db) = listen_targets (migrate_target no_fault now (fst e) (snd e) db)"
    by (simp add: migrate_one_def Let_def)
  show "tab_sel (listen_targets (migrate_one no_fault now e db)) k =
      (case tab_sel (listen_targets db) (fst e) of None \<Rightarrow> tab_sel (listen_targets db) k
       | Some old \<Rightarrow> if k = fst e then None
           else if k = li_NumericID (snd e) then tab_sel (listen_targets (migrate_one no_fault now e db)) k else tab_sel (listen_targets db) k)"
    unfolding lt using db e by (auto simp: migrate_target_def Let_def tab_sel_del tab_sel_upsert split: option.splits)
  show "\<exists>t. tab_sel (listen_targets (migrate_one no_fault now e db)) (li_NumericID (snd e)) = Some t \<and> t_enabled t = t_enabled old"
    if "tab_sel (listen_targets db) (fst e) = Some old"
    unfolding lt using db e that by (auto simp: migrate_target_def Let_def tab_sel_del tab_sel_upsert new_target_def split: option.splits)
  have "pk (listen_targets (migrate_one no_fault now e db))" unfolding lt using db
    by (auto simp: migrate_target_def Let_def split: option.splits)
  then show "db_ok (migrate_one no_fault now e db)" using db r c
    by (intro db_okI) (simp_all add: renamed_def, simp_all add: migrate_one_def Let_def tables)
qed


definition legacy_new :: "(string \<times> legacy_info) list \<Rightarrow> string \<Rightarrow> string" where
  "legacy_new es chat = (case map_of es chat of None \<Rightarrow> chat | Some i \<Rightarrow> li_NumericID i)"

definition legacy_list :: "(string \<times> legacy_info) list \<Rightarrow> bool" where
  "legacy_list es \<longleftrightarrow> distinct (map fst es) \<and> distinct (map (li_NumericID \<circ> snd) es) \<and> (\<forall>e\<in>set es. li_NumericID (snd e) \<notin> fst ` set es)"

lemma legacy_list_Cons:
  assumes "legacy_list (e # es)"
  shows "legacy_list es" "fst e \<notin> fst ` set es" "li_NumericID (snd e) \<notin> fst ` set es" "fst e \<noteq> li_NumericID (snd e)"
    "fst e \<notin> (li_NumericID \<circ> snd) ` set es" "li_NumericID (snd e) \<notin> (li_NumericID \<circ> snd) ` set es"
  using assms by (auto simp: legacy_list_def)

lemma legacy_new_Cons: "legacy_new (e # es) c = (if c = fst e then li_NumericID (snd e) else legacy_new es c)"
  by (cases e) (simp add: legacy_new_def)

lemma legacy_new_other: "c \<notin> fst ` set es \<Longrightarrow> legacy_new es c = c"
  by (simp add: legacy_new_def map_of_eq_None_iff [THEN iffD2])

lemma legacy_new_fresh:
  assumes "legacy_list es"
  shows "legacy_new es c \<notin> fst ` set es"
proof (cases "map_of es c")
  case None
  then have "c \<notin> fst ` set es" by (simp add: map_of_eq_None_iff)
  then show ?thesis by (simp add: legacy_new_other)
next
  case (Some i)
  then have "(c, i) \<in> set es" by (rule map_of_SomeD)
  with assms have "li_NumericID i \<notin> fst ` set es" unfolding legacy_list_def by force
  with Some show ?thesis by (simp add: legacy_new_def)
qed

lemma rename_all:
  assumes "legacy_list es"
  shows "fold msg_rename es k = (legacy_new es (fst k), snd k)" and "fold chat_rename es c = legacy_new es c"
proof -
  show "fold msg_rename es k = (legacy_new es (fst k), snd k)" using assms
  proof (induction es arbitrary: k)
    case (Cons e es)
    note c = legacy_list_Cons [OF Cons.prems]
    have "fold msg_rename (e # es) k = (legacy_new es (fst (msg_rename e k)), snd (msg_rename e k))" by (simp add: Cons.IH [OF c(1)])
    then show ?case using legacy_new_other [OF c(3)] by (simp add: legacy_new_Cons msg_rename_def [of e k])
  qed (simp add: legacy_new_def)
  show "fold chat_rename es c = legacy_new es c" using assms
  proof (induction es arbitrary: c)
    case (Cons e es)
    note c = legacy_list_Cons [OF Cons.prems]
    have "fold chat_rename (e # es) c = legacy_new es (chat_rename e c)" by (simp add: Cons.IH [OF c(1)])
    then show ?case using legacy_new_other [OF c(3)] by (simp add: legacy_new_Cons chat_rename_def [of e c])
  qed (simp add: legacy_new_def)
qed

lemma no_fault_shift: "(\<lambda>n. no_fault (n + m)) = no_fault"
  by (rule ext) simp

lemma migrate_each_tables:
  assumes "legacy_list es" and "db_ok db"
  shows "renamed (fold msg_rename es) (download_records db) (download_records (migrate_each no_fault now es db)) \<and>
    renamed (fold msg_rename es) (chat_messages db) (chat_messages (migrate_each no_fault now es db)) \<and>
    renamed (fold chat_rename es) (chat_scan_cursors db) (chat_scan_cursors (migrate_each no_fault now es db)) \<and>
    db_ok (migrate_each no_fault now es db)"
  using assms
proof (induction es arbitrary: db)
  case Nil
  then show ?case by (simp add: renamed_refl id_def)
next
  case (Cons e es)
  note c = legacy_list_Cons [OF Cons.prems(1)]
  note one = migrate_one_tables [OF Cons.prems(2) c(4), where now = now]
  note rest = Cons.IH [OF c(1) one(6)]
  have f: "fold msg_rename (e # es) = (\<lambda>k. fold msg_rename es (msg_rename e k))" "fold chat_rename (e # es) = (\<lambda>k. fold chat_rename es (chat_rename e k))"
    by (simp_all add: comp_def)
  show ?case unfolding migrate_each.simps no_fault_shift f
    using rest renamed_trans [OF one(1)] renamed_trans [OF one(2)] renamed_trans [OF one(3)] by blast
qed

lemma migrate_each_keeps_target:
  assumes "legacy_list es" and "db_ok db" and "k \<notin> fst ` set es" and "k \<notin> (li_NumericID \<circ> snd) ` set es"
  shows "tab_sel (listen_targets (migrate_each no_fault now es db)) k = tab_sel (listen_targets db) k"
  using assms
proof (induction es arbitrary: db)
  case (Cons e es)
  note c = legacy_list_Cons [OF Cons.prems(1)]
  note one = migrate_one_tables [OF Cons.prems(2) c(4), where now = now]
  have first: "tab_sel (listen_targets (migrate_one no_fault now e db)) k = tab_sel (listen_targets db) k"
    using one(4) [of k] Cons.prems(3,4) by (simp split: option.splits)
  have k: "k \<notin> fst ` set es" "k \<notin> (li_NumericID \<circ> snd) ` set es" using Cons.prems(3,4) by auto
  from Cons.IH [OF c(1) one(6) k] show ?case unfolding migrate_each.simps no_fault_shift first .
qed simp

lemma migrate_each_targets:
  assumes "legacy_list es" and "db_ok db" and "e \<in> set es"
  shows "tab_sel (listen_targets (migrate_each no_fault now es db)) (fst e) = None"
    and "tab_sel (listen_targets db) (fst e) = Some t \<Longrightarrow>
      \<exists>t'. tab_sel (listen_targets (migrate_each no_fault now es db)) (li_NumericID (snd e)) = Some t' \<and> t_enabled t' = t_enabled t"
proof -
  show "tab_sel (listen_targets (migrate_each no_fault now es db)) (fst e) = None"
    using assms
  proof (induction es arbitrary: db)
    case (Cons f es)
    note c = legacy_list_Cons [OF Cons.prems(1)]
    note one = migrate_one_tables [OF Cons.prems(2) c(4), where now = now]
    show ?case
    proof (cases "e = f")
      case True
      have "tab_sel (listen_targets (migrate_one no_fault now f db)) (fst f) = None"
        using one(4) [of "fst f"] by (simp split: option.splits)
      then show ?thesis unfolding migrate_each.simps no_fault_shift True migrate_each_keeps_target [OF c(1) one(6) c(2,5)] .
    next
      case False
      with Cons.prems(3) have "e \<in> set es" by simp
      from Cons.IH [OF c(1) one(6) this] show ?thesis unfolding migrate_each.simps no_fault_shift .
    qed
  qed simp
  show "\<exists>t'. tab_sel (listen_targets (migrate_each no_fault now es db)) (li_NumericID (snd e)) = Some t' \<and> t_enabled t' = t_enabled t"
    if "tab_sel (listen_targets db) (fst e) = Some t"
    using assms that
  proof (induction es arbitrary: db)
    case (Cons f es)
    note c = legacy_list_Cons [OF Cons.prems(1)]
    note one = migrate_one_tables [OF Cons.prems(2) c(4), where now = now]
    show ?case
    proof (cases "e = f")
      case True
      with Cons.prems(4) have "tab_sel (listen_targets db) (fst f) = Some t" by simp
      from one(5) [OF this] True show ?thesis
        unfolding migrate_each.simps no_fault_shift True migrate_each_keeps_target [OF c(1) one(6) c(3,6)] by blast
    next
      case False
      then have e: "e \<in> set es" using Cons.prems(3) by simp
      have "fst e \<noteq> fst f" "fst e \<noteq> li_NumericID (snd f)" using c(2,3) imageI [OF e, of fst] by metis+
      then have "tab_sel (listen_targets (migrate_one no_fault now f db)) (fst e) = Some t"
        using one(4) [of "fst e"] Cons.prems(4) by (simp split: option.splits)
      from Cons.IH [OF c(1) one(6) e this] show ?thesis unfolding migrate_each.simps no_fault_shift .
    qed
  qed simp
qed

lemma legacy_map_ok:
  assumes "distinct es" and "set es = set legacyMap"
  shows "legacy_list es" and "map_of es = map_of legacyMap" and "\<forall>e\<in>set es. hd (li_NumericID (snd e)) \<noteq> CHR ''@''"
proof -
  have l: "legacy_list legacyMap" by (simp add: legacy_list_def legacyMap_def)
  have inj: "inj_on fst (set es)" "inj_on (li_NumericID \<circ> snd) (set es)" using l assms(2) by (auto simp: legacy_list_def distinct_map)
  with l assms show es: "legacy_list es" by (simp add: legacy_list_def distinct_map)
  with l assms(2) show "map_of es = map_of legacyMap" by (simp add: map_of_inject_set legacy_list_def)
  show "\<forall>e\<in>set es. hd (li_NumericID (snd e)) \<noteq> CHR ''@''" unfolding assms(2) by (simp add: legacyMap_def)
qed

lemma sel_none_rows: "pk t \<Longrightarrow> tab_sel t k \<noteq> None \<longleftrightarrow> k \<in> fst ` set t"
  by (simp add: tab_sel_def map_of_eq_None_iff)

lemma renamed_sel:
  assumes f: "renamed f t t'" and t: "pk t"
  shows "tab_sel t k \<noteq> None \<Longrightarrow> tab_sel t' (f k) \<noteq> None" and "tab_sel t' j = Some r \<Longrightarrow> \<exists>k. tab_sel t k = Some r \<and> f k = j"
    and "(\<And>k. f k \<noteq> j) \<Longrightarrow> tab_sel t' j = None"
proof -
  from f have t': "pk t'" by (simp add: renamed_def)
  show "tab_sel t' (f k) \<noteq> None" if "tab_sel t k \<noteq> None"
    using that f unfolding sel_none_rows [OF t] sel_none_rows [OF t'] renamed_def by blast
  show origin: "\<exists>k. tab_sel t k = Some r \<and> f k = j" if "tab_sel t' j = Some r" for r
  proof -
    from that have "(j, r) \<in> set t'" by (simp add: sel_rows [OF t'])
    with f have "\<exists>k. (k, snd (j, r)) \<in> set t \<and> f k = fst (j, r)" unfolding renamed_def by blast
    then show ?thesis by (simp add: sel_rows [OF t])
  qed
  show "tab_sel t' j = None" if "\<And>k. f k \<noteq> j"
    using origin that by (cases "tab_sel t' j") auto
qed


section \<open>Discovered dialogs\<close>

text \<open>The columns of a target that decide about its downloads.\<close>

definition target_settings :: "target_row \<Rightarrow> bool \<times> string \<times> string \<times> int \<times> nat" where
  "target_settings t = (t_enabled t, t_download_filter t, t_upload_telegram_chat_id t, t_priority t, t_revision t)"

definition settings_kept :: "database \<Rightarrow> database \<Rightarrow> bool" where
  "settings_kept db db' \<longleftrightarrow> pk (listen_targets db') \<and> download_records db' = download_records db \<and> chat_messages db' = chat_messages db \<and>
     (\<forall>k. case tab_sel (listen_targets db) k of
        None \<Rightarrow> (\<forall>t. tab_sel (listen_targets db') k = Some t \<longrightarrow> \<not> t_enabled t)
      | Some t \<Rightarrow> (\<exists>t'. tab_sel (listen_targets db') k = Some t' \<and> target_settings t' = target_settings t))"

lemma settings_kept_trans:
  assumes "settings_kept a b" and "settings_kept b c"
  shows "settings_kept a c"
  unfolding settings_kept_def
proof (intro conjI allI)
  fix k
  from assms(1) have a: "case tab_sel (listen_targets a) k of None \<Rightarrow> (\<forall>t. tab_sel (listen_targets b) k = Some t \<longrightarrow> \<not> t_enabled t)
      | Some t \<Rightarrow> (\<exists>t'. tab_sel (listen_targets b) k = Some t' \<and> target_settings t' = target_settings t)" by (simp add: settings_kept_def)
  from assms(2) have b: "case tab_sel (listen_targets b) k of None \<Rightarrow> (\<forall>t. tab_sel (listen_targets c) k = Some t \<longrightarrow> \<not> t_enabled t)
      | Some t \<Rightarrow> (\<exists>t'. tab_sel (listen_targets c) k = Some t' \<and> target_settings t' = target_settings t)" by (simp add: settings_kept_def)
  from a b show "case tab_sel (listen_targets a) k of None \<Rightarrow> (\<forall>t. tab_sel (listen_targets c) k = Some t \<longrightarrow> \<not> t_enabled t)
      | Some t \<Rightarrow> (\<exists>t'. tab_sel (listen_targets c) k = Some t' \<and> target_settings t' = target_settings t)"
    by (auto simp: target_settings_def split: option.splits)
qed (use assms in \<open>simp_all add: settings_kept_def\<close>)

lemma save_dialogs_kept:
  assumes "save_dialogs io ds now db = Inr db'" and "pk (listen_targets db)"
  shows "settings_kept db db'"
  using assms
proof (induction ds arbitrary: io db)
  case Nil
  then show ?case by (simp add: settings_kept_def split: option.splits)
next
  case (Cons i ds)
  let ?tx = "db\<lparr>listen_targets := tab_upsert (lt_ChatID i) (new_target False i now) (named_as i now) (listen_targets db)\<rparr>"
  have "settings_kept db ?tx" using Cons.prems(2)
    by (auto simp: settings_kept_def tab_sel_upsert new_target_def named_as_def target_settings_def split: option.splits)
  moreover have "save_dialogs (\<lambda>n. io (n + 1)) ds now ?tx = Inr db'" using Cons.prems(1) by (simp split: if_splits)
  then have "settings_kept ?tx db'" by (rule Cons.IH) (simp add: Cons.prems(2))
  ultimately show ?case by (rule settings_kept_trans)
qed

text \<open>Sorting by a key that a function keeps.\<close>

lemma sort_key_map: "(\<And>x. f (h x) = g x) \<Longrightarrow> sort_key f (map h xs) = map h (sort_key g xs)"
proof -
  assume h: "\<And>x. f (h x) = g x"
  have ins: "insort_key f (h x) (map h ys) = map h (insort_key g x ys)" for x ys by (induction ys) (simp_all add: h)
  show ?thesis by (induction xs) (simp_all add: ins)
qed

definition titled :: "database \<Rightarrow> pending_item \<Rightarrow> pending_item" where
  "titled db i = i\<lparr>p_title := (case tab_sel (listen_targets db) (fst (p_key i)) of None \<Rightarrow> [] | Some t \<Rightarrow> t_title t)\<rparr>"

lemma titled_fields [simp]: "p_key (titled db i) = p_key i" "p_row (titled db i) = p_row i" "p_priority (titled db i) = p_priority i"
  by (simp_all add: titled_def)

lemma join_row_kept:
  assumes "settings_kept db db'"
  shows "join_row db' x = map (titled db') (join_row db x)"
proof -
  obtain k r where x: "x = (k, r)" by fastforce
  from assms have "case tab_sel (listen_targets db) (fst k) of None \<Rightarrow> (\<forall>t. tab_sel (listen_targets db') (fst k) = Some t \<longrightarrow> \<not> t_enabled t)
      | Some t \<Rightarrow> (\<exists>t'. tab_sel (listen_targets db') (fst k) = Some t' \<and> target_settings t' = target_settings t)"
    and "chat_messages db' = chat_messages db" by (simp_all add: settings_kept_def)
  then show ?thesis by (auto simp: x join_row_def titled_def target_settings_def split: option.splits)
qed

lemma pending_kept:
  assumes "settings_kept db db'"
  shows "GetPendingDownloads io now limit db' = map_sum id (map (titled db')) (GetPendingDownloads io now limit db)"
proof -
  have j: "pending_join db' = map (titled db') (pending_join db)"
  proof -
    have "download_records db' = download_records db" using assms by (simp add: settings_kept_def)
    moreover have "join_row db' = (\<lambda>x. map (titled db') (join_row db x))" by (rule ext) (rule join_row_kept [OF assms])
    ultimately show ?thesis by (simp add: pending_join_def map_concat comp_def)
  qed
  have l: "limit_rows n (map f xs) = map f (limit_rows n xs)" for n and f :: "pending_item \<Rightarrow> pending_item" and xs
    by (simp add: limit_rows_def take_map)
  show ?thesis
    by (simp add: GetPendingDownloads_def j filter_map comp_def l sort_key_map [where g = "\<lambda>i. snd (p_key i)"] sort_key_map [where g = "\<lambda>i. - p_priority i"])
qed

lemma discovery_keeps_queue:
  assumes "db_ok db" and "SaveDiscoveredDialogs io now dialogs db = (e, db')"
  shows "(e \<noteq> None \<longrightarrow> db' = db) \<and> settings_kept db db' \<and>
    GetPendingDownloads no_fault t n db' = map_sum id (map (titled db')) (GetPendingDownloads no_fault t n db)"
proof -
  have "settings_kept db db' \<and> (e \<noteq> None \<longrightarrow> db' = db)"
    using assms(2) unfolding SaveDiscoveredDialogs_def
  proof (cases rule: in_tx_cases)
    case 1
    then show ?thesis using assms(1) by (auto simp: settings_kept_def split: option.splits)
  next
    case 2
    then show ?thesis using save_dialogs_kept assms(1) by auto
  qed
  with pending_kept show ?thesis by blast
qed

section \<open>Pages\<close>

definition downloaded_list :: "string \<Rightarrow> database \<Rightarrow> (msg_key \<times> download_row) list" where
  "downloaded_list q db = sort_key (\<lambda>(k, r). if d_downloaded_at r = None then 1 else 0 :: int)
     (sort_key (\<lambda>(k, r). - coalesce (d_downloaded_at r) 0) (sort_key (\<lambda>(k, r). - d_updated_at r) (filter (searched q) (download_records db))))"

definition page_rows :: "db_error + 'a list \<times> nat \<Rightarrow> 'a list" where
  "page_rows res = (case res of Inl e \<Rightarrow> [] | Inr (rows, _) \<Rightarrow> rows)"

lemma pages_cover:
  "concat (map (\<lambda>i. page_rows (GetDownloadedRecords no_fault q (int n) (int (i * n)) db)) [0..<k]) = take (k * n) (downloaded_list q db)"
proof (induction k)
  case (Suc k)
  have "page_rows (GetDownloadedRecords no_fault q (int n) (int (k * n)) db) = take n (drop (k * n) (downloaded_list q db))"
    by (simp add: GetDownloadedRecords_def page_rows_def downloaded_list_def limit_rows_def Let_def del: of_nat_mult)
  then show ?case using Suc take_add [of "k * n" n "downloaded_list q db"] by (simp add: add.commute del: no_fault)
qed simp

section \<open>Instances\<close>

definition ex_message :: ChatMessage where
  "ex_message = \<lparr>cm_ChatID = ''c'', cm_MessageID = 1, cm_SenderID = [], cm_SenderName = [], cm_Text = ''t'', cm_MediaType = ''photo'',
     cm_HasMedia = True, cm_ReplyToMessageID = 0, cm_Date = 3, cm_FileName = ''a.jpg'', cm_FileSize = 9\<rparr>"

definition ex_ingest_db :: database where
  "ex_ingest_db = initSchema\<lparr>download_records := [((''c'', 1), new_download Success 1)]\<rparr>"

theorem ingest_keeps_progress_witness:
  "\<exists>r'. drow (snd (IngestMessage no_fault 5 ex_message ex_ingest_db)) (''c'', 1) = Some r' \<and> progress_of r' = progress_of (new_download Success 1)"
proof -
  have db: "db_ok ex_ingest_db" by (rule db_okI) (simp_all add: ex_ingest_db_def initSchema_def pk_def)
  have r: "drow ex_ingest_db (''c'', 1) = Some (new_download Success 1)" by (simp add: ex_ingest_db_def tab_sel_def)
  obtain e db' where m: "IngestMessage no_fault 5 ex_message ex_ingest_db = (e, db')" by fastforce
  from ingest_keeps_progress [OF db m] r show ?thesis by (simp add: m)
qed

definition ex_account :: "string \<Rightarrow> TelegramAccount" where
  "ex_account ns = \<lparr>ta_Namespace = ns, ta_row = \<lparr>u_user_id = 1, u_first_name = [], u_last_name = [], u_username = [], u_phone = [],
     u_is_premium = False, u_is_active = True, u_created_at = 0, u_updated_at = 0\<rparr>\<rparr>"


definition ex_legacy_ids :: database where
  "ex_legacy_ids = initSchema\<lparr>download_records := [((''@Spjqr1_bot'', 3), new_download Success 1)]\<rparr>"


end
