(* ===== verification/Spec2Isabelle.thy ===== *)
theory Spec2Isabelle
  imports Orchestrator_Completion Spool_Safety Chat_Safety
begin

text \<open>
  TGX is a daemon that downloads media from Telegram chats to an SSD and copies them to an archive. This development models its
  core and proves what makes it correct: no file is overwritten or lost, a record is successful only with a verified file, every
  attempt gives back what it holds, and the recovery after a crash ends in an intended state.

  \<^bold>\<open>The parts and how they interact.\<close> Messages are ingested into the database (\<open>app/daemon/db.go\<close>) as pending download records. The
  orchestrator (\<open>orchestrator.go\<close>) submits due records to the task registry (\<open>registry.go\<close>), takes tasks from it and runs an
  attempt for each: it resolves the media, plans a path, reserves space (\<open>internal/fscommit/admission.go\<close>), transfers the
  bytes through the gate for data requests (\<open>core/transfer\<close>) into a part file, verifies it, commits it without replacing
  anything (\<open>internal/fscommit/rename.go\<close>) and completes the record together with a job for the archive worker (\<open>archive.go\<close>).
  After a crash \<open>recovery.go\<close> decides about records that were committing. \<open>migration/spool_migrator.go\<close> is a one-time
  migration from an older layout.

  \<^bold>\<open>Theories and sources.\<close>
  \<^item> \<open>Prelude\<close>, \<open>Go_Strings\<close>, \<open>Go_Path\<close>: 64-bit integers with wrap-around, sequences of calls (the locales \<open>call_system\<close> and
    \<open>evolving_system\<close>), and the functions of Go's \<open>strings\<close>, \<open>strconv\<close> and \<open>path/filepath\<close> that the sources call.
  \<^item> \<open>Sql_Table\<close>, \<open>Db_Schema\<close>: tables with a primary key (the locale \<open>keyed_table\<close>) and the schema of \<open>db.go\<close>. Every database operation
    takes the failures of its statements as an argument.
  \<^item> \<open>Archive_Jobs\<close>, \<open>Download_Records\<close>, \<open>Chat_Tables\<close>: the operations of \<open>db.go\<close>, one definition each. \<open>Download_Lifecycle\<close> and
    \<open>Chat_Safety\<close> prove their properties: success is final, completion is atomic, a claim on a job is exclusive, the queue of due
    downloads is exact, the retry delay, ingestion keeps the progress of a download, at most one account is active, and legacy
    identifiers are moved without loss.
  \<^item> \<open>Byte_Ranges\<close>: the interval lists of \<open>registry.go\<close> and \<open>core/transfer/writer.go\<close>, which are equivalent and denote sets of bytes (the locale
    \<open>byte_coverage\<close>).
  \<^item> \<open>Task_Registry\<close>: \<open>registry.go\<close> with task cells in an explicit heap. \<open>Registry_Safety\<close>, \<open>Registry_Totals\<close> and \<open>Registry_Service\<close>: verdicts are
    final, reachable registries are well formed, totals are conserved, the queue is served in order, recorded writes refine a set of bytes.
  \<^item> \<open>Ssd_Admission\<close>, \<open>Storage_Meter\<close>, \<open>File_Commit\<close>: reservations, the I/O meter, and the commit with its system calls as a parameter.
    Reservations fit, and a commit never overwrites a file.
  \<^item> \<open>Data_Gate\<close>, \<open>File_Transfer\<close>: the gate as steps that interleave with other callers, budgets, and the classification of a
    transfer. The limit and flood waits are respected, and a transfer succeeds exactly when the file is covered.
  \<^item> \<open>Path_Planner\<close>: \<open>PathPlanner.Plan\<close>; the planned path stays inside the download directory.
  \<^item> \<open>Commit_Recovery\<close> and \<open>Recovery_Safety\<close>: \<open>recovery.go\<close>, with the decision about a committing record and the startup.
  \<^item> \<open>Archive_Worker\<close> and \<open>Archive_Safety\<close>: \<open>archive.go\<close>; the worker stays inside its directories and never loses a source.
  \<^item> \<open>Orchestrator\<close>, \<open>Orchestrator_Safety\<close>, \<open>Orchestrator_Completion\<close>: the whole attempt with every early return, between steps of the
    rest of the program. The locales \<open>attempt_steps\<close> and \<open>whole_attempt\<close> carry a relation through an attempt. Shown: it
    completes when nothing fails, changes no other file, releases what it holds, and records success only with a verified file.
  \<^item> \<open>Crash_Programs\<close>, \<open>Spool_Migration\<close>, \<open>Spool_Moves\<close>, \<open>Spool_Recovery\<close>, \<open>Spool_Staging\<close>, \<open>Spool_Run\<close>, \<open>Spool_Safety\<close>: the migration as
    a program of system calls, each of which may fail or be the last one before the process is killed, with a calculus of
    assertions. Shown: no file is lost, and a recovery that returns is all or nothing.

  \<^bold>\<open>State, errors and concurrency.\<close> A struct is a record, an operation a function on it, an error a value. Faults are arguments: which
  statements and system calls fail, and what other parts of the program do between two steps. Properties quantify over them. Code
  outside the repository (the client library, the kernel, the digest, the JSON encoding, the semaphore, the sanitizer of file
  names) is a parameter, with its documented behaviour as a hypothesis where a property needs it.

  \<^bold>\<open>Bounds.\<close> Loops over lists are structural recursions, and the loops of goroutines are sequences of rounds, so no property
  depends on fuel. The copy loop of \<open>File_Commit\<close> has more fuel than the source has bytes, which is enough because every round that goes on
  copies at least one byte. Sizes and times are integers within 64 bits where overflow matters.

  \<^bold>\<open>Not modelled.\<close> HTTP handlers and pages (\<open>web_server.go\<close>, \<open>server.go\<close>), the proxy manager with its child processes, the calls of the
  Telegram client (\<open>telegram.go\<close>, \<open>chat_service.go\<close>, \<open>auth_wizard.go\<close>, \<open>updates_stream.go\<close>, \<open>core/dcpool\<close> and other adapters), the interactive
  commands (\<open>app/dl\<close>, \<open>app/login\<close>, \<open>cmd\<close>), the wiring at startup (\<open>run.go\<close>), and the small packages under \<open>pkg\<close>: they are I/O
  or thin wrappers of third-party packages. Of the modelled parts, log output, rates and percentages in floating point, test hooks,
  and the other operating systems are left out. In the migration a crash is the death of the process; data that was
  written but not synced is not lost.
\<close>

end
